(* ===== verification/Teale_Prelude.thy ===== *)
theory Teale_Prelude
  imports Main "HOL-Library.Signed_Division" "HOL-Library.Char_ord"
    "HOL-Library.List_Lexorder" "HOL-Library.Product_Lexorder"
begin

text \<open>
  What every component of the gateway model shares: results with errors as values, the
  \<open>i64\<close> range, text as the Rust and SQL code handle it, SQL statements on tables kept as lists
  of rows in rowid order, and the locale of wallet tables (rows that carry a key and an amount
  of credits), whose laws the components' conservation proofs rest on.
\<close>

section \<open>Collections of the development\<close>

named_theorems stmt_defs \<open>definitions of the single SQL statements\<close>
named_theorems obs_defs \<open>definitions of the observers of the database\<close>

section \<open>Results\<close>

text \<open>A fallible call is a value of \<open>'e + 'a\<close>: \<open>Inl\<close> is Rust's \<open>Err\<close>, \<open>Inr\<close> its \<open>Ok\<close>;
  \<open>rbind\<close> is the \<open>?\<close> operator.\<close>

definition rbind :: "'e + 'a \<Rightarrow> ('a \<Rightarrow> 'e + 'b) \<Rightarrow> 'e + 'b" where
  "rbind m f = (case m of Inl e \<Rightarrow> Inl e | Inr x \<Rightarrow> f x)"

definition ensure :: "bool \<Rightarrow> 'e \<Rightarrow> 'e + unit" where
  "ensure b e = (if b then Inr () else Inl e)"

definition ok_or :: "'e \<Rightarrow> 'a option \<Rightarrow> 'e + 'a" where
  "ok_or e x = (case x of None \<Rightarrow> Inl e | Some y \<Rightarrow> Inr y)"

definition map_err :: "('e \<Rightarrow> 'f) \<Rightarrow> 'e + 'a \<Rightarrow> 'f + 'a" where
  "map_err g m = (case m of Inl e \<Rightarrow> Inl (g e) | Inr x \<Rightarrow> Inr x)"

lemma rbind_simps [simp]:
  "rbind (Inl e) f = Inl e" "rbind (Inr x) f = f x"
  by (simp_all add: rbind_def)

lemma rbind_Inr_iff [simp]: "rbind m f = Inr y \<longleftrightarrow> (\<exists>x. m = Inr x \<and> f x = Inr y)"
  by (cases m) auto

lemma ensure_simps [simp]:
  "ensure True e = Inr ()" "ensure False e = Inl e"
  by (simp_all add: ensure_def)

lemma ensure_Inr_iff [simp]: "ensure b e = Inr u \<longleftrightarrow> b"
  by (simp add: ensure_def)

lemma ok_or_simps [simp]:
  "ok_or e None = Inl e" "ok_or e (Some x) = Inr x"
  by (simp_all add: ok_or_def)

lemma ok_or_Inr_iff [simp]: "ok_or e x = Inr y \<longleftrightarrow> x = Some y"
  by (cases x) auto

lemma map_err_simps [simp]:
  "map_err g (Inl e) = Inl (g e)" "map_err g (Inr x) = Inr x"
  by (simp_all add: map_err_def)

lemma map_err_Inr_iff [simp]: "map_err g m = Inr y \<longleftrightarrow> m = Inr y"
  by (cases m) auto

lemma not_isl_pair: "\<not> isl r \<Longrightarrow> (\<And>a b. r = Inr (a, b) \<Longrightarrow> thesis) \<Longrightarrow> thesis"
  by (cases r) (auto simp: split_paired_all)

text \<open>A loop whose body may fail stops at the first error.\<close>

fun rfold :: "('x \<Rightarrow> 's \<Rightarrow> 'e + 's) \<Rightarrow> 'x list \<Rightarrow> 's \<Rightarrow> 'e + 's" where
  "rfold f [] s = Inr s"
| "rfold f (x # xs) s = rbind (f x s) (rfold f xs)"

lemma rfold_inv:
  assumes "rfold f xs s = Inr s'" and "P s"
    and "\<And>x s s'. x \<in> set xs \<Longrightarrow> P s \<Longrightarrow> f x s = Inr s' \<Longrightarrow> P s'"
  shows "P s'"
  using assms by (induction xs arbitrary: s) auto

section \<open>The range of i64\<close>

text \<open>Credits are \<open>i64\<close> values in the source and \<open>int\<close> in the model; where the source checks
  for overflow the check is written out against the range.\<close>

definition i64_min :: int where "i64_min = - (2 ^ 63)"

definition i64_max :: int where "i64_max = 2 ^ 63 - 1"

definition in_i64 :: "int \<Rightarrow> bool" where
  "in_i64 x \<longleftrightarrow> i64_min \<le> x \<and> x \<le> i64_max"

definition checked_mul_i64 :: "int \<Rightarrow> int \<Rightarrow> int option" where
  "checked_mul_i64 a b = (if in_i64 (a * b) then Some (a * b) else None)"

definition saturating_sub_i64 :: "int \<Rightarrow> int \<Rightarrow> int" where
  "saturating_sub_i64 a b = max i64_min (min i64_max (a - b))"

lemmas i64_defs = in_i64_def i64_min_def i64_max_def

lemma sdiv_nonneg: "0 \<le> a \<Longrightarrow> 0 \<le> b \<Longrightarrow> (a::int) sdiv b = a div b"
  by (cases "a = 0 \<or> b = 0") (auto simp: signed_divide_int_def)

lemma smod_nonneg: "0 \<le> a \<Longrightarrow> 0 \<le> b \<Longrightarrow> (a::int) smod b = a mod b"
  by (simp add: smod_int_alt_def) (auto simp: sgn_if)

section \<open>Text\<close>

text \<open>
  A Rust \<open>String\<close> is a list of characters; the model's \<open>char\<close> ranges over the code points below
  256, on which trimming, lower-casing and the UTF-8 length are those of the Rust library.
\<close>

definition is_whitespace :: "char \<Rightarrow> bool" where
  "is_whitespace c = (let n = (of_char c :: nat)
     in (9 \<le> n \<and> n \<le> 13) \<or> n = 32 \<or> n = 133 \<or> n = 160)"

definition trim_start :: "string \<Rightarrow> string" where
  "trim_start s = dropWhile is_whitespace s"

definition trim :: "string \<Rightarrow> string" where
  "trim s = rev (trim_start (rev (trim_start s)))"

definition is_ascii_digit :: "char \<Rightarrow> bool" where
  "is_ascii_digit c = (let n = (of_char c :: nat) in 48 \<le> n \<and> n \<le> 57)"

definition is_ascii_hexdigit :: "char \<Rightarrow> bool" where
  "is_ascii_hexdigit c = (let n = (of_char c :: nat)
     in (48 \<le> n \<and> n \<le> 57) \<or> (65 \<le> n \<and> n \<le> 70) \<or> (97 \<le> n \<and> n \<le> 102))"

definition ascii_lower_char :: "char \<Rightarrow> char" where
  "ascii_lower_char c = (let n = (of_char c :: nat)
     in if 65 \<le> n \<and> n \<le> 90 then char_of (n + 32) else c)"

definition ascii_upper_char :: "char \<Rightarrow> char" where
  "ascii_upper_char c = (let n = (of_char c :: nat)
     in if 97 \<le> n \<and> n \<le> 122 then char_of (n - 32) else c)"

definition lower_char :: "char \<Rightarrow> char" where
  "lower_char c = (let n = (of_char c :: nat)
     in if (65 \<le> n \<and> n \<le> 90) \<or> (192 \<le> n \<and> n \<le> 222 \<and> n \<noteq> 215) then char_of (n + 32) else c)"

definition to_lowercase :: "string \<Rightarrow> string" where
  "to_lowercase s = map lower_char s"

definition to_ascii_uppercase :: "string \<Rightarrow> string" where
  "to_ascii_uppercase s = map ascii_upper_char s"

text \<open>SQLite's \<open>LOWER\<close> folds ASCII letters only.\<close>

definition sql_lower :: "string \<Rightarrow> string" where
  "sql_lower s = map ascii_lower_char s"

definition utf8_len :: "string \<Rightarrow> nat" where
  "utf8_len s = (\<Sum>c\<leftarrow>s. if (of_char c :: nat) < 128 then 1 else 2)"

definition strip_prefix :: "string \<Rightarrow> string \<Rightarrow> string option" where
  "strip_prefix p s = (if take (length p) s = p then Some (drop (length p) s) else None)"

definition starts_with :: "string \<Rightarrow> string \<Rightarrow> bool" where
  "starts_with p s \<longleftrightarrow> take (length p) s = p"

function show_digits :: "int \<Rightarrow> string" where
  "show_digits n = (if n < 10 then [char_of (48 + n)]
     else show_digits (n div 10) @ [char_of (48 + n mod 10)])"
  by auto
termination by (relation "measure nat") auto

declare show_digits.simps [simp del]

definition show_nat :: "nat \<Rightarrow> string" where
  "show_nat n = show_digits (int n)"

definition show_int :: "int \<Rightarrow> string" where
  "show_int i = (if i < 0 then CHR ''-'' # show_digits (- i) else show_digits i)"

lemma trim_Nil [simp]: "trim [] = []"
  by (simp add: trim_def trim_start_def)

lemma trim_start_idem: "trim_start (trim_start s) = trim_start s"
  by (induction s) (auto simp: trim_start_def)

lemma trim_start_eq_self: "trim_start s = s \<longleftrightarrow> s = [] \<or> \<not> is_whitespace (hd s)"
  by (simp add: trim_start_def dropWhile_eq_self_iff)

lemma trim_start_suffix: "\<exists>ws. s = ws @ trim_start s \<and> (\<forall>c\<in>set ws. is_whitespace c)"
  unfolding trim_start_def
  by (rule exI [of _ "takeWhile is_whitespace s"]) (auto dest: set_takeWhileD)

lemma trim_idem [simp]: "trim (trim s) = trim s"
proof -
  define t where "t = trim_start s"
  define u where "u = trim_start (rev t)"
  have tr: "trim s = rev u" by (simp add: trim_def t_def u_def)
  obtain ws where ws: "rev t = ws @ u"
    using trim_start_suffix [of "rev t"] by (auto simp: u_def)
  have "trim_start (rev u) = rev u"
  proof (cases "u = []")
    case False
    have "t = rev u @ rev ws" using ws by (metis rev_append rev_rev_ident)
    moreover have "trim_start t = t" by (simp add: t_def trim_start_idem)
    ultimately show ?thesis using False by (auto simp: trim_start_eq_self hd_append)
  qed (simp add: trim_start_def)
  then show ?thesis
    by (simp add: tr) (simp add: trim_def u_def trim_start_idem)
qed

section \<open>SQL statements on tables\<close>

text \<open>A table is the list of its rows in rowid order. \<open>UPDATE .. WHERE\<close> maps over it,
  \<open>DELETE .. WHERE\<close> filters it, \<open>INSERT OR IGNORE\<close> appends unless the primary key is taken,
  \<open>INSERT .. ON CONFLICT DO UPDATE\<close> updates the row that has it,
  and a \<open>query_row\<close> reads the first match.\<close>

definition sql_update :: "('r \<Rightarrow> bool) \<Rightarrow> ('r \<Rightarrow> 'r) \<Rightarrow> 'r list \<Rightarrow> 'r list" where
  "sql_update P f t = map (\<lambda>r. if P r then f r else r) t"

definition sql_delete :: "('r \<Rightarrow> bool) \<Rightarrow> 'r list \<Rightarrow> 'r list" where
  "sql_delete P t = filter (\<lambda>r. \<not> P r) t"

definition has_row :: "('r \<Rightarrow> bool) \<Rightarrow> 'r list \<Rightarrow> bool" where
  "has_row P t \<longleftrightarrow> list_ex P t"

definition insert_or_ignore :: "('r \<Rightarrow> 'k) \<Rightarrow> 'r \<Rightarrow> 'r list \<Rightarrow> 'r list" where
  "insert_or_ignore key r t = (if has_row (\<lambda>x. key x = key r) t then t else t @ [r])"

definition sql_upsert :: "('r \<Rightarrow> 'k) \<Rightarrow> 'r \<Rightarrow> ('r \<Rightarrow> 'r) \<Rightarrow> 'r list \<Rightarrow> 'r list" where
  "sql_upsert key r f t =
     (if has_row (\<lambda>x. key x = key r) t then sql_update (\<lambda>x. key x = key r) f t else t @ [r])"

definition row_amount :: "('r \<Rightarrow> 'k) \<Rightarrow> ('r \<Rightarrow> int) \<Rightarrow> 'r list \<Rightarrow> 'k \<Rightarrow> int" where
  "row_amount key amt t k = (case find (\<lambda>r. key r = k) t of None \<Rightarrow> 0 | Some r \<Rightarrow> amt r)"

definition table_sum :: "('r \<Rightarrow> int) \<Rightarrow> 'r list \<Rightarrow> int" where
  "table_sum amt t = (\<Sum>r\<leftarrow>t. amt r)"

lemma has_row_iff: "has_row P t \<longleftrightarrow> (\<exists>r\<in>set t. P r)"
  by (simp add: has_row_def list_ex_iff)

lemma has_row_key_iff: "has_row (\<lambda>r. key r = k) t \<longleftrightarrow> k \<in> key ` set t"
  by (auto simp: has_row_iff)

lemma sql_update_Nil [simp]: "sql_update P f [] = []"
  by (simp add: sql_update_def)

lemma sql_update_Cons [simp]:
  "sql_update P f (r # t) = (if P r then f r else r) # sql_update P f t"
  by (simp add: sql_update_def)

lemma sql_update_append [simp]: "sql_update P f (s @ t) = sql_update P f s @ sql_update P f t"
  by (simp add: sql_update_def)

lemma length_sql_update [simp]: "length (sql_update P f t) = length t"
  by (simp add: sql_update_def)

lemma set_sql_update: "set (sql_update P f t) = (\<lambda>r. if P r then f r else r) ` set t"
  by (simp add: sql_update_def)

lemma sql_update_key_map:
  "(\<And>r. key (f r) = key r) \<Longrightarrow> map key (sql_update P f t) = map key t"
  by (induction t) simp_all

lemma sql_update_key_set:
  assumes "\<And>r. key (f r) = key r"
  shows "key ` set (sql_update P f t) = key ` set t"
  using sql_update_key_map [of key f P t, OF assms] by (metis set_map)

lemma sql_update_no_match: "(\<And>r. r \<in> set t \<Longrightarrow> \<not> P r) \<Longrightarrow> sql_update P f t = t"
  by (induction t) auto

lemma find_sql_update:
  assumes "\<And>r. key (f r) = key r"
  shows "find (\<lambda>r. key r = k') (sql_update (\<lambda>r. key r = k) f t) =
    (if k' = k then map_option f (find (\<lambda>r. key r = k) t) else find (\<lambda>r. key r = k') t)"
  using assms by (induction t) auto

lemma find_append: "find P (s @ t) = (case find P s of None \<Rightarrow> find P t | Some r \<Rightarrow> Some r)"
  by (induction s) auto

lemma find_key_None: "find (\<lambda>r. key r = k) t = None \<longleftrightarrow> k \<notin> key ` set t"
  by (auto simp: find_None_iff)

lemma find_key_SomeD: "find (\<lambda>r. key r = k) t = Some r \<Longrightarrow> r \<in> set t \<and> key r = k"
  by (auto simp: find_Some_iff)

lemma find_SomeD: "find P t = Some r \<Longrightarrow> r \<in> set t \<and> P r"
  by (auto simp: find_Some_iff)

lemma find_key_unique:
  "distinct (map key t) \<Longrightarrow> r \<in> set t \<Longrightarrow> find (\<lambda>x. key x = key r) t = Some r"
  by (induction t) (auto simp: rev_image_eqI)

lemma insert_or_ignore_keys:
  "map key (insert_or_ignore key r t) =
     (if key r \<in> key ` set t then map key t else map key t @ [key r])"
  by (auto simp: insert_or_ignore_def has_row_key_iff)

lemma insert_or_ignore_distinct [simp]:
  "distinct (map key (insert_or_ignore key r t)) \<longleftrightarrow> distinct (map key t)"
  by (simp add: insert_or_ignore_keys)

lemma insert_or_ignore_has [simp]: "key r \<in> key ` set (insert_or_ignore key r t)"
  by (auto simp: insert_or_ignore_def has_row_key_iff)

lemma insert_or_ignore_mono: "set t \<subseteq> set (insert_or_ignore key r t)"
  by (auto simp: insert_or_ignore_def)

text \<open>A loop of updates by primary key over distinct keys is one pass over the table.\<close>

lemma fold_sql_update_key:
  assumes "\<And>x r. key (f x r) = key r" and "distinct (map g xs)"
  shows "fold (\<lambda>x. sql_update (\<lambda>r. key r = g x) (f x)) xs t =
    map (\<lambda>r. case find (\<lambda>x. g x = key r) xs of None \<Rightarrow> r | Some x \<Rightarrow> f x r) t"
  using assms(2)
proof (induction xs arbitrary: t)
  case Nil
  then show ?case by simp
next
  case (Cons x xs)
  have "find (\<lambda>y. g y = g x) xs = None" using Cons.prems find_key_None [of g "g x" xs] by simp
  with Cons show ?case by (auto simp: sql_update_def comp_def assms(1) split: option.splits)
qed

lemma table_sum_Nil [simp]: "table_sum amt [] = 0"
  by (simp add: table_sum_def)

lemma table_sum_Cons [simp]: "table_sum amt (r # t) = amt r + table_sum amt t"
  by (simp add: table_sum_def)

lemma table_sum_append [simp]: "table_sum amt (s @ t) = table_sum amt s + table_sum amt t"
  by (simp add: table_sum_def)

lemma table_sum_insert_or_ignore:
  "amt r = 0 \<Longrightarrow> table_sum amt (insert_or_ignore key r t) = table_sum amt t"
  by (simp add: insert_or_ignore_def)

lemma table_sum_update_frame:
  "(\<And>r. amt (f r) = amt r) \<Longrightarrow> table_sum amt (sql_update P f t) = table_sum amt t"
  by (induction t) auto

lemma table_sum_update_row:
  assumes "distinct (map key t)" and "find (\<lambda>r. key r = k) t = Some r"
  shows "table_sum amt (sql_update (\<lambda>r. key r = k) f t) = table_sum amt t - amt r + amt (f r)"
  using assms
proof (induction t)
  case (Cons x t)
  show ?case
  proof (cases "key x = k")
    case True
    then have "k \<notin> key ` set t" using Cons.prems(1) by auto
    then have "sql_update (\<lambda>r. key r = k) f t = t" by (intro sql_update_no_match) auto
    then show ?thesis using True Cons.prems(2) by simp
  next
    case False
    then show ?thesis using Cons by simp
  qed
qed simp

lemma table_sum_nonneg: "(\<And>r. r \<in> set t \<Longrightarrow> 0 \<le> amt r) \<Longrightarrow> 0 \<le> table_sum amt t"
  by (induction t) auto

lemma row_amount_insert_or_ignore:
  "amt r = 0 \<Longrightarrow> row_amount key amt (insert_or_ignore key r t) k = row_amount key amt t k"
  by (auto simp: row_amount_def insert_or_ignore_def has_row_key_iff find_append
      dest: find_key_SomeD split: option.splits)

lemma row_amount_update_frame:
  assumes "\<And>r. key (f r) = key r" and "\<And>r. amt (f r) = amt r"
  shows "row_amount key amt (sql_update (\<lambda>r. key r = k) f t) k' = row_amount key amt t k'"
  using assms by (auto simp: row_amount_def find_sql_update split: option.splits)

lemma row_amount_nonneg: "(\<And>r. r \<in> set t \<Longrightarrow> 0 \<le> amt r) \<Longrightarrow> 0 \<le> row_amount key amt t k"
  by (auto simp: row_amount_def dest: find_key_SomeD split: option.splits)

lemma row_amount_absent: "k \<notin> key ` set t \<Longrightarrow> row_amount key amt t k = 0"
  using find_key_None [of key k t] by (simp add: row_amount_def)

lemma row_amount_eq: "distinct (map key t) \<Longrightarrow> r \<in> set t \<Longrightarrow> row_amount key amt t (key r) = amt r"
  by (simp add: row_amount_def find_key_unique)

text \<open>An upsert that keeps keys and amounts, and inserts a row of amount 0, moves nothing.\<close>

lemma sql_upsert_keys:
  assumes "\<And>x. key (f x) = key x"
  shows "map key (sql_upsert key r f t) = (if key r \<in> key ` set t then map key t else map key t @ [key r])"
  using sql_update_key_map [of key f, OF assms] by (auto simp: sql_upsert_def has_row_key_iff)

lemma sql_upsert_distinct:
  "(\<And>x. key (f x) = key x) \<Longrightarrow> distinct (map key (sql_upsert key r f t)) \<longleftrightarrow> distinct (map key t)"
  by (subst sql_upsert_keys) auto

lemma sql_upsert_key_set:
  "(\<And>x. key (f x) = key x) \<Longrightarrow> key ` set (sql_upsert key r f t) = insert (key r) (key ` set t)"
  by (subst set_map [symmetric], subst sql_upsert_keys) auto

lemma find_sql_upsert:
  assumes "\<And>x. key (f x) = key x"
  shows "find (\<lambda>x. key x = k) (sql_upsert key r f t) =
    (if k = key r then Some (case find (\<lambda>x. key x = k) t of None \<Rightarrow> r | Some x \<Rightarrow> f x)
     else find (\<lambda>x. key x = k) t)"
  using find_key_None [of key "key r" t]
  by (auto simp: sql_upsert_def has_row_key_iff find_sql_update assms find_append split: option.splits)

lemma row_amount_upsert:
  "(\<And>x. key (f x) = key x) \<Longrightarrow> (\<And>x. amt (f x) = amt x) \<Longrightarrow> amt r = 0 \<Longrightarrow>
     row_amount key amt (sql_upsert key r f t) k = row_amount key amt t k"
  by (simp add: row_amount_def find_sql_upsert split: option.splits)

lemma table_sum_upsert:
  "(\<And>x. amt (f x) = amt x) \<Longrightarrow> amt r = 0 \<Longrightarrow> table_sum amt (sql_upsert key r f t) = table_sum amt t"
  by (simp add: sql_upsert_def table_sum_update_frame)

section \<open>Wallet tables\<close>

text \<open>
  The contract of a single-row posting \<open>UPDATE t SET amt = amt + delta WHERE key = k\<close>: the posting
  keeps the key of a row and changes its amount by \<open>delta a\<close>. Every wallet table of the gateway
  interprets it once per kind of posting.
\<close>

locale wallet_post =
  fixes key :: "'r \<Rightarrow> 'k" and amt :: "'r \<Rightarrow> int"
    and post :: "int \<Rightarrow> 'r \<Rightarrow> 'r" and delta :: "int \<Rightarrow> int"
  assumes key_post: "key (post a r) = key r"
    and amt_post: "amt (post a r) = amt r + delta a"
begin

lemma post_keys: "map key (sql_update P (post a) t) = map key t"
  by (rule sql_update_key_map) (rule key_post)

lemma post_key_set: "key ` set (sql_update P (post a) t) = key ` set t"
  using post_keys [of P a t] by (metis set_map)

lemma post_absent: "k \<notin> key ` set t \<Longrightarrow> sql_update (\<lambda>r. key r = k) (post a) t = t"
  by (rule sql_update_no_match) auto

lemma post_total:
  assumes "distinct (map key t)" and "k \<in> key ` set t"
  shows "table_sum amt (sql_update (\<lambda>r. key r = k) (post a) t) = table_sum amt t + delta a"
  using assms
proof (induction t)
  case (Cons r t)
  show ?case
  proof (cases "key r = k")
    case True
    then have "k \<notin> key ` set t" using Cons.prems(1) by auto
    then show ?thesis using True by (simp add: post_absent amt_post)
  next
    case False
    then show ?thesis using Cons by simp
  qed
qed simp

lemma post_amount:
  "row_amount key amt (sql_update (\<lambda>r. key r = k) (post a) t) k' =
     row_amount key amt t k' + (if k' = k \<and> k \<in> key ` set t then delta a else 0)"
  using find_key_None [of key k t]
  by (auto simp: row_amount_def find_sql_update key_post amt_post split: option.splits)

lemma post_nonneg:
  assumes "\<And>r. r \<in> set t \<Longrightarrow> 0 \<le> amt r"
    and "0 \<le> row_amount key amt t k + delta a" and "distinct (map key t)"
    and "r \<in> set (sql_update (\<lambda>r. key r = k) (post a) t)"
  shows "0 \<le> amt r"
proof -
  from assms(4) obtain r0 where r0: "r0 \<in> set t"
    "r = (if key r0 = k then post a r0 else r0)"
    by (auto simp: set_sql_update)
  show ?thesis
  proof (cases "key r0 = k")
    case True
    then have "row_amount key amt t k = amt r0"
      using row_amount_eq [OF assms(3) r0(1), of amt] by simp
    then show ?thesis using assms(2) r0 True by (simp add: amt_post)
  qed (use assms(1) r0 in auto)
qed

end

text \<open>
  The contract of a credit loop: a body that credits \<open>amount x\<close> to the wallet of \<open>target x\<close> for each
  element of a list, under an invariant it keeps. The totals of a whole loop follow once for the
  availability earnings, the refunds and the drip.
\<close>

locale credit_loop =
  fixes body :: "'x \<Rightarrow> 's \<Rightarrow> 's" and target :: "'x \<Rightarrow> 'k" and amount :: "'x \<Rightarrow> int"
    and total :: "'s \<Rightarrow> int" and wallet :: "'s \<Rightarrow> 'k \<Rightarrow> int" and inv :: "'s \<Rightarrow> bool"
    and ok :: "'x \<Rightarrow> bool"
  assumes body_total: "inv s \<Longrightarrow> ok x \<Longrightarrow> total (body x s) = total s + amount x"
    and body_wallet: "inv s \<Longrightarrow> ok x \<Longrightarrow>
      wallet (body x s) k = wallet s k + (if k = target x then amount x else 0)"
    and body_inv: "inv s \<Longrightarrow> ok x \<Longrightarrow> inv (body x s)"
begin

lemma loop_inv: "inv s \<Longrightarrow> (\<And>x. x \<in> set xs \<Longrightarrow> ok x) \<Longrightarrow> inv (fold body xs s)"
  by (induction xs arbitrary: s) (simp_all add: body_inv)

lemma loop_total:
  "inv s \<Longrightarrow> (\<And>x. x \<in> set xs \<Longrightarrow> ok x) \<Longrightarrow>
     total (fold body xs s) = total s + (\<Sum>x\<leftarrow>xs. amount x)"
  by (induction xs arbitrary: s) (simp_all add: body_inv body_total)

lemma loop_wallet:
  "inv s \<Longrightarrow> (\<And>x. x \<in> set xs \<Longrightarrow> ok x) \<Longrightarrow>
     wallet (fold body xs s) k =
       wallet s k + (\<Sum>x\<leftarrow>xs. if target x = k then amount x else 0)"
  by (induction xs arbitrary: s) (auto simp: body_inv body_wallet)

end

end
