(* ===== verification/Gateway_Db.thy ===== *)
theory Gateway_Db
  imports Teale_Prelude
begin

text \<open>
  The gateway's SQLite database (\<open>gateway/src/db.rs\<close>): one \<open>record\<close> per table with the columns the
  migrations create, the database as the record of its tables, the single statements that several
  operations of \<open>gateway/src/ledger.rs\<close> share, with the constraints the schema declares, and the
  observers the components' properties speak about: what the wallets hold, and the invariant
  that primary keys are unique and no wallet is negative.
\<close>

section \<open>Rows\<close>

record mint_pool_row =
  mp_total_minted :: int
  mp_remaining :: int

record device_row =
  dev_device_id :: string
  dev_username :: "string option"
  dev_first_seen :: int
  dev_last_seen :: int

record token_row =
  tok_token :: string
  tok_device_id :: string
  tok_expires_at :: int

record challenge_row =
  ch_device_id :: string
  ch_nonce :: string
  ch_expires_at :: int

record ledger_row =
  lg_id :: int
  lg_device_id :: string
  lg_type :: string
  lg_amount :: int
  lg_timestamp :: int
  lg_ref_request_id :: "string option"
  lg_note :: "string option"

record balance_row =
  bal_device_id :: string
  bal_balance :: int
  bal_total_earned :: int
  bal_total_spent :: int

record share_key_row =
  sk_key_id :: string
  sk_token :: string
  sk_issuer_device_id :: string
  sk_label :: "string option"
  sk_expires_at :: int
  sk_budget_credits :: int
  sk_consumed_credits :: int
  sk_created_at :: int
  sk_revoked_at :: "int option"
  sk_funded :: int
  sk_funding_id :: "string option"
  sk_refunds_settled_at :: "int option"

record contribution_row =
  skc_contribution_id :: string
  skc_key_id :: string
  skc_funder_device_id :: string
  skc_funded_credits :: int
  skc_remaining_credits :: int
  skc_created_at :: int
  skc_refunded_at :: "int option"
  skc_refund_reason :: "string option"

record account_wallet_row =
  aw_account_user_id :: string
  aw_display_name :: "string option"
  aw_phone :: "string option"
  aw_email :: "string option"
  aw_github_username :: "string option"
  aw_balance_credits :: int
  aw_usdc_cents :: int
  aw_created_at :: int
  aw_updated_at :: int
  aw_solana_address :: "string option"
  aw_solana_enabled :: int
  aw_deposited_usdc_cents_total :: int
  aw_withdrawn_usdc_cents_total :: int

record account_device_row =
  ad_device_id :: string
  ad_account_user_id :: string
  ad_device_name :: "string option"
  ad_platform :: "string option"
  ad_linked_at :: int
  ad_last_seen :: int

record account_ledger_row =
  al_id :: int
  al_account_user_id :: string
  al_asset :: string
  al_amount :: int
  al_type :: string
  al_timestamp :: int
  al_device_id :: "string option"
  al_note :: "string option"
  al_api_key_id :: "string option"

record availability_session_row =
  as_device_id :: string
  as_model_id :: "string option"
  as_started_at :: int
  as_last_accrued_at :: int
  as_accrued_credits :: int

record deposit_row =
  dp_deposit_id :: string
  dp_account_user_id :: string
  dp_tx_signature :: string
  dp_solana_address :: string
  dp_source_address :: "string option"
  dp_amount_usdc_cents :: int
  dp_amount_credits :: int
  dp_created_at :: int

record withdrawal_row =
  wd_withdrawal_id :: string
  wd_request_id :: string
  wd_account_user_id :: string
  wd_destination_address :: string
  wd_amount_usdc_cents :: int
  wd_amount_credits :: int
  wd_status :: string
  wd_tx_signature :: "string option"
  wd_created_at :: int
  wd_completed_at :: "int option"

record referral_code_row =
  rc_code :: string
  rc_owner_kind :: string
  rc_owner_device_id :: "string option"
  rc_owner_account_user_id :: "string option"
  rc_created_at :: int

record referral_claim_row =
  rl_claim_id :: string
  rl_code :: string
  rl_referrer_kind :: string
  rl_referrer_id :: string
  rl_referred_kind :: string
  rl_referred_device_id :: "string option"
  rl_referred_account_user_id :: "string option"
  rl_referrer_bonus_credits :: int
  rl_referred_bonus_credits :: int
  rl_created_at :: int

record api_key_row =
  ak_key_id :: string
  ak_account_user_id :: string
  ak_key_hash :: string
  ak_prefix :: string
  ak_name :: "string option"
  ak_role :: string
  ak_credit_limit :: "int option"
  ak_usage_credits :: int
  ak_disabled :: int
  ak_created_at :: int
  ak_last_used_at :: "int option"

record provider_row =
  pr_provider_id :: string
  pr_slug :: string
  pr_display_name :: string
  pr_base_url :: string
  pr_wire_format :: string
  pr_auth_header_name :: string
  pr_auth_secret_ref :: string
  pr_status :: string
  pr_data_collection :: string
  pr_zdr :: int
  pr_quantization :: "string option"
  pr_created_at :: int
  pr_updated_at :: int

record provider_wallet_row =
  pw_provider_id :: string
  pw_balance_credits :: int
  pw_total_earned :: int
  pw_total_paid_out :: int
  pw_usdc_cents :: int
  pw_payout_threshold :: int
  pw_payout_destination :: "string option"
  pw_updated_at :: int

record provider_ledger_row =
  pl_id :: int
  pl_provider_id :: string
  pl_type :: string
  pl_amount :: int
  pl_timestamp :: int
  pl_ref_request_id :: "string option"
  pl_model_id :: "string option"
  pl_note :: "string option"

record email_code_row =
  ec_id :: string
  ec_email :: string
  ec_code_hash :: string
  ec_created_at :: int
  ec_expires_at :: int
  ec_attempts :: int
  ec_consumed_at :: "int option"
  ec_link_token_hash :: "string option"

record account_session_row =
  se_id :: string
  se_account_user_id :: string
  se_token_hash :: string
  se_created_at :: int
  se_expires_at :: int
  se_last_seen_at :: int
  se_device_id :: "string option"
  se_device_name :: "string option"
  se_revoked_at :: "int option"

record pin_row =
  pin_pin_id :: string
  pin_name :: string
  pin_join_code :: string
  pin_join_code_generation :: int
  pin_owner_account_user_id :: string
  pin_netmap_generation :: int
  pin_settings :: string
  pin_created_at :: int
  pin_deleted_at :: "int option"

section \<open>The database\<close>

text \<open>\<open>ledger_seq\<close>, \<open>account_ledger_seq\<close> and \<open>provider_ledger_seq\<close> are the rows of
  \<open>sqlite_sequence\<close> for the three \<open>AUTOINCREMENT\<close> tables.\<close>

record gateway_db =
  mint_pool :: "mint_pool_row option"
  devices :: "device_row list"
  tokens :: "token_row list"
  challenges :: "challenge_row list"
  ledger :: "ledger_row list"
  ledger_seq :: int
  balances :: "balance_row list"
  share_keys :: "share_key_row list"
  share_key_contributions :: "contribution_row list"
  account_wallets :: "account_wallet_row list"
  account_devices :: "account_device_row list"
  account_ledger :: "account_ledger_row list"
  account_ledger_seq :: int
  availability_sessions :: "availability_session_row list"
  account_onchain_deposits :: "deposit_row list"
  account_withdrawals :: "withdrawal_row list"
  referral_codes :: "referral_code_row list"
  referral_claims :: "referral_claim_row list"
  api_keys :: "api_key_row list"
  providers :: "provider_row list"
  provider_wallets :: "provider_wallet_row list"
  provider_ledger :: "provider_ledger_row list"
  provider_ledger_seq :: int
  account_email_codes :: "email_code_row list"
  account_sessions :: "account_session_row list"
  pins :: "pin_row list"

definition INITIAL_MINT_POOL :: int where "INITIAL_MINT_POOL = 1000000000"

definition empty_db :: gateway_db where
  "empty_db = \<lparr>mint_pool = None, devices = [], tokens = [], challenges = [], ledger = [],
     ledger_seq = 0, balances = [], share_keys = [], share_key_contributions = [],
     account_wallets = [], account_devices = [], account_ledger = [], account_ledger_seq = 0,
     availability_sessions = [], account_onchain_deposits = [], account_withdrawals = [],
     referral_codes = [], referral_claims = [], api_keys = [], providers = [],
     provider_wallets = [], provider_ledger = [], provider_ledger_seq = 0,
     account_email_codes = [], account_sessions = [], pins = []\<rparr>"

definition seed_mint_pool :: "gateway_db \<Rightarrow> gateway_db" where
  "seed_mint_pool db = (case mint_pool db of
      Some _ \<Rightarrow> db
    | None \<Rightarrow> db\<lparr>mint_pool :=
        Some \<lparr>mp_total_minted = INITIAL_MINT_POOL, mp_remaining = INITIAL_MINT_POOL\<rparr>\<rparr>)"

text \<open>What a statement or an operation of the ledger module reports when it fails:
  \<open>ConstraintViolation\<close> and \<open>QueryReturnedNoRows\<close> are the errors of \<open>rusqlite\<close> it propagates,
  \<open>Bail\<close> an \<open>anyhow::bail!\<close> of the source with its message, \<open>Panicked\<close> a panic of the Rust
  runtime (no transaction is committed by the unwinding call).\<close>

datatype anyhow =
    ConstraintViolation
  | QueryReturnedNoRows
  | Bail string
  | Panicked string

section \<open>Statements shared by the operations\<close>

definition device_exists :: "gateway_db \<Rightarrow> string \<Rightarrow> bool" where
  "device_exists db d = has_row (\<lambda>r. dev_device_id r = d) (devices db)"

definition account_exists :: "gateway_db \<Rightarrow> string \<Rightarrow> bool" where
  "account_exists db a = has_row (\<lambda>r. aw_account_user_id r = a) (account_wallets db)"

definition ensure_device :: "int \<Rightarrow> string \<Rightarrow> gateway_db \<Rightarrow> gateway_db" where
  [stmt_defs]: "ensure_device now d db = db\<lparr>devices := insert_or_ignore dev_device_id
     \<lparr>dev_device_id = d, dev_username = None, dev_first_seen = now, dev_last_seen = now\<rparr>
     (devices db)\<rparr>"

definition touch_device :: "int \<Rightarrow> string \<Rightarrow> gateway_db \<Rightarrow> gateway_db" where
  [stmt_defs]: "touch_device now d db = db\<lparr>devices :=
     sql_update (\<lambda>r. dev_device_id r = d) (\<lambda>r. r\<lparr>dev_last_seen := now\<rparr>) (devices db)\<rparr>"

definition new_balance_row :: "string \<Rightarrow> balance_row" where
  "new_balance_row d =
     \<lparr>bal_device_id = d, bal_balance = 0, bal_total_earned = 0, bal_total_spent = 0\<rparr>"

definition ensure_balance :: "string \<Rightarrow> gateway_db \<Rightarrow> gateway_db" where
  [stmt_defs]: "ensure_balance d db =
     db\<lparr>balances := insert_or_ignore bal_device_id (new_balance_row d) (balances db)\<rparr>"

definition debit_mint_pool :: "int \<Rightarrow> gateway_db \<Rightarrow> gateway_db" where
  [stmt_defs]: "debit_mint_pool a db = db\<lparr>mint_pool :=
     map_option (\<lambda>r. r\<lparr>mp_remaining := max 0 (mp_remaining r - a)\<rparr>) (mint_pool db)\<rparr>"

definition insert_ledger ::
  "string \<Rightarrow> string \<Rightarrow> int \<Rightarrow> int \<Rightarrow> string option \<Rightarrow> string option \<Rightarrow> gateway_db \<Rightarrow> gateway_db" where
  [stmt_defs]: "insert_ledger d ty amount ts req note db = db\<lparr>
     ledger := ledger db @ [\<lparr>lg_id = ledger_seq db + 1, lg_device_id = d, lg_type = ty,
       lg_amount = amount, lg_timestamp = ts, lg_ref_request_id = req, lg_note = note\<rparr>],
     ledger_seq := ledger_seq db + 1\<rparr>"

text \<open>The postings on a device wallet: an earning raises \<open>balance\<close> and \<open>total_earned\<close>, a spend
  lowers \<open>balance\<close> and raises \<open>total_spent\<close>, a move changes \<open>balance\<close> alone.\<close>

definition row_earn :: "int \<Rightarrow> balance_row \<Rightarrow> balance_row" where
  "row_earn a r = r\<lparr>bal_balance := bal_balance r + a, bal_total_earned := bal_total_earned r + a\<rparr>"

definition row_spend :: "int \<Rightarrow> balance_row \<Rightarrow> balance_row" where
  "row_spend a r = r\<lparr>bal_balance := bal_balance r - a, bal_total_spent := bal_total_spent r + a\<rparr>"

definition row_move :: "int \<Rightarrow> balance_row \<Rightarrow> balance_row" where
  "row_move a r = r\<lparr>bal_balance := bal_balance r + a\<rparr>"

definition row_spent_only :: "int \<Rightarrow> balance_row \<Rightarrow> balance_row" where
  "row_spent_only a r = r\<lparr>bal_total_spent := bal_total_spent r + a\<rparr>"

definition update_balance ::
  "string \<Rightarrow> (balance_row \<Rightarrow> balance_row) \<Rightarrow> gateway_db \<Rightarrow> gateway_db" where
  [stmt_defs]: "update_balance d f db =
     db\<lparr>balances := sql_update (\<lambda>r. bal_device_id r = d) f (balances db)\<rparr>"

definition update_account_wallet ::
  "string \<Rightarrow> (account_wallet_row \<Rightarrow> account_wallet_row) \<Rightarrow> gateway_db \<Rightarrow> gateway_db" where
  [stmt_defs]: "update_account_wallet a f db =
     db\<lparr>account_wallets := sql_update (\<lambda>r. aw_account_user_id r = a) f (account_wallets db)\<rparr>"

definition row_account_credit :: "int \<Rightarrow> int \<Rightarrow> account_wallet_row \<Rightarrow> account_wallet_row" where
  "row_account_credit now a r =
     r\<lparr>aw_balance_credits := aw_balance_credits r + a, aw_updated_at := now\<rparr>"

definition insert_account_ledger ::
  "string \<Rightarrow> string \<Rightarrow> int \<Rightarrow> string \<Rightarrow> int \<Rightarrow> string option \<Rightarrow> string option \<Rightarrow> string option \<Rightarrow>
   gateway_db \<Rightarrow> anyhow + gateway_db" where
  "insert_account_ledger acct asset amount ty ts dev note api db =
     (if \<not> account_exists db acct
         \<or> (case api of None \<Rightarrow> False | Some k \<Rightarrow> \<not> has_row (\<lambda>r. ak_key_id r = k) (api_keys db))
      then Inl ConstraintViolation
      else Inr (db\<lparr>
        account_ledger := account_ledger db @ [\<lparr>al_id = account_ledger_seq db + 1,
          al_account_user_id = acct, al_asset = asset, al_amount = amount, al_type = ty,
          al_timestamp = ts, al_device_id = dev, al_note = note, al_api_key_id = api\<rparr>],
        account_ledger_seq := account_ledger_seq db + 1\<rparr>))"

definition balance_row_of :: "gateway_db \<Rightarrow> string \<Rightarrow> balance_row option" where
  "balance_row_of db d = find (\<lambda>r. bal_device_id r = d) (balances db)"

definition account_row_of :: "gateway_db \<Rightarrow> string \<Rightarrow> account_wallet_row option" where
  "account_row_of db a = find (\<lambda>r. aw_account_user_id r = a) (account_wallets db)"

definition share_key_row_of :: "gateway_db \<Rightarrow> string \<Rightarrow> share_key_row option" where
  "share_key_row_of db k = find (\<lambda>r. sk_key_id r = k) (share_keys db)"

section \<open>Observers\<close>

text \<open>\<open>balance_of\<close> is the \<open>query_row(..).unwrap_or(0)\<close> of the source: a wallet without a row
  reads as zero.\<close>

definition balance_of :: "gateway_db \<Rightarrow> string \<Rightarrow> int" where
  [obs_defs]: "balance_of db d = row_amount bal_device_id bal_balance (balances db) d"

definition account_balance_of :: "gateway_db \<Rightarrow> string \<Rightarrow> int" where
  [obs_defs]: "account_balance_of db a =
     row_amount aw_account_user_id aw_balance_credits (account_wallets db) a"

definition provider_balance_of :: "gateway_db \<Rightarrow> string \<Rightarrow> int" where
  [obs_defs]: "provider_balance_of db p =
     row_amount pw_provider_id pw_balance_credits (provider_wallets db) p"

definition pool_of :: "gateway_db \<Rightarrow> string \<Rightarrow> int" where
  [obs_defs]: "pool_of db k = table_sum skc_remaining_credits
     (filter (\<lambda>r. skc_key_id r = k) (share_key_contributions db))"

definition device_credits :: "gateway_db \<Rightarrow> int" where
  [obs_defs]: "device_credits db = table_sum bal_balance (balances db)"

definition account_credits :: "gateway_db \<Rightarrow> int" where
  [obs_defs]: "account_credits db = table_sum aw_balance_credits (account_wallets db)"

definition provider_credits :: "gateway_db \<Rightarrow> int" where
  [obs_defs]: "provider_credits db = table_sum pw_balance_credits (provider_wallets db)"

definition pool_credits :: "gateway_db \<Rightarrow> int" where
  [obs_defs]: "pool_credits db = table_sum skc_remaining_credits (share_key_contributions db)"

definition total_credits :: "gateway_db \<Rightarrow> int" where
  "total_credits db =
     device_credits db + account_credits db + provider_credits db + pool_credits db"

definition keys_ok :: "gateway_db \<Rightarrow> bool" where
  "keys_ok db \<longleftrightarrow>
     distinct (map bal_device_id (balances db)) \<and>
     distinct (map aw_account_user_id (account_wallets db)) \<and>
     distinct (map pw_provider_id (provider_wallets db)) \<and>
     distinct (map skc_contribution_id (share_key_contributions db)) \<and>
     distinct (map sk_key_id (share_keys db)) \<and>
     distinct (map ak_key_id (api_keys db)) \<and>
     distinct (map wd_request_id (account_withdrawals db)) \<and>
     distinct (map ad_device_id (account_devices db)) \<and>
     distinct (map as_device_id (availability_sessions db))"

definition wallets_nonneg :: "gateway_db \<Rightarrow> bool" where
  "wallets_nonneg db \<longleftrightarrow>
     list_all (\<lambda>r. 0 \<le> bal_balance r) (balances db) \<and>
     list_all (\<lambda>r. 0 \<le> aw_balance_credits r) (account_wallets db) \<and>
     list_all (\<lambda>r. 0 \<le> pw_balance_credits r) (provider_wallets db) \<and>
     list_all (\<lambda>r. 0 \<le> skc_remaining_credits r) (share_key_contributions db)"

definition db_ok :: "gateway_db \<Rightarrow> bool" where
  "db_ok db \<longleftrightarrow> keys_ok db \<and> wallets_nonneg db"

section \<open>The device and account wallets as wallet tables\<close>

interpretation earn: wallet_post bal_device_id bal_balance row_earn "\<lambda>a. a"
  by unfold_locales (simp_all add: row_earn_def)

interpretation spend: wallet_post bal_device_id bal_balance row_spend "\<lambda>a. - a"
  by unfold_locales (simp_all add: row_spend_def)

interpretation move: wallet_post bal_device_id bal_balance row_move "\<lambda>a. a"
  by unfold_locales (simp_all add: row_move_def)

interpretation spent_only: wallet_post bal_device_id bal_balance row_spent_only "\<lambda>_. 0"
  by unfold_locales (simp_all add: row_spent_only_def)

interpretation acct: wallet_post aw_account_user_id aw_balance_credits
  "row_account_credit now" "\<lambda>a. a"
  by unfold_locales (simp_all add: row_account_credit_def)

lemma new_balance_row_simps [simp]:
  "bal_device_id (new_balance_row d) = d" "bal_balance (new_balance_row d) = 0"
  by (simp_all add: new_balance_row_def)

definition has_balance :: "gateway_db \<Rightarrow> string \<Rightarrow> bool" where
  "has_balance db d \<longleftrightarrow> d \<in> bal_device_id ` set (balances db)"

lemma balance_of_nonneg: "wallets_nonneg db \<Longrightarrow> 0 \<le> balance_of db d"
  by (auto simp: balance_of_def wallets_nonneg_def list_all_iff intro!: row_amount_nonneg)

lemma account_balance_of_nonneg: "wallets_nonneg db \<Longrightarrow> 0 \<le> account_balance_of db a"
  by (auto simp: account_balance_of_def wallets_nonneg_def list_all_iff intro!: row_amount_nonneg)

lemma pool_of_nonneg: "wallets_nonneg db \<Longrightarrow> 0 \<le> pool_of db k"
  by (auto simp: pool_of_def wallets_nonneg_def list_all_iff intro!: table_sum_nonneg)

lemma balance_of_absent: "\<not> has_balance db d \<Longrightarrow> balance_of db d = 0"
  by (simp add: has_balance_def balance_of_def row_amount_absent)

lemma account_exists_iff:
  "account_exists db a \<longleftrightarrow> a \<in> aw_account_user_id ` set (account_wallets db)"
  by (simp add: account_exists_def has_row_key_iff)

text \<open>One statement on the balances table, seen by the observers.\<close>

lemma ensure_balance_obs [simp]:
  "balance_of (ensure_balance d db) d' = balance_of db d'"
  "device_credits (ensure_balance d db) = device_credits db"
  "has_balance (ensure_balance d db) d"
  "has_balance db d' \<Longrightarrow> has_balance (ensure_balance d db) d'"
  using insert_or_ignore_has [of bal_device_id "new_balance_row d" "balances db"]
    insert_or_ignore_mono [of "balances db" bal_device_id "new_balance_row d"]
  by (auto simp: obs_defs stmt_defs has_balance_def row_amount_insert_or_ignore
      table_sum_insert_or_ignore)

lemma ensure_balance_ok [simp]: "db_ok db \<Longrightarrow> db_ok (ensure_balance d db)"
  by (auto simp: db_ok_def keys_ok_def wallets_nonneg_def stmt_defs insert_or_ignore_def has_row_iff)

lemma earn_obs:
  assumes "keys_ok db" and "has_balance db d"
  shows "device_credits (update_balance d (row_earn a) db) = device_credits db + a"
    and "balance_of (update_balance d (row_earn a) db) d' =
      balance_of db d' + (if d' = d then a else 0)"
  using assms earn.post_total [of "balances db" d a] earn.post_amount [of d a "balances db" d']
  by (auto simp: obs_defs stmt_defs keys_ok_def has_balance_def)

lemma spend_obs:
  assumes "keys_ok db" and "has_balance db d"
  shows "device_credits (update_balance d (row_spend a) db) = device_credits db - a"
    and "balance_of (update_balance d (row_spend a) db) d' =
      balance_of db d' - (if d' = d then a else 0)"
  using assms spend.post_total [of "balances db" d a] spend.post_amount [of d a "balances db" d']
  by (auto simp: obs_defs stmt_defs keys_ok_def has_balance_def)

lemma move_obs:
  assumes "keys_ok db" and "has_balance db d"
  shows "device_credits (update_balance d (row_move a) db) = device_credits db + a"
    and "balance_of (update_balance d (row_move a) db) d' =
      balance_of db d' + (if d' = d then a else 0)"
  using assms move.post_total [of "balances db" d a] move.post_amount [of d a "balances db" d']
  by (auto simp: obs_defs stmt_defs keys_ok_def has_balance_def)

lemma account_credit_obs:
  assumes "keys_ok db" and "account_exists db acct"
  shows "account_credits (update_account_wallet acct (row_account_credit now a) db) =
      account_credits db + a"
    and "account_balance_of (update_account_wallet acct (row_account_credit now a) db) acct' =
      account_balance_of db acct' + (if acct' = acct then a else 0)"
  using assms acct.post_total [of "account_wallets db" acct now a]
    acct.post_amount [of acct now a "account_wallets db" acct']
  by (auto simp: obs_defs stmt_defs keys_ok_def account_exists_iff)

lemma update_balance_ok:
  assumes "db_ok db" and "\<And>r. bal_device_id (f r) = bal_device_id r"
    and "\<And>r. bal_balance (f r) = bal_balance r + x" and "0 \<le> balance_of db d + x"
  shows "db_ok (update_balance d f db)"
proof -
  have keys: "map bal_device_id (sql_update (\<lambda>r. bal_device_id r = d) f (balances db)) =
      map bal_device_id (balances db)"
    by (rule sql_update_key_map) (rule assms(2))
  have "0 \<le> bal_balance (f r)" if "r \<in> set (balances db)" "bal_device_id r = d" for r
    using row_amount_eq [of bal_device_id "balances db" r bal_balance] assms that
    by (simp add: balance_of_def db_ok_def keys_ok_def)
  then show ?thesis
    using assms(1) keys
    by (auto simp: db_ok_def keys_ok_def wallets_nonneg_def stmt_defs list_all_iff set_sql_update)
qed

lemma earn_ok: "db_ok db \<Longrightarrow> 0 \<le> balance_of db d + a \<Longrightarrow> db_ok (update_balance d (row_earn a) db)"
  by (rule update_balance_ok) (simp_all add: row_earn_def)

lemma spend_ok: "db_ok db \<Longrightarrow> a \<le> balance_of db d \<Longrightarrow> db_ok (update_balance d (row_spend a) db)"
  by (rule update_balance_ok [where x = "- a"]) (simp_all add: row_spend_def)

lemma move_ok: "db_ok db \<Longrightarrow> 0 \<le> balance_of db d + a \<Longrightarrow> db_ok (update_balance d (row_move a) db)"
  by (rule update_balance_ok) (simp_all add: row_move_def)

lemma spent_only_ok: "db_ok db \<Longrightarrow> db_ok (update_balance d (row_spent_only a) db)"
  by (rule update_balance_ok [where x = 0])
     (simp_all add: row_spent_only_def balance_of_nonneg db_ok_def)

lemma spent_only_obs [simp]:
  "device_credits (update_balance d (row_spent_only a) db) = device_credits db"
  "balance_of (update_balance d (row_spent_only a) db) d' = balance_of db d'"
  using spent_only.post_amount [of d a "balances db" d']
  by (auto simp: obs_defs stmt_defs row_spent_only_def intro!: table_sum_update_frame)

lemma account_credit_ok:
  assumes "db_ok db" and "0 \<le> account_balance_of db acct + a"
  shows "db_ok (update_account_wallet acct (row_account_credit now a) db)"
proof -
  have "0 \<le> aw_balance_credits r"
    if "r \<in> set (sql_update (\<lambda>r. aw_account_user_id r = acct) (row_account_credit now a)
      (account_wallets db))" for r
    using acct.post_nonneg [OF _ _ _ that] assms
    by (auto simp: db_ok_def keys_ok_def wallets_nonneg_def list_all_iff account_balance_of_def)
  then show ?thesis
    using assms(1) acct.post_keys [of _ now a "account_wallets db"]
    by (auto simp: db_ok_def keys_ok_def wallets_nonneg_def stmt_defs list_all_iff)
qed

subsection \<open>Frames\<close>

text \<open>What a statement leaves alone. \<open>same_wallets\<close> collects the tables the wallet observers read,
  so that one fact carries all of them past the statements that write elsewhere.\<close>

definition same_wallets :: "gateway_db \<Rightarrow> gateway_db \<Rightarrow> bool" where
  "same_wallets db db' \<longleftrightarrow> balances db' = balances db \<and>
     account_wallets db' = account_wallets db \<and>
     provider_wallets db' = provider_wallets db \<and>
     share_key_contributions db' = share_key_contributions db"

lemma same_wallets_obs:
  assumes "same_wallets db db'"
  shows "balance_of db' = balance_of db" "account_balance_of db' = account_balance_of db"
    "provider_balance_of db' = provider_balance_of db" "pool_of db' = pool_of db"
    "device_credits db' = device_credits db" "account_credits db' = account_credits db"
    "provider_credits db' = provider_credits db" "pool_credits db' = pool_credits db"
    "total_credits db' = total_credits db"
    "has_balance db' = has_balance db" "account_exists db' = account_exists db"
    "wallets_nonneg db' = wallets_nonneg db"
  using assms
  by (auto simp: same_wallets_def obs_defs total_credits_def has_balance_def account_exists_def
      wallets_nonneg_def fun_eq_iff)

lemma stmt_tables [simp]:
  "share_keys (ensure_device now d db) = share_keys db"
  "share_key_contributions (ensure_device now d db) = share_key_contributions db"
  "account_wallets (ensure_device now d db) = account_wallets db"
  "provider_wallets (ensure_device now d db) = provider_wallets db"
  "api_keys (ensure_device now d db) = api_keys db"
  "share_keys (touch_device now d db) = share_keys db"
  "share_key_contributions (touch_device now d db) = share_key_contributions db"
  "account_wallets (touch_device now d db) = account_wallets db"
  "provider_wallets (touch_device now d db) = provider_wallets db"
  "api_keys (touch_device now d db) = api_keys db"
  "share_keys (ensure_balance d db) = share_keys db"
  "share_key_contributions (ensure_balance d db) = share_key_contributions db"
  "account_wallets (ensure_balance d db) = account_wallets db"
  "provider_wallets (ensure_balance d db) = provider_wallets db"
  "api_keys (ensure_balance d db) = api_keys db"
  "share_keys (debit_mint_pool a db) = share_keys db"
  "share_key_contributions (debit_mint_pool a db) = share_key_contributions db"
  "account_wallets (debit_mint_pool a db) = account_wallets db"
  "provider_wallets (debit_mint_pool a db) = provider_wallets db"
  "api_keys (debit_mint_pool a db) = api_keys db"
  "share_keys (insert_ledger d ty a ts req note db) = share_keys db"
  "share_key_contributions (insert_ledger d ty a ts req note db) = share_key_contributions db"
  "account_wallets (insert_ledger d ty a ts req note db) = account_wallets db"
  "provider_wallets (insert_ledger d ty a ts req note db) = provider_wallets db"
  "api_keys (insert_ledger d ty a ts req note db) = api_keys db"
  "share_keys (update_balance d f db) = share_keys db"
  "share_key_contributions (update_balance d f db) = share_key_contributions db"
  "account_wallets (update_balance d f db) = account_wallets db"
  "provider_wallets (update_balance d f db) = provider_wallets db"
  "api_keys (update_balance d f db) = api_keys db"
  by (simp_all add: stmt_defs)

lemma update_account_wallet_tables [simp]:
  "share_keys (update_account_wallet a f db) = share_keys db"
  "share_key_contributions (update_account_wallet a f db) = share_key_contributions db"
  "balances (update_account_wallet a f db) = balances db"
  "provider_wallets (update_account_wallet a f db) = provider_wallets db"
  "api_keys (update_account_wallet a f db) = api_keys db"
  by (simp_all add: stmt_defs)

lemma table_obs:
  "balances db' = balances db \<Longrightarrow> balance_of db' = balance_of db"
  "balances db' = balances db \<Longrightarrow> device_credits db' = device_credits db"
  "balances db' = balances db \<Longrightarrow> has_balance db' = has_balance db"
  "account_wallets db' = account_wallets db \<Longrightarrow> account_balance_of db' = account_balance_of db"
  "account_wallets db' = account_wallets db \<Longrightarrow> account_credits db' = account_credits db"
  "account_wallets db' = account_wallets db \<Longrightarrow> account_exists db' = account_exists db"
  "provider_wallets db' = provider_wallets db \<Longrightarrow> provider_balance_of db' = provider_balance_of db"
  "provider_wallets db' = provider_wallets db \<Longrightarrow> provider_credits db' = provider_credits db"
  "share_key_contributions db' = share_key_contributions db \<Longrightarrow> pool_of db' = pool_of db"
  "share_key_contributions db' = share_key_contributions db \<Longrightarrow> pool_credits db' = pool_credits db"
  by (auto simp: obs_defs has_balance_def account_exists_def fun_eq_iff)

lemma insert_ledger_same [simp]: "same_wallets db (insert_ledger d ty a ts req note db)"
  by (simp add: same_wallets_def stmt_defs)

lemma ensure_device_same [simp]: "same_wallets db (ensure_device now d db)"
  by (simp add: same_wallets_def stmt_defs)

lemma touch_device_same [simp]: "same_wallets db (touch_device now d db)"
  by (simp add: same_wallets_def stmt_defs)

lemma debit_mint_pool_same [simp]: "same_wallets db (debit_mint_pool a db)"
  by (simp add: same_wallets_def stmt_defs)

lemma insert_account_ledger_same:
  "insert_account_ledger acct asset a ty ts dev note api db = Inr db' \<Longrightarrow> same_wallets db db'"
  by (auto simp: insert_account_ledger_def same_wallets_def split: if_splits)

lemmas insert_ledger_obs [simp] = same_wallets_obs [OF insert_ledger_same]
lemmas ensure_device_obs [simp] = same_wallets_obs [OF ensure_device_same]
lemmas touch_device_obs [simp] = same_wallets_obs [OF touch_device_same]
lemmas debit_mint_pool_obs [simp] = same_wallets_obs [OF debit_mint_pool_same]
lemmas insert_account_ledger_obs = same_wallets_obs [OF insert_account_ledger_same]

lemma plain_stmt_ok [simp]:
  "db_ok (insert_ledger d ty a ts req note db) = db_ok db"
  "db_ok (ensure_device now d db) = db_ok db"
  "db_ok (touch_device now d db) = db_ok db"
  "db_ok (debit_mint_pool a db) = db_ok db"
  by (simp_all add: db_ok_def keys_ok_def wallets_nonneg_def stmt_defs)

lemma insert_account_ledger_ok:
  "insert_account_ledger acct asset a ty ts dev note api db = Inr db' \<Longrightarrow> db_ok db' = db_ok db"
  by (auto simp: insert_account_ledger_def db_ok_def keys_ok_def wallets_nonneg_def
      split: if_splits)

lemma update_balance_frame [simp]:
  "account_balance_of (update_balance d f db) = account_balance_of db"
  "provider_balance_of (update_balance d f db) = provider_balance_of db"
  "pool_of (update_balance d f db) = pool_of db"
  "account_credits (update_balance d f db) = account_credits db"
  "provider_credits (update_balance d f db) = provider_credits db"
  "pool_credits (update_balance d f db) = pool_credits db"
  "account_exists (update_balance d f db) = account_exists db"
  by (auto simp: obs_defs stmt_defs account_exists_def fun_eq_iff)

lemma ensure_balance_frame [simp]:
  "account_balance_of (ensure_balance d db) = account_balance_of db"
  "provider_balance_of (ensure_balance d db) = provider_balance_of db"
  "pool_of (ensure_balance d db) = pool_of db"
  "account_credits (ensure_balance d db) = account_credits db"
  "provider_credits (ensure_balance d db) = provider_credits db"
  "pool_credits (ensure_balance d db) = pool_credits db"
  "account_exists (ensure_balance d db) = account_exists db"
  by (auto simp: obs_defs stmt_defs account_exists_def fun_eq_iff)

lemma update_account_wallet_frame [simp]:
  "balance_of (update_account_wallet a f db) = balance_of db"
  "provider_balance_of (update_account_wallet a f db) = provider_balance_of db"
  "pool_of (update_account_wallet a f db) = pool_of db"
  "device_credits (update_account_wallet a f db) = device_credits db"
  "provider_credits (update_account_wallet a f db) = provider_credits db"
  "pool_credits (update_account_wallet a f db) = pool_credits db"
  "has_balance (update_account_wallet a f db) = has_balance db"
  by (auto simp: obs_defs stmt_defs has_balance_def fun_eq_iff)

lemma update_balance_has [simp]:
  assumes "\<And>r. bal_device_id (f r) = bal_device_id r"
  shows "has_balance (update_balance d f db) = has_balance db"
  using sql_update_key_set [of bal_device_id f, OF assms]
  by (simp add: has_balance_def stmt_defs fun_eq_iff)

lemma row_keys [simp]:
  "bal_device_id (row_earn a r) = bal_device_id r"
  "bal_device_id (row_spend a r) = bal_device_id r"
  "bal_device_id (row_move a r) = bal_device_id r"
  "bal_device_id (row_spent_only a r) = bal_device_id r"
  by (simp_all add: row_earn_def row_spend_def row_move_def row_spent_only_def)

lemma db_ok_keys [simp, intro]: "db_ok db \<Longrightarrow> keys_ok db"
  by (simp add: db_ok_def)

lemma db_ok_nonneg [intro]: "db_ok db \<Longrightarrow> wallets_nonneg db"
  by (simp add: db_ok_def)

end
