(* ===== verification/Device_Wallets.thy ===== *)
theory Device_Wallets
  imports Gateway_Db
begin

text \<open>
  Devices, their authentication rows and their wallets (\<open>gateway/src/ledger.rs\<close>): registering a
  device, challenge nonces and bearer tokens, the minting operations, the read-side snapshots and
  the genesis reset. The clock and the random identifiers of the source are arguments.
\<close>

section \<open>Constants and kinds of ledger rows\<close>

definition WELCOME_BONUS_CREDITS :: int where "WELCOME_BONUS_CREDITS = 100000"

definition CHALLENGE_TTL_SECONDS :: int where "CHALLENGE_TTL_SECONDS = 300"

definition TOKEN_TTL_SECONDS :: int where "TOKEN_TTL_SECONDS = 86400"

definition CREDITS_PER_USDC :: int where "CREDITS_PER_USDC = 1000000"

definition CREDITS_PER_USDC_CENT :: int where
  "CREDITS_PER_USDC_CENT = CREDITS_PER_USDC sdiv 100"

datatype LedgerType =
    Bonus | DirectEarn | AvailabilityEarn | AvailabilityDrip | AvailabilitySession | Spent | OpsFee
  | ShareKeyFund | ShareKeyRefund | AdminMint | ProviderEarn | ProviderPayout

fun as_str :: "LedgerType \<Rightarrow> string" where
  "as_str Bonus = ''BONUS''"
| "as_str DirectEarn = ''DIRECT_EARN''"
| "as_str AvailabilityEarn = ''AVAILABILITY_EARN''"
| "as_str AvailabilityDrip = ''AVAILABILITY_DRIP''"
| "as_str AvailabilitySession = ''AVAILABILITY_SESSION''"
| "as_str Spent = ''SPENT''"
| "as_str OpsFee = ''OPS_FEE''"
| "as_str ShareKeyFund = ''SHARE_KEY_FUND''"
| "as_str ShareKeyRefund = ''SHARE_KEY_REFUND''"
| "as_str AdminMint = ''ADMIN_MINT''"
| "as_str ProviderEarn = ''PROVIDER_EARN''"
| "as_str ProviderPayout = ''PROVIDER_PAYOUT''"

definition normalized_optional_string :: "string option \<Rightarrow> string option" where
  "normalized_optional_string value = (case value of
      None \<Rightarrow> None
    | Some raw \<Rightarrow> (let trimmed = trim raw in if trimmed \<noteq> [] then Some trimmed else None))"

section \<open>Devices, challenges and tokens\<close>

definition upsert_device :: "int \<Rightarrow> string \<Rightarrow> gateway_db \<Rightarrow> gateway_db \<times> bool" where
  "upsert_device now d db =
     (if \<not> device_exists db d
      then (ensure_balance d (db\<lparr>devices := devices db @
        [\<lparr>dev_device_id = d, dev_username = None, dev_first_seen = now, dev_last_seen = now\<rparr>]\<rparr>),
        True)
      else (touch_device now d db, False))"

definition set_username :: "string \<Rightarrow> string \<Rightarrow> gateway_db \<Rightarrow> gateway_db" where
  "set_username d username db = db\<lparr>devices :=
     sql_update (\<lambda>r. dev_device_id r = d) (\<lambda>r. r\<lparr>dev_username := Some username\<rparr>) (devices db)\<rparr>"

definition challenge_match :: "string \<Rightarrow> string \<Rightarrow> challenge_row \<Rightarrow> bool" where
  "challenge_match d nonce r \<longleftrightarrow> ch_device_id r = d \<and> ch_nonce r = nonce"

definition create_challenge :: "int \<Rightarrow> string \<Rightarrow> string \<Rightarrow> gateway_db \<Rightarrow> gateway_db \<times> int" where
  "create_challenge now d nonce db =
     (let expires = now + CHALLENGE_TTL_SECONDS
      in (db\<lparr>challenges := sql_delete (challenge_match d nonce) (challenges db) @
            [\<lparr>ch_device_id = d, ch_nonce = nonce, ch_expires_at = expires\<rparr>]\<rparr>, expires))"

definition consume_challenge :: "int \<Rightarrow> string \<Rightarrow> string \<Rightarrow> gateway_db \<Rightarrow> gateway_db \<times> bool" where
  "consume_challenge now d nonce db =
     (let expires = map_option ch_expires_at (find (challenge_match d nonce) (challenges db));
          ok = (case expires of None \<Rightarrow> False | Some t \<Rightarrow> t > now)
      in if ok then (db\<lparr>challenges := sql_delete (challenge_match d nonce) (challenges db)\<rparr>, True)
         else (db, False))"

definition issue_token ::
  "int \<Rightarrow> string \<Rightarrow> string \<Rightarrow> gateway_db \<Rightarrow> anyhow + gateway_db \<times> int" where
  "issue_token now d token db =
     (let expires = now + TOKEN_TTL_SECONDS
      in if has_row (\<lambda>r. tok_token r = token) (tokens db) \<or> \<not> device_exists db d
         then Inl ConstraintViolation
         else Inr (db\<lparr>tokens := tokens db @
           [\<lparr>tok_token = token, tok_device_id = d, tok_expires_at = expires\<rparr>]\<rparr>, expires))"

definition resolve_token :: "int \<Rightarrow> string \<Rightarrow> gateway_db \<Rightarrow> string option" where
  "resolve_token now token db = map_option tok_device_id
     (find (\<lambda>r. tok_token r = token \<and> tok_expires_at r > now) (tokens db))"

section \<open>Minting\<close>

definition record_bonus :: "int \<Rightarrow> string \<Rightarrow> int \<Rightarrow> gateway_db \<Rightarrow> anyhow + gateway_db \<times> int" where
  "record_bonus now d amount db =
     (let db1 = debit_mint_pool amount db;
          db2 = insert_ledger d ''BONUS'' amount now None (Some ''Welcome to Teale'') db1;
          db3 = update_balance d (row_earn amount) db2
      in rbind (ok_or QueryReturnedNoRows (balance_row_of db3 d)) (\<lambda>r. Inr (db3, bal_balance r)))"

definition credit_device_wallet_tx ::
  "int \<Rightarrow> string \<Rightarrow> int \<Rightarrow> string \<Rightarrow> string \<Rightarrow> gateway_db \<Rightarrow> gateway_db" where
  "credit_device_wallet_tx now d amount ty note db =
     (let db1 = ensure_device now d db;
          db2 = ensure_balance d db1;
          db3 = debit_mint_pool amount db2;
          db4 = insert_ledger d ty amount now None (Some note) db3
      in update_balance d (row_earn amount) db4)"

definition credit_account_wallet_tx ::
  "int \<Rightarrow> string \<Rightarrow> int \<Rightarrow> string \<Rightarrow> string option \<Rightarrow> string \<Rightarrow> gateway_db \<Rightarrow> anyhow + gateway_db" where
  "credit_account_wallet_tx now acct amount ty dev note db =
     (let db1 = debit_mint_pool amount db;
          db2 = update_account_wallet acct (row_account_credit now amount) db1
      in insert_account_ledger acct ''credits'' amount ty now dev (Some note) None db2)"

definition record_account_bonus ::
  "int \<Rightarrow> string \<Rightarrow> int \<Rightarrow> string option \<Rightarrow> string \<Rightarrow> gateway_db \<Rightarrow> anyhow + gateway_db \<times> int" where
  "record_account_bonus now acct amount dev note db =
     rbind (credit_account_wallet_tx now acct amount ''BONUS'' dev note db) (\<lambda>db1.
     rbind (ok_or QueryReturnedNoRows (account_row_of db1 acct)) (\<lambda>r.
     Inr (db1, aw_balance_credits r)))"

definition admin_mint ::
  "int \<Rightarrow> string \<Rightarrow> int \<Rightarrow> string \<Rightarrow> gateway_db \<Rightarrow> anyhow + gateway_db \<times> int" where
  "admin_mint now d amount note db =
     rbind (ensure (\<not> amount \<le> 0) (Bail ''amount must be > 0'')) (\<lambda>_.
     let db1 = ensure_device now d db;
         db2 = ensure_balance d db1;
         db3 = debit_mint_pool amount db2;
         db4 = insert_ledger d (as_str AdminMint) amount now None (Some note) db3;
         db5 = update_balance d (row_earn amount) db4
     in rbind (ok_or QueryReturnedNoRows (balance_row_of db5 d)) (\<lambda>r. Inr (db5, bal_balance r)))"

section \<open>Snapshots\<close>

record BalanceSnapshot =
  bs_device_id :: string
  bs_balance_credits :: int
  bs_total_earned_credits :: int
  bs_total_spent_credits :: int
  bs_usdc_cents :: int

definition get_balance :: "gateway_db \<Rightarrow> string \<Rightarrow> BalanceSnapshot" where
  "get_balance db d = (case balance_row_of db d of
      None \<Rightarrow> \<lparr>bs_device_id = d, bs_balance_credits = 0, bs_total_earned_credits = 0,
        bs_total_spent_credits = 0, bs_usdc_cents = 0\<rparr>
    | Some r \<Rightarrow> \<lparr>bs_device_id = d, bs_balance_credits = bal_balance r,
        bs_total_earned_credits = bal_total_earned r, bs_total_spent_credits = bal_total_spent r,
        bs_usdc_cents = 0\<rparr>)"

text \<open>\<open>LIMIT n\<close> of SQLite: a negative limit is none.\<close>

definition sql_limit :: "int \<Rightarrow> 'r list \<Rightarrow> 'r list" where
  "sql_limit n rows = (if n < 0 then rows else take (nat n) rows)"

definition list_transactions_with_options ::
  "gateway_db \<Rightarrow> string \<Rightarrow> int \<Rightarrow> bool \<Rightarrow> ledger_row list" where
  "list_transactions_with_options db d limit include_availability =
     sql_limit limit (sort_key (\<lambda>r. - lg_timestamp r) (filter (\<lambda>r. lg_device_id r = d \<and>
       (include_availability \<or> lg_type r \<noteq> ''AVAILABILITY_DRIP'')) (ledger db)))"

definition list_transactions :: "gateway_db \<Rightarrow> string \<Rightarrow> int \<Rightarrow> ledger_row list" where
  "list_transactions db d limit = list_transactions_with_options db d limit True"

definition list_transactions_without_availability ::
  "gateway_db \<Rightarrow> string \<Rightarrow> int \<Rightarrow> ledger_row list" where
  "list_transactions_without_availability db d limit =
     list_transactions_with_options db d limit False"

definition mint_pool_snapshot :: "gateway_db \<Rightarrow> anyhow + int \<times> int" where
  "mint_pool_snapshot db = (case mint_pool db of
      None \<Rightarrow> Inl QueryReturnedNoRows
    | Some r \<Rightarrow> Inr (mp_total_minted r, mp_remaining r))"

record SolvencyLiabilities =
  sv_device_credits :: int
  sv_account_credits :: int
  sv_pending_withdrawal_usdc_cents :: int

definition solvency_liabilities :: "gateway_db \<Rightarrow> SolvencyLiabilities" where
  "solvency_liabilities db =
     \<lparr>sv_device_credits = table_sum bal_balance
        (filter (\<lambda>r. bal_device_id r \<noteq> ''__ops__'') (balances db)),
      sv_account_credits = table_sum aw_balance_credits (account_wallets db),
      sv_pending_withdrawal_usdc_cents = table_sum wd_amount_usdc_cents
        (filter (\<lambda>r. wd_status r = ''pending'') (account_withdrawals db))\<rparr>"

record NetworkLedgerTotals =
  nt_total_credits_earned :: int
  nt_total_credits_spent :: int
  nt_total_usdc_distributed_cents :: int

definition network_ledger_totals :: "gateway_db \<Rightarrow> NetworkLedgerTotals" where
  "network_ledger_totals db =
     \<lparr>nt_total_credits_earned = table_sum bal_total_earned (balances db),
      nt_total_credits_spent = table_sum bal_total_spent (balances db),
      nt_total_usdc_distributed_cents = table_sum aw_usdc_cents (account_wallets db)\<rparr>"

section \<open>Genesis reset\<close>

record GenesisResetReport =
  gr_devices_cleared :: nat
  gr_account_wallets_cleared :: nat
  gr_device_ledger_rows_cleared :: nat
  gr_account_ledger_rows_cleared :: nat
  gr_share_keys_cleared :: nat
  gr_withdrawals_cleared :: nat
  gr_deposits_cleared :: nat
  gr_referral_codes_cleared :: nat
  gr_referral_claims_cleared :: nat
  gr_mint_pool_reset_to :: int

text \<open>\<open>DELETE FROM account_wallets\<close> cascades to \<open>api_keys\<close>, but \<open>pins.owner_account_user_id\<close>
  references the wallets without a cascade: the statement fails while a private network is
  owned by one of the rows it deletes.\<close>

definition reset_genesis :: "gateway_db \<Rightarrow> anyhow + gateway_db \<times> GenesisResetReport" where
  "reset_genesis db =
     (let report = \<lparr>gr_devices_cleared = length (devices db),
            gr_account_wallets_cleared = length (account_wallets db),
            gr_device_ledger_rows_cleared = length (ledger db),
            gr_account_ledger_rows_cleared = length (account_ledger db),
            gr_share_keys_cleared = length (share_keys db),
            gr_withdrawals_cleared = length (account_withdrawals db),
            gr_deposits_cleared = length (account_onchain_deposits db),
            gr_referral_codes_cleared = length (referral_codes db),
            gr_referral_claims_cleared = length (referral_claims db),
            gr_mint_pool_reset_to = INITIAL_MINT_POOL\<rparr>
      in if has_row (\<lambda>p. account_exists db (pin_owner_account_user_id p)) (pins db)
         then Inl ConstraintViolation
         else Inr (db\<lparr>tokens := [], challenges := [], referral_claims := [], referral_codes := [],
           account_withdrawals := [], account_onchain_deposits := [], account_ledger := [],
           account_devices := [], api_keys := sql_delete (\<lambda>k. account_exists db (ak_account_user_id k))
             (api_keys db), account_wallets := [], share_key_contributions := [], share_keys := [],
           availability_sessions := [], ledger := [], balances := [], devices := [],
           mint_pool := map_option (\<lambda>r. r\<lparr>mp_total_minted := INITIAL_MINT_POOL,
             mp_remaining := INITIAL_MINT_POOL\<rparr>) (mint_pool db),
           ledger_seq := 0, account_ledger_seq := 0\<rparr>, report))"

section \<open>Lemmas: the credit statements\<close>

lemma ensure_device_exists [simp]: "device_exists (ensure_device now d db) d"
  using insert_or_ignore_has [of dev_device_id
      "\<lparr>dev_device_id = d, dev_username = None, dev_first_seen = now, dev_last_seen = now\<rparr>" "devices db"]
  by (simp add: device_exists_def stmt_defs has_row_key_iff)

lemma has_balance_row: "has_balance db d \<longleftrightarrow> (\<exists>r. balance_row_of db d = Some r)"
  using find_key_None [of bal_device_id d "balances db"]
  by (auto simp: has_balance_def balance_row_of_def)

lemma balance_row_of_amount: "balance_row_of db d = Some r \<Longrightarrow> bal_balance r = balance_of db d"
  by (simp add: balance_row_of_def balance_of_def row_amount_def)

lemma account_row_of_amount:
  "account_row_of db a = Some r \<Longrightarrow> aw_balance_credits r = account_balance_of db a"
  by (simp add: account_row_of_def account_balance_of_def row_amount_def)

lemma account_exists_row: "account_exists db a \<longleftrightarrow> (\<exists>r. account_row_of db a = Some r)"
  using find_key_None [of aw_account_user_id a "account_wallets db"]
  by (auto simp: account_exists_iff account_row_of_def)

lemma update_account_wallet_exists [simp]:
  assumes "\<And>r. aw_account_user_id (f r) = aw_account_user_id r"
  shows "account_exists (update_account_wallet a f db) = account_exists db"
  using sql_update_key_set [of aw_account_user_id f, OF assms]
  by (simp add: account_exists_iff stmt_defs fun_eq_iff)

lemma row_account_credit_key [simp]:
  "aw_account_user_id (row_account_credit now a r) = aw_account_user_id r"
  by (simp add: row_account_credit_def)

lemma credit_device_wallet_tx_effect:
  assumes "db_ok db" and "0 \<le> amount"
  shows "db_ok (credit_device_wallet_tx now d amount ty note db)"
    and "device_credits (credit_device_wallet_tx now d amount ty note db) =
      device_credits db + amount"
    and "balance_of (credit_device_wallet_tx now d amount ty note db) d' =
      balance_of db d' + (if d' = d then amount else 0)"
    and "account_credits (credit_device_wallet_tx now d amount ty note db) = account_credits db"
    and "account_balance_of (credit_device_wallet_tx now d amount ty note db) =
      account_balance_of db"
    and "provider_credits (credit_device_wallet_tx now d amount ty note db) = provider_credits db"
    and "pool_credits (credit_device_wallet_tx now d amount ty note db) = pool_credits db"
  using assms balance_of_nonneg [of db d]
  by (simp_all add: credit_device_wallet_tx_def Let_def earn_obs earn_ok db_ok_nonneg)

lemma credit_account_wallet_tx_effect:
  assumes "db_ok db" and "0 \<le> amount"
    and "credit_account_wallet_tx now acct amount ty dev note db = Inr db'"
  shows "db_ok db'" and "account_credits db' = account_credits db + amount"
    and "account_balance_of db' a = account_balance_of db a + (if a = acct then amount else 0)"
    and "device_credits db' = device_credits db" and "balance_of db' = balance_of db"
    and "provider_credits db' = provider_credits db" and "pool_credits db' = pool_credits db"
    and "account_exists db acct"
proof -
  define db2 where
    "db2 = update_account_wallet acct (row_account_credit now amount) (debit_mint_pool amount db)"
  have ins: "insert_account_ledger acct ''credits'' amount ty now dev (Some note) None db2 = Inr db'"
    using assms(3) by (simp add: credit_account_wallet_tx_def db2_def)
  then have ex: "account_exists db2 acct"
    by (simp add: insert_account_ledger_def split: if_splits)
  then show ex0: "account_exists db acct" by (simp add: db2_def)
  note obs = insert_account_ledger_obs [OF ins]
  have ok2: "db_ok db2"
    using assms(1,2) account_balance_of_nonneg [of db acct]
    by (simp add: db2_def account_credit_ok db_ok_nonneg)
  then show "db_ok db'" using insert_account_ledger_ok [OF ins] by simp
  show "account_credits db' = account_credits db + amount"
    and "account_balance_of db' a = account_balance_of db a + (if a = acct then amount else 0)"
    and "device_credits db' = device_credits db" and "balance_of db' = balance_of db"
    and "provider_credits db' = provider_credits db" and "pool_credits db' = pool_credits db"
    using assms(1) ex0 by (simp_all add: obs db2_def account_credit_obs)
qed

section \<open>Properties\<close>

text \<open>
C26. A challenge nonce is single use: once \<open>consume_challenge\<close> has accepted it, no later attempt with
the same device and nonce is accepted, at any time, while the answer for every other device or
nonce is what it was; and a nonce is only accepted strictly before its expiry.
\<close>

theorem challenge_single_use:
  assumes "consume_challenge now d nonce db = (db', True)"
  shows "\<not> snd (consume_challenge now' d nonce db') \<and>
    ((d', nonce') \<noteq> (d, nonce) \<longrightarrow>
      snd (consume_challenge now' d' nonce' db') = snd (consume_challenge now' d' nonce' db)) \<and>
    (\<exists>r\<in>set (challenges db). challenge_match d nonce r \<and> now < ch_expires_at r)"
proof (intro conjI impI)
  obtain r where r: "find (challenge_match d nonce) (challenges db) = Some r"
    "now < ch_expires_at r" "db' = db\<lparr>challenges := sql_delete (challenge_match d nonce) (challenges db)\<rparr>"
    using assms by (auto simp: consume_challenge_def Let_def split: if_splits option.splits)
  have gone: "find (challenge_match d nonce) (challenges db') = None"
    by (auto simp: r(3) find_None_iff sql_delete_def)
  then show "\<not> snd (consume_challenge now' d nonce db')"
    by (simp add: consume_challenge_def)
  show "\<exists>r\<in>set (challenges db). challenge_match d nonce r \<and> now < ch_expires_at r"
    using r by (auto simp: find_Some_iff)
  assume ne: "(d', nonce') \<noteq> (d, nonce)"
  have "find (challenge_match d' nonce') (sql_delete (challenge_match d nonce) cs) =
      find (challenge_match d' nonce') cs" for cs
    using ne by (induction cs) (auto simp: sql_delete_def challenge_match_def)
  then show "snd (consume_challenge now' d' nonce' db') = snd (consume_challenge now' d' nonce' db)"
    by (simp add: consume_challenge_def r(3) Let_def)
qed

theorem challenge_single_use_witness:
  "\<not> snd (consume_challenge 7 ''dev'' ''n1''
     (fst (consume_challenge 5 ''dev'' ''n1'' (fst (create_challenge 0 ''dev'' ''n1'' empty_db)))))"
  by (rule challenge_single_use [THEN conjunct1, of 5 _ _ "fst (create_challenge 0 ''dev'' ''n1'' empty_db)"])
     code_simp

text \<open>
A bearer token issued to a device resolves to that device at every instant before its expiry,
\<open>TOKEN_TTL_SECONDS\<close> after issue, and to nothing from then on; other tokens are unaffected.
\<close>

theorem issued_token_resolves:
  assumes "issue_token now d token db = Inr (db', expires)"
  shows "expires = now + TOKEN_TTL_SECONDS \<and>
    resolve_token t token db' = (if t < expires then Some d else None) \<and>
    (token' \<noteq> token \<longrightarrow> resolve_token t token' db' = resolve_token t token' db)"
proof (intro conjI impI)
  have new: "\<not> has_row (\<lambda>r. tok_token r = token) (tokens db)"
    and db': "db' = db\<lparr>tokens := tokens db @
      [\<lparr>tok_token = token, tok_device_id = d, tok_expires_at = expires\<rparr>]\<rparr>"
    and e: "expires = now + TOKEN_TTL_SECONDS"
    using assms by (auto simp: issue_token_def Let_def split: if_splits)
  have "find (\<lambda>r. tok_token r = token \<and> t < tok_expires_at r) (tokens db) = None"
    using new by (auto simp: find_None_iff has_row_iff)
  then show "resolve_token t token db' = (if t < expires then Some d else None)"
    by (simp add: resolve_token_def db' find_append)
  show "expires = now + TOKEN_TTL_SECONDS" by (rule e)
  show "token' \<noteq> token \<Longrightarrow> resolve_token t token' db' = resolve_token t token' db"
    by (simp add: resolve_token_def db' find_append split: option.splits)
qed

theorem issued_token_resolves_witness:
  "\<exists>db' e. issue_token 10 ''dev'' ''tok'' (fst (upsert_device 1 ''dev'' empty_db)) = Inr (db', e) \<and>
     e = 86410 \<and> resolve_token 86409 ''tok'' db' = Some ''dev'' \<and>
     resolve_token 86410 ''tok'' db' = None"
proof -
  have "\<not> isl (issue_token 10 ''dev'' ''tok'' (fst (upsert_device 1 ''dev'' empty_db)))"
    by code_simp
  then obtain db' e where
    iss: "issue_token 10 ''dev'' ''tok'' (fst (upsert_device 1 ''dev'' empty_db)) = Inr (db', e)"
    by (rule not_isl_pair)
  show ?thesis
    using issued_token_resolves [OF iss] iss by (auto simp: TOKEN_TTL_SECONDS_def)
qed

text \<open>
An administrative mint with a positive amount always succeeds on a consistent database; it
raises the recipient's wallet by exactly the amount and no other wallet, returns the new
balance, debits the mint pool without letting it go negative, and keeps the database
consistent.
\<close>

theorem admin_mint_credits:
  assumes "db_ok db" and "0 < amount"
  shows "\<exists>db'. admin_mint now d amount note db = Inr (db', balance_of db d + amount) \<and>
    db_ok db' \<and> balance_of db' d = balance_of db d + amount \<and>
    (\<forall>d'. d' \<noteq> d \<longrightarrow> balance_of db' d' = balance_of db d') \<and>
    total_credits db' = total_credits db + amount \<and>
    map_option mp_remaining (mint_pool db') =
      map_option (\<lambda>p. max 0 (mp_remaining p - amount)) (mint_pool db)"
proof -
  define db' where "db' = credit_device_wallet_tx now d amount (as_str AdminMint) note db"
  have has: "has_balance db' d"
    by (simp add: db'_def credit_device_wallet_tx_def Let_def same_wallets_obs(10))
  then obtain r where r: "balance_row_of db' d = Some r" by (auto simp: has_balance_row)
  have eff: "db_ok db'" "balance_of db' d' = balance_of db d' + (if d' = d then amount else 0)"
    "total_credits db' = total_credits db + amount" for d'
    using credit_device_wallet_tx_effect [OF assms(1), of amount now d "as_str AdminMint" "note"]
      assms(2) by (simp_all add: db'_def total_credits_def)
  have "admin_mint now d amount note db = Inr (db', bal_balance r)"
    using assms(2) r by (simp add: admin_mint_def db'_def credit_device_wallet_tx_def Let_def)
  moreover have "mint_pool db' =
      map_option (\<lambda>p. p\<lparr>mp_remaining := max 0 (mp_remaining p - amount)\<rparr>) (mint_pool db)"
    by (simp add: db'_def credit_device_wallet_tx_def Let_def stmt_defs)
  ultimately show ?thesis
    using eff balance_row_of_amount [OF r] by (simp add: option.map_comp comp_def)
qed

theorem admin_mint_credits_witness:
  "db_ok empty_db \<and> (0::int) < 25 \<and>
   (\<exists>db'. admin_mint 3 ''dev'' 25 ''top up'' empty_db = Inr (db', 25) \<and> balance_of db' ''dev'' = 25)"
proof -
  have ok: "db_ok empty_db" by code_simp
  have "balance_of empty_db ''dev'' = 0" by code_simp
  then show ?thesis using ok admin_mint_credits [OF ok, of 25 3 "''dev''" "''top up''"] by auto
qed

end
