(* ===== verification/Pro_Rata.thy ===== *)
theory Pro_Rata
  imports Teale_Prelude "HOL-Library.Multiset"
begin

text \<open>
  The division of a spend over the contributions of a share key's pool
  (\<open>apply_pro_rata_share_key_spend_tx\<close> of \<open>gateway/src/ledger.rs\<close>): every contribution gives its
  floored quota, and the credits the floors leave over go one each to the contributions with the
  largest remainders, older and then lexicographically smaller contributions first.
\<close>

section \<open>The division\<close>

record ShareKeyContributionState =
  cs_contribution_id :: string
  cs_remaining_credits :: int
  cs_created_at :: int

text \<open>A reduction is the tuple of the source: contribution, credits taken, remainder of the
  division, creation time. The products are \<open>i128\<close> in the source.\<close>

type_synonym reduction = "string \<times> int \<times> int \<times> int"

definition base_reduction :: "int \<Rightarrow> int \<Rightarrow> ShareKeyContributionState \<Rightarrow> reduction" where
  "base_reduction spend total_remaining c =
     (let numerator = spend * cs_remaining_credits c
      in (cs_contribution_id c, numerator sdiv total_remaining, numerator smod total_remaining,
          cs_created_at c))"

definition leftover_order :: "reduction list \<Rightarrow> (nat \<times> int \<times> int \<times> string) list" where
  "leftover_order reductions =
     sort_key (\<lambda>(_, remainder, created_at, cid). (- remainder, created_at, cid))
       (map (\<lambda>(idx, (cid, _, remainder, created_at)). (idx, remainder, created_at, cid))
         (enumerate 0 reductions))"

fun give_leftover ::
  "(nat \<times> int \<times> int \<times> string) list \<Rightarrow> int \<Rightarrow> reduction list \<Rightarrow> reduction list" where
  "give_leftover [] leftover reductions = reductions"
| "give_leftover ((idx, _, _, _) # order) leftover reductions =
     (if leftover = 0 then reductions
      else give_leftover order (leftover - 1)
        (case reductions ! idx of (cid, base, remainder, created_at) \<Rightarrow>
          reductions[idx := (cid, base + 1, remainder, created_at)]))"

definition pro_rata_reductions :: "int \<Rightarrow> ShareKeyContributionState list \<Rightarrow> reduction list" where
  "pro_rata_reductions spend0 contributions =
     (let total_remaining = (\<Sum>c\<leftarrow>contributions. cs_remaining_credits c);
          spend = min spend0 total_remaining;
          reductions = map (base_reduction spend total_remaining) contributions;
          floored_total = (\<Sum>(_, base, _, _)\<leftarrow>reductions. base);
          leftover = spend - floored_total
      in if leftover > 0 then give_leftover (leftover_order reductions) leftover reductions
         else reductions)"

section \<open>Lemmas\<close>

definition taken :: "reduction \<Rightarrow> int" where
  "taken r = fst (snd r)"

definition remainder_of :: "reduction \<Rightarrow> int" where
  "remainder_of r = fst (snd (snd r))"

abbreviation pool_sum :: "ShareKeyContributionState list \<Rightarrow> int" where
  "pool_sum cs \<equiv> (\<Sum>c\<leftarrow>cs. cs_remaining_credits c)"

lemma floored_total_taken: "(\<Sum>(_, base, _, _)\<leftarrow>rs. base) = (\<Sum>r\<leftarrow>rs. taken r)"
  by (induction rs) (auto simp: taken_def)

lemma base_reduction_taken:
  assumes "0 \<le> spend" "0 \<le> cs_remaining_credits c" "0 < tot"
  shows "taken (base_reduction spend tot c) = spend * cs_remaining_credits c div tot"
    and "remainder_of (base_reduction spend tot c) = spend * cs_remaining_credits c mod tot"
  using assms by (simp_all add: taken_def remainder_of_def base_reduction_def Let_def sdiv_nonneg
      smod_nonneg)

lemma leftover_order_idxs:
  "mset (map fst (leftover_order rs)) = mset [0..<length rs]"
proof -
  have "mset (map fst (leftover_order rs)) = image_mset fst (mset (leftover_order rs))"
    by simp
  also have "\<dots> = mset (map fst (map (\<lambda>(idx, (cid, _, remainder, created_at)).
      (idx, remainder, created_at, cid)) (enumerate 0 rs)))"
    by (simp add: leftover_order_def multiset.map_comp)
  also have "map fst (map (\<lambda>(idx, (cid, _, remainder, created_at)).
      (idx, remainder, created_at, cid)) (enumerate 0 rs)) = map fst (enumerate 0 rs)"
    by (simp add: comp_def case_prod_beta)
  finally show ?thesis by simp
qed

lemma leftover_order_props:
  "distinct (map fst (leftover_order rs))"
  "set (map fst (leftover_order rs)) = {..<length rs}"
  "length (leftover_order rs) = length rs"
proof -
  note m = leftover_order_idxs [of rs]
  show "distinct (map fst (leftover_order rs))"
    using mset_eq_imp_distinct_iff [OF m] by simp
  show "set (map fst (leftover_order rs)) = {..<length rs}"
    using mset_eq_setD [OF m] by (simp add: atLeast0LessThan)
  show "length (leftover_order rs) = length rs"
    using mset_eq_length [OF m] by simp
qed

lemma give_leftover_length [simp]: "length (give_leftover order l rs) = length rs"
  by (induction order l rs rule: give_leftover.induct) (auto split: prod.splits)

text \<open>The loop bumps exactly the first \<open>leftover\<close> entries of the order.\<close>

lemma give_leftover_nth:
  assumes "distinct (map fst order)" and "\<forall>x\<in>set order. fst x < length rs" and "j < length rs"
    and "0 \<le> l"
  shows "taken (give_leftover order l rs ! j) =
    taken (rs ! j) + (if j \<in> set (take (nat l) (map fst order)) then 1 else 0)"
  using assms
proof (induction order l rs rule: give_leftover.induct)
  case (1 l rs)
  then show ?case by simp
next
  case (2 idx a b c order l rs)
  obtain cid base rm cr where e: "rs ! idx = (cid, base, rm, cr)" by (cases "rs ! idx") auto
  show ?case
  proof (cases "l = 0")
    case False
    then have l: "nat l = Suc (nat (l - 1))" and "0 \<le> l - 1" using "2.prems" by auto
    define rs' where "rs' = rs[idx := (cid, base + 1, rm, cr)]"
    have "taken (give_leftover order (l - 1) rs' ! j) =
        taken (rs' ! j) + (if j \<in> set (take (nat (l - 1)) (map fst order)) then 1 else 0)"
      using "2.IH" [OF False] "2.prems" \<open>0 \<le> l - 1\<close> by (simp add: e rs'_def)
    moreover have "taken (rs' ! j) = taken (rs ! j) + (if j = idx then 1 else 0)"
      using "2.prems"(2,3) e by (cases "j = idx") (auto simp: rs'_def taken_def)
    moreover have "idx \<notin> set (take (nat (l - 1)) (map fst order))"
      using "2.prems"(1) in_set_takeD by fastforce
    ultimately show ?thesis using False by (simp add: e l rs'_def [symmetric])
  qed simp
qed

lemma remainders_sum:
  "(\<Sum>c\<leftarrow>cs. spend * cs_remaining_credits c mod tot) =
     spend * pool_sum cs - tot * (\<Sum>c\<leftarrow>cs. spend * cs_remaining_credits c div tot)"
  by (induction cs) (simp_all add: algebra_simps minus_mult_div_eq_mod [symmetric])

lemma sum_list_bounds:
  fixes f :: "'a \<Rightarrow> int"
  assumes "\<And>x. x \<in> set xs \<Longrightarrow> 0 \<le> f x \<and> f x < b"
  shows "0 \<le> (\<Sum>x\<leftarrow>xs. f x)" "xs \<noteq> [] \<Longrightarrow> (\<Sum>x\<leftarrow>xs. f x) < b * int (length xs)"
proof -
  show "0 \<le> (\<Sum>x\<leftarrow>xs. f x)" using assms by (induction xs) (auto intro: add_nonneg_nonneg)
  show "xs \<noteq> [] \<Longrightarrow> (\<Sum>x\<leftarrow>xs. f x) < b * int (length xs)"
    using assms
  proof (induction xs)
    case (Cons x xs)
    then have "(\<Sum>x\<leftarrow>xs. f x) \<le> b * int (length xs)" by (cases "xs = []") auto
    then show ?case using Cons.prems(2) [of x] by (simp add: algebra_simps)
  qed simp
qed

lemma pool_sum_nonneg: "\<forall>c\<in>set cs. 0 < cs_remaining_credits c \<Longrightarrow> 0 \<le> pool_sum cs"
  by (induction cs) auto

lemma pool_sum_pos:
  "\<forall>c\<in>set cs. 0 < cs_remaining_credits c \<Longrightarrow> cs \<noteq> [] \<Longrightarrow> 0 < pool_sum cs"
  using pool_sum_nonneg by (cases cs) (auto simp: add_pos_nonneg)

text \<open>What the floors leave over is smaller than the number of contributions.\<close>

lemma leftover_bounds:
  assumes pos: "\<forall>c\<in>set cs. 0 < cs_remaining_credits c" and "0 \<le> spend" and "cs \<noteq> []"
  shows "0 \<le> spend - (\<Sum>c\<leftarrow>cs. spend * cs_remaining_credits c div pool_sum cs)"
    and "spend - (\<Sum>c\<leftarrow>cs. spend * cs_remaining_credits c div pool_sum cs) < int (length cs)"
proof -
  let ?T = "pool_sum cs"
  let ?l = "spend - (\<Sum>c\<leftarrow>cs. spend * cs_remaining_credits c div ?T)"
  have T: "0 < ?T" by (rule pool_sum_pos) (use assms in auto)
  have eq: "(\<Sum>c\<leftarrow>cs. spend * cs_remaining_credits c mod ?T) = ?T * ?l"
    by (simp add: remainders_sum algebra_simps)
  have b: "0 \<le> spend * cs_remaining_credits c mod ?T \<and> spend * cs_remaining_credits c mod ?T < ?T"
    for c using T by simp
  have "0 \<le> ?T * ?l" and "?T * ?l < ?T * int (length cs)"
    using sum_list_bounds [where xs = cs and b = ?T and
        f = "\<lambda>c. spend * cs_remaining_credits c mod ?T", OF b] assms(3)
    unfolding eq by blast+
  then show "0 \<le> ?l" and "?l < int (length cs)"
    using T by (simp_all add: zero_le_mult_iff mult_less_cancel_left_pos)
qed

text \<open>The reductions in closed form: the floored quota, plus one for the first \<open>leftover\<close> entries of
  the order.\<close>

definition quota :: "int \<Rightarrow> ShareKeyContributionState list \<Rightarrow> nat \<Rightarrow> int" where
  "quota spend cs i =
     min spend (pool_sum cs) * cs_remaining_credits (cs ! i) div pool_sum cs"

definition bumped :: "int \<Rightarrow> ShareKeyContributionState list \<Rightarrow> nat set" where
  "bumped spend cs =
     (let tot = pool_sum cs; sp = min spend tot; rs = map (base_reduction sp tot) cs
      in set (take (nat (sp - (\<Sum>r\<leftarrow>rs. taken r))) (map fst (leftover_order rs))))"

lemma base_taken_sum:
  assumes "\<forall>c\<in>set cs. 0 < cs_remaining_credits c" and "0 \<le> spend" and "0 < tot"
  shows "(\<Sum>r\<leftarrow>map (base_reduction spend tot) cs. taken r) =
    (\<Sum>c\<leftarrow>cs. spend * cs_remaining_credits c div tot)"
  using assms
  by (auto simp: comp_def base_reduction_taken intro!: arg_cong [of _ _ sum_list] map_cong)

lemma pro_rata_length [simp]: "length (pro_rata_reductions spend cs) = length cs"
  by (simp add: pro_rata_reductions_def Let_def)

lemma pro_rata_nth:
  assumes "\<forall>c\<in>set cs. 0 < cs_remaining_credits c" and "0 \<le> spend" and "i < length cs"
  shows "taken (pro_rata_reductions spend cs ! i) =
    quota spend cs i + (if i \<in> bumped spend cs then 1 else 0)"
proof -
  have ne: "cs \<noteq> []" using assms(3) by auto
  let ?T = "pool_sum cs" let ?s = "min spend ?T" let ?rs = "map (base_reduction ?s ?T) cs"
  let ?l = "?s - (\<Sum>r\<leftarrow>?rs. taken r)"
  have T: "0 < ?T" by (rule pool_sum_pos) (use assms ne in auto)
  have s0: "0 \<le> ?s" using assms(2) T by simp
  have l0: "0 \<le> ?l"
    using leftover_bounds(1) [OF assms(1) s0 ne] base_taken_sum [OF assms(1) s0 T] by simp
  have nth: "taken (?rs ! i) = quota spend cs i"
    using assms s0 T by (simp add: base_reduction_taken quota_def less_imp_le)
  have red: "pro_rata_reductions spend cs =
      (if ?l > 0 then give_leftover (leftover_order ?rs) ?l ?rs else ?rs)"
    by (simp add: pro_rata_reductions_def Let_def floored_total_taken)
  show ?thesis
  proof (cases "?l > 0")
    case True
    have "\<forall>x\<in>set (leftover_order ?rs). fst x < length ?rs"
      using leftover_order_props(2) [of ?rs] by auto
    then show ?thesis
      using give_leftover_nth [where rs = ?rs and j = i, OF leftover_order_props(1) _ _ l0] True assms(3) nth
      by (simp add: red bumped_def Let_def)
  next
    case False
    then have "?l = 0" using l0 by linarith
    then have "bumped spend cs = {}" by (simp add: bumped_def Let_def)
    moreover have "pro_rata_reductions spend cs = ?rs" by (simp only: red if_not_P [OF False])
    ultimately show ?thesis using nth by simp
  qed
qed

lemma bumped_card:
  assumes "\<forall>c\<in>set cs. 0 < cs_remaining_credits c" and "0 \<le> spend" and "cs \<noteq> []"
  shows "bumped spend cs \<subseteq> {..<length cs}"
    and "int (card (bumped spend cs)) =
      min spend (pool_sum cs) - (\<Sum>i<length cs. quota spend cs i)"
proof -
  let ?T = "pool_sum cs" let ?s = "min spend ?T" let ?rs = "map (base_reduction ?s ?T) cs"
  let ?l = "?s - (\<Sum>r\<leftarrow>?rs. taken r)" let ?o = "map fst (leftover_order ?rs)"
  have T: "0 < ?T" by (rule pool_sum_pos) (use assms in auto)
  have s0: "0 \<le> ?s" using assms(2) T by simp
  have b: "bumped spend cs = set (take (nat ?l) ?o)" by (simp only: bumped_def Let_def)
  show "bumped spend cs \<subseteq> {..<length cs}"
    unfolding b using leftover_order_props(2) [of ?rs] by (auto dest: in_set_takeD)
  have bounds: "0 \<le> ?l" "?l < int (length cs)"
    using leftover_bounds [OF assms(1) s0 assms(3)]
    unfolding base_taken_sum [OF assms(1) s0 T] by auto
  have "card (bumped spend cs) = length (take (nat ?l) ?o)"
    unfolding b by (rule distinct_card) (simp add: leftover_order_props(1))
  also have "\<dots> = nat ?l"
    using bounds leftover_order_props(3) [of ?rs] by simp
  finally have "int (card (bumped spend cs)) = ?l" using bounds(1) by simp
  also have "(\<Sum>r\<leftarrow>?rs. taken r) = (\<Sum>i<length cs. quota spend cs i)"
    unfolding base_taken_sum [OF assms(1) s0 T] quota_def
    by (simp add: sum_list_sum_nth atLeast0LessThan)
  finally show "int (card (bumped spend cs)) =
      min spend (pool_sum cs) - (\<Sum>i<length cs. quota spend cs i)" .
qed

lemma quota_bounds:
  assumes "\<forall>c\<in>set cs. 0 < cs_remaining_credits c" and "0 \<le> spend" and "i < length cs"
  shows "0 \<le> quota spend cs i" and "quota spend cs i \<le> cs_remaining_credits (cs ! i)"
    and "spend < pool_sum cs \<Longrightarrow> quota spend cs i < cs_remaining_credits (cs ! i)"
    and "pool_sum cs \<le> spend \<Longrightarrow> quota spend cs i = cs_remaining_credits (cs ! i)"
proof -
  let ?T = "pool_sum cs" let ?r = "cs_remaining_credits (cs ! i)"
  have r: "0 < ?r" using assms by simp
  have T: "0 < ?T" by (rule pool_sum_pos) (use assms in auto)
  show "0 \<le> quota spend cs i" using assms(2) r T by (simp add: quota_def pos_imp_zdiv_nonneg_iff)
  show eq: "?T \<le> spend \<Longrightarrow> quota spend cs i = ?r" using T by (simp add: quota_def min_absorb2)
  show lt: "spend < ?T \<Longrightarrow> quota spend cs i < ?r"
  proof -
    assume a: "spend < ?T"
    have "quota spend cs i * ?T \<le> spend * ?r"
      using a T by (simp add: quota_def min_def minus_mod_eq_div_mult [symmetric])
    also have "\<dots> < ?r * ?T" using a r by (simp add: mult.commute)
    finally show "quota spend cs i < ?r" using T by (simp add: mult_less_cancel_right_pos)
  qed
  show "quota spend cs i \<le> ?r" using eq lt by (cases "spend < ?T") auto
qed

lemma bumped_full: "\<forall>c\<in>set cs. 0 < cs_remaining_credits c \<Longrightarrow> cs \<noteq> [] \<Longrightarrow>
    pool_sum cs \<le> spend \<Longrightarrow> bumped spend cs = {}"
proof -
  assume a: "\<forall>c\<in>set cs. 0 < cs_remaining_credits c" "cs \<noteq> []" "pool_sum cs \<le> spend"
  have s: "0 \<le> spend" using pool_sum_pos [OF a(1,2)] a(3) by simp
  have "(\<Sum>i<length cs. quota spend cs i) = (\<Sum>i<length cs. cs_remaining_credits (cs ! i))"
    using quota_bounds(4) [OF a(1) s _ a(3)] by (intro sum.cong) auto
  also have "\<dots> = pool_sum cs" by (simp add: sum_list_sum_nth atLeast0LessThan)
  finally have "card (bumped spend cs) = 0" using bumped_card(2) [OF a(1) s a(2)] a(3) by simp
  moreover have "finite (bumped spend cs)"
    using bumped_card(1) [OF a(1) s a(2)] by (rule finite_subset) simp
  ultimately show ?thesis by simp
qed

lemma pro_rata_sum:
  assumes pos: "\<forall>c\<in>set cs. 0 < cs_remaining_credits c" and spend: "0 \<le> spend" and ne: "cs \<noteq> []"
  shows "(\<Sum>r\<leftarrow>pro_rata_reductions spend cs. taken r) = min spend (pool_sum cs)"
proof -
  let ?R = "pro_rata_reductions spend cs"
  have fin: "bumped spend cs \<subseteq> {..<length cs}" by (rule bumped_card(1) [OF pos spend ne])
  have "(\<Sum>r\<leftarrow>?R. taken r) = (\<Sum>i<length cs. taken (?R ! i))"
    by (simp add: sum_list_sum_nth atLeast0LessThan)
  also have "\<dots> = (\<Sum>i<length cs. quota spend cs i + (if i \<in> bumped spend cs then 1 else 0))"
    using pro_rata_nth [OF pos spend] by (intro sum.cong) auto
  also have "\<dots> = (\<Sum>i<length cs. quota spend cs i) + int (card (bumped spend cs))"
    using fin by (simp add: sum.distrib sum.If_cases Int_absorb1 Int_absorb2)
  finally show ?thesis using bumped_card(2) [OF pos spend ne] by simp
qed

lemma pro_rata_taken_bounds:
  assumes pos: "\<forall>c\<in>set cs. 0 < cs_remaining_credits c" and spend: "0 \<le> spend"
    and i: "i < length cs"
  shows "0 \<le> taken (pro_rata_reductions spend cs ! i)"
    and "taken (pro_rata_reductions spend cs ! i) \<le> cs_remaining_credits (cs ! i)"
proof -
  have "cs \<noteq> []" using i by auto
  then have "0 \<le> quota spend cs i" "quota spend cs i \<le> cs_remaining_credits (cs ! i)"
    "i \<in> bumped spend cs \<Longrightarrow> quota spend cs i < cs_remaining_credits (cs ! i)"
    using quota_bounds [OF pos spend i] bumped_full [OF pos, of spend] by force+
  then show "0 \<le> taken (pro_rata_reductions spend cs ! i)"
    and "taken (pro_rata_reductions spend cs ! i) \<le> cs_remaining_credits (cs ! i)"
    using pro_rata_nth [OF pos spend i] by (cases "i \<in> bumped spend cs"; simp)+
qed

section \<open>Properties\<close>

text \<open>
C24. The pro-rata division is exact and safe. Over any non-empty list of contributions with credits
left, the credits taken add up to the spend capped at what the pool holds, each contribution
gives its floored quota or one credit more, and none gives more than it has (so the
\<open>max(0)\<close> of the source never bites).
\<close>

theorem pro_rata_exact:
  assumes pos: "\<forall>c\<in>set cs. 0 < cs_remaining_credits c" and spend: "0 \<le> spend" and ne: "cs \<noteq> []"
  shows "(\<Sum>r\<leftarrow>pro_rata_reductions spend cs. taken r) = min spend (pool_sum cs) \<and>
    length (pro_rata_reductions spend cs) = length cs \<and>
    (\<forall>i<length cs.
      quota spend cs i \<le> taken (pro_rata_reductions spend cs ! i) \<and>
      taken (pro_rata_reductions spend cs ! i) \<le> quota spend cs i + 1 \<and>
      0 \<le> taken (pro_rata_reductions spend cs ! i) \<and>
      taken (pro_rata_reductions spend cs ! i) \<le> cs_remaining_credits (cs ! i))"
  using pro_rata_sum [OF assms] pro_rata_taken_bounds [OF pos spend] pro_rata_nth [OF pos spend]
  by simp

theorem pro_rata_exact_witness:
  "(\<Sum>r\<leftarrow>pro_rata_reductions 10
      [\<lparr>cs_contribution_id = ''a'', cs_remaining_credits = 7, cs_created_at = 1\<rparr>,
       \<lparr>cs_contribution_id = ''b'', cs_remaining_credits = 7, cs_created_at = 2\<rparr>,
       \<lparr>cs_contribution_id = ''c'', cs_remaining_credits = 3, cs_created_at = 3\<rparr>]. taken r) = 10"
proof -
  define cs where "cs =
    [\<lparr>cs_contribution_id = ''a'', cs_remaining_credits = 7, cs_created_at = 1\<rparr>,
     \<lparr>cs_contribution_id = ''b'', cs_remaining_credits = 7, cs_created_at = 2\<rparr>,
     \<lparr>cs_contribution_id = ''c'', cs_remaining_credits = (3::int), cs_created_at = 3\<rparr>]"
  have h: "\<forall>c\<in>set cs. 0 < cs_remaining_credits c" "cs \<noteq> []" by (simp_all add: cs_def)
  show ?thesis
    using pro_rata_exact [OF h(1) _ h(2), of 10] by (simp add: cs_def)
qed

lemma leftover_order_sorted:
  "sorted (map (\<lambda>(_, remainder, created_at, cid). (- remainder, created_at, cid))
     (leftover_order rs))"
  unfolding leftover_order_def by (rule sorted_sort_key)

lemma leftover_order_entry:
  assumes "x \<in> set (leftover_order rs)"
  shows "fst x < length rs" and "fst (snd x) = remainder_of (rs ! fst x)"
  using assms
  by (auto simp: leftover_order_def in_set_enumerate_eq remainder_of_def split: prod.splits)

lemma sorted_wrt_split:
  assumes "sorted (map k xs)" and "x \<in> set (take n xs)" and "y \<in> set (drop n xs)"
  shows "k x \<le> k y"
proof -
  have "sorted (map k (take n xs) @ map k (drop n xs))"
    using assms(1) by (simp flip: map_append)
  then show ?thesis using assms(2,3) by (auto simp: sorted_append)
qed

text \<open>
The credits left over by the floors go to the largest remainders: a contribution that gives one
credit above its floored quota has a remainder at least as large as every contribution that does
not.
\<close>

theorem pro_rata_largest_remainder:
  assumes pos: "\<forall>c\<in>set cs. 0 < cs_remaining_credits c" and spend: "0 \<le> spend"
    and i: "i < length cs" "taken (pro_rata_reductions spend cs ! i) = quota spend cs i + 1"
    and j: "j < length cs" "taken (pro_rata_reductions spend cs ! j) = quota spend cs j"
  shows "min spend (pool_sum cs) * cs_remaining_credits (cs ! j) mod pool_sum cs
    \<le> min spend (pool_sum cs) * cs_remaining_credits (cs ! i) mod pool_sum cs"
proof -
  let ?T = "pool_sum cs" let ?s = "min spend ?T" let ?rs = "map (base_reduction ?s ?T) cs"
  let ?n = "nat (?s - (\<Sum>r\<leftarrow>?rs. taken r))" let ?o = "leftover_order ?rs"
  let ?k = "\<lambda>(_, remainder, created_at, cid). (- remainder, created_at, cid)"
  have T: "0 < ?T" by (rule pool_sum_pos) (use pos i in auto)
  have rem: "remainder_of (?rs ! m) = ?s * cs_remaining_credits (cs ! m) mod ?T"
    if "m < length cs" for m
    using that pos spend T by (simp add: base_reduction_taken less_imp_le)
  have b: "bumped spend cs = fst ` set (take ?n ?o)"
    by (simp only: bumped_def Let_def take_map set_map)
  have "i \<in> bumped spend cs" "j \<notin> bumped spend cs"
    using i j pro_rata_nth [OF pos spend] by (force split: if_splits)+
  then obtain x where x: "x \<in> set (take ?n ?o)" "fst x = i" by (auto simp: b)
  have "j \<in> set (map fst ?o)" using leftover_order_props(2) [of ?rs] j by simp
  then obtain y where y: "y \<in> set ?o" "fst y = j" by auto
  have "y \<in> set (take ?n ?o) \<union> set (drop ?n ?o)"
    using y(1) by (metis append_take_drop_id set_append)
  then have "y \<in> set (drop ?n ?o)" using \<open>j \<notin> bumped spend cs\<close> y by (auto simp: b)
  from sorted_wrt_split [OF leftover_order_sorted x(1) this]
  have "fst (snd y) \<le> fst (snd x)" by (auto split: prod.splits simp: less_eq_prod_def)
  then show ?thesis
    using leftover_order_entry(2) [OF y(1)] leftover_order_entry(2) [of x ?rs] x y rem i j
      in_set_takeD [OF x(1)] by simp
qed

theorem pro_rata_largest_remainder_witness:
  "(10 * 7 mod 17 :: int) \<le> 10 * 3 mod 17"
proof -
  define cs where "cs =
    [\<lparr>cs_contribution_id = ''a'', cs_remaining_credits = 7, cs_created_at = 1\<rparr>,
     \<lparr>cs_contribution_id = ''b'', cs_remaining_credits = 7, cs_created_at = 2\<rparr>,
     \<lparr>cs_contribution_id = ''c'', cs_remaining_credits = (3::int), cs_created_at = 3\<rparr>]"
  have pos: "\<forall>c\<in>set cs. 0 < cs_remaining_credits c" by (simp add: cs_def)
  have i: "taken (pro_rata_reductions 10 cs ! 2) = quota 10 cs 2 + 1"
    unfolding cs_def by code_simp
  have j: "taken (pro_rata_reductions 10 cs ! 0) = quota 10 cs 0"
    unfolding cs_def by code_simp
  have "min 10 (pool_sum cs) * cs_remaining_credits (cs ! 0) mod pool_sum cs
      \<le> min 10 (pool_sum cs) * cs_remaining_credits (cs ! 2) mod pool_sum cs"
    by (rule pro_rata_largest_remainder [OF pos _ _ i _ j]) (simp_all add: cs_def)
  then show ?thesis by (simp add: cs_def)
qed

text \<open>
The \<open>i128\<close> products of the division never overflow and the quotients and remainders it casts back
to \<open>i64\<close> fit: for any contribution and spend in the \<open>i64\<close> range, with a positive pool total in that
range, the numerator is below \<open>2 ^ 127\<close> in magnitude and, when the spend is at most the total, the
floored quota and the remainder lie in the \<open>i64\<close> range.
\<close>

theorem pro_rata_no_overflow:
  assumes "0 \<le> spend" "spend \<le> tot" "0 < tot" "tot \<le> i64_max"
    and "0 \<le> cs_remaining_credits c" "cs_remaining_credits c \<le> i64_max"
  shows "spend * cs_remaining_credits c < 2 ^ 127 \<and>
    in_i64 (taken (base_reduction spend tot c)) \<and>
    in_i64 (remainder_of (base_reduction spend tot c))"
proof (intro conjI)
  let ?r = "cs_remaining_credits c"
  have "spend * ?r \<le> i64_max * i64_max" by (rule mult_mono) (use assms in \<open>auto simp: i64_max_def\<close>)
  also have "\<dots> < 2 ^ 127" by (simp add: i64_max_def)
  finally show "spend * ?r < 2 ^ 127" .
  have "spend * ?r div tot \<le> tot * ?r div tot"
    by (rule zdiv_mono1) (use assms in \<open>auto intro: mult_right_mono\<close>)
  then have "spend * ?r div tot \<le> ?r" using assms(3) by simp
  moreover have "0 \<le> spend * ?r div tot" using assms by (simp add: pos_imp_zdiv_nonneg_iff)
  ultimately show "in_i64 (taken (base_reduction spend tot c))"
    using assms by (simp add: base_reduction_taken i64_defs)
  have eq: "remainder_of (base_reduction spend tot c) = spend * ?r mod tot"
    by (rule base_reduction_taken(2)) (use assms in auto)
  have "0 \<le> remainder_of (base_reduction spend tot c)"
    "remainder_of (base_reduction spend tot c) < tot" using assms(3) by (simp_all add: eq)
  then show "in_i64 (remainder_of (base_reduction spend tot c))"
    using assms(4) by (simp add: i64_defs)
qed

theorem pro_rata_no_overflow_witness:
  "in_i64 (taken (base_reduction i64_max i64_max
     \<lparr>cs_contribution_id = ''a'', cs_remaining_credits = i64_max, cs_created_at = 0\<rparr>))"
  by (rule pro_rata_no_overflow [THEN conjunct2, THEN conjunct1]) (simp_all add: i64_max_def)

end
