(* ===== verification/Share_Keys.thy ===== *)
theory Share_Keys
  imports Device_Wallets Pro_Rata
begin

text \<open>
  Share keys (\<open>gateway/src/ledger.rs\<close>): bearer tokens backed by a pool of credits that the issuer
  and third parties fund. The theory holds the pool's contributions, the debit of a spend over
  them (by the division of \<open>Pro_Rata\<close>), minting, funding, refunds on expiry and revocation,
  and the two start-up passes that bring old rows forward. Fresh identifiers are arguments; in
  a loop over keys they are functions of the key.
\<close>

section \<open>Bounds\<close>

definition SHARE_KEY_MIN_EXPIRES_IN :: int where "SHARE_KEY_MIN_EXPIRES_IN = 60"

definition SHARE_KEY_MAX_EXPIRES_IN :: int where "SHARE_KEY_MAX_EXPIRES_IN = 30 * 86400"

definition SHARE_KEY_MIN_BUDGET :: int where "SHARE_KEY_MIN_BUDGET = 1"

definition SHARE_KEY_MAX_BUDGET :: int where "SHARE_KEY_MAX_BUDGET = 50000000"

definition SHARE_KEY_MAX_ACTIVE_PER_ISSUER :: nat where "SHARE_KEY_MAX_ACTIVE_PER_ISSUER = 50"

definition SHARE_KEY_MAX_LABEL_LEN :: nat where "SHARE_KEY_MAX_LABEL_LEN = 64"

section \<open>Contributions\<close>

definition funded_note :: "string \<Rightarrow> string" where
  "funded_note key = ''share_key:'' @ key @ '' funded''"

definition refunded_note :: "string \<Rightarrow> string \<Rightarrow> string" where
  "refunded_note key reason = ''share_key:'' @ key @ '' refunded ('' @ reason @ '')''"

definition retroactive_note :: "string \<Rightarrow> string" where
  "retroactive_note key = ''share_key:'' @ key @ '' retroactive funding''"

definition insert_share_key_contribution_tx ::
  "string \<Rightarrow> string \<Rightarrow> string \<Rightarrow> int \<Rightarrow> int \<Rightarrow> int \<Rightarrow> int option \<Rightarrow> string option \<Rightarrow>
   gateway_db \<Rightarrow> anyhow + gateway_db" where
  "insert_share_key_contribution_tx cid key funder funded remaining created refunded reason db =
     (if has_row (\<lambda>r. skc_contribution_id r = cid) (share_key_contributions db)
         \<or> \<not> has_row (\<lambda>r. sk_key_id r = key) (share_keys db)
         \<or> \<not> device_exists db funder
         \<or> \<not> funded > 0
      then Inl ConstraintViolation
      else Inr (db\<lparr>share_key_contributions := share_key_contributions db @
        [\<lparr>skc_contribution_id = cid, skc_key_id = key, skc_funder_device_id = funder,
          skc_funded_credits = funded, skc_remaining_credits = max remaining 0,
          skc_created_at = created, skc_refunded_at = refunded, skc_refund_reason = reason\<rparr>]\<rparr>))"

definition sum_share_key_contributions_tx :: "gateway_db \<Rightarrow> string \<Rightarrow> int" where
  "sum_share_key_contributions_tx db key = table_sum skc_remaining_credits
     (filter (\<lambda>r. skc_key_id r = key) (share_key_contributions db))"

definition update_share_key ::
  "string \<Rightarrow> (share_key_row \<Rightarrow> share_key_row) \<Rightarrow> gateway_db \<Rightarrow> gateway_db" where
  [stmt_defs]: "update_share_key key f db =
     db\<lparr>share_keys := sql_update (\<lambda>r. sk_key_id r = key) f (share_keys db)\<rparr>"

definition ensure_share_key_funding_id_tx ::
  "string \<Rightarrow> string \<Rightarrow> string option \<Rightarrow> gateway_db \<Rightarrow> anyhow + gateway_db \<times> string" where
  "ensure_share_key_funding_id_tx fresh key existing db = (case existing of
      Some i \<Rightarrow> Inr (db, i)
    | None \<Rightarrow>
        if has_row (\<lambda>r. sk_key_id r = key) (share_keys db) \<and>
           has_row (\<lambda>r. sk_key_id r \<noteq> key \<and> sk_funding_id r = Some fresh) (share_keys db)
        then Inl ConstraintViolation
        else Inr (update_share_key key (\<lambda>r. r\<lparr>sk_funding_id := Some fresh\<rparr>) db, fresh))"

definition contribution_order :: "contribution_row list \<Rightarrow> contribution_row list" where
  "contribution_order = sort_key (\<lambda>r. (skc_created_at r, skc_contribution_id r))"

section \<open>Refunds\<close>

definition close_contribution ::
  "int \<Rightarrow> string \<Rightarrow> string \<Rightarrow> gateway_db \<Rightarrow> gateway_db" where
  [stmt_defs]: "close_contribution settled_at reason cid db = db\<lparr>share_key_contributions :=
     sql_update (\<lambda>r. skc_contribution_id r = cid)
       (\<lambda>r. r\<lparr>skc_remaining_credits := 0, skc_refunded_at := Some settled_at,
          skc_refund_reason := Some reason\<rparr>) (share_key_contributions db)\<rparr>"

definition refund_contribution ::
  "string \<Rightarrow> int \<Rightarrow> string \<Rightarrow> contribution_row \<Rightarrow> gateway_db \<Rightarrow> gateway_db" where
  "refund_contribution key settled_at reason row db =
     (let funder = skc_funder_device_id row; remaining = skc_remaining_credits row;
          db1 = ensure_balance funder db;
          db2 = (if remaining > 0
                 then insert_ledger funder (as_str ShareKeyRefund) remaining settled_at None
                   (Some (refunded_note key reason))
                   (update_balance funder (row_move remaining) db1)
                 else db1)
      in close_contribution settled_at reason (skc_contribution_id row) db2)"

definition refund_step ::
  "string \<Rightarrow> int \<Rightarrow> string \<Rightarrow> contribution_row \<Rightarrow> gateway_db \<times> nat \<times> int \<Rightarrow> gateway_db \<times> nat \<times> int" where
  "refund_step key settled_at reason row st = (case st of (db, n, c) \<Rightarrow>
     (refund_contribution key settled_at reason row db,
      if skc_remaining_credits row > 0 then n + 1 else n,
      if skc_remaining_credits row > 0 then c + skc_remaining_credits row else c))"

definition open_contributions :: "gateway_db \<Rightarrow> string \<Rightarrow> contribution_row list" where
  "open_contributions db key = contribution_order
     (filter (\<lambda>r. skc_key_id r = key \<and> skc_refunded_at r = None) (share_key_contributions db))"

definition refund_share_key_contributions_tx ::
  "string \<Rightarrow> int \<Rightarrow> string \<Rightarrow> gateway_db \<Rightarrow> gateway_db \<times> nat \<times> int" where
  "refund_share_key_contributions_tx key settled_at reason db =
     fold (refund_step key settled_at reason) (open_contributions db key) (db, 0, 0)"

section \<open>Pro-rata debit of the pool\<close>

definition set_remaining :: "string \<Rightarrow> int \<Rightarrow> gateway_db \<Rightarrow> gateway_db" where
  [stmt_defs]: "set_remaining cid v db = db\<lparr>share_key_contributions :=
     sql_update (\<lambda>r. skc_contribution_id r = cid) (\<lambda>r. r\<lparr>skc_remaining_credits := v\<rparr>)
       (share_key_contributions db)\<rparr>"

definition live_contributions :: "gateway_db \<Rightarrow> string \<Rightarrow> ShareKeyContributionState list" where
  "live_contributions db key =
     map (\<lambda>r. \<lparr>cs_contribution_id = skc_contribution_id r,
            cs_remaining_credits = skc_remaining_credits r, cs_created_at = skc_created_at r\<rparr>)
       (contribution_order (filter (\<lambda>r. skc_key_id r = key \<and> skc_remaining_credits r > 0)
         (share_key_contributions db)))"

definition apply_pro_rata_share_key_spend_tx ::
  "string \<Rightarrow> int \<Rightarrow> gateway_db \<Rightarrow> gateway_db" where
  "apply_pro_rata_share_key_spend_tx key spend db =
     (if spend \<le> 0 then db
      else let contributions = live_contributions db key
        in if contributions = [] then db
           else if (\<Sum>c\<leftarrow>contributions. cs_remaining_credits c) \<le> 0 then db
           else fold (\<lambda>(c, (_, reduction, _, _)).
               set_remaining (cs_contribution_id c) (max (cs_remaining_credits c - reduction) 0))
             (zip contributions (pro_rata_reductions spend contributions)) db)"

section \<open>Minting a key\<close>

record ShareKeyMinted =
  km_key_id :: string
  km_funding_id :: string
  km_token :: string
  km_label :: "string option"
  km_budget_credits :: int
  km_expires_at :: int
  km_created_at :: int

definition insert_share_key :: "share_key_row \<Rightarrow> gateway_db \<Rightarrow> anyhow + gateway_db" where
  "insert_share_key row db =
     (if has_row (\<lambda>r. sk_key_id r = sk_key_id row) (share_keys db)
         \<or> has_row (\<lambda>r. sk_token r = sk_token row) (share_keys db)
         \<or> (sk_funding_id row \<noteq> None \<and>
            has_row (\<lambda>r. sk_funding_id r = sk_funding_id row) (share_keys db))
         \<or> \<not> device_exists db (sk_issuer_device_id row)
         \<or> \<not> sk_budget_credits row > 0
      then Inl ConstraintViolation
      else Inr (db\<lparr>share_keys := share_keys db @ [row]\<rparr>))"

definition normalize_label :: "string option \<Rightarrow> string option" where
  "normalize_label label = normalized_optional_string label"

record share_key_ids =
  ki_key_id :: string
  ki_funding_id :: string
  ki_token :: string
  ki_contribution_id :: string

definition active_share_keys :: "int \<Rightarrow> string \<Rightarrow> gateway_db \<Rightarrow> nat" where
  "active_share_keys now issuer db = length (filter (\<lambda>r. sk_issuer_device_id r = issuer \<and>
     sk_revoked_at r = None \<and> sk_expires_at r > now) (share_keys db))"

definition mint_share_key ::
  "int \<Rightarrow> share_key_ids \<Rightarrow> string \<Rightarrow> string option \<Rightarrow> int \<Rightarrow> int \<Rightarrow> gateway_db \<Rightarrow>
   anyhow + gateway_db \<times> ShareKeyMinted" where
  "mint_share_key now ids issuer label expires_in budget db =
     rbind (ensure (SHARE_KEY_MIN_EXPIRES_IN \<le> expires_in \<and> expires_in \<le> SHARE_KEY_MAX_EXPIRES_IN)
       (Bail (''expiresInSeconds must be between '' @ show_int SHARE_KEY_MIN_EXPIRES_IN @ '' and ''
          @ show_int SHARE_KEY_MAX_EXPIRES_IN))) (\<lambda>_.
     rbind (ensure (SHARE_KEY_MIN_BUDGET \<le> budget \<and> budget \<le> SHARE_KEY_MAX_BUDGET)
       (Bail (''budgetCredits must be between '' @ show_int SHARE_KEY_MIN_BUDGET @ '' and ''
          @ show_int SHARE_KEY_MAX_BUDGET))) (\<lambda>_.
     let label = normalize_label label in
     rbind (ensure (\<not> (case label of None \<Rightarrow> False | Some l \<Rightarrow> length l > SHARE_KEY_MAX_LABEL_LEN))
       \<comment> \<open>the message of the source has the sign for at most, which is no character below 256\<close>
       (Bail (''label must be <= '' @ show_nat SHARE_KEY_MAX_LABEL_LEN @ '' chars''))) (\<lambda>_.
     rbind (ensure (\<not> active_share_keys now issuer db \<ge> SHARE_KEY_MAX_ACTIVE_PER_ISSUER)
       (Bail (''too many active share keys ('' @ show_nat SHARE_KEY_MAX_ACTIVE_PER_ISSUER @ '' max)''))) (\<lambda>_.
     let db1 = ensure_balance issuer db in
     rbind (ok_or QueryReturnedNoRows (balance_row_of db1 issuer)) (\<lambda>brow.
     rbind (ensure (\<not> bal_balance brow < budget)
       (Bail (''insufficient wallet balance: have '' @ show_int (bal_balance brow) @ '', need ''
          @ show_int budget))) (\<lambda>_.
     let expires_at = now + expires_in in
     rbind (insert_share_key \<lparr>sk_key_id = ki_key_id ids, sk_token = ki_token ids,
         sk_issuer_device_id = issuer, sk_label = label, sk_expires_at = expires_at,
         sk_budget_credits = budget, sk_consumed_credits = 0, sk_created_at = now,
         sk_revoked_at = None, sk_funded = 1, sk_funding_id = Some (ki_funding_id ids),
         sk_refunds_settled_at = None\<rparr> db1) (\<lambda>db2.
     let db3 = update_balance issuer (row_move (- budget)) db2;
         db4 = insert_ledger issuer (as_str ShareKeyFund) (- budget) now None
           (Some (funded_note (ki_key_id ids))) db3 in
     rbind (insert_share_key_contribution_tx (ki_contribution_id ids) (ki_key_id ids) issuer budget
         budget now None None db4) (\<lambda>db5.
     Inr (db5, \<lparr>km_key_id = ki_key_id ids, km_funding_id = ki_funding_id ids,
       km_token = ki_token ids, km_label = label, km_budget_credits = budget,
       km_expires_at = expires_at, km_created_at = now\<rparr>)))))))))"

section \<open>Funding by a third party\<close>

datatype FundShareKeyError =
    FundNotFound | FundRevoked | FundExpired | FundNotMigrated
  | FundInsufficientBalance int int

record ShareKeyFundingReceipt =
  fr_funding_id :: string
  fr_key_id :: string
  fr_funded_credits :: int
  fr_budget_credits :: int
  fr_consumed_credits :: int
  fr_remaining_credits :: int
  fr_sender_balance_credits :: int
  fr_expires_at :: int

definition transfer_to_share_key ::
  "int \<Rightarrow> string \<Rightarrow> string \<Rightarrow> string \<Rightarrow> int \<Rightarrow> gateway_db \<Rightarrow>
   FundShareKeyError + gateway_db \<times> ShareKeyFundingReceipt" where
  "transfer_to_share_key now cid sender funding_id amount db =
     rbind (ensure (\<not> amount \<le> 0) (FundInsufficientBalance 0 (max amount 1))) (\<lambda>_.
     rbind (ok_or FundNotFound (find (\<lambda>r. sk_funding_id r = Some funding_id) (share_keys db)))
       (\<lambda>target.
     rbind (ensure (sk_revoked_at target = None) FundRevoked) (\<lambda>_.
     rbind (ensure (\<not> sk_expires_at target \<le> now) FundExpired) (\<lambda>_.
     rbind (ensure (sk_funded target = 1) FundNotMigrated) (\<lambda>_.
     let db1 = ensure_balance sender (ensure_device now sender db);
         sender_balance = balance_of db1 sender in
     rbind (ensure (\<not> sender_balance < amount) (FundInsufficientBalance sender_balance amount)) (\<lambda>_.
     let db2 = update_balance sender (row_move (- amount)) db1 in
     rbind (ensure (\<not> (\<exists>r\<in>set (share_keys db2). sk_key_id r = sk_key_id target \<and>
         \<not> sk_budget_credits r + amount > 0)) FundNotFound) (\<lambda>_.
     let db3 = update_share_key (sk_key_id target)
           (\<lambda>r. r\<lparr>sk_budget_credits := sk_budget_credits r + amount\<rparr>) db2 in
     rbind (map_err (\<lambda>_. FundNotFound) (insert_share_key_contribution_tx cid (sk_key_id target)
         sender amount amount now None None db3)) (\<lambda>db4.
     let db5 = insert_ledger sender (as_str ShareKeyFund) (- amount) now None
           (Some (funded_note (sk_key_id target))) db4 in
     Inr (db5, \<lparr>fr_funding_id = funding_id, fr_key_id = sk_key_id target,
       fr_funded_credits = amount, fr_budget_credits = sk_budget_credits target + amount,
       fr_consumed_credits = sk_consumed_credits target,
       fr_remaining_credits = sum_share_key_contributions_tx db5 (sk_key_id target),
       fr_sender_balance_credits = sender_balance - amount,
       fr_expires_at = sk_expires_at target\<rparr>)))))))))"

section \<open>Expiry and revocation\<close>

record ExpiredShareKeyRefundReport =
  er_keys_closed :: nat
  er_contributions_refunded :: nat
  er_credits_refunded :: int

definition settle_refunds :: "int \<Rightarrow> string \<Rightarrow> gateway_db \<Rightarrow> gateway_db" where
  [stmt_defs]: "settle_refunds now key db =
     update_share_key key (\<lambda>r. r\<lparr>sk_refunds_settled_at := Some now\<rparr>) db"

definition expire_step ::
  "int \<Rightarrow> string \<Rightarrow> gateway_db \<times> ExpiredShareKeyRefundReport \<Rightarrow>
   gateway_db \<times> ExpiredShareKeyRefundReport" where
  "expire_step now key st = (case st of (db, report) \<Rightarrow>
     case refund_share_key_contributions_tx key now ''expired'' db of (db1, rows, credits) \<Rightarrow>
     (settle_refunds now key db1,
      report\<lparr>er_keys_closed := er_keys_closed report + 1,
        er_contributions_refunded := er_contributions_refunded report + rows,
        er_credits_refunded := er_credits_refunded report + credits\<rparr>))"

definition expired_unsettled_keys :: "int \<Rightarrow> gateway_db \<Rightarrow> string list" where
  "expired_unsettled_keys now db = map sk_key_id (filter (\<lambda>r. sk_funded r = 1 \<and>
     sk_revoked_at r = None \<and> sk_expires_at r \<le> now \<and> sk_refunds_settled_at r = None)
     (share_keys db))"

definition refund_expired_share_keys ::
  "int \<Rightarrow> gateway_db \<Rightarrow> gateway_db \<times> ExpiredShareKeyRefundReport" where
  "refund_expired_share_keys now db = fold (expire_step now) (expired_unsettled_keys now db)
     (db, \<lparr>er_keys_closed = 0, er_contributions_refunded = 0, er_credits_refunded = 0\<rparr>)"

definition revoke_share_key ::
  "int \<Rightarrow> string \<Rightarrow> string \<Rightarrow> gateway_db \<Rightarrow> gateway_db \<times> bool" where
  "revoke_share_key now issuer key db =
     (case find (\<lambda>r. sk_key_id r = key \<and> sk_issuer_device_id r = issuer \<and> sk_revoked_at r = None)
        (share_keys db) of
        None \<Rightarrow> (db, False)
      | Some row \<Rightarrow>
          (let db1 = update_share_key key (\<lambda>r. r\<lparr>sk_revoked_at := Some now\<rparr>) db
           in if sk_funded row = 1 \<and> sk_refunds_settled_at row = None
              then (settle_refunds now key
                (fst (refund_share_key_contributions_tx key now ''revoked'' db1)), True)
              else (db1, True)))"

section \<open>Resolving and listing\<close>

datatype ShareKeyRejection = Expired | Revoked | Exhausted

record ResolvedShareKey =
  rk_key_id :: string
  rk_issuer_device_id :: string
  rk_budget_credits :: int
  rk_consumed_credits :: int
  rk_expires_at :: int

definition resolved_remaining :: "ResolvedShareKey \<Rightarrow> int" where
  "resolved_remaining k = max (rk_budget_credits k - rk_consumed_credits k) 0"

definition resolve_share_key ::
  "int \<Rightarrow> string \<Rightarrow> gateway_db \<Rightarrow> ShareKeyRejection + ResolvedShareKey option" where
  "resolve_share_key now token db = (case find (\<lambda>r. sk_token r = token) (share_keys db) of
      None \<Rightarrow> Inr None
    | Some r \<Rightarrow>
        if sk_revoked_at r \<noteq> None then Inl Revoked
        else if sk_expires_at r \<le> now then Inl Expired
        else if sk_consumed_credits r \<ge> sk_budget_credits r then Inl Exhausted
        else Inr (Some \<lparr>rk_key_id = sk_key_id r, rk_issuer_device_id = sk_issuer_device_id r,
          rk_budget_credits = sk_budget_credits r, rk_consumed_credits = sk_consumed_credits r,
          rk_expires_at = sk_expires_at r\<rparr>))"

record ShareKeyPublic =
  kp_key_id :: string
  kp_funding_id :: string
  kp_label :: "string option"
  kp_budget_credits :: int
  kp_consumed_credits :: int
  kp_remaining_credits :: int
  kp_expires_at :: int
  kp_created_at :: int
  kp_revoked_at :: "int option"

text \<open>A row whose \<open>funding_id\<close> is still \<open>NULL\<close> does not convert to a \<open>ShareKeyPublic\<close> and is dropped
  by the \<open>filter_map\<close>.\<close>

definition list_share_keys :: "gateway_db \<Rightarrow> string \<Rightarrow> ShareKeyPublic list" where
  "list_share_keys db issuer = List.map_filter
     (\<lambda>sk. map_option (\<lambda>fid. \<lparr>kp_key_id = sk_key_id sk, kp_funding_id = fid,
        kp_label = sk_label sk, kp_budget_credits = sk_budget_credits sk,
        kp_consumed_credits = sk_consumed_credits sk,
        kp_remaining_credits = (if sk_funded sk = 1 then sum_share_key_contributions_tx db (sk_key_id sk)
          else sk_budget_credits sk - sk_consumed_credits sk),
        kp_expires_at = sk_expires_at sk, kp_created_at = sk_created_at sk,
        kp_revoked_at = sk_revoked_at sk\<rparr>) (sk_funding_id sk))
     (sort_key (\<lambda>sk. - sk_created_at sk)
       (filter (\<lambda>sk. sk_issuer_device_id sk = issuer) (share_keys db)))"

record ShareKeyPreview =
  kv_label :: "string option"
  kv_budget_credits :: int
  kv_consumed_credits :: int
  kv_expires_at :: int
  kv_issuer_display_name :: "string option"

definition issuer_display_name :: "gateway_db \<Rightarrow> string \<Rightarrow> string option" where
  "issuer_display_name db d = (case find (\<lambda>r. dev_device_id r = d) (devices db) of
      None \<Rightarrow> None | Some r \<Rightarrow> dev_username r)"

definition preview_share_key :: "gateway_db \<Rightarrow> string \<Rightarrow> ShareKeyPreview option" where
  "preview_share_key db token = (case find (\<lambda>r. sk_token r = token) (share_keys db) of
      None \<Rightarrow> None
    | Some r \<Rightarrow>
        if sk_revoked_at r \<noteq> None then None
        else Some \<lparr>kv_label = sk_label r, kv_budget_credits = sk_budget_credits r,
          kv_consumed_credits = sk_consumed_credits r, kv_expires_at = sk_expires_at r,
          kv_issuer_display_name = issuer_display_name db (sk_issuer_device_id r)\<rparr>)"

record ShareKeyFundingPreview =
  fv_funding_id :: string
  fv_label :: "string option"
  fv_issuer_display_name :: "string option"
  fv_budget_credits :: int
  fv_consumed_credits :: int
  fv_remaining_credits :: int
  fv_expires_at :: int

definition preview_share_key_funding ::
  "int \<Rightarrow> string \<Rightarrow> gateway_db \<Rightarrow> ShareKeyFundingPreview option" where
  "preview_share_key_funding now funding_id db =
     (case find (\<lambda>r. sk_funding_id r = Some funding_id) (share_keys db) of
        None \<Rightarrow> None
      | Some r \<Rightarrow>
          if sk_revoked_at r \<noteq> None \<or> sk_expires_at r \<le> now \<or> sk_funded r \<noteq> 1 then None
          else Some \<lparr>fv_funding_id = funding_id, fv_label = sk_label r,
            fv_issuer_display_name = issuer_display_name db (sk_issuer_device_id r),
            fv_budget_credits = sk_budget_credits r, fv_consumed_credits = sk_consumed_credits r,
            fv_remaining_credits = sum_share_key_contributions_tx db (sk_key_id r),
            fv_expires_at = sk_expires_at r\<rparr>)"

section \<open>Bringing old rows forward\<close>

record ShareKeyMigrationReport =
  mr_funded_fully :: nat
  mr_funded_partially :: nat
  mr_skipped_revoked :: nat
  mr_total_debited_credits :: int
  mr_total_shrunk_credits :: int

definition set_budget_funded ::
  "string \<Rightarrow> int \<Rightarrow> gateway_db \<Rightarrow> anyhow + gateway_db" where
  "set_budget_funded key budget db =
     (if has_row (\<lambda>r. sk_key_id r = key) (share_keys db) \<and> \<not> budget > 0
      then Inl ConstraintViolation
      else Inr (update_share_key key (\<lambda>r. r\<lparr>sk_budget_credits := budget, sk_funded := 1\<rparr>) db))"

definition migrate_dead ::
  "int \<Rightarrow> string \<Rightarrow> share_key_row \<Rightarrow> gateway_db \<Rightarrow> anyhow + gateway_db" where
  "migrate_dead now cid row db =
     (let revoked_or = (\<lambda>d. case sk_revoked_at row of None \<Rightarrow> d | Some t \<Rightarrow> t);
          db1 = update_share_key (sk_key_id row)
            (\<lambda>r. r\<lparr>sk_funded := 1, sk_refunds_settled_at := Some (revoked_or now)\<rparr>) db
      in insert_share_key_contribution_tx cid (sk_key_id row) (sk_issuer_device_id row)
           (max (sk_budget_credits row) 1) 0 (revoked_or (sk_expires_at row))
           (Some (revoked_or now))
           (Some (if sk_revoked_at row \<noteq> None then ''legacy_revoked'' else ''legacy_expired'')) db1)"

definition migrate_live ::
  "int \<Rightarrow> string \<Rightarrow> share_key_row \<Rightarrow> gateway_db \<times> ShareKeyMigrationReport \<Rightarrow>
   anyhow + gateway_db \<times> ShareKeyMigrationReport" where
  "migrate_live now cid row st = (case st of (db, report) \<Rightarrow>
     let key = sk_key_id row; issuer = sk_issuer_device_id row; budget = sk_budget_credits row;
         consumed = sk_consumed_credits row; owed = max (budget - consumed) 0;
         mark = update_share_key key (\<lambda>r. r\<lparr>sk_funded := 1\<rparr>) in
     if owed = 0
     then rbind (insert_share_key_contribution_tx cid key issuer (max budget 1) 0 now None None (mark db))
       (\<lambda>db1. Inr (db1, report\<lparr>mr_funded_fully := mr_funded_fully report + 1\<rparr>))
     else
       let db1 = ensure_balance issuer db in
       rbind (ok_or QueryReturnedNoRows (balance_row_of db1 issuer)) (\<lambda>brow.
       let debit = min owed (max (bal_balance brow) 0); new_budget = consumed + debit;
           db2 = (if debit > 0
                  then insert_ledger issuer (as_str ShareKeyFund) (- debit) now None
                    (Some (retroactive_note key))
                    (update_balance issuer (row_move (- debit)) db1)
                  else db1) in
       rbind (if new_budget < budget
              then rbind (set_budget_funded key new_budget db2) (\<lambda>db3.
                Inr (db3, report\<lparr>mr_funded_partially := mr_funded_partially report + 1,
                  mr_total_shrunk_credits := mr_total_shrunk_credits report + (budget - new_budget)\<rparr>))
              else Inr (mark db2, report\<lparr>mr_funded_fully := mr_funded_fully report + 1\<rparr>))
         (\<lambda>(db3, report1).
       rbind (insert_share_key_contribution_tx cid key issuer (max debit 1) debit now None None db3)
         (\<lambda>db4. Inr (db4, report1\<lparr>mr_total_debited_credits :=
            mr_total_debited_credits report1 + debit\<rparr>)))))"

definition migrate_step ::
  "int \<Rightarrow> (string \<Rightarrow> string) \<Rightarrow> (string \<Rightarrow> string) \<Rightarrow> share_key_row \<Rightarrow>
   gateway_db \<times> ShareKeyMigrationReport \<Rightarrow> anyhow + gateway_db \<times> ShareKeyMigrationReport" where
  "migrate_step now new_funding_id new_cid row st = (case st of (db, report) \<Rightarrow>
     rbind (ensure_share_key_funding_id_tx (new_funding_id (sk_key_id row)) (sk_key_id row)
         (sk_funding_id row) db) (\<lambda>(db1, _).
     if sk_revoked_at row \<noteq> None \<or> sk_expires_at row \<le> now
     then rbind (migrate_dead now (new_cid (sk_key_id row)) row db1) (\<lambda>db2.
       Inr (db2, report\<lparr>mr_skipped_revoked := mr_skipped_revoked report + 1\<rparr>))
     else migrate_live now (new_cid (sk_key_id row)) row (db1, report)))"

definition migrate_unfunded_share_keys ::
  "int \<Rightarrow> (string \<Rightarrow> string) \<Rightarrow> (string \<Rightarrow> string) \<Rightarrow> gateway_db \<Rightarrow>
   anyhow + gateway_db \<times> ShareKeyMigrationReport" where
  "migrate_unfunded_share_keys now new_funding_id new_cid db =
     rfold (migrate_step now new_funding_id new_cid)
       (filter (\<lambda>r. sk_funded r = 0) (share_keys db))
       (db, \<lparr>mr_funded_fully = 0, mr_funded_partially = 0, mr_skipped_revoked = 0,
          mr_total_debited_credits = 0, mr_total_shrunk_credits = 0\<rparr>)"

record ShareKeyContributionBackfillReport =
  br_keys_backfilled :: nat
  br_funding_ids_backfilled :: nat
  br_contributions_backfilled :: nat

definition backfill_contribution ::
  "int \<Rightarrow> string \<Rightarrow> share_key_row \<Rightarrow> gateway_db \<Rightarrow> anyhow + gateway_db" where
  "backfill_contribution now cid row db =
     (let key = sk_key_id row; issuer = sk_issuer_device_id row; budget = sk_budget_credits row in
      case sk_revoked_at row of
        Some revoked_at \<Rightarrow>
          insert_share_key_contribution_tx cid key issuer (max budget 1) 0 revoked_at
            (Some (case sk_refunds_settled_at row of None \<Rightarrow> revoked_at | Some t \<Rightarrow> t))
            (Some ''legacy_revoked'') db
      | None \<Rightarrow>
          if sk_expires_at row \<le> now \<and> sk_refunds_settled_at row \<noteq> None
          then insert_share_key_contribution_tx cid key issuer (max budget 1) 0 (sk_expires_at row)
            (sk_refunds_settled_at row) (Some ''legacy_expired_refunded'') db
          else insert_share_key_contribution_tx cid key issuer (max budget 1)
            (max (budget - sk_consumed_credits row) 0) now None None db)"

definition backfill_step ::
  "int \<Rightarrow> (string \<Rightarrow> string) \<Rightarrow> (string \<Rightarrow> string) \<Rightarrow> share_key_row \<times> nat \<Rightarrow>
   gateway_db \<times> ShareKeyContributionBackfillReport \<Rightarrow>
   anyhow + gateway_db \<times> ShareKeyContributionBackfillReport" where
  "backfill_step now new_funding_id new_cid rc st = (case (rc, st) of ((row, contribution_count), (db, report)) \<Rightarrow>
     rbind (if sk_funding_id row = None
            then rbind (ensure_share_key_funding_id_tx (new_funding_id (sk_key_id row))
                (sk_key_id row) None db) (\<lambda>(db1, _).
              Inr (db1, report\<lparr>br_funding_ids_backfilled := br_funding_ids_backfilled report + 1\<rparr>))
            else Inr (db, report)) (\<lambda>(db1, report1).
     if contribution_count > 0 then Inr (db1, report1)
     else rbind (backfill_contribution now (new_cid (sk_key_id row)) row db1) (\<lambda>db2.
       Inr (db2, report1\<lparr>br_keys_backfilled := br_keys_backfilled report1 + 1,
         br_contributions_backfilled := br_contributions_backfilled report1 + 1\<rparr>))))"

definition backfill_funded_share_key_contributions ::
  "int \<Rightarrow> (string \<Rightarrow> string) \<Rightarrow> (string \<Rightarrow> string) \<Rightarrow> gateway_db \<Rightarrow>
   anyhow + gateway_db \<times> ShareKeyContributionBackfillReport" where
  "backfill_funded_share_key_contributions now new_funding_id new_cid db =
     rfold (backfill_step now new_funding_id new_cid)
       (map (\<lambda>r. (r, length (filter (\<lambda>c. skc_key_id c = sk_key_id r) (share_key_contributions db))))
         (filter (\<lambda>r. sk_funded r = 1) (share_keys db)))
       (db, \<lparr>br_keys_backfilled = 0, br_funding_ids_backfilled = 0,
          br_contributions_backfilled = 0\<rparr>)"

end
