(* ===== verification/Share_Key_Pools.thy ===== *)
theory Share_Key_Pools
  imports Share_Keys
begin

text \<open>
  What the share-key operations do to the pools: refunds return to every funder exactly what is left
  of their contributions, a spend takes exactly its amount out of the pool, and a live key's budget
  less its consumption is the amount its pool holds.
\<close>

section \<open>Sums over the contributions\<close>

text \<open>The pool observers are sums over a part of the contributions that is chosen by columns no
  statement of a refund or a spend writes.\<close>

definition pool_where :: "(contribution_row \<Rightarrow> bool) \<Rightarrow> gateway_db \<Rightarrow> int" where
  "pool_where P db = table_sum skc_remaining_credits (filter P (share_key_contributions db))"

lemma pool_of_where: "pool_of db k = pool_where (\<lambda>r. skc_key_id r = k) db"
  by (simp add: pool_of_def pool_where_def)

lemma pool_credits_where: "pool_credits db = pool_where (\<lambda>_. True) db"
  by (simp add: pool_credits_def pool_where_def)

lemma sum_contributions_pool [simp]: "sum_share_key_contributions_tx db k = pool_of db k"
  by (simp add: pool_of_def sum_share_key_contributions_tx_def)

lemma filter_sql_update:
  "(\<And>r. P (f r) = P r) \<Longrightarrow> filter P (sql_update Q f t) = sql_update Q f (filter P t)"
  by (induction t) auto

lemma sql_update_sum_one:
  assumes "distinct (map key t)" and "r \<in> set t"
  shows "table_sum amt (sql_update (\<lambda>x. key x = key r) f t) = table_sum amt t + (amt (f r) - amt r)"
  using assms
proof (induction t)
  case (Cons x t)
  show ?case
  proof (cases "key x = key r")
    case True
    then have "x = r" and "key r \<notin> key ` set t" using Cons.prems by (auto simp: image_iff)
    moreover have "sql_update (\<lambda>x. key x = key r) f t = t"
      using calculation by (intro sql_update_no_match) (metis imageI)
    ultimately show ?thesis by simp
  qed (use Cons in auto)
qed simp

lemma update_contribution_sum:
  assumes "distinct (map skc_contribution_id t)" and "r \<in> set t" and "\<And>x. P (f x) = P x"
  shows "table_sum amt (filter P (sql_update (\<lambda>x. skc_contribution_id x = skc_contribution_id r) f t)) =
    table_sum amt (filter P t) + (if P r then amt (f r) - amt r else 0)"
proof (cases "P r")
  case True
  have "distinct (map skc_contribution_id (filter P t))"
    using assms(1) by (rule distinct_map_filter)
  then show ?thesis
    using True assms(2) sql_update_sum_one [of skc_contribution_id "filter P t" r amt f]
    by (simp add: filter_sql_update assms(3))
next
  case False
  have "x = r" if "x \<in> set t" "skc_contribution_id x = skc_contribution_id r" for x
    using that assms(1,2) by (auto simp: distinct_map inj_on_def)
  then have "sql_update (\<lambda>x. skc_contribution_id x = skc_contribution_id r) f (filter P t) = filter P t"
    using False by (intro sql_update_no_match) auto
  then show ?thesis using False by (simp add: filter_sql_update assms(3))
qed

lemma db_ok_contributions:
  assumes "db_ok db" and "map skc_contribution_id t = map skc_contribution_id (share_key_contributions db)"
    and "\<And>r. r \<in> set t \<Longrightarrow> 0 \<le> skc_remaining_credits r"
  shows "db_ok (db\<lparr>share_key_contributions := t\<rparr>)"
  using assms by (auto simp: db_ok_def keys_ok_def wallets_nonneg_def list_all_iff)

section \<open>Refunds\<close>

lemma close_contribution_frame [simp]:
  "balance_of (close_contribution t reason cid db) = balance_of db"
  "device_credits (close_contribution t reason cid db) = device_credits db"
  "account_balance_of (close_contribution t reason cid db) = account_balance_of db"
  "provider_balance_of (close_contribution t reason cid db) = provider_balance_of db"
  "account_credits (close_contribution t reason cid db) = account_credits db"
  "provider_credits (close_contribution t reason cid db) = provider_credits db"
  "share_keys (close_contribution t reason cid db) = share_keys db"
  by (auto simp: obs_defs stmt_defs fun_eq_iff)

lemma close_contribution_ok [simp]:
  assumes "db_ok db" shows "db_ok (close_contribution t reason cid db)"
proof -
  have "map skc_contribution_id (share_key_contributions (close_contribution t reason cid db)) =
      map skc_contribution_id (share_key_contributions db)"
    by (simp add: stmt_defs sql_update_key_map)
  then show ?thesis using assms
    by (auto simp: db_ok_def keys_ok_def wallets_nonneg_def stmt_defs list_all_iff set_sql_update)
qed

lemma refund_contribution_wallets:
  assumes "db_ok db" and "0 \<le> skc_remaining_credits row"
  shows "device_credits (refund_contribution key t reason row db) =
      device_credits db + skc_remaining_credits row"
    and "balance_of (refund_contribution key t reason row db) d = balance_of db d +
      (if d = skc_funder_device_id row then skc_remaining_credits row else 0)"
    and "db_ok (refund_contribution key t reason row db)"
  using assms balance_of_nonneg [of db "skc_funder_device_id row"]
  by (auto simp: refund_contribution_def Let_def move_obs move_ok db_ok_nonneg)

interpretation refund: credit_loop "refund_contribution key t reason" skc_funder_device_id
  skc_remaining_credits device_credits balance_of db_ok "\<lambda>r. 0 \<le> skc_remaining_credits r"
  by unfold_locales (simp_all add: refund_contribution_wallets)

lemma refund_contribution_frame [simp]:
  "account_balance_of (refund_contribution key t reason row db) = account_balance_of db"
  "provider_balance_of (refund_contribution key t reason row db) = provider_balance_of db"
  "account_credits (refund_contribution key t reason row db) = account_credits db"
  "provider_credits (refund_contribution key t reason row db) = provider_credits db"
  by (auto simp: refund_contribution_def Let_def)

definition closed_row :: "int \<Rightarrow> string \<Rightarrow> contribution_row \<Rightarrow> contribution_row" where
  "closed_row t reason r = r\<lparr>skc_remaining_credits := 0, skc_refunded_at := Some t,
     skc_refund_reason := Some reason\<rparr>"

lemma refund_contribution_tables:
  "share_keys (refund_contribution key t reason row db) = share_keys db"
  "devices (refund_contribution key t reason row db) = devices db"
  "share_key_contributions (refund_contribution key t reason row db) =
     sql_update (\<lambda>r. skc_contribution_id r = skc_contribution_id row) (closed_row t reason)
       (share_key_contributions db)"
  by (auto simp: refund_contribution_def Let_def stmt_defs closed_row_def [abs_def])

lemma refund_loop_frame:
  "account_balance_of (fold (refund_contribution key t reason) rows db) = account_balance_of db"
  "provider_balance_of (fold (refund_contribution key t reason) rows db) = provider_balance_of db"
  "account_credits (fold (refund_contribution key t reason) rows db) = account_credits db"
  "provider_credits (fold (refund_contribution key t reason) rows db) = provider_credits db"
  "share_keys (fold (refund_contribution key t reason) rows db) = share_keys db"
  "devices (fold (refund_contribution key t reason) rows db) = devices db"
  by (induction rows arbitrary: db) (simp_all add: refund_contribution_tables)

lemma refund_loop_contributions:
  "share_key_contributions (fold (refund_contribution key t reason) rows db) =
     fold (\<lambda>row. sql_update (\<lambda>r. skc_contribution_id r = skc_contribution_id row)
       (closed_row t reason)) rows (share_key_contributions db)"
  by (induction rows arbitrary: db) (simp_all add: refund_contribution_tables)

lemma refund_fold:
  assumes "\<And>r. r \<in> set rows \<Longrightarrow> 0 \<le> skc_remaining_credits r"
  shows "fold (refund_step key t reason) rows (db, n, c) =
    (fold (refund_contribution key t reason) rows db,
     n + length (filter (\<lambda>r. skc_remaining_credits r > 0) rows),
     c + table_sum skc_remaining_credits rows)"
  using assms
proof (induction rows arbitrary: db n c)
  case (Cons r rows)
  then have "skc_remaining_credits r > 0 \<or> skc_remaining_credits r = 0"
    by (auto simp: le_less)
  then show ?case using Cons by (auto simp: refund_step_def)
qed simp

definition is_open :: "string \<Rightarrow> contribution_row \<Rightarrow> bool" where
  "is_open key r \<longleftrightarrow> skc_key_id r = key \<and> skc_refunded_at r = None"

lemma open_contributions_set:
  "set (open_contributions db key) = {r \<in> set (share_key_contributions db). is_open key r}"
  by (auto simp: open_contributions_def contribution_order_def is_open_def)

lemma open_contributions_mset:
  "mset (open_contributions db key) = mset (filter (is_open key) (share_key_contributions db))"
  by (simp add: open_contributions_def contribution_order_def is_open_def)

lemma mset_table_sum: "mset s = mset t \<Longrightarrow> table_sum f s = table_sum f t"
  by (metis mset_map sum_mset_sum_list table_sum_def)

lemma mset_distinct_map: "mset s = mset t \<Longrightarrow> distinct (map f t) \<Longrightarrow> distinct (map f s)"
  by (metis mset_eq_imp_distinct_iff mset_map)

lemma open_contributions_distinct:
  "keys_ok db \<Longrightarrow> distinct (map skc_contribution_id (open_contributions db key))"
  by (rule mset_distinct_map [OF open_contributions_mset])
     (simp add: keys_ok_def distinct_map_filter)

lemma refund_closes:
  assumes "keys_ok db"
  shows "fold (\<lambda>row. sql_update (\<lambda>r. skc_contribution_id r = skc_contribution_id row)
      (closed_row t reason)) (open_contributions db key) (share_key_contributions db) =
    map (\<lambda>r. if is_open key r then closed_row t reason r else r) (share_key_contributions db)"
proof -
  have "(case find (\<lambda>x. skc_contribution_id x = skc_contribution_id r) (open_contributions db key) of
      None \<Rightarrow> r | Some x \<Rightarrow> closed_row t reason r) =
      (if is_open key r then closed_row t reason r else r)"
    if r: "r \<in> set (share_key_contributions db)" for r
  proof (cases "is_open key r")
    case True
    then have "find (\<lambda>x. skc_contribution_id x = skc_contribution_id r) (open_contributions db key)
        = Some r"
      using r assms by (intro find_key_unique open_contributions_distinct)
        (auto simp: open_contributions_set)
    then show ?thesis using True by simp
  next
    case False
    have "x = r" if "x \<in> set (share_key_contributions db)"
        "skc_contribution_id x = skc_contribution_id r" for x
      using that r assms by (auto simp: keys_ok_def distinct_map inj_on_def)
    then have "find (\<lambda>x. skc_contribution_id x = skc_contribution_id r) (open_contributions db key)
        = None"
      using False by (auto simp: find_None_iff open_contributions_set)
    then show ?thesis using False by simp
  qed
  then show ?thesis
    by (subst fold_sql_update_key [OF _ open_contributions_distinct [OF assms]])
       (auto simp: closed_row_def)
qed

lemma close_open_sum:
  assumes "\<And>r. P (closed_row t reason r) = P r"
  shows "table_sum skc_remaining_credits
      (filter P (map (\<lambda>r. if is_open key r then closed_row t reason r else r) rows)) =
    table_sum skc_remaining_credits (filter P rows) -
    table_sum skc_remaining_credits (filter (\<lambda>r. P r \<and> is_open key r) rows)"
  by (induction rows) (auto simp: assms, simp add: closed_row_def)

definition refunded_clear :: "gateway_db \<Rightarrow> bool" where
  "refunded_clear db \<longleftrightarrow> list_all (\<lambda>r. skc_refunded_at r \<noteq> None \<longrightarrow> skc_remaining_credits r = 0)
     (share_key_contributions db)"

lemma refunded_clear_open:
  assumes "refunded_clear db"
  shows "pool_where (is_open key) db = pool_of db key"
proof -
  have "table_sum skc_remaining_credits (filter (is_open key) rows) =
      table_sum skc_remaining_credits (filter (\<lambda>r. skc_key_id r = key) rows)"
    if "\<And>r. r \<in> set rows \<Longrightarrow> skc_refunded_at r \<noteq> None \<Longrightarrow> skc_remaining_credits r = 0" for rows
    using that by (induction rows) (auto simp: is_open_def)
  then show ?thesis
    using assms by (auto simp: pool_where_def pool_of_def refunded_clear_def list_all_iff)
qed

text \<open>The whole refund of a key: every funder gets back the sum of what is left of their open
  contributions, and the key's pool is empty afterwards.\<close>

lemma refund_effect:
  assumes ok: "db_ok db" and r: "refund_share_key_contributions_tx key t reason db = (db', n, c)"
  shows "db_ok db'"
    and "balance_of db' d = balance_of db d +
      pool_where (\<lambda>r. is_open key r \<and> skc_funder_device_id r = d) db"
    and "c = pool_where (is_open key) db"
    and "device_credits db' = device_credits db + c"
    and "pool_credits db' = pool_credits db - c"
    and "pool_of db' k = (if k = key then pool_of db k - c else pool_of db k)"
    and "account_balance_of db' = account_balance_of db"
    and "account_credits db' = account_credits db" and "provider_credits db' = provider_credits db"
    and "share_keys db' = share_keys db" and "devices db' = devices db"
    and "share_key_contributions db' =
      map (\<lambda>r. if is_open key r then closed_row t reason r else r) (share_key_contributions db)"
proof -
  let ?rows = "open_contributions db key" and ?t = "share_key_contributions db"
  have nn: "0 \<le> skc_remaining_credits x" if "x \<in> set ?rows" for x
    using ok that by (auto simp: open_contributions_set db_ok_def wallets_nonneg_def list_all_iff)
  have db': "db' = fold (refund_contribution key t reason) ?rows db"
    and c: "c = table_sum skc_remaining_credits ?rows"
    using r refund_fold [OF nn, of ?rows key t reason db 0 0]
    by (simp_all add: refund_share_key_contributions_tx_def)
  note ms = mset_table_sum [OF open_contributions_mset]
  show "db_ok db'" unfolding db' by (rule refund.loop_inv [OF ok nn])
  have "(\<Sum>x\<leftarrow>xs. if f x = d then g x else 0) = table_sum g (filter (\<lambda>x. f x = d) xs)"
    for xs :: "contribution_row list" and f :: "contribution_row \<Rightarrow> string" and g d
    by (induction xs) auto
  moreover have "mset (filter Q ?rows) = mset (filter (\<lambda>r. is_open key r \<and> Q r) ?t)" for Q
    by (simp add: open_contributions_mset filter_filter_mset conj_commute)
  ultimately show "balance_of db' d = balance_of db d +
      pool_where (\<lambda>r. is_open key r \<and> skc_funder_device_id r = d) db"
    unfolding db' using refund.loop_wallet [OF ok nn]
    by (simp add: pool_where_def mset_table_sum)
  show c': "c = pool_where (is_open key) db" by (simp add: c ms pool_where_def)
  show "device_credits db' = device_credits db + c"
    unfolding db' using refund.loop_total [OF ok nn] by (simp add: c table_sum_def)
  show cs: "share_key_contributions db' = map (\<lambda>r. if is_open key r then closed_row t reason r else r) ?t"
    using ok by (simp add: db' refund_loop_contributions refund_closes)
  show "pool_credits db' = pool_credits db - c"
    using close_open_sum [of "\<lambda>_. True" t reason key ?t] by (simp add: pool_credits_def cs c' pool_where_def)
  have "filter (\<lambda>r. skc_key_id r = k \<and> is_open key r) ?t =
      (if k = key then filter (is_open key) ?t else [])"
    by (auto simp: is_open_def intro!: filter_cong)
  then show "pool_of db' k = (if k = key then pool_of db k - c else pool_of db k)"
    using close_open_sum [of "\<lambda>r. skc_key_id r = k" t reason key ?t]
    by (simp add: pool_of_def cs c' pool_where_def closed_row_def)
  show "account_balance_of db' = account_balance_of db"
    and "account_credits db' = account_credits db" and "provider_credits db' = provider_credits db"
    and "share_keys db' = share_keys db" and "devices db' = devices db"
    by (simp_all add: db' refund_loop_frame)
qed

section \<open>Spending from a pool\<close>

definition spend_row ::
  "ShareKeyContributionState \<times> reduction \<Rightarrow> contribution_row list \<Rightarrow> contribution_row list" where
  "spend_row x = sql_update (\<lambda>r. skc_contribution_id r = cs_contribution_id (fst x))
     (\<lambda>r. r\<lparr>skc_remaining_credits := max (cs_remaining_credits (fst x) - taken (snd x)) 0\<rparr>)"

lemma spend_fold:
  "fold (\<lambda>(c, (_, reduction, _, _)). set_remaining (cs_contribution_id c)
      (max (cs_remaining_credits c - reduction) 0)) xs db =
     db\<lparr>share_key_contributions := fold spend_row xs (share_key_contributions db)\<rparr>"
  by (induction xs arbitrary: db)
     (auto simp: stmt_defs spend_row_def taken_def split: prod.splits)

text \<open>A pair of the loop reads a row as it still is in the table.\<close>

definition reads :: "string \<Rightarrow> contribution_row list \<Rightarrow> ShareKeyContributionState \<times> reduction \<Rightarrow> bool" where
  "reads key t x \<longleftrightarrow> 0 \<le> taken (snd x) \<and> taken (snd x) \<le> cs_remaining_credits (fst x) \<and>
     (\<exists>r\<in>set t. skc_contribution_id r = cs_contribution_id (fst x) \<and> skc_key_id r = key \<and>
        skc_remaining_credits r = cs_remaining_credits (fst x))"

lemma spend_loop_sum:
  assumes "distinct (map skc_contribution_id t)" and "distinct (map (cs_contribution_id \<circ> fst) xs)"
    and "\<And>x. x \<in> set xs \<Longrightarrow> reads key t x"
    and "\<And>r v. P (r\<lparr>skc_remaining_credits := v\<rparr>) = P r"
    and "\<And>r. skc_key_id r = key \<Longrightarrow> P r = b"
  shows "table_sum skc_remaining_credits (filter P (fold spend_row xs t)) =
    table_sum skc_remaining_credits (filter P t) - (if b then (\<Sum>x\<leftarrow>xs. taken (snd x)) else 0)"
  using assms(1-3)
proof (induction xs arbitrary: t)
  case (Cons x xs)
  obtain r where r: "r \<in> set t" "skc_contribution_id r = cs_contribution_id (fst x)"
    "skc_key_id r = key" "skc_remaining_credits r = cs_remaining_credits (fst x)"
    and tk: "0 \<le> taken (snd x)" "taken (snd x) \<le> cs_remaining_credits (fst x)"
    using Cons.prems(3) [of x] by (auto simp: reads_def)
  have sum: "table_sum skc_remaining_credits (filter P (spend_row x t)) =
      table_sum skc_remaining_credits (filter P t) - (if b then taken (snd x) else 0)"
    using update_contribution_sum [OF Cons.prems(1) r(1), of P _ skc_remaining_credits] assms(4)
      assms(5) [OF r(3)] r tk by (simp add: spend_row_def)
  have "distinct (map skc_contribution_id (spend_row x t))"
    using Cons.prems(1) by (simp add: spend_row_def sql_update_key_map)
  moreover have "reads key (spend_row x t) y" if y: "y \<in> set xs" for y
  proof -
    have "cs_contribution_id (fst y) \<noteq> cs_contribution_id (fst x)"
      using Cons.prems(2) y by (auto simp: image_iff)
    then show ?thesis
      using Cons.prems(3) [of y] y by (fastforce simp: reads_def spend_row_def set_sql_update)
  qed
  ultimately show ?case using Cons.IH [of "spend_row x t"] Cons.prems(2) sum by simp
qed simp

lemma live_contributions_mset:
  "mset (map cs_remaining_credits (live_contributions db key)) =
     mset (map skc_remaining_credits
       (filter (\<lambda>r. skc_key_id r = key \<and> skc_remaining_credits r > 0) (share_key_contributions db)))"
  by (simp add: live_contributions_def contribution_order_def multiset.map_comp comp_def)

lemma live_contributions_pool:
  assumes "wallets_nonneg db"
  shows "pool_sum (live_contributions db key) = pool_of db key"
proof -
  have live: "table_sum skc_remaining_credits
        (filter (\<lambda>r. skc_key_id r = key \<and> skc_remaining_credits r > 0) t) =
      table_sum skc_remaining_credits (filter (\<lambda>r. skc_key_id r = key) t)"
    if "\<And>r. r \<in> set t \<Longrightarrow> 0 \<le> skc_remaining_credits r" for t
    using that by (induction t) (auto simp: le_less)
  have "pool_sum (live_contributions db key) = table_sum skc_remaining_credits
      (filter (\<lambda>r. skc_key_id r = key \<and> skc_remaining_credits r > 0) (share_key_contributions db))"
    using live_contributions_mset [of db key] by (metis sum_mset_sum_list table_sum_def)
  also have "\<dots> = pool_of db key"
    unfolding pool_of_def
    by (rule live) (use assms in \<open>auto simp: wallets_nonneg_def list_all_iff\<close>)
  finally show ?thesis .
qed

lemma live_contributions_row:
  assumes "c \<in> set (live_contributions db key)"
  shows "\<exists>r\<in>set (share_key_contributions db). skc_contribution_id r = cs_contribution_id c \<and>
    skc_key_id r = key \<and> skc_remaining_credits r = cs_remaining_credits c"
    and "0 < cs_remaining_credits c"
  using assms by (auto simp: live_contributions_def contribution_order_def)

lemma live_contributions_distinct:
  assumes "keys_ok db" shows "distinct (map cs_contribution_id (live_contributions db key))"
proof -
  let ?F = "filter (\<lambda>r. skc_key_id r = key \<and> skc_remaining_credits r > 0) (share_key_contributions db)"
  have "map cs_contribution_id (live_contributions db key) =
      map skc_contribution_id (contribution_order ?F)"
    by (simp add: live_contributions_def)
  moreover have "distinct (map skc_contribution_id (contribution_order ?F))"
    by (rule mset_distinct_map [where t = ?F])
       (use assms in \<open>simp_all add: contribution_order_def keys_ok_def distinct_map_filter\<close>)
  ultimately show ?thesis by simp
qed

lemma spend_loop_map:
  assumes "distinct (map (cs_contribution_id \<circ> fst) xs)"
  shows "fold spend_row xs t =
    map (\<lambda>r. case find (\<lambda>x. (cs_contribution_id \<circ> fst) x = skc_contribution_id r) xs of
      None \<Rightarrow> r
    | Some x \<Rightarrow> r\<lparr>skc_remaining_credits := max (cs_remaining_credits (fst x) - taken (snd x)) 0\<rparr>) t"
  using fold_sql_update_key [where key = skc_contribution_id and
      f = "\<lambda>x r. r\<lparr>skc_remaining_credits := max (cs_remaining_credits (fst x) - taken (snd x)) 0\<rparr>" and
      xs = xs and g = "cs_contribution_id \<circ> fst" and t = t, OF _ assms]
  by (simp add: spend_row_def [abs_def])

text \<open>The pairs the loop of a spend runs over.\<close>

definition spend_pairs ::
  "string \<Rightarrow> int \<Rightarrow> gateway_db \<Rightarrow> (ShareKeyContributionState \<times> reduction) list" where
  "spend_pairs key spend db = (if spend \<le> 0 then []
     else zip (live_contributions db key) (pro_rata_reductions spend (live_contributions db key)))"

lemma apply_pro_rata_pairs:
  assumes "db_ok db"
  shows "apply_pro_rata_share_key_spend_tx key spend db =
    db\<lparr>share_key_contributions := fold spend_row (spend_pairs key spend db) (share_key_contributions db)\<rparr>"
proof -
  have "live_contributions db key = []" if "pool_sum (live_contributions db key) \<le> 0"
    using that pool_sum_pos [of "live_contributions db key"] live_contributions_row(2) by force
  then show ?thesis
    by (auto simp: apply_pro_rata_share_key_spend_tx_def Let_def spend_fold spend_pairs_def)
qed

lemma spend_pairs_reads:
  assumes "x \<in> set (spend_pairs key spend db)"
  shows "reads key (share_key_contributions db) x" and "0 < cs_remaining_credits (fst x)"
proof -
  let ?cs = "live_contributions db key"
  have pos: "\<forall>c\<in>set ?cs. 0 < cs_remaining_credits c" by (simp add: live_contributions_row)
  obtain i where i: "i < length ?cs" "x = (?cs ! i, pro_rata_reductions spend ?cs ! i)" "0 \<le> spend"
    using assms by (auto simp: spend_pairs_def in_set_zip split: if_splits)
  have "?cs ! i \<in> set ?cs" using i by simp
  from live_contributions_row [OF this] pro_rata_taken_bounds [OF pos i(3,1)]
  show "reads key (share_key_contributions db) x" and "0 < cs_remaining_credits (fst x)"
    by (auto simp: reads_def i(2))
qed

lemma spend_pairs_distinct:
  "keys_ok db \<Longrightarrow> distinct (map (cs_contribution_id \<circ> fst) (spend_pairs key spend db))"
  using live_contributions_distinct [of db key]
  by (simp add: spend_pairs_def flip: map_map)

lemma spend_pairs_sum:
  assumes "db_ok db"
  shows "(\<Sum>x\<leftarrow>spend_pairs key spend db. taken (snd x)) = min (max spend 0) (pool_of db key)"
proof -
  let ?cs = "live_contributions db key"
  have pos: "\<forall>c\<in>set ?cs. 0 < cs_remaining_credits c" by (simp add: live_contributions_row)
  have pool: "pool_sum ?cs = pool_of db key" "0 \<le> pool_of db key"
    using assms by (auto intro: live_contributions_pool pool_of_nonneg)
  have "map (\<lambda>x. taken (snd x)) (zip ?cs (pro_rata_reductions spend ?cs)) =
      map taken (pro_rata_reductions spend ?cs)" by (rule nth_equalityI) simp_all
  then show ?thesis
    using pro_rata_sum [OF pos, of spend] pool
    by (cases "?cs = []") (auto simp: spend_pairs_def)
qed

lemma spend_pool_where:
  assumes "db_ok db" and "\<And>r v. P (r\<lparr>skc_remaining_credits := v\<rparr>) = P r"
    and "\<And>r. skc_key_id r = key \<Longrightarrow> P r = b"
  shows "pool_where P (apply_pro_rata_share_key_spend_tx key spend db) =
    pool_where P db - (if b then min (max spend 0) (pool_of db key) else 0)"
proof -
  have "distinct (map skc_contribution_id (share_key_contributions db))" "keys_ok db"
    using assms(1) by (simp_all add: db_ok_def keys_ok_def)
  from spend_loop_sum [OF this(1) spend_pairs_distinct [OF this(2)] spend_pairs_reads(1) assms(2,3)]
  show ?thesis
    using spend_pairs_sum [OF assms(1), of key spend]
    by (simp add: apply_pro_rata_pairs [OF assms(1)] pool_where_def)
qed

text \<open>A spend rewrites only the remaining credits of the contributions; those that are used up
  stay used up.\<close>

lemma spend_rows:
  assumes ok: "db_ok db"
  shows "\<exists>f. share_key_contributions (apply_pro_rata_share_key_spend_tx key spend db) =
      map f (share_key_contributions db) \<and>
    (\<forall>r\<in>set (share_key_contributions db). \<exists>v\<ge>0. f r = r\<lparr>skc_remaining_credits := v\<rparr> \<and>
      (skc_remaining_credits r = 0 \<longrightarrow> v = 0))"
proof -
  let ?t = "share_key_contributions db" and ?xs = "spend_pairs key spend db"
  let ?find = "\<lambda>r. find (\<lambda>x. (cs_contribution_id \<circ> fst) x = skc_contribution_id r) ?xs"
  let ?f = "\<lambda>r. case ?find r of None \<Rightarrow> r
    | Some x \<Rightarrow> r\<lparr>skc_remaining_credits := max (cs_remaining_credits (fst x) - taken (snd x)) 0\<rparr>"
  have "share_key_contributions (apply_pro_rata_share_key_spend_tx key spend db) = map ?f ?t"
    using ok by (simp add: apply_pro_rata_pairs spend_loop_map spend_pairs_distinct)
  moreover have "\<exists>v\<ge>0. ?f r = r\<lparr>skc_remaining_credits := v\<rparr> \<and> (skc_remaining_credits r = 0 \<longrightarrow> v = 0)"
    if r: "r \<in> set ?t" for r
  proof (cases "?find r")
    case None
    have "0 \<le> skc_remaining_credits r"
      using ok r by (auto simp: db_ok_def wallets_nonneg_def list_all_iff)
    with None show ?thesis by (intro exI [of _ "skc_remaining_credits r"]) simp
  next
    case (Some x)
    then have x: "x \<in> set ?xs" "cs_contribution_id (fst x) = skc_contribution_id r"
      by (auto simp: find_Some_iff)
    obtain r' where "r' \<in> set ?t" "skc_contribution_id r' = skc_contribution_id r"
      "skc_remaining_credits r' > 0"
      using spend_pairs_reads [OF x(1)] x(2) by (auto simp: reads_def)
    then have "skc_remaining_credits r > 0"
      using ok r by (auto simp: db_ok_def keys_ok_def distinct_map inj_on_def)
    with Some show ?thesis
      by (intro exI [of _ "max (cs_remaining_credits (fst x) - taken (snd x)) 0"]) simp
  qed
  ultimately show ?thesis by blast
qed

lemma spend_frame [simp]:
  assumes "db_ok db"
  shows "balance_of (apply_pro_rata_share_key_spend_tx key spend db) = balance_of db"
    "device_credits (apply_pro_rata_share_key_spend_tx key spend db) = device_credits db"
    "account_balance_of (apply_pro_rata_share_key_spend_tx key spend db) = account_balance_of db"
    "account_credits (apply_pro_rata_share_key_spend_tx key spend db) = account_credits db"
    "provider_balance_of (apply_pro_rata_share_key_spend_tx key spend db) = provider_balance_of db"
    "provider_credits (apply_pro_rata_share_key_spend_tx key spend db) = provider_credits db"
    "share_keys (apply_pro_rata_share_key_spend_tx key spend db) = share_keys db"
    "has_balance (apply_pro_rata_share_key_spend_tx key spend db) = has_balance db"
  using assms by (auto simp: apply_pro_rata_pairs obs_defs has_balance_def fun_eq_iff)

lemma spend_db_ok [simp]:
  assumes ok: "db_ok db" shows "db_ok (apply_pro_rata_share_key_spend_tx key spend db)"
proof -
  let ?t = "share_key_contributions db"
  obtain f where f: "share_key_contributions (apply_pro_rata_share_key_spend_tx key spend db) = map f ?t"
    "\<And>r. r \<in> set ?t \<Longrightarrow> \<exists>v\<ge>0. f r = r\<lparr>skc_remaining_credits := v\<rparr>"
    using spend_rows [OF ok, of key spend] by metis
  then have "map skc_contribution_id (map f ?t) = map skc_contribution_id ?t" by fastforce
  moreover have "0 \<le> skc_remaining_credits r" if "r \<in> set (map f ?t)" for r
    using f(2) that by fastforce
  moreover have "fold spend_row (spend_pairs key spend db) ?t = map f ?t"
    using f(1) by (simp add: apply_pro_rata_pairs [OF ok])
  ultimately show ?thesis
    unfolding apply_pro_rata_pairs [OF ok] by (metis db_ok_contributions [OF ok])
qed

lemma spend_pool:
  assumes "db_ok db"
  shows "pool_of (apply_pro_rata_share_key_spend_tx key spend db) k =
      pool_of db k - (if k = key then min (max spend 0) (pool_of db key) else 0)"
    and "pool_credits (apply_pro_rata_share_key_spend_tx key spend db) =
      pool_credits db - min (max spend 0) (pool_of db key)"
  using spend_pool_where [OF assms, of "\<lambda>r. skc_key_id r = k" key "k = key" spend]
    spend_pool_where [OF assms, of "\<lambda>_. True" key True spend]
  by (auto simp: pool_of_where pool_credits_where)

section \<open>The pool invariant\<close>

text \<open>
  A funded key that is neither revoked nor settled has exactly its unconsumed budget in its pool, every
  other key an empty pool; a contribution belongs to a key, and one that was refunded holds
  nothing; a settled key is revoked or has expired by the clock.
\<close>

definition key_live :: "share_key_row \<Rightarrow> bool" where
  "key_live r \<longleftrightarrow> sk_funded r = 1 \<and> sk_revoked_at r = None \<and> sk_refunds_settled_at r = None"

definition key_pool_ok :: "gateway_db \<Rightarrow> share_key_row \<Rightarrow> bool" where
  "key_pool_ok db r \<longleftrightarrow> sk_consumed_credits r \<le> sk_budget_credits r \<and>
     pool_of db (sk_key_id r) =
       (if key_live r then sk_budget_credits r - sk_consumed_credits r else 0)"

definition key_clock_ok :: "int \<Rightarrow> share_key_row \<Rightarrow> bool" where
  "key_clock_ok clock r \<longleftrightarrow>
     (sk_refunds_settled_at r \<noteq> None \<longrightarrow> sk_revoked_at r \<noteq> None \<or> sk_expires_at r \<le> clock)"

definition contributions_ok :: "gateway_db \<Rightarrow> bool" where
  "contributions_ok db \<longleftrightarrow> refunded_clear db \<and>
     list_all (\<lambda>c. has_row (\<lambda>r. sk_key_id r = skc_key_id c) (share_keys db)) (share_key_contributions db)"

definition pools_ok :: "int \<Rightarrow> gateway_db \<Rightarrow> bool" where
  "pools_ok clock db \<longleftrightarrow> list_all (key_pool_ok db) (share_keys db) \<and>
     list_all (key_clock_ok clock) (share_keys db) \<and> contributions_ok db"

lemma pools_ok_clock: "pools_ok clock db \<Longrightarrow> clock \<le> now \<Longrightarrow> pools_ok now db"
  by (auto simp: pools_ok_def list_all_iff key_clock_ok_def)

lemma pools_okD:
  assumes "pools_ok clock db" "r \<in> set (share_keys db)"
  shows "key_pool_ok db r" "key_clock_ok clock r"
  using assms by (auto simp: pools_ok_def list_all_iff)

text \<open>Statements that write neither keys nor contributions keep the invariant.\<close>

lemma pools_ok_same:
  assumes "share_keys db' = share_keys db"
    and "share_key_contributions db' = share_key_contributions db"
  shows "pools_ok clock db' = pools_ok clock db"
  using assms
  by (simp add: pools_ok_def contributions_ok_def refunded_clear_def key_pool_ok_def pool_of_def
      fun_eq_iff list_all_iff)

lemma update_share_key_tables [simp]:
  "share_key_contributions (update_share_key key f db) = share_key_contributions db"
  "balances (update_share_key key f db) = balances db"
  "devices (update_share_key key f db) = devices db"
  "same_wallets db (update_share_key key f db)"
  by (simp_all add: stmt_defs same_wallets_def)

lemmas update_share_key_obs [simp] = same_wallets_obs [OF update_share_key_tables(4)]

lemma update_share_key_ok [simp]:
  assumes "\<And>r. sk_key_id (f r) = sk_key_id r"
  shows "db_ok (update_share_key key f db) = db_ok db"
  using sql_update_key_map [of sk_key_id f "\<lambda>r. sk_key_id r = key" "share_keys db"] assms
  by (simp add: db_ok_def keys_ok_def wallets_nonneg_def stmt_defs)

text \<open>One key's row is rewritten and the contributions change for that key only.\<close>

lemma pools_ok_update:
  assumes ok: "pools_ok clock db" and keys: "\<And>r. sk_key_id (f r) = sk_key_id r"
    and sk: "share_keys db' = sql_update (\<lambda>r. sk_key_id r = key) f (share_keys db)"
    and other: "\<And>k. k \<noteq> key \<Longrightarrow> pool_of db' k = pool_of db k"
    and rw: "\<And>r. r \<in> set (share_keys db) \<Longrightarrow> sk_key_id r = key \<Longrightarrow>
      key_pool_ok db' (f r) \<and> key_clock_ok clock (f r)"
    and clear: "refunded_clear db'"
    and fk: "skc_key_id ` set (share_key_contributions db') \<subseteq>
      skc_key_id ` set (share_key_contributions db) \<union> sk_key_id ` set (share_keys db)"
  shows "pools_ok clock db'"
proof -
  have row: "key_pool_ok db' r \<and> key_clock_ok clock r" if r: "r \<in> set (share_keys db')" for r
  proof -
    obtain r0 where r0: "r0 \<in> set (share_keys db)" "r = (if sk_key_id r0 = key then f r0 else r0)"
      using r by (auto simp: sk set_sql_update)
    show ?thesis
    proof (cases "sk_key_id r0 = key")
      case False
      then show ?thesis using r0 pools_okD [OF ok r0(1)] other by (simp add: key_pool_ok_def)
    qed (use r0 rw in simp)
  qed
  have eq: "sk_key_id ` set (share_keys db') = sk_key_id ` set (share_keys db)"
    unfolding sk by (rule sql_update_key_set) (rule keys)
  have "skc_key_id ` set (share_key_contributions db) \<subseteq> sk_key_id ` set (share_keys db)"
    using ok by (auto simp: pools_ok_def contributions_ok_def list_all_iff has_row_key_iff)
  then have "skc_key_id ` set (share_key_contributions db') \<subseteq> sk_key_id ` set (share_keys db')"
    unfolding eq using order_trans [OF fk] by simp
  then show ?thesis
    using row clear by (simp add: pools_ok_def contributions_ok_def list_all_iff has_row_key_iff image_subset_iff)
qed

section \<open>Minting\<close>

definition minted_key :: "int \<Rightarrow> share_key_ids \<Rightarrow> string \<Rightarrow> string option \<Rightarrow> int \<Rightarrow> int \<Rightarrow> share_key_row" where
  "minted_key now ids issuer label expires_in budget = \<lparr>sk_key_id = ki_key_id ids,
     sk_token = ki_token ids, sk_issuer_device_id = issuer, sk_label = normalize_label label,
     sk_expires_at = now + expires_in, sk_budget_credits = budget, sk_consumed_credits = 0,
     sk_created_at = now, sk_revoked_at = None, sk_funded = 1,
     sk_funding_id = Some (ki_funding_id ids), sk_refunds_settled_at = None\<rparr>"

definition new_contribution :: "string \<Rightarrow> string \<Rightarrow> string \<Rightarrow> int \<Rightarrow> int \<Rightarrow> contribution_row" where
  "new_contribution cid key funder amount now = \<lparr>skc_contribution_id = cid, skc_key_id = key,
     skc_funder_device_id = funder, skc_funded_credits = amount, skc_remaining_credits = amount,
     skc_created_at = now, skc_refunded_at = None, skc_refund_reason = None\<rparr>"

lemma insert_contribution_Inr:
  assumes "insert_share_key_contribution_tx cid key funder amount amount now None None db = Inr db'"
  shows "db' = db\<lparr>share_key_contributions := share_key_contributions db @
      [new_contribution cid key funder amount now]\<rparr>"
    and "cid \<notin> skc_contribution_id ` set (share_key_contributions db)"
    and "key \<in> sk_key_id ` set (share_keys db)" and "0 < amount"
  using assms
  by (auto simp: insert_share_key_contribution_tx_def new_contribution_def has_row_key_iff
      split: if_splits)

lemma insert_share_key_Inr:
  assumes "insert_share_key row db = Inr db'"
  shows "db' = db\<lparr>share_keys := share_keys db @ [row]\<rparr>"
    and "sk_key_id row \<notin> sk_key_id ` set (share_keys db)"
    and "sk_token row \<notin> sk_token ` set (share_keys db)"
  using assms by (auto simp: insert_share_key_def has_row_key_iff split: if_splits)

lemma mint_share_key_steps:
  assumes "mint_share_key now ids issuer label expires_in budget db = Inr (db', m)"
  obtains brow db2 where
    "SHARE_KEY_MIN_EXPIRES_IN \<le> expires_in" "expires_in \<le> SHARE_KEY_MAX_EXPIRES_IN"
    "SHARE_KEY_MIN_BUDGET \<le> budget" "budget \<le> SHARE_KEY_MAX_BUDGET"
    "balance_row_of (ensure_balance issuer db) issuer = Some brow" "budget \<le> bal_balance brow"
    "insert_share_key (minted_key now ids issuer label expires_in budget) (ensure_balance issuer db)
       = Inr db2"
    "insert_share_key_contribution_tx (ki_contribution_id ids) (ki_key_id ids) issuer budget budget
       now None None (insert_ledger issuer (as_str ShareKeyFund) (- budget) now None
         (Some (funded_note (ki_key_id ids))) (update_balance issuer (row_move (- budget)) db2))
       = Inr db'"
    "m = \<lparr>km_key_id = ki_key_id ids, km_funding_id = ki_funding_id ids,
       km_token = ki_token ids, km_label = normalize_label label, km_budget_credits = budget,
       km_expires_at = now + expires_in, km_created_at = now\<rparr>"
  using assms unfolding mint_share_key_def Let_def minted_key_def [symmetric] rbind_Inr_iff
    ensure_Inr_iff ok_or_Inr_iff
  by (elim exE conjE) (simp del: as_str.simps)

lemma new_contribution_simps [simp]:
  "skc_key_id (new_contribution cid key funder amount now) = key"
  "skc_contribution_id (new_contribution cid key funder amount now) = cid"
  "skc_remaining_credits (new_contribution cid key funder amount now) = amount"
  "skc_refunded_at (new_contribution cid key funder amount now) = None"
  by (simp_all add: new_contribution_def)

lemma minted_key_simps [simp]:
  "sk_key_id (minted_key now ids issuer label ex budget) = ki_key_id ids"
  "sk_token (minted_key now ids issuer label ex budget) = ki_token ids"
  "sk_budget_credits (minted_key now ids issuer label ex budget) = budget"
  "sk_consumed_credits (minted_key now ids issuer label ex budget) = 0"
  "sk_issuer_device_id (minted_key now ids issuer label ex budget) = issuer"
  "sk_expires_at (minted_key now ids issuer label ex budget) = now + ex"
  "sk_revoked_at (minted_key now ids issuer label ex budget) = None"
  "sk_refunds_settled_at (minted_key now ids issuer label ex budget) = None"
  "sk_funded (minted_key now ids issuer label ex budget) = 1"
  by (simp_all add: minted_key_def)

text \<open>Credits moved from a wallet into a contribution.\<close>

lemma fund_effect:
  assumes ok: "db_ok db" and amt: "0 < amount" "amount \<le> balance_of db funder"
    and fresh: "cid \<notin> skc_contribution_id ` set (share_key_contributions db)"
    and bal: "balances db' =
      balances (update_balance funder (row_move (- amount)) (ensure_balance funder db))"
    and con: "share_key_contributions db' =
      share_key_contributions db @ [new_contribution cid key funder amount now]"
    and same: "account_wallets db' = account_wallets db" "provider_wallets db' = provider_wallets db"
      "api_keys db' = api_keys db" "account_withdrawals db' = account_withdrawals db"
      "account_devices db' = account_devices db"
      "availability_sessions db' = availability_sessions db"
    and sk: "distinct (map sk_key_id (share_keys db'))"
  shows "db_ok db'"
    and "balance_of db' d = balance_of db d - (if d = funder then amount else 0)"
    and "pool_of db' k = pool_of db k + (if k = key then amount else 0)"
    and "device_credits db' = device_credits db - amount"
    and "pool_credits db' = pool_credits db + amount"
    and "account_balance_of db' = account_balance_of db" "account_credits db' = account_credits db"
    and "provider_credits db' = provider_credits db" and "total_credits db' = total_credits db"
proof -
  let ?X = "update_balance funder (row_move (- amount)) (ensure_balance funder db)"
  have X: "db_ok ?X" using ok amt by (intro move_ok) auto
  have mv_d: "device_credits ?X = device_credits db - amount"
    and mv_b: "balance_of ?X d = balance_of db d - (if d = funder then amount else 0)"
    using ok by (simp_all add: move_obs)
  show "db_ok db'"
    using X fresh amt sk unfolding db_ok_def keys_ok_def wallets_nonneg_def bal con same
    by (simp add: stmt_defs)
  show d: "device_credits db' = device_credits db - amount"
    and "balance_of db' d = balance_of db d - (if d = funder then amount else 0)"
    using mv_d mv_b table_obs(1,2) [OF bal] by simp_all
  show "pool_of db' k = pool_of db k + (if k = key then amount else 0)"
    by (simp add: pool_of_def con)
  show p: "pool_credits db' = pool_credits db + amount" by (simp add: pool_credits_def con)
  show a: "account_balance_of db' = account_balance_of db" "account_credits db' = account_credits db"
    "provider_credits db' = provider_credits db"
    by (rule table_obs(4,5,8), rule same)+
  show "total_credits db' = total_credits db" by (simp add: total_credits_def a d p)
qed

lemma mint_share_key_db:
  assumes "mint_share_key now ids issuer label expires_in budget db = Inr (db', m)"
  shows "\<exists>l s. db' = (update_balance issuer (row_move (- budget)) (ensure_balance issuer db))\<lparr>
      ledger := l, ledger_seq := s,
      share_keys := share_keys db @ [minted_key now ids issuer label expires_in budget],
      share_key_contributions := share_key_contributions db @
        [new_contribution (ki_contribution_id ids) (ki_key_id ids) issuer budget now]\<rparr>"
    and "1 \<le> budget" "budget \<le> SHARE_KEY_MAX_BUDGET" "budget \<le> balance_of db issuer"
    and "SHARE_KEY_MIN_EXPIRES_IN \<le> expires_in" "expires_in \<le> SHARE_KEY_MAX_EXPIRES_IN"
    and "ki_key_id ids \<notin> sk_key_id ` set (share_keys db)"
    and "ki_token ids \<notin> sk_token ` set (share_keys db)"
    and "ki_contribution_id ids \<notin> skc_contribution_id ` set (share_key_contributions db)"
    and "km_token m = ki_token ids" "km_key_id m = ki_key_id ids" "km_budget_credits m = budget"
    and "km_expires_at m = now + expires_in"
proof -
  from assms obtain brow db2 where st:
    "SHARE_KEY_MIN_EXPIRES_IN \<le> expires_in" "expires_in \<le> SHARE_KEY_MAX_EXPIRES_IN"
    "SHARE_KEY_MIN_BUDGET \<le> budget" "budget \<le> SHARE_KEY_MAX_BUDGET"
    "balance_row_of (ensure_balance issuer db) issuer = Some brow" "budget \<le> bal_balance brow"
    and k: "insert_share_key (minted_key now ids issuer label expires_in budget)
      (ensure_balance issuer db) = Inr db2"
    and c: "insert_share_key_contribution_tx (ki_contribution_id ids) (ki_key_id ids) issuer budget
      budget now None None (insert_ledger issuer (as_str ShareKeyFund) (- budget) now None
        (Some (funded_note (ki_key_id ids))) (update_balance issuer (row_move (- budget)) db2)) = Inr db'"
    and m: "m = \<lparr>km_key_id = ki_key_id ids, km_funding_id = ki_funding_id ids,
       km_token = ki_token ids, km_label = normalize_label label, km_budget_credits = budget,
       km_expires_at = now + expires_in, km_created_at = now\<rparr>"
    by (rule mint_share_key_steps)
  note k' = insert_share_key_Inr [OF k] and c' = insert_contribution_Inr [OF c]
  show "\<exists>l s. db' = (update_balance issuer (row_move (- budget)) (ensure_balance issuer db))\<lparr>
      ledger := l, ledger_seq := s,
      share_keys := share_keys db @ [minted_key now ids issuer label expires_in budget],
      share_key_contributions := share_key_contributions db @
        [new_contribution (ki_contribution_id ids) (ki_key_id ids) issuer budget now]\<rparr>"
    by (rule exI [of _ "ledger db'"], rule exI [of _ "ledger_seq db'"])
       (simp add: c'(1) k'(1) stmt_defs)
  show "budget \<le> balance_of db issuer" using st balance_row_of_amount [OF st(5)] by simp
  show "1 \<le> budget" "budget \<le> SHARE_KEY_MAX_BUDGET" "SHARE_KEY_MIN_EXPIRES_IN \<le> expires_in"
    "expires_in \<le> SHARE_KEY_MAX_EXPIRES_IN" using st by (simp_all add: SHARE_KEY_MIN_BUDGET_def)
  show "ki_key_id ids \<notin> sk_key_id ` set (share_keys db)" "ki_token ids \<notin> sk_token ` set (share_keys db)"
    using k'(2,3) by simp_all
  show "ki_contribution_id ids \<notin> skc_contribution_id ` set (share_key_contributions db)"
    using c'(2) by (simp add: k'(1))
  show "km_token m = ki_token ids" "km_key_id m = ki_key_id ids" "km_budget_credits m = budget"
    "km_expires_at m = now + expires_in" by (simp_all add: m)
qed

lemma pools_ok_append_key:
  assumes ok: "pools_ok clock db" and new: "sk_key_id row \<notin> sk_key_id ` set (share_keys db)"
    and sk: "share_keys db' = share_keys db @ [row]" and row: "key_live row" "sk_consumed_credits row = 0"
    and con: "share_key_contributions db' = share_key_contributions db @
      [new_contribution cid (sk_key_id row) funder (sk_budget_credits row) now]"
    and amt: "0 < sk_budget_credits row"
  shows "pools_ok clock db'"
proof -
  have pool: "pool_of db' k = pool_of db k + (if k = sk_key_id row then sk_budget_credits row else 0)" for k
    by (simp add: pool_of_def con)
  have c: "contributions_ok db" using ok by (simp add: pools_ok_def)
  have "sk_key_id row \<notin> skc_key_id ` set (share_key_contributions db)"
    using c new by (auto simp: contributions_ok_def list_all_iff has_row_key_iff)
  then have "filter (\<lambda>r. skc_key_id r = sk_key_id row) (share_key_contributions db) = []"
    by (auto simp: filter_empty_conv image_iff)
  then have "pool_of db (sk_key_id row) = 0" by (simp add: pool_of_def)
  then have "key_pool_ok db' row" using row amt by (simp add: key_pool_ok_def pool)
  moreover have "key_pool_ok db' r" if "r \<in> set (share_keys db)" for r
    using pools_okD(1) [OF ok that] new that by (auto simp: key_pool_ok_def pool image_iff)
  moreover have "key_clock_ok clock row" using row by (simp add: key_clock_ok_def key_live_def)
  moreover have "contributions_ok db'"
    using c by (auto simp: contributions_ok_def refunded_clear_def con sk list_all_iff has_row_key_iff)
  ultimately show ?thesis using ok by (auto simp: pools_ok_def sk list_all_iff)
qed

lemma mint_share_key_effect:
  assumes ok: "db_ok db"
    and m: "mint_share_key now ids issuer label expires_in budget db = Inr (db', m)"
  shows "db_ok db'"
    and "balance_of db' d = balance_of db d - (if d = issuer then budget else 0)"
    and "pool_of db' k = pool_of db k + (if k = ki_key_id ids then budget else 0)"
    and "total_credits db' = total_credits db"
    and "pools_ok clock db \<Longrightarrow> pools_ok clock db'"
    and "share_keys db' = share_keys db @ [minted_key now ids issuer label expires_in budget]"
    and "account_balance_of db' = account_balance_of db" "account_credits db' = account_credits db"
    and "provider_credits db' = provider_credits db"
proof -
  let ?row = "minted_key now ids issuer label expires_in budget"
  note f = mint_share_key_db [OF m]
  obtain l s where db': "db' = (update_balance issuer (row_move (- budget)) (ensure_balance issuer db))\<lparr>
      ledger := l, ledger_seq := s, share_keys := share_keys db @ [?row],
      share_key_contributions := share_key_contributions db @
        [new_contribution (ki_contribution_id ids) (ki_key_id ids) issuer budget now]\<rparr>"
    using f(1) by blast
  show sk: "share_keys db' = share_keys db @ [?row]" by (simp add: db')
  have con: "share_key_contributions db' = share_key_contributions db @
      [new_contribution (ki_contribution_id ids) (ki_key_id ids) issuer budget now]"
    by (simp add: db')
  have bal: "balances db' =
      balances (update_balance issuer (row_move (- budget)) (ensure_balance issuer db))"
    and same: "account_wallets db' = account_wallets db" "provider_wallets db' = provider_wallets db"
      "api_keys db' = api_keys db" "account_withdrawals db' = account_withdrawals db"
      "account_devices db' = account_devices db" "availability_sessions db' = availability_sessions db"
    by (simp_all add: db' stmt_defs)
  have "0 < budget" "distinct (map sk_key_id (share_keys db'))"
    using ok f(2,7) by (simp_all add: sk db_ok_def keys_ok_def)
  note eff = fund_effect [OF ok this(1) f(4) f(9) bal con same this(2)]
  show "db_ok db'" "balance_of db' d = balance_of db d - (if d = issuer then budget else 0)"
    "pool_of db' k = pool_of db k + (if k = ki_key_id ids then budget else 0)"
    "total_credits db' = total_credits db" "account_balance_of db' = account_balance_of db"
    "account_credits db' = account_credits db" "provider_credits db' = provider_credits db"
    by (fact eff)+
  show "pools_ok clock db'" if "pools_ok clock db"
    by (rule pools_ok_append_key [OF that _ sk]) (use f in \<open>simp_all add: con key_live_def\<close>)
qed

section \<open>Funding\<close>

lemma transfer_to_share_key_steps:
  assumes "transfer_to_share_key now cid sender fid amount db = Inr (db', r)"
  obtains target dbi where
    "0 < amount" "find (\<lambda>r. sk_funding_id r = Some fid) (share_keys db) = Some target"
    "sk_revoked_at target = None" "now < sk_expires_at target" "sk_funded target = 1"
    "amount \<le> balance_of db sender"
    "insert_share_key_contribution_tx cid (sk_key_id target) sender amount amount now None None
       (update_share_key (sk_key_id target)
         (\<lambda>r. r\<lparr>sk_budget_credits := sk_budget_credits r + amount\<rparr>)
         (update_balance sender (row_move (- amount)) (ensure_balance sender (ensure_device now sender db))))
       = Inr dbi"
    "db' = insert_ledger sender (as_str ShareKeyFund) (- amount) now None
       (Some (funded_note (sk_key_id target))) dbi"
    "fr_remaining_credits r = pool_of db' (sk_key_id target)"
    "fr_sender_balance_credits r = balance_of db sender - amount"
  using assms unfolding transfer_to_share_key_def Let_def rbind_Inr_iff ensure_Inr_iff ok_or_Inr_iff
    map_err_Inr_iff
  by (elim exE conjE) (auto simp del: as_str.simps simp: not_le not_less)

lemma transfer_to_share_key_effect:
  assumes ok: "db_ok db" and pools: "pools_ok now db"
    and t: "transfer_to_share_key now cid sender fid amount db = Inr (db', r)"
  obtains target where "target \<in> set (share_keys db)" "sk_funding_id target = Some fid"
    "key_live target" "0 < amount" "amount \<le> balance_of db sender"
    "db_ok db'" "pools_ok now db'" "total_credits db' = total_credits db"
    "\<And>d. balance_of db' d = balance_of db d - (if d = sender then amount else 0)"
    "\<And>k. pool_of db' k = pool_of db k + (if k = sk_key_id target then amount else 0)"
    "account_balance_of db' = account_balance_of db"
    "account_credits db' = account_credits db" "provider_credits db' = provider_credits db"
proof -
  from t obtain target dbi where st: "0 < amount"
    "find (\<lambda>r. sk_funding_id r = Some fid) (share_keys db) = Some target"
    "sk_revoked_at target = None" "now < sk_expires_at target" "sk_funded target = 1"
    "amount \<le> balance_of db sender"
    and ins: "insert_share_key_contribution_tx cid (sk_key_id target) sender amount amount now None None
       (update_share_key (sk_key_id target)
         (\<lambda>r. r\<lparr>sk_budget_credits := sk_budget_credits r + amount\<rparr>)
         (update_balance sender (row_move (- amount)) (ensure_balance sender (ensure_device now sender db))))
       = Inr dbi"
    and db': "db' = insert_ledger sender (as_str ShareKeyFund) (- amount) now None
       (Some (funded_note (sk_key_id target))) dbi"
    by (rule transfer_to_share_key_steps)
  let ?key = "sk_key_id target" and ?f = "\<lambda>r. r\<lparr>sk_budget_credits := sk_budget_credits r + amount\<rparr>"
  note c = insert_contribution_Inr [OF ins]
  have tg: "target \<in> set (share_keys db)" "sk_funding_id target = Some fid"
    using st(2) by (auto simp: find_Some_iff)
  have live: "key_live target"
    using pools_okD(2) [OF pools tg(1)] st by (auto simp: key_live_def key_clock_ok_def)
  have sk: "share_keys db' = sql_update (\<lambda>r. sk_key_id r = ?key) ?f (share_keys db)"
    and con: "share_key_contributions db' =
      share_key_contributions db @ [new_contribution cid ?key sender amount now]"
    and bal: "balances db' = balances (update_balance sender (row_move (- amount)) (ensure_balance sender db))"
    and same: "account_wallets db' = account_wallets db" "provider_wallets db' = provider_wallets db"
      "api_keys db' = api_keys db" "account_withdrawals db' = account_withdrawals db"
      "account_devices db' = account_devices db" "availability_sessions db' = availability_sessions db"
    by (simp_all add: db' c(1) stmt_defs)
  have fresh: "cid \<notin> skc_contribution_id ` set (share_key_contributions db)" using c(2) by simp
  have dk: "distinct (map sk_key_id (share_keys db))" using ok by (simp add: db_ok_def keys_ok_def)
  then have "distinct (map sk_key_id (share_keys db'))" by (simp add: sk sql_update_key_map)
  note eff = fund_effect [OF ok st(1) st(6) fresh bal con same this]
  have uniq: "r = target" if "r \<in> set (share_keys db)" "sk_key_id r = ?key" for r
    using that tg dk by (auto simp: distinct_map inj_on_def)
  have "pools_ok now db'"
  proof (rule pools_ok_update [OF pools _ sk])
    show "key_pool_ok db' (?f r) \<and> key_clock_ok now (?f r)"
      if "r \<in> set (share_keys db)" "sk_key_id r = ?key" for r
      using pools_okD [OF pools tg(1)] uniq [OF that] live st(1)
      by (simp add: key_pool_ok_def key_clock_ok_def key_live_def eff(3))
    show "refunded_clear db'"
      using pools by (simp add: pools_ok_def contributions_ok_def refunded_clear_def con)
    show "skc_key_id ` set (share_key_contributions db') \<subseteq>
        skc_key_id ` set (share_key_contributions db) \<union> sk_key_id ` set (share_keys db)"
      using tg(1) by (auto simp: con)
  qed (simp_all add: eff(3))
  with tg live st eff show thesis by (intro that) auto
qed

section \<open>Revocation and expiry\<close>

lemma sql_update_twice:
  "(\<And>r. key (f r) = key r) \<Longrightarrow> sql_update (\<lambda>r. key r = k) g (sql_update (\<lambda>r. key r = k) f t) =
     sql_update (\<lambda>r. key r = k) (g \<circ> f) t"
  by (induction t) auto

lemma closed_contributions_clear:
  assumes "refunded_clear db"
    and "share_key_contributions db' =
      map (\<lambda>r. if is_open key r then closed_row t reason r else r) (share_key_contributions db)"
  shows "refunded_clear db'"
    and "skc_key_id ` set (share_key_contributions db') = skc_key_id ` set (share_key_contributions db)"
proof -
  show "refunded_clear db'"
    using assms by (auto simp: refunded_clear_def list_all_iff closed_row_def)
  have "map skc_key_id (share_key_contributions db') = map skc_key_id (share_key_contributions db)"
    by (simp add: assms(2) closed_row_def)
  then show "skc_key_id ` set (share_key_contributions db') =
      skc_key_id ` set (share_key_contributions db)" by (metis set_map)
qed

definition left_of :: "gateway_db \<Rightarrow> string \<Rightarrow> string \<Rightarrow> int" where
  "left_of db key d = pool_where (\<lambda>r. skc_key_id r = key \<and> skc_funder_device_id r = d) db"

text \<open>Closing a key: its pool is refunded and its row is marked so that it is no longer live.\<close>

lemma close_key_effect:
  assumes ok: "db_ok db" and pools: "pools_ok clock db"
    and r: "refund_share_key_contributions_tx key t reason (update_share_key key g db) = (db1, n, c)"
    and g: "\<And>r. sk_key_id (g r) = sk_key_id r" and f: "\<And>r. sk_key_id (f r) = sk_key_id r"
    and row: "\<And>r. r \<in> set (share_keys db) \<Longrightarrow> sk_key_id r = key \<Longrightarrow>
      \<not> key_live (f (g r)) \<and> key_clock_ok clock (f (g r)) \<and>
      sk_consumed_credits (f (g r)) \<le> sk_budget_credits (f (g r))"
  defines "db' \<equiv> update_share_key key f db1"
  shows "db_ok db'" and "pools_ok clock db'" and "total_credits db' = total_credits db"
    and "balance_of db' d = balance_of db d +
      pool_where (\<lambda>r. is_open key r \<and> skc_funder_device_id r = d) db"
    and "pool_of db' k = (if k = key then 0 else pool_of db k)"
    and "c = pool_of db key"
    and "share_keys db' = sql_update (\<lambda>r. sk_key_id r = key) (f \<circ> g) (share_keys db)"
    and "k \<noteq> key \<Longrightarrow> left_of db' k d = left_of db k d"
    and "account_balance_of db' = account_balance_of db"
    and "account_credits db' = account_credits db" "provider_credits db' = provider_credits db"
proof -
  let ?db0 = "update_share_key key g db"
  have ok0: "db_ok ?db0" using ok g by simp
  note e = refund_effect [OF ok0 r]
  have clear: "refunded_clear db" using pools by (simp add: pools_ok_def contributions_ok_def)
  have pw: "pool_where P ?db0 = pool_where P db" for P by (simp add: pool_where_def)
  show c: "c = pool_of db key" using refunded_clear_open [OF clear, of key] e(3) by (simp add: pw)
  show "db_ok db'" using e(1) f by (simp add: db'_def)
  show pool: "pool_of db' k = (if k = key then 0 else pool_of db k)" for k
    using e(6) [of k] by (simp add: db'_def c)
  show "balance_of db' d = balance_of db d +
      pool_where (\<lambda>r. is_open key r \<and> skc_funder_device_id r = d) db"
    using e(2) [of d] by (simp add: db'_def pw)
  show a: "account_balance_of db' = account_balance_of db" "account_credits db' = account_credits db"
    "provider_credits db' = provider_credits db" using e by (simp_all add: db'_def)
  show "total_credits db' = total_credits db" using e(4,5) by (simp add: total_credits_def a, simp add: db'_def)
  show sk: "share_keys db' = sql_update (\<lambda>r. sk_key_id r = key) (f \<circ> g) (share_keys db)"
    using e(10) g by (simp add: db'_def update_share_key_def sql_update_twice)
  have con: "share_key_contributions db' =
      map (\<lambda>r. if is_open key r then closed_row t reason r else r) (share_key_contributions db)"
    using e(12) by (simp add: db'_def)
  note cl = closed_contributions_clear [OF clear con]
  show "left_of db' k d = left_of db k d" if "k \<noteq> key"
  proof -
    have "filter (\<lambda>r. (skc_key_id r = k \<and> skc_funder_device_id r = d) \<and> is_open key r)
        (share_key_contributions db) = []"
      using that by (auto simp: filter_empty_conv is_open_def)
    then show ?thesis
      using close_open_sum [of "\<lambda>r. skc_key_id r = k \<and> skc_funder_device_id r = d" t reason key
          "share_key_contributions db"]
      by (simp add: left_of_def pool_where_def con closed_row_def)
  qed
  show "pools_ok clock db'"
  proof (rule pools_ok_update [OF pools _ sk])
    show "key_pool_ok db' ((f \<circ> g) r) \<and> key_clock_ok clock ((f \<circ> g) r)"
      if "r \<in> set (share_keys db)" "sk_key_id r = key" for r
      using row [OF that] that(2) f g by (simp add: key_pool_ok_def pool)
  qed (use cl f g pool in auto)
qed

lemma left_of_open:
  assumes "refunded_clear db"
  shows "pool_where (\<lambda>r. is_open key r \<and> skc_funder_device_id r = d) db = left_of db key d"
proof -
  have "table_sum skc_remaining_credits
      (filter (\<lambda>r. is_open key r \<and> skc_funder_device_id r = d) rows) = table_sum skc_remaining_credits
      (filter (\<lambda>r. skc_key_id r = key \<and> skc_funder_device_id r = d) rows)"
    if "\<And>r. r \<in> set rows \<Longrightarrow> skc_refunded_at r \<noteq> None \<Longrightarrow> skc_remaining_credits r = 0" for rows
    using that by (induction rows) (auto simp: is_open_def)
  then show ?thesis
    using assms by (auto simp: pool_where_def left_of_def refunded_clear_def list_all_iff)
qed

lemma left_of_bounds:
  assumes "wallets_nonneg db"
  shows "0 \<le> left_of db key d" "left_of db key d \<le> pool_of db key"
proof -
  have "0 \<le> table_sum skc_remaining_credits (filter (\<lambda>r. skc_key_id r = key \<and> skc_funder_device_id r = d) rows) \<and>
      table_sum skc_remaining_credits (filter (\<lambda>r. skc_key_id r = key \<and> skc_funder_device_id r = d) rows) \<le>
      table_sum skc_remaining_credits (filter (\<lambda>r. skc_key_id r = key) rows)"
    if "\<And>r. r \<in> set rows \<Longrightarrow> 0 \<le> skc_remaining_credits r" for rows
    using that by (induction rows) (auto simp: add_increasing)
  from this [of "share_key_contributions db"]
  show "0 \<le> left_of db key d" "left_of db key d \<le> pool_of db key"
    using assms by (auto simp: left_of_def pool_of_def pool_where_def wallets_nonneg_def list_all_iff)
qed

definition revoked_row :: "int \<Rightarrow> share_key_row \<Rightarrow> share_key_row" where
  "revoked_row now r = r\<lparr>sk_revoked_at := Some now\<rparr>"

definition settled_row :: "int \<Rightarrow> share_key_row \<Rightarrow> share_key_row" where
  "settled_row now r = r\<lparr>sk_refunds_settled_at := Some now\<rparr>"

lemma marked_row_key [simp]:
  "sk_key_id (revoked_row now r) = sk_key_id r" "sk_key_id (settled_row now r) = sk_key_id r"
  by (simp_all add: revoked_row_def settled_row_def)

lemma settle_refunds_row: "settle_refunds now key db = update_share_key key (settled_row now) db"
  by (simp add: settle_refunds_def settled_row_def [abs_def])

lemma key_row_unique:
  "keys_ok db \<Longrightarrow> r \<in> set (share_keys db) \<Longrightarrow> r' \<in> set (share_keys db) \<Longrightarrow>
     sk_key_id r = sk_key_id r' \<Longrightarrow> r = r'"
  by (auto simp: keys_ok_def distinct_map inj_on_def)

lemma revoke_share_key_effect:
  assumes ok: "db_ok db" and pools: "pools_ok now db"
    and rev: "revoke_share_key now issuer key db = (db', True)"
  shows "db_ok db'" and "pools_ok now db'" and "total_credits db' = total_credits db"
    and "balance_of db' d = balance_of db d + left_of db key d"
    and "pool_of db' k = (if k = key then 0 else pool_of db k)"
    and "\<exists>f. (\<forall>r. f r = revoked_row now r \<or> f r = settled_row now (revoked_row now r)) \<and>
      share_keys db' = sql_update (\<lambda>r. sk_key_id r = key) f (share_keys db)"
    and "\<exists>row\<in>set (share_keys db). sk_key_id row = key \<and> sk_issuer_device_id row = issuer \<and>
      sk_revoked_at row = None"
    and "account_balance_of db' = account_balance_of db"
    and "account_credits db' = account_credits db" "provider_credits db' = provider_credits db"
proof -
  obtain row where fnd: "find (\<lambda>r. sk_key_id r = key \<and> sk_issuer_device_id r = issuer \<and>
      sk_revoked_at r = None) (share_keys db) = Some row"
    using rev by (auto simp: revoke_share_key_def split: option.splits)
  then have row: "row \<in> set (share_keys db)" "sk_key_id row = key"
    "sk_issuer_device_id row = issuer" "sk_revoked_at row = None"
    by (auto simp: find_Some_iff)
  have d: "db' = (if sk_funded row = 1 \<and> sk_refunds_settled_at row = None
      then settle_refunds now key (fst (refund_share_key_contributions_tx key now ''revoked''
        (update_share_key key (revoked_row now) db)))
      else update_share_key key (revoked_row now) db)"
    using rev fnd by (auto simp: revoke_share_key_def Let_def revoked_row_def [abs_def] split: if_splits)
  note uniq = key_row_unique [OF db_ok_keys [OF ok] _ row(1)]
  note row_ok = pools_okD [OF pools row(1)]
  have clear: "refunded_clear db" using pools by (simp add: pools_ok_def contributions_ok_def)
  show "\<exists>row\<in>set (share_keys db). sk_key_id row = key \<and> sk_issuer_device_id row = issuer \<and>
      sk_revoked_at row = None" using row by blast
  have "db_ok db' \<and> pools_ok now db' \<and> total_credits db' = total_credits db \<and>
      balance_of db' d = balance_of db d + left_of db key d \<and>
      pool_of db' k = (if k = key then 0 else pool_of db k) \<and>
      (\<exists>f. (\<forall>r. f r = revoked_row now r \<or> f r = settled_row now (revoked_row now r)) \<and>
        share_keys db' = sql_update (\<lambda>r. sk_key_id r = key) f (share_keys db)) \<and>
      account_balance_of db' = account_balance_of db \<and> account_credits db' = account_credits db \<and>
      provider_credits db' = provider_credits db" for d k
  proof (cases "sk_funded row = 1 \<and> sk_refunds_settled_at row = None")
    case True
    obtain db1 n c where r: "refund_share_key_contributions_tx key now ''revoked''
        (update_share_key key (revoked_row now) db) = (db1, n, c)" by (metis prod_cases3)
    have "\<not> key_live (settled_row now (revoked_row now x)) \<and>
        key_clock_ok now (settled_row now (revoked_row now x)) \<and>
        sk_consumed_credits (settled_row now (revoked_row now x)) \<le>
        sk_budget_credits (settled_row now (revoked_row now x))"
      if "x \<in> set (share_keys db)" "sk_key_id x = key" for x
      using pools_okD(1) [OF pools that(1)]
      by (simp add: settled_row_def revoked_row_def key_live_def key_clock_ok_def key_pool_ok_def)
    note e = close_key_effect [where f = "settled_row now", OF ok pools r marked_row_key this]
    have db': "db' = update_share_key key (settled_row now) db1"
      using d True r by (simp add: settle_refunds_row)
    show ?thesis
      unfolding db' using e left_of_open [OF clear, of key d]
      by (intro conjI exI [of _ "settled_row now \<circ> revoked_row now"]) simp_all
  next
    case False
    then have nl: "\<not> key_live row" and db': "db' = update_share_key key (revoked_row now) db"
      using d by (auto simp: key_live_def)
    then have p0: "pool_of db key = 0" using row_ok(1) row(2) by (simp add: key_pool_ok_def)
    have sk: "share_keys db' = sql_update (\<lambda>r. sk_key_id r = key) (revoked_row now) (share_keys db)"
      by (simp add: db' update_share_key_def)
    have "pools_ok now db'"
    proof (rule pools_ok_update [OF pools _ sk])
      show "key_pool_ok db' (revoked_row now r) \<and> key_clock_ok now (revoked_row now r)"
        if "r \<in> set (share_keys db)" "sk_key_id r = key" for r
        using pools_okD(1) [OF pools that(1)] p0 that(2)
        by (simp add: db' revoked_row_def key_pool_ok_def key_live_def key_clock_ok_def)
      show "refunded_clear db'" using clear by (simp add: db' refunded_clear_def)
    qed (simp_all add: db')
    moreover have "left_of db key d = 0"
      using left_of_bounds [OF db_ok_nonneg [OF ok], of key d] p0 by simp
    ultimately show ?thesis
      using ok p0 sk by (intro conjI exI [of _ "revoked_row now"]) (simp_all add: db')
  qed
  then show "db_ok db'" and "pools_ok now db'" and "total_credits db' = total_credits db"
    and "balance_of db' d = balance_of db d + left_of db key d"
    and "pool_of db' k = (if k = key then 0 else pool_of db k)"
    and "\<exists>f. (\<forall>r. f r = revoked_row now r \<or> f r = settled_row now (revoked_row now r)) \<and>
      share_keys db' = sql_update (\<lambda>r. sk_key_id r = key) f (share_keys db)"
    and "account_balance_of db' = account_balance_of db"
    and "account_credits db' = account_credits db" "provider_credits db' = provider_credits db"
    by blast+
qed

definition expire_key :: "int \<Rightarrow> string \<Rightarrow> gateway_db \<Rightarrow> gateway_db" where
  "expire_key now key db =
     settle_refunds now key (fst (refund_share_key_contributions_tx key now ''expired'' db))"

lemma update_share_key_id: "update_share_key key (\<lambda>r. r) db = db"
  by (simp add: stmt_defs sql_update_def)

lemma expire_key_effect:
  assumes ok: "db_ok db" and pools: "pools_ok now db"
    and exp: "\<And>r. r \<in> set (share_keys db) \<Longrightarrow> sk_key_id r = key \<Longrightarrow> sk_expires_at r \<le> now"
  shows "db_ok (expire_key now key db)" and "pools_ok now (expire_key now key db)"
    and "total_credits (expire_key now key db) = total_credits db"
    and "balance_of (expire_key now key db) d = balance_of db d + left_of db key d"
    and "pool_of (expire_key now key db) k = (if k = key then 0 else pool_of db k)"
    and "k \<noteq> key \<Longrightarrow> left_of (expire_key now key db) k d = left_of db k d"
    and "share_keys (expire_key now key db) =
      sql_update (\<lambda>r. sk_key_id r = key) (settled_row now) (share_keys db)"
    and "snd (snd (refund_share_key_contributions_tx key now ''expired'' db)) = pool_of db key"
    and "account_balance_of (expire_key now key db) = account_balance_of db"
    and "account_credits (expire_key now key db) = account_credits db"
    and "provider_credits (expire_key now key db) = provider_credits db"
proof -
  obtain db1 n c where r: "refund_share_key_contributions_tx key now ''expired'' db = (db1, n, c)"
    by (metis prod_cases3)
  then have r': "refund_share_key_contributions_tx key now ''expired''
      (update_share_key key (\<lambda>r. r) db) = (db1, n, c)" by (simp add: update_share_key_id)
  have clear: "refunded_clear db" using pools by (simp add: pools_ok_def contributions_ok_def)
  have row: "\<not> key_live (settled_row now x) \<and> key_clock_ok now (settled_row now x) \<and>
      sk_consumed_credits (settled_row now x) \<le> sk_budget_credits (settled_row now x)"
    if "x \<in> set (share_keys db)" "sk_key_id x = key" for x
    using pools_okD(1) [OF pools that(1)] exp [OF that]
    by (simp add: settled_row_def key_live_def key_clock_ok_def key_pool_ok_def)
  have x: "expire_key now key db = update_share_key key (settled_row now) db1"
    by (simp add: expire_key_def r settle_refunds_row)
  have cmp: "settled_row now \<circ> (\<lambda>r. r) = settled_row now" by (simp add: fun_eq_iff)
  note e = close_key_effect [where f = "settled_row now", OF ok pools r' refl marked_row_key(2) row,
      unfolded cmp]
  show "db_ok (expire_key now key db)" "pools_ok now (expire_key now key db)"
    "total_credits (expire_key now key db) = total_credits db"
    "balance_of (expire_key now key db) d = balance_of db d + left_of db key d"
    "pool_of (expire_key now key db) k = (if k = key then 0 else pool_of db k)"
    "k \<noteq> key \<Longrightarrow> left_of (expire_key now key db) k d = left_of db k d"
    "share_keys (expire_key now key db) =
      sql_update (\<lambda>r. sk_key_id r = key) (settled_row now) (share_keys db)"
    "snd (snd (refund_share_key_contributions_tx key now ''expired'' db)) = pool_of db key"
    "account_balance_of (expire_key now key db) = account_balance_of db"
    "account_credits (expire_key now key db) = account_credits db"
    "provider_credits (expire_key now key db) = provider_credits db"
    using e left_of_open [OF clear, of key d] unfolding x by (simp_all add: r)
qed

lemma expire_step_db: "fst (fold (expire_step now) keys (db, rep)) = fold (expire_key now) keys db"
  by (induction keys arbitrary: db rep)
     (simp_all add: expire_step_def expire_key_def split: prod.splits)

lemma expire_loop:
  assumes "db_ok db" and "pools_ok now db" and "distinct keys"
    and "\<And>r. r \<in> set (share_keys db) \<Longrightarrow> sk_key_id r \<in> set keys \<Longrightarrow> sk_expires_at r \<le> now"
  shows "db_ok (fold (expire_key now) keys db) \<and> pools_ok now (fold (expire_key now) keys db) \<and>
    total_credits (fold (expire_key now) keys db) = total_credits db \<and>
    balance_of (fold (expire_key now) keys db) d =
      balance_of db d + (\<Sum>k\<leftarrow>keys. left_of db k d) \<and>
    pool_of (fold (expire_key now) keys db) k = (if k \<in> set keys then 0 else pool_of db k) \<and>
    share_keys (fold (expire_key now) keys db) =
      map (\<lambda>r. if sk_key_id r \<in> set keys then settled_row now r else r) (share_keys db) \<and>
    er_credits_refunded (snd (fold (expire_step now) keys (db, rep))) =
      er_credits_refunded rep + (\<Sum>k\<leftarrow>keys. pool_of db k) \<and>
    er_keys_closed (snd (fold (expire_step now) keys (db, rep))) = er_keys_closed rep + length keys \<and>
    account_balance_of (fold (expire_key now) keys db) = account_balance_of db \<and>
    account_credits (fold (expire_key now) keys db) = account_credits db \<and>
    provider_credits (fold (expire_key now) keys db) = provider_credits db"
  using assms
proof (induction keys arbitrary: db rep)
  case (Cons key keys)
  let ?db1 = "expire_key now key db"
  have e: "\<And>r. r \<in> set (share_keys db) \<Longrightarrow> sk_key_id r = key \<Longrightarrow> sk_expires_at r \<le> now"
    using Cons.prems(4) by simp
  note ek = expire_key_effect [where key = key, OF Cons.prems(1,2) e, simplified]
  obtain db1 n c where r: "refund_share_key_contributions_tx key now ''expired'' db = (db1, n, c)"
    by (metis prod_cases3)
  define rep1 where "rep1 = rep\<lparr>er_keys_closed := er_keys_closed rep + 1,
      er_contributions_refunded := er_contributions_refunded rep + n,
      er_credits_refunded := er_credits_refunded rep + c\<rparr>"
  have st: "expire_step now key (db, rep) = (?db1, rep1)"
    by (simp add: expire_step_def expire_key_def rep1_def r)
  have "sk_expires_at r \<le> now" if "r \<in> set (share_keys ?db1)" "sk_key_id r \<in> set keys" for r
    using that Cons.prems(4) by (auto simp: ek(7) set_sql_update settled_row_def split: if_splits)
  note ih = Cons.IH [where rep = rep1, OF ek(1,2) _ this]
  have nk: "key \<notin> set keys" "distinct keys" using Cons.prems(3) by simp_all
  have "left_of ?db1 k d = left_of db k d" "pool_of ?db1 k = pool_of db k" if "k \<in> set keys" for k
    using ek(5,6) nk(1) that by metis+
  then have sums: "(\<Sum>k\<leftarrow>keys. left_of ?db1 k d) = (\<Sum>k\<leftarrow>keys. left_of db k d)"
    "(\<Sum>k\<leftarrow>keys. pool_of ?db1 k) = (\<Sum>k\<leftarrow>keys. pool_of db k)"
    by (simp_all cong: map_cong)
  have "map (\<lambda>r. if sk_key_id r \<in> set keys then settled_row now r else r) (share_keys ?db1) =
      map (\<lambda>r. if sk_key_id r \<in> set (key # keys) then settled_row now r else r) (share_keys db)"
    using nk by (auto simp: ek(7) sql_update_def)
  moreover have "c = pool_of db key" using ek(8) r by simp
  ultimately show ?case
    using ih nk ek sums by (simp add: st rep1_def)
qed simp

lemma expired_unsettled_keys_props:
  assumes "keys_ok db"
  shows "distinct (expired_unsettled_keys now db)"
    and "r \<in> set (share_keys db) \<Longrightarrow> sk_key_id r \<in> set (expired_unsettled_keys now db) \<longleftrightarrow>
      sk_funded r = 1 \<and> sk_revoked_at r = None \<and> sk_expires_at r \<le> now \<and> sk_refunds_settled_at r = None"
proof -
  show "distinct (expired_unsettled_keys now db)"
    using assms by (simp add: expired_unsettled_keys_def keys_ok_def distinct_map_filter)
  show "r \<in> set (share_keys db) \<Longrightarrow> sk_key_id r \<in> set (expired_unsettled_keys now db) \<longleftrightarrow>
      sk_funded r = 1 \<and> sk_revoked_at r = None \<and> sk_expires_at r \<le> now \<and> sk_refunds_settled_at r = None"
    using key_row_unique [OF assms] by (fastforce simp: expired_unsettled_keys_def)
qed

lemma refund_expired_effect:
  assumes ok: "db_ok db" and pools: "pools_ok now db"
    and run: "refund_expired_share_keys now db = (db', rep)"
  shows "db_ok db'" "pools_ok now db'" "total_credits db' = total_credits db"
    and "balance_of db' d = balance_of db d + (\<Sum>k\<leftarrow>expired_unsettled_keys now db. left_of db k d)"
    and "pool_of db' k = (if k \<in> set (expired_unsettled_keys now db) then 0 else pool_of db k)"
    and "share_keys db' = map (\<lambda>r. if sk_key_id r \<in> set (expired_unsettled_keys now db)
      then settled_row now r else r) (share_keys db)"
    and "er_credits_refunded rep = (\<Sum>k\<leftarrow>expired_unsettled_keys now db. pool_of db k)"
    and "er_keys_closed rep = length (expired_unsettled_keys now db)"
    and "account_balance_of db' = account_balance_of db"
    and "account_credits db' = account_credits db" "provider_credits db' = provider_credits db"
proof -
  define rep0 where
    "rep0 = \<lparr>er_keys_closed = 0, er_contributions_refunded = 0, er_credits_refunded = 0\<rparr>"
  let ?keys = "expired_unsettled_keys now db"
  note kp = expired_unsettled_keys_props [OF db_ok_keys [OF ok]]
  have run': "fold (expire_step now) ?keys (db, rep0) = (db', rep)"
    using run by (simp add: refund_expired_share_keys_def rep0_def)
  have db': "db' = fold (expire_key now) ?keys db" using expire_step_db [of now ?keys db rep0] run' by simp
  have "sk_expires_at r \<le> now" if "r \<in> set (share_keys db)" "sk_key_id r \<in> set ?keys" for r
    using kp(2) that by blast
  note e = expire_loop [where keys = ?keys and rep = rep0 and d = d and k = k, OF ok pools kp(1) this,
      simplified, unfolded run' db' [symmetric]]
  show "db_ok db'" "pools_ok now db'" "total_credits db' = total_credits db"
    and "balance_of db' d = balance_of db d + (\<Sum>k\<leftarrow>?keys. left_of db k d)"
    and "pool_of db' k = (if k \<in> set ?keys then 0 else pool_of db k)"
    and "share_keys db' = map (\<lambda>r. if sk_key_id r \<in> set ?keys then settled_row now r else r) (share_keys db)"
    and "er_credits_refunded rep = (\<Sum>k\<leftarrow>?keys. pool_of db k)"
    and "er_keys_closed rep = length ?keys"
    and "account_balance_of db' = account_balance_of db"
    and "account_credits db' = account_credits db" "provider_credits db' = provider_credits db"
    using e by (simp_all add: rep0_def)
qed

end
