(* ===== verification/Share_Key_Laws.thy ===== *)
theory Share_Key_Laws
  imports Share_Key_Pools
begin

text \<open>
  The properties of the share-key operations, each about the whole operation as the gateway runs it:
  minting, funding, revoking, expiring, resolving, spending and migrating.
\<close>

section \<open>A concrete database\<close>

text \<open>Two devices with credits, a key minted by the first and funded by the second; the properties
  are applied to it.\<close>

definition ok_db :: "'e + gateway_db \<times> 'a \<Rightarrow> gateway_db" where
  "ok_db r = (case r of Inl _ \<Rightarrow> empty_db | Inr (db, _) \<Rightarrow> db)"

definition sample_db :: gateway_db where
  "sample_db = ok_db (admin_mint 3 ''bob'' 500 ''seed''
     (ok_db (admin_mint 2 ''alice'' 1000 ''seed'' (seed_mint_pool empty_db))))"

definition sample_ids :: share_key_ids where
  "sample_ids = \<lparr>ki_key_id = ''k1'', ki_funding_id = ''f1'', ki_token = ''tok1'',
     ki_contribution_id = ''c1''\<rparr>"

definition sample_minted :: gateway_db where
  "sample_minted = ok_db (mint_share_key 10 sample_ids ''alice'' (Some '' demo '') 3600 100 sample_db)"

definition sample_funded :: gateway_db where
  "sample_funded = ok_db (transfer_to_share_key 20 ''c2'' ''bob'' ''f1'' 51 sample_minted)"

lemma ok_db_Inr: "\<not> isl r \<Longrightarrow> (\<And>x. r = Inr (ok_db r, x) \<Longrightarrow> thesis) \<Longrightarrow> thesis"
  by (cases r) (auto simp: ok_db_def split: prod.splits)

lemma sample_ok:
  "db_ok sample_db" "pools_ok 10 sample_db" "db_ok sample_minted" "pools_ok 20 sample_minted"
  "db_ok sample_funded" "pools_ok 30 sample_funded" "pools_ok 5000 sample_funded"
  by code_simp+

section \<open>Properties\<close>

text \<open>
C3. Minting a share key moves exactly its budget from the issuer's wallet into the key's pool. The
issuer could afford it, no other wallet changes, the credits in the system stay the same, the
database and the pool invariant are kept, and the bearer token resolves to the new key with its
whole budget until the key expires.
\<close>

theorem mint_share_key_funds_pool:
  assumes "db_ok db" and "pools_ok now db"
    and "mint_share_key now ids issuer label expires_in budget db = Inr (db', m)"
  shows "db_ok db' \<and> pools_ok now db' \<and> total_credits db' = total_credits db \<and>
    1 \<le> budget \<and> budget \<le> SHARE_KEY_MAX_BUDGET \<and> budget \<le> balance_of db issuer \<and>
    (\<forall>d. balance_of db' d = balance_of db d - (if d = issuer then budget else 0)) \<and>
    pool_of db' (km_key_id m) = budget \<and>
    (\<forall>t<km_expires_at m. resolve_share_key t (km_token m) db' =
      Inr (Some \<lparr>rk_key_id = km_key_id m, rk_issuer_device_id = issuer, rk_budget_credits = budget,
        rk_consumed_credits = 0, rk_expires_at = km_expires_at m\<rparr>))"
proof -
  note f = mint_share_key_db [OF assms(3)] and e = mint_share_key_effect [OF assms(1,3)]
  let ?row = "minted_key now ids issuer label expires_in budget"
  have "key_pool_ok db' ?row"
    using e(5) [OF assms(2)] e(6) by (simp add: pools_ok_def)
  then have pool: "pool_of db' (ki_key_id ids) = budget" by (simp add: key_pool_ok_def key_live_def)
  have "find (\<lambda>r. sk_token r = ki_token ids) (share_keys db') = Some ?row"
    using f(8) find_key_None [of sk_token "ki_token ids" "share_keys db"] by (simp add: e(6) find_append)
  then have "resolve_share_key t (km_token m) db' =
      Inr (Some \<lparr>rk_key_id = km_key_id m, rk_issuer_device_id = issuer, rk_budget_credits = budget,
        rk_consumed_credits = 0, rk_expires_at = km_expires_at m\<rparr>)" if "t < km_expires_at m" for t
    using that f(2,10-13) by (simp add: resolve_share_key_def)
  then show ?thesis using e(1,2,4) e(5) [OF assms(2)] f pool by simp
qed

theorem mint_share_key_funds_pool_witness:
  "balance_of sample_minted ''alice'' = 900 \<and> pool_of sample_minted ''k1'' = 100 \<and>
   db_ok sample_db \<and> pools_ok 10 sample_db"
proof -
  let ?r = "mint_share_key 10 sample_ids ''alice'' (Some '' demo '') 3600 100 sample_db"
  have "\<not> isl ?r" by code_simp
  then obtain m where m: "?r = Inr (sample_minted, m)"
    by (rule ok_db_Inr) (auto simp: sample_minted_def)
  have "balance_of sample_db ''alice'' = 1000" by code_simp
  moreover have "km_key_id m = ''k1''"
    using mint_share_key_db(11) [OF m] by (simp add: sample_ids_def)
  ultimately show ?thesis
    using mint_share_key_funds_pool [OF sample_ok(1,2) m] sample_ok(1,2) by auto
qed

text \<open>
Funding somebody's share key moves exactly the amount from the sender's wallet into the pool of
the key with that funding id, and raises its budget alike; the key is live, the sender could
afford it, no other wallet or pool changes and the receipt shows the pool.
\<close>

theorem transfer_to_share_key_moves:
  assumes "db_ok db" and "pools_ok now db"
    and "transfer_to_share_key now cid sender fid amount db = Inr (db', receipt)"
  shows "db_ok db' \<and> pools_ok now db' \<and> total_credits db' = total_credits db \<and>
    0 < amount \<and> amount \<le> balance_of db sender \<and>
    (\<forall>d. balance_of db' d = balance_of db d - (if d = sender then amount else 0)) \<and>
    (\<exists>row\<in>set (share_keys db). sk_funding_id row = Some fid \<and> key_live row \<and>
      (\<forall>k. pool_of db' k = pool_of db k + (if k = sk_key_id row then amount else 0)))"
proof (rule transfer_to_share_key_effect [OF assms], goal_cases)
  case (1 target)
  then show ?case by (intro conjI allI bexI [of _ target]) simp_all
qed

theorem transfer_to_share_key_moves_witness:
  "balance_of sample_funded ''bob'' = 449 \<and> db_ok sample_minted \<and> pools_ok 20 sample_minted"
proof -
  let ?r = "transfer_to_share_key 20 ''c2'' ''bob'' ''f1'' 51 sample_minted"
  have "\<not> isl ?r" by code_simp
  then obtain m where m: "?r = Inr (sample_funded, m)"
    by (rule ok_db_Inr) (auto simp: sample_funded_def)
  have "balance_of sample_minted ''bob'' = 500" by code_simp
  then show ?thesis using transfer_to_share_key_moves [OF sample_ok(3,4) m] sample_ok(3,4) by auto
qed

text \<open>
C2. Revoking a share key returns to every funder exactly what is left of their contributions to it
and empties its pool; other pools and the total of credits stay the same. From then on the key's
bearer is rejected as revoked at every instant, and a second revocation changes nothing, so no
contribution is refunded twice.
\<close>

theorem revoke_refunds_funders:
  assumes "db_ok db" and "pools_ok now db"
    and "revoke_share_key now issuer key db = (db', True)"
  shows "db_ok db' \<and> pools_ok now db' \<and> total_credits db' = total_credits db \<and>
    (\<forall>d. balance_of db' d = balance_of db d + left_of db key d) \<and>
    (\<forall>k. pool_of db' k = (if k = key then 0 else pool_of db k)) \<and>
    (\<forall>t row. find (\<lambda>r. sk_token r = token) (share_keys db) = Some row \<longrightarrow> sk_key_id row = key \<longrightarrow>
      resolve_share_key t token db' = Inl Revoked) \<and>
    revoke_share_key t issuer' key db' = (db', False)"
proof -
  note e = revoke_share_key_effect [OF assms]
  obtain f where f: "\<forall>r. f r = revoked_row now r \<or> f r = settled_row now (revoked_row now r)"
    and sk: "share_keys db' = sql_update (\<lambda>r. sk_key_id r = key) f (share_keys db)"
    using e(6) by (elim exE conjE)
  have fr: "sk_revoked_at (f r) = Some now" "sk_token (f r) = sk_token r" "sk_key_id (f r) = sk_key_id r" for r
    using f [THEN spec, of r] by (auto simp: revoked_row_def settled_row_def)
  have "find (\<lambda>r. sk_token r = token) (sql_update (\<lambda>r. sk_key_id r = key) f t) =
      map_option (\<lambda>r. if sk_key_id r = key then f r else r) (find (\<lambda>r. sk_token r = token) t)" for t token
    by (induction t) (auto simp: fr)
  then have "resolve_share_key t token db' = Inl Revoked"
    if "find (\<lambda>r. sk_token r = token) (share_keys db) = Some row" "sk_key_id row = key" for t row
    using that by (simp add: resolve_share_key_def sk fr)
  moreover have "revoke_share_key t issuer' key db' = (db', False)"
  proof -
    have "sk_revoked_at r = Some now" if "r \<in> set (share_keys db')" "sk_key_id r = key" for r
      using that unfolding sk set_sql_update by (elim imageE) (simp add: fr split: if_splits)
    then have "find (\<lambda>r. sk_key_id r = key \<and> sk_issuer_device_id r = issuer' \<and> sk_revoked_at r = None)
        (share_keys db') = None"
      by (auto simp: find_None_iff)
    then show ?thesis by (simp add: revoke_share_key_def)
  qed
  ultimately show ?thesis using e(1-5) by simp
qed

theorem revoke_refunds_funders_witness:
  "balance_of (fst (revoke_share_key 30 ''alice'' ''k1'' sample_funded)) ''bob'' = 500 \<and>
   revoke_share_key 31 ''alice'' ''k1'' (fst (revoke_share_key 30 ''alice'' ''k1'' sample_funded)) =
     (fst (revoke_share_key 30 ''alice'' ''k1'' sample_funded), False)"
proof -
  have "revoke_share_key 30 ''alice'' ''k1'' sample_funded =
      (fst (revoke_share_key 30 ''alice'' ''k1'' sample_funded), True)" by code_simp
  from revoke_refunds_funders [OF sample_ok(5,6) this]
  have "balance_of (fst (revoke_share_key 30 ''alice'' ''k1'' sample_funded)) ''bob'' =
      balance_of sample_funded ''bob'' + left_of sample_funded ''k1'' ''bob'' \<and>
    revoke_share_key 31 ''alice'' ''k1'' (fst (revoke_share_key 30 ''alice'' ''k1'' sample_funded)) =
      (fst (revoke_share_key 30 ''alice'' ''k1'' sample_funded), False)" by blast
  moreover have "balance_of sample_funded ''bob'' + left_of sample_funded ''k1'' ''bob'' = 500" by code_simp
  ultimately show ?thesis by simp
qed

text \<open>
C21. The expiry pass returns to every funder exactly what is left of their contributions to the keys
that expired unsettled, reports the sum of it, and conserves the credits in the system. No expired
key holds credits afterwards, and running the pass again at the same instant refunds nothing and
changes nothing.
\<close>

theorem expired_keys_refunded_once:
  assumes "db_ok db" and "pools_ok now db" and "refund_expired_share_keys now db = (db', rep)"
  shows "db_ok db' \<and> pools_ok now db' \<and> total_credits db' = total_credits db \<and>
    (\<forall>d. balance_of db' d =
      balance_of db d + (\<Sum>k\<leftarrow>expired_unsettled_keys now db. left_of db k d)) \<and>
    er_credits_refunded rep = (\<Sum>k\<leftarrow>expired_unsettled_keys now db. pool_of db k) \<and>
    (\<forall>r\<in>set (share_keys db'). sk_expires_at r \<le> now \<longrightarrow> pool_of db' (sk_key_id r) = 0) \<and>
    refund_expired_share_keys now db' =
      (db', \<lparr>er_keys_closed = 0, er_contributions_refunded = 0, er_credits_refunded = 0\<rparr>)"
proof -
  note e = refund_expired_effect [OF assms]
  note kp = expired_unsettled_keys_props [OF db_ok_keys [OF assms(1)]]
  have settled: "\<not> (sk_funded r = 1 \<and> sk_revoked_at r = None \<and> sk_expires_at r \<le> now \<and>
      sk_refunds_settled_at r = None)" if "r \<in> set (share_keys db')" for r
  proof -
    obtain r0 where r0: "r0 \<in> set (share_keys db)" "r = (if sk_key_id r0 \<in> set (expired_unsettled_keys now db)
        then settled_row now r0 else r0)"
      using \<open>r \<in> set (share_keys db')\<close> unfolding e(6) set_map by (elim imageE)
    show ?thesis
    proof (cases "sk_key_id r0 \<in> set (expired_unsettled_keys now db)")
      case False
      then have "r = r0" using r0(2) by simp
      then show ?thesis using False kp(2) [OF r0(1), of now] by simp
    qed (simp add: r0(2) settled_row_def)
  qed
  have "pool_of db' (sk_key_id r) = 0" if "r \<in> set (share_keys db')" "sk_expires_at r \<le> now" for r
    using pools_okD(1) [OF e(2) that(1)] settled [OF that(1)] that(2)
    by (auto simp: key_pool_ok_def key_live_def)
  moreover have "expired_unsettled_keys now db' = []"
    using settled by (auto simp: expired_unsettled_keys_def filter_empty_conv)
  then have "refund_expired_share_keys now db' =
      (db', \<lparr>er_keys_closed = 0, er_contributions_refunded = 0, er_credits_refunded = 0\<rparr>)"
    by (simp add: refund_expired_share_keys_def)
  ultimately show ?thesis using e(1-4,7) by simp
qed

theorem expired_keys_refunded_once_witness:
  "balance_of (fst (refund_expired_share_keys 5000 sample_funded)) ''alice'' = 1000 \<and>
   db_ok sample_funded \<and> pools_ok 5000 sample_funded"
proof -
  have "refund_expired_share_keys 5000 sample_funded =
      (fst (refund_expired_share_keys 5000 sample_funded), snd (refund_expired_share_keys 5000 sample_funded))"
    by simp
  from expired_keys_refunded_once [OF sample_ok(5,7) this]
  have "balance_of (fst (refund_expired_share_keys 5000 sample_funded)) ''alice'' =
      balance_of sample_funded ''alice'' +
      (\<Sum>k\<leftarrow>expired_unsettled_keys 5000 sample_funded. left_of sample_funded k ''alice'')" by simp
  moreover have "balance_of sample_funded ''alice'' +
      (\<Sum>k\<leftarrow>expired_unsettled_keys 5000 sample_funded. left_of sample_funded k ''alice'') = 1000"
    by code_simp
  ultimately show ?thesis using sample_ok(5,7) by simp
qed

text \<open>
C22. What authentication reports is backed by credits: a bearer token that resolves, on a database
whose keys have all been brought forward, resolves to a live key whose remaining budget is
positive and equal to the credits its pool holds.
\<close>

theorem resolved_key_is_backed:
  assumes "pools_ok clock db" and "clock \<le> now"
    and "list_all (\<lambda>r. sk_funded r = 1) (share_keys db)"
    and "resolve_share_key now token db = Inr (Some k)"
  shows "resolved_remaining k = pool_of db (rk_key_id k) \<and> 0 < resolved_remaining k \<and>
    now < rk_expires_at k"
proof -
  obtain r where r: "find (\<lambda>r. sk_token r = token) (share_keys db) = Some r" "sk_revoked_at r = None"
    "now < sk_expires_at r" "sk_consumed_credits r < sk_budget_credits r"
    and k: "rk_key_id k = sk_key_id r" "rk_budget_credits k = sk_budget_credits r"
      "rk_consumed_credits k = sk_consumed_credits r" "rk_expires_at k = sk_expires_at r"
    using assms(4) by (auto simp: resolve_share_key_def split: option.splits if_splits)
  have m: "r \<in> set (share_keys db)" using r(1) by (auto simp: find_Some_iff)
  have "key_live r"
    using pools_okD(2) [OF assms(1) m] assms(2,3) r m
    by (auto simp: key_live_def key_clock_ok_def list_all_iff)
  then show ?thesis
    using pools_okD(1) [OF assms(1) m] r k by (simp add: key_pool_ok_def resolved_remaining_def)
qed

theorem resolved_key_is_backed_witness:
  "\<exists>k. resolve_share_key 30 ''tok1'' sample_funded = Inr (Some k) \<and>
     resolved_remaining k = pool_of sample_funded ''k1'' \<and> pool_of sample_funded ''k1'' = 151"
proof -
  define k where "k = \<lparr>rk_key_id = ''k1'', rk_issuer_device_id = ''alice'', rk_budget_credits = 151,
    rk_consumed_credits = 0, rk_expires_at = 3610\<rparr>"
  have k: "resolve_share_key 30 ''tok1'' sample_funded = Inr (Some k)"
    unfolding k_def by code_simp
  have "list_all (\<lambda>r. sk_funded r = 1) (share_keys sample_funded)" by code_simp
  from resolved_key_is_backed [OF sample_ok(6) _ this k]
  have "resolved_remaining k = pool_of sample_funded ''k1''" by (simp add: k_def)
  then show ?thesis using k by (intro exI [of _ k]) (simp add: k_def resolved_remaining_def)
qed

text \<open>
Debiting a pool takes exactly the spend, or all the pool holds when that is less: the key's pool
and the sum of all pools drop by it, no other pool and no wallet changes, and no contribution
becomes negative.
\<close>

theorem pool_spend_exact:
  assumes "db_ok db"
  shows "db_ok (apply_pro_rata_share_key_spend_tx key spend db) \<and>
    (\<forall>k. pool_of (apply_pro_rata_share_key_spend_tx key spend db) k =
      pool_of db k - (if k = key then min (max spend 0) (pool_of db key) else 0)) \<and>
    total_credits (apply_pro_rata_share_key_spend_tx key spend db) =
      total_credits db - min (max spend 0) (pool_of db key) \<and>
    balance_of (apply_pro_rata_share_key_spend_tx key spend db) = balance_of db"
  using assms by (simp add: spend_pool total_credits_def)

theorem pool_spend_exact_witness:
  "pool_of (apply_pro_rata_share_key_spend_tx ''k1'' 40 sample_funded) ''k1'' = 111 \<and>
   db_ok sample_funded"
proof -
  have "pool_of sample_funded ''k1'' = 151" by code_simp
  then show ?thesis using pool_spend_exact [OF sample_ok(5), of "''k1''" 40] sample_ok(5) by simp
qed

end
