(* ===== verification/Share_Key_Migration.thy ===== *)
theory Share_Key_Migration
  imports Share_Key_Pools
begin

text \<open>
  The start-up pass that funds the share keys minted before pools existed: when it succeeds it
  establishes the pool invariant for every key without creating or destroying credits, and one
  unfunded key whose issuer cannot pay makes the whole pass fail.
\<close>

section \<open>One key\<close>

lemma insert_contribution_any:
  assumes "insert_share_key_contribution_tx cid key funder funded rem created refunded reason db = Inr db'"
  shows "\<exists>c. db' = db\<lparr>share_key_contributions := share_key_contributions db @ [c]\<rparr> \<and>
      skc_contribution_id c = cid \<and> skc_key_id c = key \<and> skc_remaining_credits c = max rem 0 \<and>
      skc_refunded_at c = refunded"
    and "cid \<notin> skc_contribution_id ` set (share_key_contributions db)"
proof -
  let ?c = "\<lparr>skc_contribution_id = cid, skc_key_id = key, skc_funder_device_id = funder,
    skc_funded_credits = funded, skc_remaining_credits = max rem 0, skc_created_at = created,
    skc_refunded_at = refunded, skc_refund_reason = reason\<rparr>"
  have "db' = db\<lparr>share_key_contributions := share_key_contributions db @ [?c]\<rparr>"
    and fresh: "cid \<notin> skc_contribution_id ` set (share_key_contributions db)"
    using assms by (simp_all add: insert_share_key_contribution_tx_def has_row_key_iff split: if_splits)
  then show "\<exists>c. db' = db\<lparr>share_key_contributions := share_key_contributions db @ [c]\<rparr> \<and>
      skc_contribution_id c = cid \<and> skc_key_id c = key \<and> skc_remaining_credits c = max rem 0 \<and>
      skc_refunded_at c = refunded" by (intro exI [of _ ?c]) simp
  show "cid \<notin> skc_contribution_id ` set (share_key_contributions db)" by (fact fresh)
qed

text \<open>What bringing one key forward has to establish.\<close>

lemma migrate_core:
  assumes ok: "db_ok db" and pools: "pools_ok now db" and row: "row \<in> set (share_keys db)"
    "\<not> key_live row"
    and g: "\<And>r. sk_key_id (g r) = sk_key_id r"
    and sk: "share_keys db' = sql_update (\<lambda>r. sk_key_id r = sk_key_id row) g (share_keys db)"
    and con: "share_key_contributions db' = share_key_contributions db @ [c]"
    and c: "skc_key_id c = sk_key_id row" "skc_remaining_credits c = debit" "0 \<le> debit"
      "skc_contribution_id c \<notin> skc_contribution_id ` set (share_key_contributions db)"
      "skc_refunded_at c \<noteq> None \<longrightarrow> debit = 0"
    and X: "db_ok X" "balances db' = balances X" "device_credits X = device_credits db - debit"
    and same: "account_wallets db' = account_wallets db" "provider_wallets db' = provider_wallets db"
      "api_keys db' = api_keys db" "account_withdrawals db' = account_withdrawals db"
      "account_devices db' = account_devices db" "availability_sessions db' = availability_sessions db"
    and grow: "sk_consumed_credits (g row) \<le> sk_budget_credits (g row)" "key_clock_ok now (g row)"
      "debit = (if key_live (g row) then sk_budget_credits (g row) - sk_consumed_credits (g row) else 0)"
  shows "db_ok db'" and "pools_ok now db'" and "total_credits db' = total_credits db"
proof -
  have dk: "distinct (map sk_key_id (share_keys db'))"
    unfolding sk sql_update_key_map [of sk_key_id g, OF g] using ok by (simp add: db_ok_def keys_ok_def)
  show "db_ok db'"
    using ok X(1) c(2-4) dk unfolding db_ok_def keys_ok_def wallets_nonneg_def X(2) con same by simp
  have pool: "pool_of db' k = pool_of db k + (if k = sk_key_id row then debit else 0)" for k
    by (simp add: pool_of_def con c)
  have p0: "pool_of db (sk_key_id row) = 0"
    using pools_okD(1) [OF pools row(1)] row(2) by (simp add: key_pool_ok_def)
  show "pools_ok now db'"
  proof (rule pools_ok_update [OF pools _ sk])
    show "key_pool_ok db' (g r) \<and> key_clock_ok now (g r)"
      if "r \<in> set (share_keys db)" "sk_key_id r = sk_key_id row" for r
      using key_row_unique [OF db_ok_keys [OF ok] that(1) row(1) that(2)] grow g p0
      by (simp add: key_pool_ok_def pool)
    show "refunded_clear db'"
      using pools c(2,5) by (simp add: pools_ok_def contributions_ok_def refunded_clear_def con)
    show "skc_key_id ` set (share_key_contributions db') \<subseteq>
        skc_key_id ` set (share_key_contributions db) \<union> sk_key_id ` set (share_keys db)"
      using row(1) by (auto simp: con c(1))
  qed (simp_all add: g pool)
  have "pool_credits db' = pool_credits db + debit" by (simp add: pool_credits_def con c)
  moreover have "device_credits db' = device_credits db - debit"
    using table_obs(2) [OF X(2)] X(3) by simp
  ultimately show "total_credits db' = total_credits db"
    using table_obs(5) [OF same(1)] table_obs(8) [OF same(2)] by (simp add: total_credits_def)
qed

lemma ensure_funding_id_Inr:
  assumes "ensure_share_key_funding_id_tx fresh key existing db = Inr (db1, i)"
  shows "\<exists>x. db1 = update_share_key key (sk_funding_id_update x) db"
proof (cases existing)
  case None
  then show ?thesis
    using assms by (intro exI [of _ "\<lambda>_. Some fresh"])
      (auto simp: ensure_share_key_funding_id_tx_def split: if_splits)
next
  case (Some j)
  then have "db1 = update_share_key key (\<lambda>r. r) db"
    using assms by (simp add: ensure_share_key_funding_id_tx_def update_share_key_id)
  moreover have "sk_funding_id_update (\<lambda>v. v) = (\<lambda>r :: share_key_row. r)" by (simp add: fun_eq_iff)
  ultimately show ?thesis by (intro exI [of _ "\<lambda>v. v"]) simp
qed

lemma update_share_key_twice:
  "(\<And>r. sk_key_id (f r) = sk_key_id r) \<Longrightarrow>
     update_share_key key g (update_share_key key f db) = update_share_key key (g \<circ> f) db"
  by (simp add: update_share_key_def sql_update_twice)

lemma update_share_key_share_keys:
  "share_keys (update_share_key key f db) = sql_update (\<lambda>r. sk_key_id r = key) f (share_keys db)"
  by (simp add: update_share_key_def)

text \<open>The effect of one turn of the loop on a database that still holds the row as it was read.\<close>

definition migrated ::
  "int \<Rightarrow> share_key_row \<Rightarrow> int \<Rightarrow> gateway_db \<Rightarrow> gateway_db \<Rightarrow> bool" where
  "migrated now row debit db db' \<longleftrightarrow> db_ok db' \<and> pools_ok now db' \<and> total_credits db' = total_credits db \<and>
     0 \<le> debit \<and> device_credits db' = device_credits db - debit \<and>
     (\<forall>d. balance_of db' d = balance_of db d - (if d = sk_issuer_device_id row then debit else 0)) \<and>
     (\<exists>g. (\<forall>r. sk_key_id (g r) = sk_key_id r \<and> sk_funded (g r) = 1) \<and>
       share_keys db' = sql_update (\<lambda>r. sk_key_id r = sk_key_id row) g (share_keys db))"

lemma migrate_dead_effect:
  assumes ok: "db_ok db" and pools: "pools_ok now db" and row: "row \<in> set (share_keys db)"
    "sk_funded row = 0" and dead: "sk_revoked_at row \<noteq> None \<or> sk_expires_at row \<le> now"
    and m: "migrate_dead now cid row (update_share_key (sk_key_id row) (sk_funding_id_update x) db) = Inr db'"
  shows "migrated now row 0 db db'"
proof -
  let ?key = "sk_key_id row"
  define t where "t = (case sk_revoked_at row of None \<Rightarrow> now | Some t \<Rightarrow> t)"
  define g where "g = (\<lambda>r. r\<lparr>sk_funded := 1, sk_refunds_settled_at := Some t\<rparr>) \<circ>
    (sk_funding_id_update x :: share_key_row \<Rightarrow> share_key_row)"
  obtain funded created reason where ins: "insert_share_key_contribution_tx cid ?key
      (sk_issuer_device_id row) funded 0 created (Some t) reason (update_share_key ?key g db) = Inr db'"
    using m by (simp add: migrate_dead_def Let_def update_share_key_twice g_def t_def)
  obtain c where c: "db' = (update_share_key ?key g db)\<lparr>share_key_contributions :=
      share_key_contributions (update_share_key ?key g db) @ [c]\<rparr>"
    "skc_contribution_id c = cid" "skc_key_id c = ?key" "skc_remaining_credits c = 0"
    using insert_contribution_any(1) [OF ins] by (elim exE conjE) simp
  have sk: "share_keys db' = sql_update (\<lambda>r. sk_key_id r = ?key) g (share_keys db)"
    by (simp add: c(1) update_share_key_share_keys)
  have nl: "\<not> key_live row" using row(2) by (simp add: key_live_def)
  have gr: "sk_key_id (g r) = sk_key_id r" "sk_funded (g r) = 1" "\<not> key_live (g r)"
    "sk_consumed_credits (g r) = sk_consumed_credits r" "sk_budget_credits (g r) = sk_budget_credits r"
    "sk_revoked_at (g r) = sk_revoked_at r" "sk_expires_at (g r) = sk_expires_at r" for r
    by (simp_all add: g_def key_live_def)
  have grow: "sk_consumed_credits (g row) \<le> sk_budget_credits (g row)" "key_clock_ok now (g row)"
    using pools_okD(1) [OF pools row(1)] dead by (simp_all add: gr key_pool_ok_def key_clock_ok_def)
  have same: "account_wallets db' = account_wallets db" "provider_wallets db' = provider_wallets db"
    "api_keys db' = api_keys db" "account_withdrawals db' = account_withdrawals db"
    "account_devices db' = account_devices db" "availability_sessions db' = availability_sessions db"
    "balances db' = balances db"
    "share_key_contributions db' = share_key_contributions db @ [c]"
    by (simp_all add: c(1) stmt_defs)
  have fresh: "skc_contribution_id c \<notin> skc_contribution_id ` set (share_key_contributions db)"
    using insert_contribution_any(2) [OF ins] c(2) by simp
  have "device_credits db = device_credits db - 0" "0 = (if key_live (g row) then
      sk_budget_credits (g row) - sk_consumed_credits (g row) else 0)" by (simp_all add: gr)
  note core = migrate_core [OF ok pools row(1) nl gr(1) sk same(8) c(3,4) _ fresh _ ok same(7)
      this(1) same(1-6) grow this(2)]
  show ?thesis
    using core sk gr(1,2) table_obs(1,2) [OF same(7)]
    by (simp add: migrated_def) (intro exI [of _ g], simp)
qed

definition funded_row :: "int option \<Rightarrow> share_key_row \<Rightarrow> share_key_row" where
  "funded_row budget r = (case budget of None \<Rightarrow> r\<lparr>sk_funded := 1\<rparr>
     | Some b \<Rightarrow> r\<lparr>sk_budget_credits := b, sk_funded := 1\<rparr>)"

text \<open>Every branch of a live key ends in one insertion of what was debited, on a database whose
  wallets have paid for it.\<close>

definition paid :: "string \<Rightarrow> int \<Rightarrow> gateway_db \<Rightarrow> gateway_db \<Rightarrow> bool" where
  "paid issuer debit db Y \<longleftrightarrow> (debit = 0 \<and> (Y = db \<or> Y = ensure_balance issuer db)) \<or>
     (0 < debit \<and> debit \<le> balance_of db issuer \<and> (\<exists>ty ts note. Y = insert_ledger issuer ty (- debit) ts None
        note (update_balance issuer (row_move (- debit)) (ensure_balance issuer db))))"

lemma set_budget_funded_Inr:
  assumes "set_budget_funded key budget db = Inr db'"
  shows "db' = update_share_key key (funded_row (Some budget)) db"
    and "key \<in> sk_key_id ` set (share_keys db) \<Longrightarrow> 0 < budget"
  using assms by (simp_all add: set_budget_funded_def funded_row_def [abs_def] has_row_key_iff split: if_splits)

lemma migrate_live_form:
  assumes m: "migrate_live now cid row (db, rep) = Inr (db', rep')"
    and le: "sk_consumed_credits row \<le> sk_budget_credits row"
    and nn: "wallets_nonneg db"
  shows "\<exists>funded b debit Y. 0 \<le> debit \<and> paid (sk_issuer_device_id row) debit db Y \<and>
    insert_share_key_contribution_tx cid (sk_key_id row) (sk_issuer_device_id row) funded debit now None
      None (update_share_key (sk_key_id row) (funded_row b) Y) = Inr db' \<and>
    sk_consumed_credits row + debit = (case b of None \<Rightarrow> sk_budget_credits row | Some b' \<Rightarrow> b') \<and>
    (\<forall>b'. b = Some b' \<longrightarrow> sk_key_id row \<in> sk_key_id ` set (share_keys db) \<longrightarrow> 0 < b') \<and>
    mr_total_debited_credits rep' = mr_total_debited_credits rep + debit"
proof (cases "max (sk_budget_credits row - sk_consumed_credits row) 0 = 0")
  case True
  with m le show ?thesis
    by (intro exI [of _ "max (sk_budget_credits row) 1"] exI [of _ "None :: int option"] exI [of _ 0]
        exI [of _ db])
      (auto simp: migrate_live_def Let_def paid_def funded_row_def [abs_def])
next
  case False
  let ?issuer = "sk_issuer_device_id row" and ?key = "sk_key_id row"
  let ?owed = "max (sk_budget_credits row - sk_consumed_credits row) 0"
  define debit where "debit = min ?owed (max (balance_of db ?issuer) 0)"
  define Y where "Y = (if debit > 0 then insert_ledger ?issuer (as_str ShareKeyFund) (- debit) now None
      (Some (retroactive_note ?key)) (update_balance ?issuer (row_move (- debit)) (ensure_balance ?issuer db))
      else ensure_balance ?issuer db)"
  define nb where "nb = sk_consumed_credits row + debit"
  define b where "b = (if nb < sk_budget_credits row then Some nb else None)"
  have d: "0 \<le> debit" "debit \<le> balance_of db ?issuer" "debit \<le> ?owed"
    using balance_of_nonneg [OF nn, of ?issuer] by (simp_all add: debit_def)
  obtain brow where brow: "balance_row_of (ensure_balance ?issuer db) ?issuer = Some brow"
    using has_balance_row [of "ensure_balance ?issuer db" ?issuer] by auto
  have bal: "bal_balance brow = balance_of db ?issuer" using balance_row_of_amount [OF brow] by simp
  have "migrate_live now cid row (db, rep) =
      rbind (if nb < sk_budget_credits row
        then rbind (set_budget_funded ?key nb Y) (\<lambda>db3. Inr (db3, rep\<lparr>
          mr_funded_partially := mr_funded_partially rep + 1,
          mr_total_shrunk_credits := mr_total_shrunk_credits rep + (sk_budget_credits row - nb)\<rparr>))
        else Inr (update_share_key ?key (funded_row None) Y,
          rep\<lparr>mr_funded_fully := mr_funded_fully rep + 1\<rparr>)) (\<lambda>(db3, rep1).
      rbind (insert_share_key_contribution_tx cid ?key ?issuer (max debit 1) debit now None None db3)
        (\<lambda>db4. Inr (db4, rep1\<lparr>mr_total_debited_credits := mr_total_debited_credits rep1 + debit\<rparr>)))"
    unfolding migrate_live_def Let_def prod.case brow ok_or_simps rbind_simps bal
      if_not_P [OF False] debit_def [symmetric] nb_def [symmetric] Y_def [symmetric]
    by (simp add: funded_row_def [abs_def])
  with m have ins: "insert_share_key_contribution_tx cid ?key ?issuer (max debit 1) debit now
      None None (update_share_key ?key (funded_row b) Y) = Inr db'"
    and rep: "mr_total_debited_credits rep' = mr_total_debited_credits rep + debit"
    and pos: "nb < sk_budget_credits row \<Longrightarrow> ?key \<in> sk_key_id ` set (share_keys Y) \<Longrightarrow> 0 < nb"
    by (auto simp: b_def dest: set_budget_funded_Inr split: if_splits)
  have "share_keys Y = share_keys db" by (simp add: Y_def)
  with pos have "\<forall>b'. b = Some b' \<longrightarrow> ?key \<in> sk_key_id ` set (share_keys db) \<longrightarrow> 0 < b'"
    by (auto simp: b_def split: if_splits)
  moreover
  have "paid ?issuer debit db Y" using d unfolding paid_def Y_def by auto
  moreover have "sk_consumed_credits row + debit =
      (case b of None \<Rightarrow> sk_budget_credits row | Some b' \<Rightarrow> b')"
    using d le False by (auto simp: b_def nb_def)
  ultimately show ?thesis using ins rep d(1) by blast
qed

lemma paid_effect:
  assumes "db_ok db" and "paid issuer debit db Y"
  shows "db_ok Y" "device_credits Y = device_credits db - debit"
    "balance_of Y d = balance_of db d - (if d = issuer then debit else 0)"
    "share_keys Y = share_keys db" "share_key_contributions Y = share_key_contributions db"
    "account_wallets Y = account_wallets db" "provider_wallets Y = provider_wallets db"
    "api_keys Y = api_keys db" "account_withdrawals Y = account_withdrawals db"
    "account_devices Y = account_devices db" "availability_sessions Y = availability_sessions db"
proof -
  show "db_ok Y" "device_credits Y = device_credits db - debit"
    "balance_of Y d = balance_of db d - (if d = issuer then debit else 0)"
    "share_keys Y = share_keys db" "share_key_contributions Y = share_key_contributions db"
    "account_wallets Y = account_wallets db" "provider_wallets Y = provider_wallets db"
    "api_keys Y = api_keys db"
    using assms unfolding paid_def by (auto simp: move_obs move_ok)
  show "account_withdrawals Y = account_withdrawals db" "account_devices Y = account_devices db"
    "availability_sessions Y = availability_sessions db"
    using assms(2) unfolding paid_def by (auto simp: stmt_defs)
qed

lemma migrate_live_effect:
  assumes ok: "db_ok db" and pools: "pools_ok now db" and row: "row \<in> set (share_keys db)"
    "sk_funded row = 0" and live: "sk_revoked_at row = None" "now < sk_expires_at row"
    and m: "migrate_live now cid row
      (update_share_key (sk_key_id row) (sk_funding_id_update x) db, rep) = Inr (db', rep')"
  shows "\<exists>debit. migrated now row debit db db' \<and>
    mr_total_debited_credits rep' = mr_total_debited_credits rep + debit"
proof -
  let ?key = "sk_key_id row" and ?issuer = "sk_issuer_device_id row"
  let ?db1 = "update_share_key ?key (sk_funding_id_update x) db"
  have ok1: "db_ok ?db1" using ok by simp
  have le: "sk_consumed_credits row \<le> sk_budget_credits row"
    using pools_okD(1) [OF pools row(1)] by (simp add: key_pool_ok_def)
  obtain funded b debit Y where d0: "0 \<le> debit" and pd: "paid ?issuer debit ?db1 Y"
    and ins: "insert_share_key_contribution_tx cid ?key ?issuer funded debit now None None
      (update_share_key ?key (funded_row b) Y) = Inr db'"
    and budget: "sk_consumed_credits row + debit =
      (case b of None \<Rightarrow> sk_budget_credits row | Some b' \<Rightarrow> b')"
    and rep: "mr_total_debited_credits rep' = mr_total_debited_credits rep + debit"
    using migrate_live_form [OF m le db_ok_nonneg [OF ok1]] by blast
  note Y = paid_effect [OF ok1 pd]
  define g where "g = funded_row b \<circ> (sk_funding_id_update x :: share_key_row \<Rightarrow> share_key_row)"
  obtain c where c: "db' = (update_share_key ?key (funded_row b) Y)\<lparr>share_key_contributions :=
      share_key_contributions (update_share_key ?key (funded_row b) Y) @ [c]\<rparr>"
    "skc_contribution_id c = cid" "skc_key_id c = ?key" "skc_remaining_credits c = max debit 0"
    "skc_refunded_at c = None"
    using insert_contribution_any(1) [OF ins] by (elim exE conjE) simp
  have sk: "share_keys db' = sql_update (\<lambda>r. sk_key_id r = ?key) g (share_keys db)"
    by (simp add: c(1) update_share_key_share_keys Y(4) sql_update_twice g_def)
  have gr: "sk_key_id (g r) = sk_key_id r" "sk_funded (g r) = 1"
    "sk_consumed_credits (g r) = sk_consumed_credits r" "sk_revoked_at (g r) = sk_revoked_at r"
    "sk_refunds_settled_at (g r) = sk_refunds_settled_at r" "sk_expires_at (g r) = sk_expires_at r"
    "sk_budget_credits (g r) = (case b of None \<Rightarrow> sk_budget_credits r | Some b' \<Rightarrow> b')" for r
    by (cases b; simp add: g_def funded_row_def)+
  have "sk_refunds_settled_at row = None"
    using pools_okD(2) [OF pools row(1)] live by (auto simp: key_clock_ok_def)
  then have grow: "sk_consumed_credits (g row) \<le> sk_budget_credits (g row)" "key_clock_ok now (g row)"
    "debit = (if key_live (g row) then sk_budget_credits (g row) - sk_consumed_credits (g row) else 0)"
    using live d0 budget by (simp_all add: gr key_live_def key_clock_ok_def)
  have same: "account_wallets db' = account_wallets db" "provider_wallets db' = provider_wallets db"
    "api_keys db' = api_keys db" "account_withdrawals db' = account_withdrawals db"
    "account_devices db' = account_devices db" "availability_sessions db' = availability_sessions db"
    "balances db' = balances Y"
    "share_key_contributions db' = share_key_contributions db @ [c]"
    using Y by (simp_all add: c(1) stmt_defs)
  have fresh: "skc_contribution_id c \<notin> skc_contribution_id ` set (share_key_contributions db)"
    using insert_contribution_any(2) [OF ins] c(2) Y(5) by simp
  have nl: "\<not> key_live row" and cr: "skc_remaining_credits c = debit"
    using row(2) c(4) d0 by (simp_all add: key_live_def)
  have "device_credits Y = device_credits db - debit" using Y(2) by simp
  note core = migrate_core [OF ok pools row(1) nl gr(1) sk same(8) c(3) cr d0 fresh _ Y(1) same(7)
      this same(1-6) grow]
  have "balance_of db' d = balance_of db d - (if d = ?issuer then debit else 0)" for d
    using table_obs(1) [OF same(7)] Y(3) [of d] by simp
  then have "migrated now row debit db db'"
    using core c(5) sk gr(1,2) d0 Y(2) table_obs(2) [OF same(7)] by (simp add: migrated_def) (intro exI [of _ g], simp)
  then show ?thesis using rep by blast
qed

lemma migrate_step_effect:
  assumes ok: "db_ok db" and pools: "pools_ok now db" and row: "row \<in> set (share_keys db)"
    "sk_funded row = 0"
    and m: "migrate_step now nf nc row (db, rep) = Inr (db', rep')"
  shows "\<exists>debit. migrated now row debit db db' \<and>
    mr_total_debited_credits rep' = mr_total_debited_credits rep + debit"
proof -
  obtain db1 i where e: "ensure_share_key_funding_id_tx (nf (sk_key_id row)) (sk_key_id row)
      (sk_funding_id row) db = Inr (db1, i)"
    using m by (auto simp: migrate_step_def)
  then obtain x where db1: "db1 = update_share_key (sk_key_id row) (sk_funding_id_update x) db"
    using ensure_funding_id_Inr by blast
  show ?thesis
  proof (cases "sk_revoked_at row \<noteq> None \<or> sk_expires_at row \<le> now")
    case True
    then have "migrate_dead now (nc (sk_key_id row)) row db1 = Inr db'"
      and "rep' = rep\<lparr>mr_skipped_revoked := mr_skipped_revoked rep + 1\<rparr>"
      using m e by (auto simp: migrate_step_def)
    then show ?thesis
      using migrate_dead_effect [OF ok pools row True] by (intro exI [of _ 0]) (simp add: db1)
  next
    case False
    then have "migrate_live now (nc (sk_key_id row)) row (db1, rep) = Inr (db', rep')"
      using m e by (simp add: migrate_step_def)
    then show ?thesis
      using migrate_live_effect [OF ok pools row] False by (simp add: db1)
  qed
qed

section \<open>The loop\<close>

lemma migrated_rows:
  assumes "migrated now row debit db db'" and "r \<in> set (share_keys db)"
    and "sk_key_id r \<noteq> sk_key_id row"
  shows "r \<in> set (share_keys db')"
  using assms by (auto simp: migrated_def set_sql_update image_iff intro: bexI [of _ r])

lemma migrate_loop:
  assumes "db_ok db" and "pools_ok now db" and "set xs \<subseteq> set (share_keys db)"
    and "distinct (map sk_key_id xs)" and "\<forall>r\<in>set xs. sk_funded r = 0"
    and "rfold (migrate_step now nf nc) xs (db, rep) = Inr (db', rep')"
  shows "db_ok db' \<and> pools_ok now db' \<and> total_credits db' = total_credits db \<and>
    (\<forall>d. balance_of db' d \<le> balance_of db d) \<and>
    mr_total_debited_credits rep' - mr_total_debited_credits rep = device_credits db - device_credits db' \<and>
    (\<forall>r\<in>set (share_keys db'). sk_funded r = 1 \<or>
      (r \<in> set (share_keys db) \<and> sk_key_id r \<notin> sk_key_id ` set xs))"
  using assms
proof (induction xs arbitrary: db rep)
  case (Cons x xs)
  obtain db1 rep1 where st: "migrate_step now nf nc x (db, rep) = Inr (db1, rep1)"
    and rest: "rfold (migrate_step now nf nc) xs (db1, rep1) = Inr (db', rep')"
    using Cons.prems(6) by auto
  obtain debit where m: "migrated now x debit db db1"
    and rep1: "mr_total_debited_credits rep1 = mr_total_debited_credits rep + debit"
    using migrate_step_effect [OF Cons.prems(1,2) _ _ st] Cons.prems(3,5) by auto
  have nx: "sk_key_id r \<noteq> sk_key_id x" if "r \<in> set xs" for r
    using Cons.prems(4) that by (auto simp: image_iff)
  have sub: "set xs \<subseteq> set (share_keys db1)"
    using migrated_rows [OF m] nx Cons.prems(3) by auto
  have ok1: "db_ok db1" "pools_ok now db1" using m by (simp_all add: migrated_def)
  have "distinct (map sk_key_id xs)" "\<forall>r\<in>set xs. sk_funded r = 0" using Cons.prems(4,5) by simp_all
  note ih = Cons.IH [OF ok1 sub this rest]
  have old: "sk_funded r = 1 \<or> (r \<in> set (share_keys db) \<and> sk_key_id r \<noteq> sk_key_id x)"
    if "r \<in> set (share_keys db1)" for r
    using m that by (auto simp: migrated_def set_sql_update)
  have "balance_of db1 d \<le> balance_of db d" for d using m by (simp add: migrated_def)
  then have le: "balance_of db' d \<le> balance_of db d" for d using ih order_trans by blast
  have rows: "sk_funded r = 1 \<or> (r \<in> set (share_keys db) \<and> sk_key_id r \<notin> sk_key_id ` set (x # xs))"
    if "r \<in> set (share_keys db')" for r
  proof -
    have "sk_funded r = 1 \<or> (r \<in> set (share_keys db1) \<and> sk_key_id r \<notin> sk_key_id ` set xs)"
      using ih that by blast
    then show ?thesis using old [of r] by auto
  qed
  show ?case
    using ih le rows m rep1 by (simp add: migrated_def)
qed simp

lemma migrate_step_broke:
  assumes ok: "db_ok db" and pools: "pools_ok now db" and row: "row \<in> set (share_keys db)"
    and live: "sk_revoked_at row = None" "now < sk_expires_at row"
    and zero: "sk_consumed_credits row = 0" "0 < sk_budget_credits row"
      "balance_of db (sk_issuer_device_id row) \<le> 0"
  shows "migrate_step now nf nc row (db, rep) \<noteq> Inr (db', rep')"
proof
  let ?key = "sk_key_id row"
  assume m: "migrate_step now nf nc row (db, rep) = Inr (db', rep')"
  obtain db1 i where e: "ensure_share_key_funding_id_tx (nf ?key) ?key (sk_funding_id row) db = Inr (db1, i)"
    using m by (auto simp: migrate_step_def)
  then obtain x where db1: "db1 = update_share_key ?key (sk_funding_id_update x) db"
    using ensure_funding_id_Inr by blast
  have l: "migrate_live now (nc ?key) row (db1, rep) = Inr (db', rep')"
    using m e live by (simp add: migrate_step_def)
  have k: "?key \<in> sk_key_id ` set (share_keys db1)"
    using row by (simp add: db1 update_share_key_share_keys sql_update_key_set)
  have "db_ok db1" using ok by (simp add: db1)
  then obtain b debit Y where "paid (sk_issuer_device_id row) debit db1 Y"
    "debit = (case b of None \<Rightarrow> sk_budget_credits row | Some b' \<Rightarrow> b')" "\<forall>b'. b = Some b' \<longrightarrow> 0 < b'"
    using migrate_live_form [OF l] zero k by (auto dest: db_ok_nonneg)
  then show False using zero by (auto simp: paid_def db1 split: option.splits)
qed

lemma migrate_loop_broke:
  assumes "db_ok db" and "pools_ok now db" and "set xs \<subseteq> set (share_keys db)"
    and "distinct (map sk_key_id xs)" and "\<forall>r\<in>set xs. sk_funded r = 0"
    and "row \<in> set xs" and "sk_revoked_at row = None" "now < sk_expires_at row"
    and "sk_consumed_credits row = 0" "0 < sk_budget_credits row"
      "balance_of db (sk_issuer_device_id row) \<le> 0"
  shows "rfold (migrate_step now nf nc) xs (db, rep) \<noteq> Inr st"
  using assms(1-6,11)
proof (induction xs arbitrary: db rep)
  case (Cons x xs)
  show ?case
  proof
    assume "rfold (migrate_step now nf nc) (x # xs) (db, rep) = Inr st"
    then obtain db1 rep1 where st: "migrate_step now nf nc x (db, rep) = Inr (db1, rep1)"
      and rest: "rfold (migrate_step now nf nc) xs (db1, rep1) = Inr st" by auto
    show False
    proof (cases "x = row")
      case True
      then show False using migrate_step_broke [OF Cons.prems(1,2) _ assms(7-10) Cons.prems(7)] st
        Cons.prems(3) by auto
    next
      case False
      obtain debit where m: "migrated now x debit db db1"
        using migrate_step_effect [OF Cons.prems(1,2) _ _ st] Cons.prems(3,5) by auto
      have nx: "sk_key_id r \<noteq> sk_key_id x" if "r \<in> set xs" for r
        using Cons.prems(4) that by (auto simp: image_iff)
      have sub: "set xs \<subseteq> set (share_keys db1)"
        using migrated_rows [OF m] nx Cons.prems(3) by auto
      have "balance_of db1 (sk_issuer_device_id row) \<le> 0" "db_ok db1" "pools_ok now db1"
        using m Cons.prems(7) by (auto simp: migrated_def)
      then show False
        using Cons.IH [of db1 rep1] sub Cons.prems(4-6) False rest by simp
    qed
  qed
qed simp

section \<open>Properties\<close>

text \<open>
When the migration succeeds it has brought every unfunded key forward: every key it read is funded,
the pool invariant holds, no wallet is negative or gained anything, the credits in the system are
those of before, and the report's debits are exactly what left the device wallets.
\<close>

theorem migration_funds_all_keys:
  assumes "db_ok db" and "pools_ok now db"
    and "migrate_unfunded_share_keys now new_funding_id new_cid db = Inr (db', report)"
  shows "db_ok db' \<and> pools_ok now db' \<and> total_credits db' = total_credits db \<and>
    (\<forall>d. balance_of db' d \<le> balance_of db d) \<and>
    mr_total_debited_credits report = device_credits db - device_credits db' \<and>
    (\<forall>r\<in>set (share_keys db'). sk_funded r \<noteq> 0)"
proof -
  let ?xs = "filter (\<lambda>r. sk_funded r = 0) (share_keys db)"
  have "distinct (map sk_key_id ?xs)" "set ?xs \<subseteq> set (share_keys db)" "\<forall>r\<in>set ?xs. sk_funded r = 0"
    using assms(1) by (simp_all add: db_ok_def keys_ok_def distinct_map_filter)
  note l = migrate_loop [OF assms(1,2) this(2,1,3) assms(3) [unfolded migrate_unfunded_share_keys_def]]
  have "sk_funded r \<noteq> 0" if "r \<in> set (share_keys db')" for r
  proof
    assume z: "sk_funded r = 0"
    then have "r \<in> set (share_keys db)" "sk_key_id r \<notin> sk_key_id ` set ?xs" using l that by auto
    then show False using z by simp
  qed
  then show ?thesis using l by simp
qed

definition legacy_key :: "string \<Rightarrow> string \<Rightarrow> int \<Rightarrow> share_key_row" where
  "legacy_key key issuer consumed = \<lparr>sk_key_id = key, sk_token = ''tok_'' @ key,
     sk_issuer_device_id = issuer, sk_label = None, sk_expires_at = 100, sk_budget_credits = 300,
     sk_consumed_credits = consumed, sk_created_at = 1, sk_revoked_at = None, sk_funded = 0,
     sk_funding_id = None, sk_refunds_settled_at = None\<rparr>"

definition legacy_db :: "string \<Rightarrow> int \<Rightarrow> int \<Rightarrow> gateway_db" where
  "legacy_db issuer balance consumed =
     (fst (upsert_device 1 issuer empty_db))\<lparr>
       balances := [\<lparr>bal_device_id = issuer, bal_balance = balance, bal_total_earned = balance,
         bal_total_spent = 0\<rparr>],
       share_keys := [legacy_key ''old'' issuer consumed]\<rparr>"

theorem migration_funds_all_keys_witness:
  "\<exists>db' report. migrate_unfunded_share_keys 5 (\<lambda>k. ''f'' @ k) (\<lambda>k. ''c'' @ k) (legacy_db ''alice'' 100 40) =
     Inr (db', report) \<and> (\<forall>r\<in>set (share_keys db'). sk_funded r \<noteq> 0) \<and>
     total_credits db' = total_credits (legacy_db ''alice'' 100 40)"
proof -
  let ?r = "migrate_unfunded_share_keys 5 (\<lambda>k. ''f'' @ k) (\<lambda>k. ''c'' @ k) (legacy_db ''alice'' 100 40)"
  have "\<not> isl ?r" by code_simp
  then obtain db' report where r: "?r = Inr (db', report)" by (rule not_isl_pair)
  have ok: "db_ok (legacy_db ''alice'' 100 40)" "pools_ok 5 (legacy_db ''alice'' 100 40)" by code_simp+
  from migration_funds_all_keys [OF ok r] r show ?thesis by blast
qed

text \<open>
C23. One unfunded key can block the whole migration: if a live key has consumed nothing and its issuer's
wallet is empty, the shrunken budget is zero, the schema's check on the budget refuses the update,
and the pass fails for every key, whatever identifiers it draws.
\<close>

theorem migration_blocked_by_broke_issuer:
  assumes "db_ok db" and "pools_ok now db" and "row \<in> set (share_keys db)" and "sk_funded row = 0"
    and "sk_revoked_at row = None" and "now < sk_expires_at row"
    and "sk_consumed_credits row = 0" and "0 < sk_budget_credits row"
    and "balance_of db (sk_issuer_device_id row) = 0"
  shows "isl (migrate_unfunded_share_keys now new_funding_id new_cid db)"
proof -
  let ?xs = "filter (\<lambda>r. sk_funded r = 0) (share_keys db)"
  have d: "distinct (map sk_key_id ?xs)"
    using assms(1) by (simp add: db_ok_def keys_ok_def distinct_map_filter)
  have "migrate_unfunded_share_keys now new_funding_id new_cid db \<noteq> Inr st" for st
    unfolding migrate_unfunded_share_keys_def
    by (rule migrate_loop_broke [OF assms(1,2) _ d _ _ assms(5-8)]) (use assms(3,4,9) in auto)
  then show ?thesis by (metis sum.collapse(2))
qed

theorem migration_blocked_by_broke_issuer_witness:
  "isl (migrate_unfunded_share_keys 5 (\<lambda>k. ''f'' @ k) (\<lambda>k. ''c'' @ k) (legacy_db ''alice'' 0 0))"
proof -
  have ok: "db_ok (legacy_db ''alice'' 0 0)" "pools_ok 5 (legacy_db ''alice'' 0 0)"
    "balance_of (legacy_db ''alice'' 0 0) ''alice'' = 0" by code_simp+
  have "legacy_key ''old'' ''alice'' 0 \<in> set (share_keys (legacy_db ''alice'' 0 0))"
    by (simp add: legacy_db_def)
  from migration_blocked_by_broke_issuer [OF ok(1,2) this] ok(3)
  show ?thesis by (simp add: legacy_key_def)
qed

end
