(* ===== verification/Settlement.thy ===== *)
theory Settlement
  imports Share_Key_Pools
begin

text \<open>
  Settling a served request (\<open>settle_request\<close>, \<open>settle_request_account\<close>,
  \<open>settle_provider_request\<close> and the provider wallets of \<open>gateway/src/ledger.rs\<close>): the payer
  is debited what it can cover of the cost, and that amount is split over the serving device, the
  idle fleet and the operations wallet, or over a centralized provider and the operations wallet.
  The cost is computed in floating point before settlement and is an argument.
\<close>

section \<open>Who pays\<close>

datatype ConsumerPrincipal =
    Device string
  | Share string string
  | Account string "string option"

fun ledger_actor_id :: "ConsumerPrincipal \<Rightarrow> string" where
  "ledger_actor_id (Device d) = d"
| "ledger_actor_id (Share issuer_device_id key_id) = issuer_device_id"
| "ledger_actor_id (Account account_user_id api_key_id) = account_user_id"

fun paying_device_id :: "ConsumerPrincipal \<Rightarrow> string option" where
  "paying_device_id (Device d) = Some d"
| "paying_device_id (Share issuer_device_id key_id) = Some issuer_device_id"
| "paying_device_id (Account account_user_id api_key_id) = None"

fun debug_label :: "ConsumerPrincipal \<Rightarrow> string" where
  "debug_label (Device d) = ''device:'' @ d"
| "debug_label (Share issuer_device_id key_id) = ''share:'' @ key_id @ ''@'' @ issuer_device_id"
| "debug_label (Account account_user_id (Some k)) = ''account:'' @ account_user_id @ '' via key:'' @ k"
| "debug_label (Account account_user_id None) = ''account:'' @ account_user_id"

definition share_funded :: "gateway_db \<Rightarrow> string \<Rightarrow> int option" where
  "share_funded db key = map_option sk_funded (share_key_row_of db key)"

definition key_budget_left :: "gateway_db \<Rightarrow> string \<Rightarrow> int" where
  "key_budget_left db key = (case share_key_row_of db key of
      None \<Rightarrow> 0 | Some r \<Rightarrow> sk_budget_credits r - sk_consumed_credits r)"

text \<open>How much of the cost the payer covers: the same cap for both settlement paths.\<close>

fun effective_cost :: "gateway_db \<Rightarrow> ConsumerPrincipal \<Rightarrow> int \<Rightarrow> int" where
  "effective_cost db (Device d) cost = min cost (max (balance_of db d) 0)"
| "effective_cost db (Share issuer key) cost =
     (if share_funded db key = Some 1
      then min cost (max (sum_share_key_contributions_tx db key) 0)
      else min (min cost (max (balance_of db issuer) 0)) (max (key_budget_left db key) 0))"
| "effective_cost db (Account acct api) cost = min cost (max (account_balance_of db acct) 0)"

definition with_shortfall :: "string \<Rightarrow> int \<Rightarrow> string" where
  "with_shortfall note_base shortfall =
     (if shortfall > 0 then note_base @ '' shortfall='' @ show_int shortfall else note_base)"

section \<open>The debit\<close>

definition update_api_key :: "string \<Rightarrow> (api_key_row \<Rightarrow> api_key_row) \<Rightarrow> gateway_db \<Rightarrow> gateway_db" where
  [stmt_defs]: "update_api_key key f db =
     db\<lparr>api_keys := sql_update (\<lambda>r. ak_key_id r = key) f (api_keys db)\<rparr>"

definition bump_api_key :: "int \<Rightarrow> string option \<Rightarrow> int \<Rightarrow> gateway_db \<Rightarrow> gateway_db" where
  "bump_api_key now api e db = (case api of
      None \<Rightarrow> db
    | Some k \<Rightarrow> update_api_key k (\<lambda>r. r\<lparr>ak_usage_credits := ak_usage_credits r + e,
        ak_last_used_at := Some now\<rparr>) db)"

definition consume_share_key :: "string \<Rightarrow> int \<Rightarrow> gateway_db \<Rightarrow> gateway_db" where
  "consume_share_key key e db =
     update_share_key key (\<lambda>r. r\<lparr>sk_consumed_credits := sk_consumed_credits r + e\<rparr>) db"

fun debit_consumer ::
  "int \<Rightarrow> ConsumerPrincipal \<Rightarrow> int option \<Rightarrow> int \<Rightarrow> gateway_db \<Rightarrow> gateway_db" where
  "debit_consumer now (Device d) funded e db = update_balance d (row_spend e) db"
| "debit_consumer now (Share issuer key) funded e db =
     (let db1 = consume_share_key key e db
      in if funded = Some 1
         then update_balance issuer (row_spent_only e) (apply_pro_rata_share_key_spend_tx key e db1)
         else update_balance issuer (row_spend e) db1)"
| "debit_consumer now (Account acct api) funded e db =
     bump_api_key now api e (update_account_wallet acct (row_account_credit now (- e)) db)"

fun funded_flag :: "gateway_db \<Rightarrow> ConsumerPrincipal \<Rightarrow> int option" where
  "funded_flag db (Share issuer key) = share_funded db key"
| "funded_flag db (Device d) = None"
| "funded_flag db (Account acct api) = None"

section \<open>The 70/25/5 split\<close>

definition pay_device ::
  "int \<Rightarrow> string \<Rightarrow> string \<Rightarrow> string \<Rightarrow> int \<Rightarrow> string \<Rightarrow> gateway_db \<Rightarrow> gateway_db" where
  "pay_device now request_id note ty amount d db =
     update_balance d (row_earn amount)
       (insert_ledger d ty amount now (Some request_id) (Some note) (ensure_balance d db))"

definition direct_earn :: "int \<Rightarrow> int" where "direct_earn e = e * 70 sdiv 100"

definition pool_share :: "int \<Rightarrow> int" where "pool_share e = e * 25 sdiv 100"

definition ops_fee :: "int \<Rightarrow> int" where "ops_fee e = e - direct_earn e - pool_share e"

definition per_peer :: "int \<Rightarrow> string list \<Rightarrow> int" where
  "per_peer e recipients =
     (if recipients = [] then 0 else pool_share e sdiv int (length recipients))"

definition ops_total :: "int \<Rightarrow> string list \<Rightarrow> int" where
  "ops_total e recipients =
     (let availability_used = per_peer e recipients * int (length recipients);
          pool_leftover = pool_share e - availability_used
      in ops_fee e + pool_leftover)"

definition pay_direct ::
  "int \<Rightarrow> string \<Rightarrow> string \<Rightarrow> string option \<Rightarrow> int \<Rightarrow> gateway_db \<Rightarrow> gateway_db" where
  "pay_direct now request_id note provider e db = (case provider of
      None \<Rightarrow> db
    | Some p \<Rightarrow>
        if direct_earn e > 0 then pay_device now request_id note ''DIRECT_EARN'' (direct_earn e) p db
        else db)"

definition pay_availability ::
  "int \<Rightarrow> string \<Rightarrow> string \<Rightarrow> string list \<Rightarrow> int \<Rightarrow> gateway_db \<Rightarrow> gateway_db" where
  "pay_availability now request_id note recipients e db =
     (if per_peer e recipients > 0
      then fold (pay_device now request_id note ''AVAILABILITY_EARN'' (per_peer e recipients))
        recipients db
      else db)"

definition pay_ops :: "int \<Rightarrow> string \<Rightarrow> string \<Rightarrow> int \<Rightarrow> gateway_db \<Rightarrow> gateway_db" where
  "pay_ops now request_id note amount db =
     (if amount > 0 then pay_device now request_id note ''OPS_FEE'' amount ''__ops__'' db else db)"

definition distribute ::
  "int \<Rightarrow> string \<Rightarrow> string \<Rightarrow> string option \<Rightarrow> string list \<Rightarrow> int \<Rightarrow> gateway_db \<Rightarrow> gateway_db" where
  "distribute now request_id note provider recipients e db =
     pay_ops now request_id note (ops_total e recipients)
       (pay_availability now request_id note recipients e
         (pay_direct now request_id note provider e db))"

section \<open>Settlement on the distributed fleet\<close>

fun request_note :: "ConsumerPrincipal \<Rightarrow> string \<Rightarrow> string" where
  "request_note (Device d) model = ''model='' @ model"
| "request_note (Share issuer key) model = ''share_key:'' @ key @ '' model='' @ model"
| "request_note (Account acct (Some k)) model = ''api_key:'' @ k @ '' model='' @ model"
| "request_note (Account acct None) model = ''model='' @ model"

definition clamp_to_limit :: "gateway_db \<Rightarrow> string option \<Rightarrow> int \<Rightarrow> int" where
  "clamp_to_limit db api e = (case api of
      None \<Rightarrow> e
    | Some k \<Rightarrow> (case find (\<lambda>r. ak_key_id r = k) (api_keys db) of
        None \<Rightarrow> e
      | Some r \<Rightarrow> (case ak_credit_limit r of
          None \<Rightarrow> e
        | Some limit \<Rightarrow> min e (max (limit - ak_usage_credits r) 0))))"

definition settle_request_account ::
  "int \<Rightarrow> string \<Rightarrow> string option \<Rightarrow> string option \<Rightarrow> string list \<Rightarrow> int \<Rightarrow> string \<Rightarrow> string \<Rightarrow>
   gateway_db \<Rightarrow> anyhow + gateway_db" where
  "settle_request_account now acct api provider online cost request_id model db =
     (let e = clamp_to_limit db api (effective_cost db (Account acct api) cost);
          recipients = filter (\<lambda>d. Some d \<noteq> provider) online;
          note = with_shortfall (request_note (Account acct api) model) (cost - e) in
      rbind (insert_account_ledger acct ''credits'' (- e) ''SPENT'' now None (Some note) api db) (\<lambda>db1.
      let db2 = (if e > 0 then debit_consumer now (Account acct api) None e db1 else db1)
      in Inr (distribute now request_id note provider recipients e db2)))"

definition settle_device_backed ::
  "int \<Rightarrow> ConsumerPrincipal \<Rightarrow> string \<Rightarrow> string option \<Rightarrow> string list \<Rightarrow> int \<Rightarrow> string \<Rightarrow> string \<Rightarrow>
   gateway_db \<Rightarrow> gateway_db" where
  "settle_device_backed now consumer payer provider online cost request_id model db =
     (let db1 = ensure_balance payer db;
          funded = funded_flag db1 consumer;
          e = effective_cost db1 consumer cost;
          recipients = filter (\<lambda>d. Some d \<noteq> provider \<and> d \<noteq> payer) online;
          note = with_shortfall (request_note consumer model) (cost - e);
          db2 = insert_ledger payer ''SPENT'' (- e) now (Some request_id) (Some note) db1;
          db3 = (if e > 0 then debit_consumer now consumer funded e db2 else db2)
      in distribute now request_id note provider recipients e db3)"

definition settle_request ::
  "int \<Rightarrow> ConsumerPrincipal \<Rightarrow> string option \<Rightarrow> string list \<Rightarrow> int \<Rightarrow> string \<Rightarrow> string \<Rightarrow>
   gateway_db \<Rightarrow> anyhow + gateway_db" where
  "settle_request now consumer provider online cost request_id model db =
     (if cost \<le> 0 then Inr db
      else case consumer of
        Account acct api \<Rightarrow>
          settle_request_account now acct api provider online cost request_id model db
      | Device d \<Rightarrow>
          Inr (settle_device_backed now consumer d provider online cost request_id model db)
      | Share issuer key \<Rightarrow>
          Inr (settle_device_backed now consumer issuer provider online cost request_id model db))"

section \<open>Settlement with a centralized provider\<close>

fun provider_note :: "ConsumerPrincipal \<Rightarrow> string \<Rightarrow> string \<Rightarrow> string" where
  "provider_note (Device d) p model = ''provider='' @ p @ '' model='' @ model"
| "provider_note (Account acct api) p model =
     ''account='' @ acct @ '' provider='' @ p @ '' model='' @ model"
| "provider_note (Share issuer key) p model =
     ''share_key:'' @ key @ '' provider='' @ p @ '' model='' @ model"

definition provider_exists :: "gateway_db \<Rightarrow> string \<Rightarrow> bool" where
  "provider_exists db p = has_row (\<lambda>r. pr_provider_id r = p) (providers db)"

definition new_provider_wallet :: "int \<Rightarrow> string \<Rightarrow> provider_wallet_row" where
  "new_provider_wallet now p = \<lparr>pw_provider_id = p, pw_balance_credits = 0, pw_total_earned = 0,
     pw_total_paid_out = 0, pw_usdc_cents = 0, pw_payout_threshold = 0, pw_payout_destination = None,
     pw_updated_at = now\<rparr>"

text \<open>\<open>INSERT OR IGNORE\<close> skips a row whose primary key is taken, but a row that references a missing
  provider is still refused.\<close>

definition ensure_provider_wallet :: "int \<Rightarrow> string \<Rightarrow> gateway_db \<Rightarrow> anyhow + gateway_db" where
  "ensure_provider_wallet now p db =
     (if has_row (\<lambda>r. pw_provider_id r = p) (provider_wallets db) then Inr db
      else if \<not> provider_exists db p then Inl ConstraintViolation
      else Inr (db\<lparr>provider_wallets := provider_wallets db @ [new_provider_wallet now p]\<rparr>))"

definition insert_provider_ledger ::
  "string \<Rightarrow> string \<Rightarrow> int \<Rightarrow> int \<Rightarrow> string option \<Rightarrow> string option \<Rightarrow> string option \<Rightarrow>
   gateway_db \<Rightarrow> anyhow + gateway_db" where
  "insert_provider_ledger p ty amount ts req model note db =
     (if \<not> provider_exists db p then Inl ConstraintViolation
      else Inr (db\<lparr>
        provider_ledger := provider_ledger db @ [\<lparr>pl_id = provider_ledger_seq db + 1,
          pl_provider_id = p, pl_type = ty, pl_amount = amount, pl_timestamp = ts,
          pl_ref_request_id = req, pl_model_id = model, pl_note = note\<rparr>],
        provider_ledger_seq := provider_ledger_seq db + 1\<rparr>))"

definition row_provider_earn :: "int \<Rightarrow> int \<Rightarrow> provider_wallet_row \<Rightarrow> provider_wallet_row" where
  "row_provider_earn now a r = r\<lparr>pw_balance_credits := pw_balance_credits r + a,
     pw_total_earned := pw_total_earned r + a, pw_updated_at := now\<rparr>"

definition row_provider_payout :: "int \<Rightarrow> int \<Rightarrow> provider_wallet_row \<Rightarrow> provider_wallet_row" where
  "row_provider_payout now a r = r\<lparr>pw_balance_credits := pw_balance_credits r - a,
     pw_total_paid_out := pw_total_paid_out r + a, pw_updated_at := now\<rparr>"

definition update_provider_wallet ::
  "string \<Rightarrow> (provider_wallet_row \<Rightarrow> provider_wallet_row) \<Rightarrow> gateway_db \<Rightarrow> gateway_db" where
  [stmt_defs]: "update_provider_wallet p f db =
     db\<lparr>provider_wallets := sql_update (\<lambda>r. pw_provider_id r = p) f (provider_wallets db)\<rparr>"

definition provider_earn :: "int \<Rightarrow> int" where "provider_earn e = e * 95 sdiv 100"

definition pay_provider ::
  "int \<Rightarrow> string \<Rightarrow> string \<Rightarrow> string \<Rightarrow> string \<Rightarrow> int \<Rightarrow> gateway_db \<Rightarrow> anyhow + gateway_db" where
  "pay_provider now p request_id model note amount db =
     (if amount > 0 then
        rbind (ensure_provider_wallet now p db) (\<lambda>db1.
        rbind (insert_provider_ledger p ''PROVIDER_EARN'' amount now (Some request_id) (Some model)
          (Some note) db1) (\<lambda>db2.
        Inr (update_provider_wallet p (row_provider_earn now amount) db2)))
      else Inr db)"

fun record_consumer ::
  "int \<Rightarrow> ConsumerPrincipal \<Rightarrow> int \<Rightarrow> string \<Rightarrow> string \<Rightarrow> gateway_db \<Rightarrow> anyhow + gateway_db" where
  "record_consumer now (Device d) e request_id note db =
     Inr (insert_ledger d ''SPENT'' (- e) now (Some request_id) (Some note) db)"
| "record_consumer now (Share issuer key) e request_id note db =
     Inr (insert_ledger issuer ''SPENT'' (- e) now (Some request_id) (Some note) db)"
| "record_consumer now (Account acct api) e request_id note db =
     insert_account_ledger acct ''credits'' (- e) ''INFERENCE_SPENT'' now None (Some note) api db"

definition ensure_payer :: "ConsumerPrincipal \<Rightarrow> gateway_db \<Rightarrow> gateway_db" where
  "ensure_payer consumer db =
     (case paying_device_id consumer of None \<Rightarrow> db | Some d \<Rightarrow> ensure_balance d db)"

definition settle_provider_request ::
  "int \<Rightarrow> ConsumerPrincipal \<Rightarrow> string \<Rightarrow> int \<Rightarrow> string \<Rightarrow> string \<Rightarrow> gateway_db \<Rightarrow>
   anyhow + gateway_db" where
  "settle_provider_request now consumer p cost request_id model db =
     (if cost \<le> 0 then Inr db
      else
        let db1 = ensure_payer consumer db;
            funded = funded_flag db1 consumer;
            e = effective_cost db1 consumer cost;
            note = with_shortfall (provider_note consumer p model) (cost - e) in
        rbind (record_consumer now consumer e request_id note db1) (\<lambda>db2.
        let db3 = (if e > 0 then debit_consumer now consumer funded e db2 else db2) in
        rbind (pay_provider now p request_id model note (provider_earn e) db3) (\<lambda>db4.
        Inr (pay_ops now request_id note (e - provider_earn e) db4))))"

definition record_provider_payout ::
  "int \<Rightarrow> string \<Rightarrow> int \<Rightarrow> string option \<Rightarrow> gateway_db \<Rightarrow> anyhow + gateway_db" where
  "record_provider_payout now p amount destination db =
     rbind (ensure (\<not> amount \<le> 0) (Bail ''payout amount must be positive'')) (\<lambda>_.
     let bal = provider_balance_of db p in
     rbind (ensure (\<not> amount > bal) (Bail (''payout exceeds provider balance: requested='' @
       show_int amount @ '' available='' @ show_int bal))) (\<lambda>_.
     let note = (case destination of None \<Rightarrow> '''' | Some d \<Rightarrow> ''dest='' @ d) in
     rbind (insert_provider_ledger p ''PROVIDER_PAYOUT'' (- amount) now None None (Some note) db) (\<lambda>db1.
     Inr (update_provider_wallet p (row_provider_payout now amount) db1))))"

record ProviderWalletView =
  pv_provider_id :: string
  pv_balance_credits :: int
  pv_total_earned :: int
  pv_total_paid_out :: int

definition get_provider_wallet :: "gateway_db \<Rightarrow> string \<Rightarrow> ProviderWalletView option" where
  "get_provider_wallet db p = map_option (\<lambda>r. \<lparr>pv_provider_id = p,
     pv_balance_credits = pw_balance_credits r, pv_total_earned = pw_total_earned r,
     pv_total_paid_out = pw_total_paid_out r\<rparr>)
     (find (\<lambda>r. pw_provider_id r = p) (provider_wallets db))"

section \<open>Lemmas: paying out\<close>

interpretation prov_earn: wallet_post pw_provider_id pw_balance_credits "row_provider_earn now" "\<lambda>a. a"
  by unfold_locales (simp_all add: row_provider_earn_def)

interpretation prov_payout: wallet_post pw_provider_id pw_balance_credits "row_provider_payout now" "\<lambda>a. - a"
  by unfold_locales (simp_all add: row_provider_payout_def)

lemma pay_device_effect:
  assumes "db_ok db" and "0 \<le> amount"
  shows "device_credits (pay_device now req n ty amount d db) = device_credits db + amount"
    and "balance_of (pay_device now req n ty amount d db) d' =
      balance_of db d' + (if d' = d then amount else 0)"
    and "db_ok (pay_device now req n ty amount d db)"
  using assms balance_of_nonneg [of db d]
  by (simp_all add: pay_device_def earn_obs earn_ok db_ok_nonneg)

lemma pay_device_tables [simp]:
  "share_keys (pay_device now req n ty amount d db) = share_keys db"
  "share_key_contributions (pay_device now req n ty amount d db) = share_key_contributions db"
  "account_wallets (pay_device now req n ty amount d db) = account_wallets db"
  "provider_wallets (pay_device now req n ty amount d db) = provider_wallets db"
  "api_keys (pay_device now req n ty amount d db) = api_keys db"
  by (simp_all add: pay_device_def)

interpretation availability: credit_loop "pay_device now req n ty amount" "\<lambda>d. d" "\<lambda>_. amount"
  device_credits balance_of db_ok "\<lambda>_. 0 \<le> amount"
  by unfold_locales (simp_all add: pay_device_effect)

lemma pay_devices_tables [simp]:
  "share_keys (fold (pay_device now req n ty amount) ds db) = share_keys db"
  "share_key_contributions (fold (pay_device now req n ty amount) ds db) = share_key_contributions db"
  "account_wallets (fold (pay_device now req n ty amount) ds db) = account_wallets db"
  "provider_wallets (fold (pay_device now req n ty amount) ds db) = provider_wallets db"
  "api_keys (fold (pay_device now req n ty amount) ds db) = api_keys db"
  by (induction ds arbitrary: db) simp_all

text \<open>The split is exact: the three parts are non-negative and add up to what was debited.\<close>

lemma split_nonneg:
  assumes "0 \<le> e"
  shows "0 \<le> direct_earn e" "0 \<le> pool_share e" "0 \<le> ops_fee e" "0 \<le> per_peer e ds"
    "per_peer e ds * int (length ds) \<le> pool_share e"
    "direct_earn e = e * 70 div 100" "pool_share e = e * 25 div 100"
proof -
  show d: "direct_earn e = e * 70 div 100" and p: "pool_share e = e * 25 div 100"
    using assms by (simp_all add: direct_earn_def pool_share_def sdiv_nonneg)
  show "0 \<le> direct_earn e" and p0: "0 \<le> pool_share e" using assms by (simp_all add: d p)
  show "0 \<le> ops_fee e" using assms by (simp add: ops_fee_def d p)
  have pp: "per_peer e ds = (if ds = [] then 0 else pool_share e div int (length ds))"
    using p0 by (simp add: per_peer_def sdiv_nonneg)
  show "0 \<le> per_peer e ds" using p0 by (simp add: pp pos_imp_zdiv_nonneg_iff)
  have "pool_share e div n * n \<le> pool_share e" if "0 < n" for n
    using that by (simp add: minus_mod_eq_div_mult [symmetric])
  then show "per_peer e ds * int (length ds) \<le> pool_share e" using p0 by (cases "ds = []") (simp_all add: pp)
qed

lemma ops_total_eq:
  "ops_total e ds = e - direct_earn e - per_peer e ds * int (length ds)"
  by (simp add: ops_total_def ops_fee_def Let_def)

lemma ops_total_nonneg: "0 \<le> e \<Longrightarrow> 0 \<le> ops_total e ds"
  using split_nonneg(3) [of e] split_nonneg(5) [of e ds] by (simp add: ops_total_def Let_def)

lemma count_sum: "(\<Sum>x\<leftarrow>xs. if x = k then (a::int) else 0) = a * int (count_list xs k)"
  by (induction xs) (auto simp: algebra_simps)

text \<open>What the fleet is paid for a request of which \<open>e\<close> credits were debited.\<close>

definition payout :: "string option \<Rightarrow> string list \<Rightarrow> int \<Rightarrow> string \<Rightarrow> int" where
  "payout provider recipients e d =
     (if provider = Some d then direct_earn e else 0) +
     per_peer e recipients * int (count_list recipients d) +
     (if d = ''__ops__'' then ops_total e recipients else 0)"

lemma distribute_effect:
  assumes ok: "db_ok db" and e: "0 \<le> e"
  shows "db_ok (distribute now req n provider ds e db)"
    and "device_credits (distribute now req n provider ds e db) =
      device_credits db + e - (if provider = None then direct_earn e else 0)"
    and "balance_of (distribute now req n provider ds e db) d = balance_of db d + payout provider ds e d"
proof -
  note nn = split_nonneg [OF e] ops_total_nonneg [OF e, of ds]
  let ?db1 = "pay_direct now req n provider e db"
  have 1: "db_ok ?db1" "device_credits ?db1 = device_credits db + (if provider = None then 0 else direct_earn e)"
    "balance_of ?db1 d = balance_of db d + (if provider = Some d then direct_earn e else 0)"
    using ok nn(1) by (auto simp: pay_direct_def pay_device_effect split: option.splits)
  let ?db2 = "pay_availability now req n ds e ?db1"
  have z: "per_peer e ds = 0" if "\<not> 0 < per_peer e ds" using nn(4) [of ds] that by simp
  have 2: "db_ok ?db2" "device_credits ?db2 = device_credits ?db1 + per_peer e ds * int (length ds)"
    "balance_of ?db2 d = balance_of ?db1 d + per_peer e ds * int (count_list ds d)"
    using availability.loop_inv [OF 1(1), of ds "per_peer e ds"] z
      availability.loop_total [OF 1(1), of ds "per_peer e ds"]
      availability.loop_wallet [OF 1(1), of ds "per_peer e ds"] nn(4) [of ds] 1(1)
    by (auto simp: pay_availability_def count_sum sum_list_triv mult.commute)
  have zo: "ops_total e ds = 0" if "\<not> 0 < ops_total e ds" using nn(8) that by simp
  have 3: "db_ok (pay_ops now req n (ops_total e ds) ?db2)"
    "device_credits (pay_ops now req n (ops_total e ds) ?db2) = device_credits ?db2 + ops_total e ds"
    "balance_of (pay_ops now req n (ops_total e ds) ?db2) d =
      balance_of ?db2 d + (if d = ''__ops__'' then ops_total e ds else 0)"
    using pay_device_effect [OF 2(1) nn(8)] 2(1) zo by (auto simp: pay_ops_def)
  show "db_ok (distribute now req n provider ds e db)" using 3(1) by (simp add: distribute_def)
  show "device_credits (distribute now req n provider ds e db) =
      device_credits db + e - (if provider = None then direct_earn e else 0)"
    by (simp only: distribute_def 3(2) 2(2) 1(2)) (simp add: ops_total_eq)
  show "balance_of (distribute now req n provider ds e db) d = balance_of db d + payout provider ds e d"
    by (simp only: distribute_def 3(3) 2(3) 1(3)) (simp add: payout_def)
qed

lemma distribute_tables [simp]:
  "share_keys (distribute now req n provider ds e db) = share_keys db"
  "share_key_contributions (distribute now req n provider ds e db) = share_key_contributions db"
  "account_wallets (distribute now req n provider ds e db) = account_wallets db"
  "provider_wallets (distribute now req n provider ds e db) = provider_wallets db"
  "api_keys (distribute now req n provider ds e db) = api_keys db"
  by (auto simp: distribute_def pay_ops_def pay_availability_def pay_direct_def split: option.splits)

section \<open>Lemmas: the debit\<close>

fun debited_device :: "gateway_db \<Rightarrow> ConsumerPrincipal \<Rightarrow> string option" where
  "debited_device db (Device d) = Some d"
| "debited_device db (Share issuer key) = (if share_funded db key = Some 1 then None else Some issuer)"
| "debited_device db (Account acct api) = None"

fun debited_pool :: "gateway_db \<Rightarrow> ConsumerPrincipal \<Rightarrow> string option" where
  "debited_pool db (Share issuer key) = (if share_funded db key = Some 1 then Some key else None)"
| "debited_pool db (Device d) = None"
| "debited_pool db (Account acct api) = None"

fun debited_account :: "ConsumerPrincipal \<Rightarrow> string option" where
  "debited_account (Account acct api) = Some acct"
| "debited_account (Device d) = None"
| "debited_account (Share issuer key) = None"

fun payer_ready :: "gateway_db \<Rightarrow> ConsumerPrincipal \<Rightarrow> bool" where
  "payer_ready db (Device d) = has_balance db d"
| "payer_ready db (Share issuer key) = has_balance db issuer"
| "payer_ready db (Account acct api) = account_exists db acct"

definition debited ::
  "int \<Rightarrow> ConsumerPrincipal \<Rightarrow> int \<Rightarrow> gateway_db \<Rightarrow> gateway_db \<Rightarrow> bool" where
  "debited clock consumer e db db' \<longleftrightarrow> db_ok db' \<and> pools_ok clock db' \<and>
     (\<forall>d. balance_of db' d = balance_of db d - (if debited_device db consumer = Some d then e else 0)) \<and>
     (\<forall>k. pool_of db' k = pool_of db k - (if debited_pool db consumer = Some k then e else 0)) \<and>
     (\<forall>a. account_balance_of db' a =
       account_balance_of db a - (if debited_account consumer = Some a then e else 0)) \<and>
     provider_wallets db' = provider_wallets db \<and>
     device_credits db' = device_credits db - (if debited_device db consumer = None then 0 else e) \<and>
     account_credits db' = account_credits db - (if debited_account consumer = None then 0 else e) \<and>
     total_credits db' = total_credits db - e"

lemma bump_api_key_same [simp]:
  "same_wallets db (bump_api_key now api e db)" "share_keys (bump_api_key now api e db) = share_keys db"
  "share_key_contributions (bump_api_key now api e db) = share_key_contributions db"
  by (auto simp: bump_api_key_def same_wallets_def stmt_defs split: option.splits)

lemma bump_api_key_ok [simp]: "db_ok (bump_api_key now api e db) = db_ok db"
  by (auto simp: bump_api_key_def db_ok_def keys_ok_def wallets_nonneg_def stmt_defs
      sql_update_key_map split: option.splits)

lemma pools_ok_wallet_stmts [simp]:
  "pools_ok clock (update_balance d f db) = pools_ok clock db"
  "pools_ok clock (ensure_balance d db) = pools_ok clock db"
  "pools_ok clock (insert_ledger d ty a ts req n db) = pools_ok clock db"
  "pools_ok clock (bump_api_key now api e db) = pools_ok clock db"
  "pools_ok clock (distribute now rid nt provider ds x db) = pools_ok clock db"
  by (auto intro!: pools_ok_same)

lemma pools_ok_account_stmts [simp]:
  "pools_ok clock (update_account_wallet a f db) = pools_ok clock db"
  by (auto intro!: pools_ok_same)

lemma debit_device:
  assumes "db_ok db" "pools_ok clock db" "has_balance db d" "0 < e" "e \<le> balance_of db d"
  shows "debited clock (Device d) e db (debit_consumer now (Device d) funded e db)"
  using assms by (simp add: debited_def spend_obs spend_ok total_credits_def)

lemma debit_account:
  assumes "db_ok db" "pools_ok clock db" "account_exists db acct" "0 < e" "e \<le> account_balance_of db acct"
  shows "debited clock (Account acct api) e db (debit_consumer now (Account acct api) funded e db)"
proof -
  let ?db1 = "update_account_wallet acct (row_account_credit now (- e)) db"
  note b = same_wallets_obs [OF bump_api_key_same(1) [of ?db1 now api e]]
  have "provider_wallets (bump_api_key now api e ?db1) = provider_wallets db"
    using bump_api_key_same(1) [of ?db1 now api e] by (simp add: same_wallets_def)
  then show ?thesis
    using assms by (simp add: debited_def b account_credit_obs account_credit_ok total_credits_def)
qed

lemma consume_share_key_tables [simp]:
  "same_wallets db (consume_share_key key e db)"
  "db_ok (consume_share_key key e db) = db_ok db"
  "share_key_contributions (consume_share_key key e db) = share_key_contributions db"
  by (simp_all add: consume_share_key_def)

lemma consume_share_key_rows:
  "share_keys (consume_share_key key e db) = sql_update (\<lambda>r. sk_key_id r = key)
     (\<lambda>r. r\<lparr>sk_consumed_credits := sk_consumed_credits r + e\<rparr>) (share_keys db)"
  by (simp add: consume_share_key_def update_share_key_def)

lemmas consume_share_key_obs [simp] = same_wallets_obs [OF consume_share_key_tables(1)]

text \<open>A spend keeps the columns of the contributions the invariant reads beside the credits.\<close>

lemma spend_contributions:
  assumes ok: "db_ok db" and clear: "refunded_clear db"
  shows "refunded_clear (apply_pro_rata_share_key_spend_tx key e db)"
    and "skc_key_id ` set (share_key_contributions (apply_pro_rata_share_key_spend_tx key e db)) =
      skc_key_id ` set (share_key_contributions db)"
proof -
  obtain f where f: "share_key_contributions (apply_pro_rata_share_key_spend_tx key e db) =
      map f (share_key_contributions db)"
    and row: "\<And>r. r \<in> set (share_key_contributions db) \<Longrightarrow> \<exists>v\<ge>0. f r = r\<lparr>skc_remaining_credits := v\<rparr> \<and>
      (skc_remaining_credits r = 0 \<longrightarrow> v = 0)"
    using spend_rows [OF ok, of key e] by metis
  have "skc_refunded_at (f r) = skc_refunded_at r \<and> skc_key_id (f r) = skc_key_id r \<and>
      (skc_remaining_credits r = 0 \<longrightarrow> skc_remaining_credits (f r) = 0)"
    if "r \<in> set (share_key_contributions db)" for r
    using row [OF that] by (elim exE conjE) simp
  then show "refunded_clear (apply_pro_rata_share_key_spend_tx key e db)"
    and "skc_key_id ` set (share_key_contributions (apply_pro_rata_share_key_spend_tx key e db)) =
      skc_key_id ` set (share_key_contributions db)"
    using clear by (simp_all add: refunded_clear_def f list_all_iff image_image)
qed

lemma share_key_row_of_SomeD:
  assumes "share_key_row_of db key = Some r"
  shows "r \<in> set (share_keys db)" "sk_key_id r = key"
  using find_key_SomeD [of sk_key_id key "share_keys db" r] assms by (simp_all add: share_key_row_of_def)

lemma debit_funded_share:
  assumes ok: "db_ok db" and pools: "pools_ok clock db" and fun1: "share_funded db key = Some 1"
    and e: "0 < e" "e \<le> pool_of db key"
  shows "debited clock (Share issuer key) e db (debit_consumer now (Share issuer key) (Some 1) e db)"
proof -
  obtain r where r: "share_key_row_of db key = Some r" "sk_funded r = 1"
    using fun1 by (auto simp: share_funded_def)
  note r' = share_key_row_of_SomeD [OF r(1)]
  let ?db1 = "consume_share_key key e db"
  let ?db2 = "apply_pro_rata_share_key_spend_tx key e ?db1"
  let ?db' = "update_balance issuer (row_spent_only e) ?db2"
  have ok1: "db_ok ?db1" using ok by simp
  have pool: "pool_of ?db2 k = pool_of db k - (if k = key then e else 0)"
    "pool_credits ?db2 = pool_credits db - e" for k
    using spend_pool [OF ok1, of key e] e by simp_all
  have clear: "refunded_clear ?db1"
    using pools by (simp add: pools_ok_def contributions_ok_def refunded_clear_def)
  note c = spend_contributions [OF ok1 clear, of key e]
  have sk: "share_keys ?db2 = sql_update (\<lambda>r. sk_key_id r = key)
      (\<lambda>r. r\<lparr>sk_consumed_credits := sk_consumed_credits r + e\<rparr>) (share_keys db)"
    using ok1 by (simp add: consume_share_key_rows)
  have live: "key_live r" and rem: "pool_of db key = sk_budget_credits r - sk_consumed_credits r"
    using pools_okD(1) [OF pools r'(1)] r'(2) e by (auto simp: key_pool_ok_def split: if_splits)
  have p2: "pools_ok clock ?db2"
  proof (rule pools_ok_update [OF pools _ sk])
    show "key_pool_ok ?db2 (x\<lparr>sk_consumed_credits := sk_consumed_credits x + e\<rparr>) \<and>
        key_clock_ok clock (x\<lparr>sk_consumed_credits := sk_consumed_credits x + e\<rparr>)"
      if "x \<in> set (share_keys db)" "sk_key_id x = key" for x
      using key_row_unique [OF db_ok_keys [OF ok] that(1) r'(1)] that(2) r'(2) live rem e
        pools_okD(2) [OF pools r'(1)]
      by (simp add: key_pool_ok_def pool key_live_def key_clock_ok_def)
  qed (use c pool in auto)
  have "debited_device db (Share issuer key) = None" "debited_pool db (Share issuer key) = Some key"
    using fun1 by simp_all
  moreover have "provider_wallets ?db2 = provider_wallets db"
    using ok1 by (simp add: apply_pro_rata_pairs consume_share_key_def update_share_key_def)
  ultimately show ?thesis
    using ok1 p2 pool by (simp add: debited_def total_credits_def spent_only_ok)
qed

lemma debit_legacy_share:
  assumes ok: "db_ok db" and pools: "pools_ok clock db" and nf: "share_funded db key \<noteq> Some 1"
    and has: "has_balance db issuer"
    and e: "0 < e" "e \<le> balance_of db issuer" "e \<le> key_budget_left db key"
    and flag: "funded \<noteq> Some 1"
  shows "debited clock (Share issuer key) e db (debit_consumer now (Share issuer key) funded e db)"
proof -
  obtain r where r: "share_key_row_of db key = Some r" "e \<le> sk_budget_credits r - sk_consumed_credits r"
    using e by (auto simp: key_budget_left_def split: option.splits)
  note r' = share_key_row_of_SomeD [OF r(1)]
  have nl: "\<not> key_live r" using nf r(1) by (simp add: share_funded_def key_live_def)
  let ?db1 = "consume_share_key key e db"
  have p1: "pools_ok clock ?db1"
  proof (rule pools_ok_update [OF pools _ consume_share_key_rows])
    show "key_pool_ok ?db1 (x\<lparr>sk_consumed_credits := sk_consumed_credits x + e\<rparr>) \<and>
        key_clock_ok clock (x\<lparr>sk_consumed_credits := sk_consumed_credits x + e\<rparr>)"
      if "x \<in> set (share_keys db)" "sk_key_id x = key" for x
      using key_row_unique [OF db_ok_keys [OF ok] that(1) r'(1)] that(2) r'(2) nl r(2)
        pools_okD [OF pools r'(1)]
      by (auto simp: key_pool_ok_def key_live_def key_clock_ok_def)
    show "refunded_clear ?db1"
      using pools by (simp add: pools_ok_def contributions_ok_def refunded_clear_def)
  qed simp_all
  have "provider_wallets ?db1 = provider_wallets db"
    by (simp add: consume_share_key_def update_share_key_def)
  then show ?thesis
    using ok p1 has e nf flag by (simp add: debited_def spend_obs spend_ok total_credits_def)
qed

text \<open>The cap of the source is what makes the debit safe for every kind of payer.\<close>

lemma effective_cost_bounds:
  assumes "0 < cost"
  shows "0 \<le> effective_cost db consumer cost" "effective_cost db consumer cost \<le> cost"
proof -
  show "0 \<le> effective_cost db consumer cost" using assms by (cases consumer) simp_all
  show "effective_cost db consumer cost \<le> cost" by (cases consumer) (simp_all add: min.coboundedI1)
qed

lemma le_max_zero: "0 < e \<Longrightarrow> e \<le> max x 0 \<longleftrightarrow> e \<le> (x :: int)"
  by auto

lemma debit_consumer_effect:
  assumes ok: "db_ok db" and pools: "pools_ok clock db" and ready: "payer_ready db consumer"
    and e: "0 < e" "e \<le> effective_cost db consumer cost"
  shows "debited clock consumer e db (debit_consumer now consumer (funded_flag db consumer) e db)"
proof (cases consumer)
  case (Device d)
  then show ?thesis using debit_device [OF ok pools, of d e] ready e by (simp add: le_max_zero)
next
  case (Account acct api)
  then show ?thesis using debit_account [OF ok pools, of acct e] ready e by (simp add: le_max_zero)
next
  case (Share issuer key)
  show ?thesis
  proof (cases "share_funded db key = Some 1")
    case True
    then show ?thesis
      using debit_funded_share [OF ok pools True e(1)] e Share by (simp add: le_max_zero)
  next
    case False
    then show ?thesis
      using debit_legacy_share [OF ok pools False _ e(1)] e ready Share by (simp add: le_max_zero)
  qed
qed

section \<open>Lemmas: whole settlements\<close>

text \<open>What a settlement of a request charges the payer.\<close>

definition charged :: "gateway_db \<Rightarrow> ConsumerPrincipal \<Rightarrow> int \<Rightarrow> int" where
  "charged db consumer cost = (if cost \<le> 0 then 0 else case consumer of
      Account acct api \<Rightarrow> clamp_to_limit db api (effective_cost db consumer cost)
    | _ \<Rightarrow> effective_cost db consumer cost)"

lemma clamp_bounds:
  "0 \<le> e \<Longrightarrow> 0 \<le> clamp_to_limit db api e" "clamp_to_limit db api e \<le> e"
  by (auto simp: clamp_to_limit_def split: option.splits)

lemma charged_bounds:
  "0 \<le> charged db consumer cost" "cost \<le> 0 \<or> charged db consumer cost \<le> effective_cost db consumer cost"
  "charged db consumer cost \<le> max cost 0"
proof -
  show "0 \<le> charged db consumer cost"
    using effective_cost_bounds(1) [of cost db consumer] clamp_bounds(1)
    by (auto simp: charged_def split: ConsumerPrincipal.splits)
  show le: "cost \<le> 0 \<or> charged db consumer cost \<le> effective_cost db consumer cost"
    using clamp_bounds(2) [of db _ "effective_cost db consumer cost"]
    by (cases consumer) (simp_all add: charged_def del: effective_cost.simps)
  show "charged db consumer cost \<le> max cost 0"
    using le effective_cost_bounds(2) [of cost db consumer] by (cases "cost \<le> 0") (auto simp: charged_def)
qed

lemma share_key_reads_same:
  assumes "share_keys db' = share_keys db"
  shows "share_funded db' = share_funded db" "key_budget_left db' = key_budget_left db"
  using assms by (simp_all add: share_funded_def key_budget_left_def share_key_row_of_def fun_eq_iff)

lemma principal_same:
  assumes keys: "share_keys db' = share_keys db"
    and wallets: "balance_of db' = balance_of db" "account_balance_of db' = account_balance_of db"
      "pool_of db' = pool_of db"
  shows "effective_cost db' consumer cost = effective_cost db consumer cost"
    "funded_flag db' consumer = funded_flag db consumer"
    "debited_device db' consumer = debited_device db consumer"
    "debited_pool db' consumer = debited_pool db consumer"
proof -
  note s = share_key_reads_same [OF keys] wallets
  show "effective_cost db' consumer cost = effective_cost db consumer cost" by (cases consumer) (simp_all add: s)
  show "funded_flag db' consumer = funded_flag db consumer" by (cases consumer) (simp_all add: s)
  show "debited_device db' consumer = debited_device db consumer" by (cases consumer) (simp_all add: s)
  show "debited_pool db' consumer = debited_pool db consumer" by (cases consumer) (simp_all add: s)
qed

lemma ensure_balance_balance_of [simp]: "balance_of (ensure_balance d db) = balance_of db"
  by (simp add: fun_eq_iff)

lemmas principal_ensure_balance [simp] = principal_same [of "ensure_balance d db" db for d db, simplified]
lemmas principal_insert_ledger [simp] =
  principal_same [of "insert_ledger d ty a ts req n db" db for d ty a ts req n db, simplified]

text \<open>A debit of nothing or of a positive amount within the cap.\<close>

lemma debit_if_effect:
  assumes "db_ok db" "pools_ok clock db" "payer_ready db consumer"
    and "0 \<le> e" "e \<le> effective_cost db consumer cost"
  shows "debited clock consumer e db
    (if e > 0 then debit_consumer now consumer (funded_flag db consumer) e db else db)"
  using assms debit_consumer_effect [OF assms(1-3) _ assms(5)]
  by (cases "e > 0") (auto simp: debited_def)

text \<open>The whole movement of a settlement on the fleet.\<close>

definition settled ::
  "int \<Rightarrow> ConsumerPrincipal \<Rightarrow> string option \<Rightarrow> string list \<Rightarrow> int \<Rightarrow> gateway_db \<Rightarrow> gateway_db \<Rightarrow> bool" where
  "settled clock consumer provider recipients e db db' \<longleftrightarrow> db_ok db' \<and> pools_ok clock db' \<and>
     (\<forall>d. balance_of db' d = balance_of db d - (if debited_device db consumer = Some d then e else 0)
        + payout provider recipients e d) \<and>
     (\<forall>k. pool_of db' k = pool_of db k - (if debited_pool db consumer = Some k then e else 0)) \<and>
     (\<forall>a. account_balance_of db' a =
       account_balance_of db a - (if debited_account consumer = Some a then e else 0)) \<and>
     provider_wallets db' = provider_wallets db \<and>
     total_credits db' = total_credits db - (if provider = None then direct_earn e else 0)"

lemma debited_distribute:
  assumes d: "debited clock consumer e db db1" and e: "0 \<le> e"
  shows "settled clock consumer provider ds e db (distribute now req n provider ds e db1)"
proof -
  let ?db2 = "distribute now req n provider ds e db1"
  have ok: "db_ok db1" using d by (simp add: debited_def)
  note dist = distribute_effect [OF ok e]
  have "account_balance_of ?db2 = account_balance_of db1" "account_credits ?db2 = account_credits db1"
    "provider_credits ?db2 = provider_credits db1" "pool_of ?db2 = pool_of db1"
    "pool_credits ?db2 = pool_credits db1"
    by (rule table_obs, simp)+
  then show ?thesis using d dist by (simp add: debited_def settled_def total_credits_def)
qed

lemma settled_base:
  assumes "settled clock consumer provider ds e db1 db'"
    and "share_keys db1 = share_keys db" "balance_of db1 = balance_of db"
      "account_balance_of db1 = account_balance_of db" "pool_of db1 = pool_of db"
    and "provider_wallets db1 = provider_wallets db" "total_credits db1 = total_credits db"
  shows "settled clock consumer provider ds e db db'"
  using assms(1,6,7) principal_same [OF assms(2-5)] assms(3-5) by (simp add: settled_def)

definition recipients_of :: "ConsumerPrincipal \<Rightarrow> string option \<Rightarrow> string list \<Rightarrow> string list" where
  "recipients_of consumer provider online =
     filter (\<lambda>d. Some d \<noteq> provider \<and> paying_device_id consumer \<noteq> Some d) online"

lemma settle_device_backed_effect:
  assumes ok: "db_ok db" and pools: "pools_ok clock db" and payer: "paying_device_id consumer = Some payer"
    and cost: "0 < cost"
  shows "settled clock consumer provider (recipients_of consumer provider online)
    (effective_cost db consumer cost) db
    (settle_device_backed now consumer payer provider online cost req model db)"
proof -
  let ?e = "effective_cost db consumer cost" and ?db1 = "ensure_balance payer db"
  let ?n = "with_shortfall (request_note consumer model) (cost - ?e)"
  let ?db2 = "insert_ledger payer ''SPENT'' (- ?e) now (Some req) (Some ?n) ?db1"
  have ready: "payer_ready ?db2 consumer" using payer by (cases consumer) auto
  have e: "0 \<le> ?e" "?e \<le> effective_cost ?db2 consumer cost"
    using effective_cost_bounds(1) [OF cost] by simp_all
  have "debited clock consumer ?e ?db2 (if ?e > 0
      then debit_consumer now consumer (funded_flag ?db2 consumer) ?e ?db2 else ?db2)"
    by (rule debit_if_effect [OF _ _ ready e]) (use ok pools in simp_all)
  from debited_distribute [OF this e(1), of provider "recipients_of consumer provider online" now req ?n]
  show ?thesis
    unfolding settle_device_backed_def Let_def
    by (rule settled_base [THEN back_subst [of "settled clock consumer provider _ ?e db"]])
       (auto simp: total_credits_def recipients_of_def payer eq_commute)
qed

lemma insert_account_ledger_tables:
  assumes "insert_account_ledger acct asset a ty ts dev n api db = Inr db'"
  shows "share_keys db' = share_keys db" "share_key_contributions db' = share_key_contributions db"
    "provider_wallets db' = provider_wallets db" "api_keys db' = api_keys db"
    "account_wallets db' = account_wallets db" "balances db' = balances db" "providers db' = providers db"
    "account_exists db acct"
  using assms by (auto simp: insert_account_ledger_def split: if_splits)

lemma settle_request_account_effect:
  assumes ok: "db_ok db" and pools: "pools_ok clock db" and cost: "0 < cost"
    and s: "settle_request_account now acct api provider online cost req model db = Inr db'"
  shows "settled clock (Account acct api) provider (recipients_of (Account acct api) provider online)
    (charged db (Account acct api) cost) db db'"
proof -
  let ?c = "Account acct api"
  let ?e = "charged db ?c cost" let ?n = "with_shortfall (request_note ?c model) (cost - ?e)"
  have e: "clamp_to_limit db api (effective_cost db ?c cost) = ?e" using cost by (simp add: charged_def)
  obtain db1 where l: "insert_account_ledger acct ''credits'' (- ?e) ''SPENT'' now None (Some ?n) api db = Inr db1"
    and db': "db' = distribute now req ?n provider (recipients_of ?c provider online) ?e
      (if ?e > 0 then debit_consumer now ?c (funded_flag db1 ?c) ?e db1 else db1)"
    using s unfolding settle_request_account_def Let_def e by (auto simp: recipients_of_def)
  note t = insert_account_ledger_tables [OF l] and obs = insert_account_ledger_obs [OF l]
  have ok1: "db_ok db1" "pools_ok clock db1"
    using ok pools insert_account_ledger_ok [OF l] pools_ok_same [OF t(1,2)] by simp_all
  have ready: "payer_ready db1 ?c" using t(8) obs by simp
  have "0 \<le> ?e" "?e \<le> effective_cost db1 ?c cost"
    using charged_bounds(1,2) [where db = db and consumer = ?c and cost = cost] cost obs by (simp_all del: effective_cost.simps
        add: principal_same(1) [OF t(1) obs(1,2,4)])
  from debited_distribute [OF debit_if_effect [OF ok1 ready this] this(1)]
  show ?thesis unfolding db' by (rule settled_base) (simp_all add: t obs)
qed

lemma split_zero [simp]: "direct_earn 0 = 0" "per_peer 0 ds = 0" "ops_total 0 ds = 0"
  by (simp_all add: direct_earn_def per_peer_def pool_share_def ops_total_def ops_fee_def)

lemma settled_nothing:
  "db_ok db \<Longrightarrow> pools_ok clock db \<Longrightarrow> settled clock consumer provider ds 0 db db"
  by (simp add: settled_def payout_def)

lemma settle_request_effect:
  assumes ok: "db_ok db" and pools: "pools_ok clock db"
    and s: "settle_request now consumer provider online cost req model db = Inr db'"
  shows "settled clock consumer provider (recipients_of consumer provider online)
    (charged db consumer cost) db db'"
proof (cases "cost \<le> 0")
  case True
  then show ?thesis
    using s settled_nothing [OF ok pools] by (simp add: settle_request_def charged_def)
next
  case False
  show ?thesis
  proof (cases consumer)
    case (Account acct api)
    then show ?thesis
      using settle_request_account_effect [OF ok pools, of cost now acct api provider online req model db'] s False
      by (simp add: settle_request_def)
  next
    case (Device d)
    then show ?thesis
      using settle_device_backed_effect [OF ok pools, of consumer d cost provider online now req model] s False
      by (auto simp: settle_request_def charged_def)
  next
    case (Share issuer key)
    then show ?thesis
      using settle_device_backed_effect [OF ok pools, of consumer issuer cost provider online now req model]
        s False
      by (auto simp: settle_request_def charged_def)
  qed
qed

section \<open>Lemmas: provider settlement\<close>

lemma ensure_provider_wallet_Inr:
  assumes "ensure_provider_wallet now p db = Inr db'"
  shows "db' = db\<lparr>provider_wallets :=
    insert_or_ignore pw_provider_id (new_provider_wallet now p) (provider_wallets db)\<rparr>"
  using assms
  by (auto simp: ensure_provider_wallet_def insert_or_ignore_def new_provider_wallet_def split: if_splits)

lemma insert_provider_ledger_Inr:
  assumes "insert_provider_ledger p ty a ts req model n db = Inr db'"
  shows "\<exists>l s. db' = db\<lparr>provider_ledger := l, provider_ledger_seq := s\<rparr>"
  using assms by (auto simp: insert_provider_ledger_def split: if_splits)

lemma new_provider_wallet_simps [simp]:
  "pw_provider_id (new_provider_wallet now p) = p" "pw_balance_credits (new_provider_wallet now p) = 0"
  by (simp_all add: new_provider_wallet_def)

lemma update_provider_wallet_ok:
  assumes ok: "db_ok db" and f: "\<And>r. pw_provider_id (f r) = pw_provider_id r"
    "\<And>r. pw_balance_credits (f r) = pw_balance_credits r + x" and b: "0 \<le> provider_balance_of db p + x"
  shows "db_ok (update_provider_wallet p f db)"
proof -
  have keys: "map pw_provider_id (sql_update (\<lambda>r. pw_provider_id r = p) f (provider_wallets db)) =
      map pw_provider_id (provider_wallets db)" by (rule sql_update_key_map) (rule f(1))
  have "0 \<le> pw_balance_credits (f r)" if "r \<in> set (provider_wallets db)" "pw_provider_id r = p" for r
    using row_amount_eq [of pw_provider_id "provider_wallets db" r pw_balance_credits] ok that b f(2)
    by (simp add: provider_balance_of_def db_ok_def keys_ok_def)
  then show ?thesis
    using ok keys
    by (auto simp: db_ok_def keys_ok_def wallets_nonneg_def stmt_defs list_all_iff set_sql_update)
qed

definition provider_paid :: "string \<Rightarrow> int \<Rightarrow> gateway_db \<Rightarrow> gateway_db \<Rightarrow> bool" where
  "provider_paid p a db db' \<longleftrightarrow> db_ok db' \<and>
     (\<forall>q. provider_balance_of db' q = provider_balance_of db q + (if q = p then a else 0)) \<and>
     provider_credits db' = provider_credits db + a \<and>
     balances db' = balances db \<and> account_wallets db' = account_wallets db \<and>
     share_keys db' = share_keys db \<and> share_key_contributions db' = share_key_contributions db"

lemma pay_provider_effect:
  assumes ok: "db_ok db" and a: "0 \<le> a" and s: "pay_provider now p req model n a db = Inr db'"
  shows "provider_paid p a db db'"
proof (cases "a > 0")
  case False
  then show ?thesis using s ok a by (simp add: pay_provider_def provider_paid_def)
next
  case True
  let ?t = "insert_or_ignore pw_provider_id (new_provider_wallet now p) (provider_wallets db)"
  obtain db1 db2 where 1: "ensure_provider_wallet now p db = Inr db1"
    and 2: "insert_provider_ledger p ''PROVIDER_EARN'' a now (Some req) (Some model) (Some n) db1 = Inr db2"
    and db': "db' = update_provider_wallet p (row_provider_earn now a) db2"
    using s True by (auto simp: pay_provider_def)
  obtain l s' where db2: "db2 = db\<lparr>provider_wallets := ?t, provider_ledger := l, provider_ledger_seq := s'\<rparr>"
    using insert_provider_ledger_Inr [OF 2] ensure_provider_wallet_Inr [OF 1] by auto
  have t: "distinct (map pw_provider_id ?t)" "p \<in> pw_provider_id ` set ?t"
    using ok insert_or_ignore_has [of pw_provider_id "new_provider_wallet now p"]
    by (simp_all add: db_ok_def keys_ok_def)
  have ok2: "db_ok db2"
    using ok t(1) by (auto simp: db2 db_ok_def keys_ok_def wallets_nonneg_def insert_or_ignore_def)
  have b2: "provider_balance_of db2 q = provider_balance_of db q"
    "provider_credits db2 = provider_credits db" for q
    by (simp_all add: db2 obs_defs row_amount_insert_or_ignore table_sum_insert_or_ignore)
  have "0 \<le> provider_balance_of db p"
    using ok by (auto simp: provider_balance_of_def db_ok_def wallets_nonneg_def list_all_iff
        intro!: row_amount_nonneg)
  then have "db_ok db'"
    unfolding db' using a b2(1) [of p]
    by (intro update_provider_wallet_ok [OF ok2]) (auto simp: row_provider_earn_def)
  moreover have "provider_credits db' = provider_credits db + a"
    using prov_earn.post_total [OF t] b2(2) by (simp add: db' obs_defs stmt_defs db2)
  moreover have "provider_balance_of db' q = provider_balance_of db q + (if q = p then a else 0)" for q
    using prov_earn.post_amount [of p now a ?t q] t(2) b2(1) [of q] by (simp add: db' obs_defs stmt_defs db2)
  ultimately show ?thesis by (simp add: provider_paid_def db' db2 stmt_defs)
qed

text \<open>The whole movement of a settlement with a centralized provider.\<close>

definition provider_settled ::
  "int \<Rightarrow> ConsumerPrincipal \<Rightarrow> string \<Rightarrow> int \<Rightarrow> gateway_db \<Rightarrow> gateway_db \<Rightarrow> bool" where
  "provider_settled clock consumer p e db db' \<longleftrightarrow> db_ok db' \<and> pools_ok clock db' \<and>
     (\<forall>d. balance_of db' d = balance_of db d - (if debited_device db consumer = Some d then e else 0)
        + (if d = ''__ops__'' then e - provider_earn e else 0)) \<and>
     (\<forall>k. pool_of db' k = pool_of db k - (if debited_pool db consumer = Some k then e else 0)) \<and>
     (\<forall>a. account_balance_of db' a =
       account_balance_of db a - (if debited_account consumer = Some a then e else 0)) \<and>
     (\<forall>q. provider_balance_of db' q = provider_balance_of db q + (if q = p then provider_earn e else 0)) \<and>
     total_credits db' = total_credits db"

lemma provider_earn_bounds:
  assumes "0 \<le> e"
  shows "0 \<le> provider_earn e" "provider_earn e \<le> e" "provider_earn e = e * 95 div 100"
  using assms by (simp_all add: provider_earn_def sdiv_nonneg)

lemma debited_pay_provider:
  assumes d: "debited clock consumer e db db1" and e: "0 \<le> e"
    and s: "pay_provider now p req model n (provider_earn e) db1 = Inr db2"
  shows "provider_settled clock consumer p e db (pay_ops now req n (e - provider_earn e) db2)"
proof -
  note b = provider_earn_bounds [OF e]
  have ok1: "db_ok db1" "pools_ok clock db1" using d by (simp_all add: debited_def)
  note paid = pay_provider_effect [OF ok1(1) b(1) s, unfolded provider_paid_def]
  let ?o = "e - provider_earn e" let ?db3 = "pay_ops now req n ?o db2"
  have o: "0 \<le> ?o" "\<not> 0 < ?o \<Longrightarrow> ?o = 0" using b by simp_all
  have ops: "db_ok ?db3" "device_credits ?db3 = device_credits db2 + ?o"
    "\<And>x. balance_of ?db3 x = balance_of db2 x + (if x = ''__ops__'' then ?o else 0)"
    using pay_device_effect [of db2 ?o now req n "''OPS_FEE''" "''__ops__''"] paid o
    by (auto simp: pay_ops_def)
  have t: "share_keys ?db3 = share_keys db1" "share_key_contributions ?db3 = share_key_contributions db1"
    "account_wallets ?db3 = account_wallets db1" "provider_wallets ?db3 = provider_wallets db2"
    "balances db2 = balances db1"
    using paid by (simp_all add: pay_ops_def)
  have "balance_of db2 = balance_of db1" "device_credits db2 = device_credits db1"
    "account_balance_of ?db3 = account_balance_of db1" "account_credits ?db3 = account_credits db1"
    "pool_of ?db3 = pool_of db1" "pool_credits ?db3 = pool_credits db1"
    "provider_balance_of ?db3 = provider_balance_of db2" "provider_credits ?db3 = provider_credits db2"
    by (rule table_obs, simp add: t)+
  moreover have "pools_ok clock ?db3" using pools_ok_same [OF t(1,2)] ok1(2) by simp
  moreover have "provider_balance_of db1 = provider_balance_of db" "provider_credits db1 = provider_credits db"
    by (rule table_obs, use d in \<open>simp add: debited_def\<close>)+
  ultimately show ?thesis
    using d ops paid by (simp add: debited_def provider_settled_def total_credits_def)
qed

lemma insert_ledger_balances [simp]: "balances (insert_ledger d ty a ts req n db) = balances db"
  by (simp add: stmt_defs)

lemma record_consumer_same:
  assumes s: "record_consumer now consumer e req n db = Inr db'"
  shows "share_keys db' = share_keys db \<and> share_key_contributions db' = share_key_contributions db \<and>
    provider_wallets db' = provider_wallets db \<and> api_keys db' = api_keys db \<and>
    account_wallets db' = account_wallets db \<and> balances db' = balances db \<and> db_ok db' = db_ok db \<and>
    ((\<forall>d. paying_device_id consumer = Some d \<longrightarrow> has_balance db d) \<longrightarrow> payer_ready db' consumer)"
proof (cases consumer)
  case (Account acct api)
  then have l: "insert_account_ledger acct ''credits'' (- e) ''INFERENCE_SPENT'' now None (Some n) api db = Inr db'"
    using s by simp
  have "account_exists db' acct"
    using insert_account_ledger_tables(5,8) [OF l] by (simp add: account_exists_def)
  then show ?thesis
    using insert_account_ledger_tables [OF l] insert_account_ledger_ok [OF l] Account by simp
next
  case (Device d)
  then show ?thesis using s by auto
next
  case (Share issuer key)
  then show ?thesis using s by auto
qed

lemma ensure_payer_same [simp]:
  "balance_of (ensure_payer consumer db) = balance_of db"
  "account_balance_of (ensure_payer consumer db) = account_balance_of db"
  "pool_of (ensure_payer consumer db) = pool_of db"
  "provider_balance_of (ensure_payer consumer db) = provider_balance_of db"
  "total_credits (ensure_payer consumer db) = total_credits db"
  "share_keys (ensure_payer consumer db) = share_keys db"
  "db_ok db \<Longrightarrow> db_ok (ensure_payer consumer db)" "pools_ok clock (ensure_payer consumer db) = pools_ok clock db"
  by (auto simp: ensure_payer_def total_credits_def fun_eq_iff split: option.splits)

lemma provider_settled_base:
  assumes "provider_settled clock consumer p e db1 db'"
    and "share_keys db1 = share_keys db" "balance_of db1 = balance_of db"
      "account_balance_of db1 = account_balance_of db" "pool_of db1 = pool_of db"
    and "provider_balance_of db1 = provider_balance_of db" "total_credits db1 = total_credits db"
  shows "provider_settled clock consumer p e db db'"
  using assms(1,6,7) principal_same [OF assms(2-5)] assms(3-5) by (simp add: provider_settled_def)

lemma settle_provider_request_effect:
  assumes ok: "db_ok db" and pools: "pools_ok clock db"
    and s: "settle_provider_request now consumer p cost req model db = Inr db'"
  shows "provider_settled clock consumer p (if cost \<le> 0 then 0 else effective_cost db consumer cost) db db'"
proof (cases "cost \<le> 0")
  case True
  then show ?thesis
    using s ok pools by (simp add: settle_provider_request_def provider_settled_def provider_earn_def)
next
  case False
  let ?e = "effective_cost db consumer cost" and ?db1 = "ensure_payer consumer db"
  let ?n = "with_shortfall (provider_note consumer p model) (cost - ?e)"
  note ps = principal_same [of ?db1 db, simplified]
  obtain db2 db4 where r: "record_consumer now consumer ?e req ?n ?db1 = Inr db2"
    and pay: "pay_provider now p req model ?n (provider_earn ?e)
      (if ?e > 0 then debit_consumer now consumer (funded_flag db consumer) ?e db2 else db2) = Inr db4"
    and db': "db' = pay_ops now req ?n (?e - provider_earn ?e) db4"
    using s False unfolding settle_provider_request_def Let_def ps rbind_Inr_iff
    by (auto simp del: effective_cost.simps)
  have t: "share_keys db2 = share_keys ?db1" "share_key_contributions db2 = share_key_contributions ?db1"
    "provider_wallets db2 = provider_wallets ?db1" "account_wallets db2 = account_wallets ?db1"
    "balances db2 = balances ?db1" "db_ok db2 = db_ok ?db1"
    using record_consumer_same [OF r] by simp_all
  have ready: "payer_ready db2 consumer"
    using record_consumer_same [OF r] by (simp add: ensure_payer_def split: option.splits)
  have o: "balance_of db2 = balance_of ?db1" "account_balance_of db2 = account_balance_of ?db1"
    "pool_of db2 = pool_of ?db1" "provider_balance_of db2 = provider_balance_of ?db1"
    "device_credits db2 = device_credits ?db1" "account_credits db2 = account_credits ?db1"
    "pool_credits db2 = pool_credits ?db1" "provider_credits db2 = provider_credits ?db1"
    by (rule table_obs, simp add: t)+
  have ok2: "db_ok db2" "pools_ok clock db2"
    using ok pools t(6) pools_ok_same [OF t(1,2)] by simp_all
  note ps2 = principal_same [of db2 db, OF _ _ _ _]
  have e: "0 \<le> ?e" "?e \<le> effective_cost db2 consumer cost"
    using effective_cost_bounds(1) [of cost db consumer] False ps2(1) t(1) o(1-3) by simp_all
  have f: "funded_flag db2 consumer = funded_flag db consumer" using ps2(2) t(1) o(1-3) by simp
  from debited_pay_provider [OF debit_if_effect [OF ok2 ready e, unfolded f] e(1) pay]
  have "provider_settled clock consumer p ?e db (pay_ops now req ?n (?e - provider_earn ?e) db4)"
  proof (rule provider_settled_base)
    have "total_credits db2 = total_credits ?db1" using o(5-8) by (simp add: total_credits_def)
    then show "total_credits db2 = total_credits db" by simp
  qed (use t(1) o(1-4) in simp_all)
  then show ?thesis using False db' by simp
qed

lemma record_provider_payout_effect:
  assumes ok: "db_ok db" and s: "record_provider_payout now p amount dest db = Inr db'"
  shows "0 < amount \<and> amount \<le> provider_balance_of db p \<and> provider_paid p (- amount) db db'"
proof -
  obtain db1 n where a: "0 < amount" "amount \<le> provider_balance_of db p"
    and l: "insert_provider_ledger p ''PROVIDER_PAYOUT'' (- amount) now None None (Some n) db = Inr db1"
    and db': "db' = update_provider_wallet p (row_provider_payout now amount) db1"
    using s unfolding record_provider_payout_def Let_def rbind_Inr_iff ensure_Inr_iff
    by (elim exE conjE) simp
  obtain x y where db1: "db1 = db\<lparr>provider_ledger := x, provider_ledger_seq := y\<rparr>"
    using insert_provider_ledger_Inr [OF l] by auto
  have t: "distinct (map pw_provider_id (provider_wallets db))" using ok by (simp add: db_ok_def keys_ok_def)
  have "p \<in> pw_provider_id ` set (provider_wallets db)"
    using a by (auto simp: provider_balance_of_def row_amount_def dest: find_key_SomeD split: option.splits)
  note u = prov_payout.post_total [OF t this] prov_payout.post_amount [of p _ _ "provider_wallets db"] this
  have b: "provider_balance_of db1 = provider_balance_of db" by (simp add: db1 obs_defs fun_eq_iff)
  have "db_ok db1" using ok by (simp add: db1 db_ok_def keys_ok_def wallets_nonneg_def)
  then have "db_ok db'"
    unfolding db' using a b
    by (intro update_provider_wallet_ok [where x = "- amount"]) (auto simp: row_provider_payout_def)
  then show ?thesis using a u by (auto simp: provider_paid_def db' db1 stmt_defs obs_defs)
qed

end
