(* ===== verification/Settlement_Laws.thy ===== *)
theory Settlement_Laws
  imports Settlement Share_Key_Laws
begin

text \<open>
  The properties of settlement: what the payer is charged, where the credits go, the api-key limit,
  and the wallets of centralized providers.
\<close>

section \<open>A concrete database\<close>

text \<open>The database of the share-key properties with an account, an api key of that account with ten
  credits left below its limit, and a provider.\<close>

definition acct_row :: "string \<Rightarrow> int \<Rightarrow> account_wallet_row" where
  "acct_row a x = \<lparr>aw_account_user_id = a, aw_display_name = None, aw_phone = None, aw_email = None,
     aw_github_username = None, aw_balance_credits = x, aw_usdc_cents = 0, aw_created_at = 1,
     aw_updated_at = 1, aw_solana_address = None, aw_solana_enabled = 0,
     aw_deposited_usdc_cents_total = 0, aw_withdrawn_usdc_cents_total = 0\<rparr>"

definition limited_key :: api_key_row where
  "limited_key = \<lparr>ak_key_id = ''key'', ak_account_user_id = ''acct'', ak_key_hash = ''h'', ak_prefix = ''p'',
     ak_name = None, ak_role = ''live'', ak_credit_limit = Some 60, ak_usage_credits = 50,
     ak_disabled = 0, ak_created_at = 1, ak_last_used_at = None\<rparr>"

definition sample_provider :: provider_row where
  "sample_provider = \<lparr>pr_provider_id = ''prov'', pr_slug = ''prov'', pr_display_name = ''P'',
     pr_base_url = ''u'', pr_wire_format = ''openai'', pr_auth_header_name = ''a'',
     pr_auth_secret_ref = ''s'', pr_status = ''active'', pr_data_collection = ''deny'', pr_zdr = 0,
     pr_quantization = None, pr_created_at = 1, pr_updated_at = 1\<rparr>"

definition acct_db :: gateway_db where
  "acct_db = sample_funded\<lparr>account_wallets := [acct_row ''acct'' 400], api_keys := [limited_key],
     providers := [sample_provider]\<rparr>"

definition inr_db :: "'e + gateway_db \<Rightarrow> gateway_db" where
  "inr_db r = (case r of Inl _ \<Rightarrow> empty_db | Inr db \<Rightarrow> db)"

lemma inr_db_Inr: "\<not> isl r \<Longrightarrow> r = Inr (inr_db r)"
  by (cases r) (simp_all add: inr_db_def)

lemma acct_ok: "db_ok acct_db" "pools_ok 30 acct_db"
  by code_simp+

section \<open>Properties: the fleet\<close>

text \<open>
C1. Settling a request served by a device of the fleet moves credits and creates or destroys none:
the payer (wallet, share-key pool or account) is debited exactly the charge, the provider gets
70 percent, every other online device an equal part of 25 percent, the operations wallet the rest, no
other wallet changes, and the database and pool invariants are kept.
\<close>

theorem settle_request_moves:
  assumes "db_ok db" and "pools_ok clock db"
    and "settle_request now consumer (Some provider) online cost request_id model db = Inr db'"
  defines "e \<equiv> charged db consumer cost"
    and "peers \<equiv> filter (\<lambda>d. d \<noteq> provider \<and> paying_device_id consumer \<noteq> Some d) online"
  shows "db_ok db' \<and> pools_ok clock db' \<and> total_credits db' = total_credits db \<and>
    (\<forall>d. balance_of db' d = balance_of db d
       - (if debited_device db consumer = Some d then e else 0)
       + (if d = provider then e * 70 div 100 else 0)
       + per_peer e peers * int (count_list peers d)
       + (if d = ''__ops__'' then e - e * 70 div 100 - per_peer e peers * int (length peers) else 0)) \<and>
    (\<forall>k. pool_of db' k = pool_of db k - (if debited_pool db consumer = Some k then e else 0)) \<and>
    (\<forall>a. account_balance_of db' a = account_balance_of db a
       - (if debited_account consumer = Some a then e else 0))"
proof -
  have "peers = recipients_of consumer (Some provider) online"
    by (simp add: peers_def recipients_of_def)
  moreover have "direct_earn e = e * 70 div 100"
    using charged_bounds(1) [of db consumer cost] by (simp add: e_def split_nonneg(6))
  ultimately show ?thesis
    using settle_request_effect [OF assms(1-3)]
    by (simp add: settled_def payout_def ops_total_eq e_def [symmetric] eq_commute)
qed

theorem settle_request_moves_witness:
  "balance_of (inr_db (settle_request 30 (Share ''alice'' ''k1'') (Some ''bob'') [''carl'', ''dora''] 101
     ''r'' ''m'' sample_funded)) ''carl'' = 12 \<and> db_ok sample_funded \<and> pools_ok 30 sample_funded"
proof -
  let ?r = "settle_request 30 (Share ''alice'' ''k1'') (Some ''bob'') [''carl'', ''dora''] 101 ''r'' ''m'' sample_funded"
  have "\<not> isl ?r" by code_simp
  note m = settle_request_moves [OF sample_ok(5,6) inr_db_Inr [OF this]]
  have "balance_of sample_funded ''carl'' = 0" "charged sample_funded (Share ''alice'' ''k1'') 101 = 101"
    "debited_device sample_funded (Share ''alice'' ''k1'') = None"
    "per_peer 101 [''carl'', ''dora''] = 12"
    by code_simp+
  then show ?thesis using m sample_ok(5,6) by simp
qed

text \<open>
C20. The charge of a request is non-negative and never more than its cost, nor than what the payer
holds: the balance of a paying device, the pool of a funded share key, the balance of the issuer and
the rest of the budget of an unfunded one, the balance of an account. Whatever the charge, the parts
paid out are non-negative and add up to it exactly.
\<close>

theorem charge_within_means:
  "0 \<le> charged db consumer cost \<and> charged db consumer cost \<le> max cost 0 \<and>
   (case consumer of
      Device d \<Rightarrow> charged db consumer cost \<le> max (balance_of db d) 0
    | Share issuer key \<Rightarrow> (if share_funded db key = Some 1
        then charged db consumer cost \<le> max (pool_of db key) 0
        else charged db consumer cost \<le> max (balance_of db issuer) 0 \<and>
          charged db consumer cost \<le> max (key_budget_left db key) 0)
    | Account acct api \<Rightarrow> charged db consumer cost \<le> max (account_balance_of db acct) 0) \<and>
   (let e = charged db consumer cost in
      0 \<le> direct_earn e \<and> 0 \<le> per_peer e peers \<and> 0 \<le> ops_total e peers \<and>
      direct_earn e + per_peer e peers * int (length peers) + ops_total e peers = e)"
proof -
  note b = charged_bounds [where db = db and consumer = consumer and cost = cost]
  note s = split_nonneg(1,4) [OF b(1)] ops_total_nonneg [OF b(1), of peers]
  have "case consumer of
      Device d \<Rightarrow> charged db consumer cost \<le> max (balance_of db d) 0
    | Share issuer key \<Rightarrow> (if share_funded db key = Some 1
        then charged db consumer cost \<le> max (pool_of db key) 0
        else charged db consumer cost \<le> max (balance_of db issuer) 0 \<and>
          charged db consumer cost \<le> max (key_budget_left db key) 0)
    | Account acct api \<Rightarrow> charged db consumer cost \<le> max (account_balance_of db acct) 0"
  proof (cases "cost \<le> 0")
    case True
    then show ?thesis by (simp add: charged_def split: ConsumerPrincipal.split)
  next
    case False
    then show ?thesis
      using b(2) by (cases consumer) (auto simp: sum_share_key_contributions_tx_def)
  qed
  then show ?thesis using b(1,3) s by (simp add: Let_def ops_total_eq)
qed

text \<open>
When no provider device is known, the 70 percent meant for it are paid to nobody: the payer is
debited the whole charge, the rest is distributed as usual, and the credits in the system drop by
exactly that part.
\<close>

theorem settle_without_provider_burns:
  assumes "db_ok db" and "pools_ok clock db"
    and "settle_request now consumer None online cost request_id model db = Inr db'"
  shows "total_credits db' = total_credits db - charged db consumer cost * 70 div 100"
  using settle_request_effect [OF assms] charged_bounds(1) [of db consumer cost]
  by (simp add: settled_def split_nonneg(6))

theorem settle_without_provider_burns_witness:
  "total_credits (inr_db (settle_request 30 (Device ''alice'') None [] 100 ''r'' ''m'' sample_funded)) = 1430 \<and>
   total_credits sample_funded = 1500 \<and> db_ok sample_funded \<and> pools_ok 30 sample_funded"
proof -
  let ?r = "settle_request 30 (Device ''alice'') None [] 100 ''r'' ''m'' sample_funded"
  have "\<not> isl ?r" by code_simp
  note m = settle_without_provider_burns [OF sample_ok(5,6) inr_db_Inr [OF this]]
  have "charged sample_funded (Device ''alice'') 100 = 100" "total_credits sample_funded = 1500"
    by code_simp+
  then show ?thesis using m sample_ok(5,6) by simp
qed

text \<open>
A settlement refuses an account it cannot charge before anything is written: for a positive cost it
fails with a constraint violation exactly when the account has no wallet or the named api key does not
exist; a device or share principal is never refused.
\<close>

theorem settle_request_error_iff:
  "settle_request now consumer provider online cost request_id model db = Inl err \<longleftrightarrow>
   0 < cost \<and> err = ConstraintViolation \<and>
   (case consumer of
      Account acct api \<Rightarrow> \<not> (account_exists db acct \<and>
        (case api of None \<Rightarrow> True | Some k \<Rightarrow> has_row (\<lambda>r. ak_key_id r = k) (api_keys db)))
    | Device d \<Rightarrow> False
    | Share issuer key \<Rightarrow> False)"
  by (cases consumer)
     (auto simp: settle_request_def settle_request_account_def insert_account_ledger_def Let_def
       rbind_def simp del: effective_cost.simps split: option.splits)

section \<open>Properties: api-key limits\<close>

definition usage_of :: "gateway_db \<Rightarrow> string \<Rightarrow> int" where
  "usage_of db k = (case find (\<lambda>r. ak_key_id r = k) (api_keys db) of None \<Rightarrow> 0 | Some r \<Rightarrow> ak_usage_credits r)"

lemma find_sql_update_key:
  assumes "\<And>r. key (f r) = key r"
  shows "find (\<lambda>r. key r = k) (sql_update (\<lambda>r. key r = k) f t) = map_option f (find (\<lambda>r. key r = k) t)"
  by (induction t) (simp_all add: sql_update_def assms)

lemma bump_usage:
  "find (\<lambda>r. ak_key_id r = k) (api_keys (bump_api_key now (Some k) e db)) =
     map_option (\<lambda>r. r\<lparr>ak_usage_credits := ak_usage_credits r + e, ak_last_used_at := Some now\<rparr>)
       (find (\<lambda>r. ak_key_id r = k) (api_keys db))"
  by (simp add: bump_api_key_def update_api_key_def find_sql_update_key)

lemma update_account_wallet_api_keys [simp]: "api_keys (update_account_wallet a f db) = api_keys db"
  by (simp add: stmt_defs)

lemma settle_request_account_usage:
  assumes cost: "0 < cost"
    and s: "settle_request_account now acct (Some k) provider online cost req model db = Inr db'"
  shows "usage_of db' k = usage_of db k + charged db (Account acct (Some k)) cost"
proof -
  let ?c = "Account acct (Some k)" let ?e = "charged db ?c cost"
  have e: "clamp_to_limit db (Some k) (effective_cost db ?c cost) = ?e" using cost by (simp add: charged_def)
  obtain db1 n where l: "insert_account_ledger acct ''credits'' (- ?e) ''SPENT'' now None (Some n) (Some k) db = Inr db1"
    and db': "api_keys db' = api_keys (if ?e > 0 then debit_consumer now ?c None ?e db1 else db1)"
    using s unfolding settle_request_account_def Let_def e rbind_Inr_iff by (elim exE conjE) auto
  have k: "find (\<lambda>r. ak_key_id r = k) (api_keys db) \<noteq> None"
    using l by (auto simp: insert_account_ledger_def has_row_def list_ex_iff find_None_iff split: if_splits)
  have "usage_of db' k = usage_of db1 k + ?e"
    using k insert_account_ledger_tables(4) [OF l] charged_bounds(1) [of db ?c cost]
    by (auto simp: usage_of_def db' bump_usage)
  then show ?thesis using insert_account_ledger_tables(4) [OF l] by (simp add: usage_of_def)
qed

text \<open>
C25. Settlement on the fleet keeps an api key within its credit limit: a key whose usage is within the
limit is charged only what is left of it, its usage grows by exactly the charge, and is still within
the limit afterwards.
\<close>

theorem api_key_limit_kept:
  assumes "find (\<lambda>r. ak_key_id r = k) (api_keys db) = Some row" and "ak_credit_limit row = Some limit"
    and "ak_usage_credits row \<le> limit" and "0 < cost"
    and "settle_request now (Account acct (Some k)) provider online cost request_id model db = Inr db'"
  shows "usage_of db' k = usage_of db k + charged db (Account acct (Some k)) cost \<and> usage_of db' k \<le> limit"
proof -
  have "settle_request_account now acct (Some k) provider online cost request_id model db = Inr db'"
    using assms(4,5) by (simp add: settle_request_def)
  note u = settle_request_account_usage [OF assms(4) this]
  have "charged db (Account acct (Some k)) cost \<le> max (limit - ak_usage_credits row) 0"
    using assms(1,2,4) by (simp add: charged_def clamp_to_limit_def del: effective_cost.simps)
  then show ?thesis using u assms(1,3) by (simp add: usage_of_def)
qed

theorem api_key_limit_kept_witness:
  "usage_of (inr_db (settle_request 30 (Account ''acct'' (Some ''key'')) (Some ''bob'') [] 100 ''r'' ''m'' acct_db))
     ''key'' = 60"
proof -
  let ?r = "settle_request 30 (Account ''acct'' (Some ''key'')) (Some ''bob'') [] 100 ''r'' ''m'' acct_db"
  have "\<not> isl ?r" by code_simp
  moreover have "find (\<lambda>r. ak_key_id r = ''key'') (api_keys acct_db) = Some limited_key"
    "ak_credit_limit limited_key = Some 60" "ak_usage_credits limited_key \<le> 60" "0 < (100 :: int)"
    by code_simp+
  ultimately have "usage_of (inr_db ?r) ''key'' =
      usage_of acct_db ''key'' + charged acct_db (Account ''acct'' (Some ''key'')) 100"
    using api_key_limit_kept [OF _ _ _ _ inr_db_Inr] by blast
  moreover have "usage_of acct_db ''key'' = 50" "charged acct_db (Account ''acct'' (Some ''key'')) 100 = 10"
    by code_simp+
  ultimately show ?thesis by simp
qed

text \<open>
Settlement with a centralized provider does not look at the limit: the same key, with ten credits
left, is charged the whole hundred and ends far above its limit, where the fleet path charges ten.
\<close>

theorem provider_settlement_ignores_limit:
  "usage_of (inr_db (settle_provider_request 30 (Account ''acct'' (Some ''key'')) ''prov'' 100 ''r'' ''m'' acct_db))
     ''key'' = 150 \<and>
   usage_of (inr_db (settle_request 30 (Account ''acct'' (Some ''key'')) (Some ''bob'') [] 100 ''r'' ''m'' acct_db))
     ''key'' = 60 \<and>
   ak_credit_limit limited_key = Some 60"
  by code_simp

section \<open>Properties: centralized providers\<close>

text \<open>
C4. Settling a request served by a centralized provider debits the payer what it can cover of the cost,
credits 95 percent of it to the provider's wallet and the rest to the operations wallet, changes no
other wallet, keeps the credits in the system and both invariants.
\<close>

theorem settle_provider_request_moves:
  assumes "db_ok db" and "pools_ok clock db" and "0 < cost"
    and "settle_provider_request now consumer p cost request_id model db = Inr db'"
  defines "e \<equiv> effective_cost db consumer cost"
  shows "db_ok db' \<and> pools_ok clock db' \<and> total_credits db' = total_credits db \<and>
    (\<forall>q. provider_balance_of db' q = provider_balance_of db q + (if q = p then e * 95 div 100 else 0)) \<and>
    (\<forall>d. balance_of db' d = balance_of db d
       - (if debited_device db consumer = Some d then e else 0)
       + (if d = ''__ops__'' then e - e * 95 div 100 else 0)) \<and>
    (\<forall>k. pool_of db' k = pool_of db k - (if debited_pool db consumer = Some k then e else 0)) \<and>
    (\<forall>a. account_balance_of db' a = account_balance_of db a
       - (if debited_account consumer = Some a then e else 0))"
  using settle_provider_request_effect [OF assms(1,2,4)] assms(3)
    effective_cost_bounds(1) [OF assms(3), of db consumer]
  by (simp add: provider_settled_def provider_earn_bounds(3) e_def [symmetric])

theorem settle_provider_request_moves_witness:
  "provider_balance_of (inr_db (settle_provider_request 30 (Device ''alice'') ''prov'' 101 ''r'' ''m'' acct_db))
     ''prov'' = 95 \<and> db_ok acct_db \<and> pools_ok 30 acct_db"
proof -
  let ?r = "settle_provider_request 30 (Device ''alice'') ''prov'' 101 ''r'' ''m'' acct_db"
  have "\<not> isl ?r" by code_simp
  note m = settle_provider_request_moves [OF acct_ok _ inr_db_Inr [OF this]]
  have "provider_balance_of acct_db ''prov'' = 0" "effective_cost acct_db (Device ''alice'') 101 = 101"
    by code_simp+
  then show ?thesis using m acct_ok by simp
qed

text \<open>
A payout to a provider is recorded only for a positive amount the provider's wallet holds; it takes
exactly that amount out of that wallet and changes no other balance.
\<close>

theorem provider_payout_within_balance:
  assumes "db_ok db" and "record_provider_payout now p amount destination db = Inr db'"
  shows "0 < amount \<and> amount \<le> provider_balance_of db p \<and> db_ok db' \<and>
    (\<forall>q. provider_balance_of db' q = provider_balance_of db q - (if q = p then amount else 0)) \<and>
    balances db' = balances db \<and> account_wallets db' = account_wallets db"
  using record_provider_payout_effect [OF assms] by (auto simp: provider_paid_def)

definition earned_db :: gateway_db where
  "earned_db = inr_db (settle_provider_request 30 (Device ''alice'') ''prov'' 101 ''r'' ''m'' acct_db)"

theorem provider_payout_within_balance_witness:
  "provider_balance_of (inr_db (record_provider_payout 31 ''prov'' 90 None earned_db)) ''prov'' = 5 \<and> db_ok earned_db"
proof -
  let ?r = "record_provider_payout 31 ''prov'' 90 None earned_db"
  have "\<not> isl ?r" and ok: "db_ok earned_db" and "provider_balance_of earned_db ''prov'' = 95" by code_simp+
  then show ?thesis using provider_payout_within_balance [OF ok inr_db_Inr] by simp
qed

end
