(* ===== verification/Accounts.thy ===== *)
theory Accounts
  imports Device_Wallets
begin

text \<open>
  Accounts and their devices (\<open>gateway/src/ledger.rs\<close>): the canonical form of account ids and contact
  details, linking a device to an account, the account snapshots, sweeping a device wallet into the
  account and removing a device.
\<close>

section \<open>Canonical forms\<close>

definition trim_start_at :: "string \<Rightarrow> string" where
  "trim_start_at s = dropWhile (\<lambda>c. c = CHR ''@'') s"

definition then_some :: "string \<Rightarrow> string option" where
  "then_some s = (if s \<noteq> [] then Some s else None)"

definition normalize_email :: "string \<Rightarrow> string option" where
  "normalize_email value = then_some (to_lowercase (trim value))"

definition normalize_github_username :: "string \<Rightarrow> string option" where
  "normalize_github_username value = then_some (to_lowercase (trim_start_at (trim value)))"

definition normalize_phone_value :: "string \<Rightarrow> string option" where
  "normalize_phone_value value =
     (let trimmed = trim value; digits = filter is_ascii_digit trimmed
      in if trimmed = [] then None
         else if digits = [] then None
         else if starts_with ''+'' trimmed then Some (CHR ''+'' # digits)
         else Some digits)"

definition normalize_phone_digits :: "string \<Rightarrow> string option" where
  "normalize_phone_digits value = then_some (filter is_ascii_digit value)"

definition is_uuid :: "string \<Rightarrow> bool" where
  "is_uuid v \<longleftrightarrow> utf8_len v = 36 \<and>
     list_all (\<lambda>(i, c). if i = 8 \<or> i = 13 \<or> i = 18 \<or> i = 23 then c = CHR ''-'' else is_ascii_hexdigit c)
       (enumerate 0 v)"

text \<open>\<open>v[..n]\<close> and \<open>v[n..]\<close>: the text before and after byte \<open>n\<close>. The slice panics when the byte is
  inside a character.\<close>

fun split_at_byte :: "nat \<Rightarrow> string \<Rightarrow> (string \<times> string) option" where
  "split_at_byte 0 s = Some ([], s)"
| "split_at_byte (Suc n) [] = None"
| "split_at_byte (Suc n) (c # s) =
     (let w = utf8_len [c] in if Suc n < w then None
      else map_option (\<lambda>(a, b). (c # a, b)) (split_at_byte (Suc n - w) s))"

definition normalize_account_user_id :: "string \<Rightarrow> anyhow + string" where
  "normalize_account_user_id value =
     (let v = trim value in
      if is_uuid v then Inr (to_ascii_uppercase v)
      else if utf8_len v > 6 then
        (case split_at_byte 6 v of
           None \<Rightarrow> Inl (Panicked ''byte index 6 is not a char boundary'')
         | Some (a, b) \<Rightarrow>
             if sql_lower a = ''email:'' then Inr (''email:'' @ to_lowercase b) else Inr v)
      else Inr v)"

definition account_wallet_exists :: "string \<Rightarrow> gateway_db \<Rightarrow> anyhow + bool" where
  "account_wallet_exists account_user_id db =
     rbind (normalize_account_user_id account_user_id) (\<lambda>acct. Inr (account_exists db acct))"

section \<open>Linking a device\<close>

record AccountLinkMetadata =
  lm_device_name :: "string option"
  lm_platform :: "string option"
  lm_display_name :: "string option"
  lm_phone :: "string option"
  lm_email :: "string option"
  lm_github_username :: "string option"

definition coalesce :: "'a option \<Rightarrow> 'a option \<Rightarrow> 'a option" where
  "coalesce a b = (case a of None \<Rightarrow> b | Some x \<Rightarrow> Some x)"

definition new_account_wallet :: "int \<Rightarrow> string \<Rightarrow> AccountLinkMetadata \<Rightarrow> account_wallet_row" where
  "new_account_wallet now acct md = \<lparr>aw_account_user_id = acct, aw_display_name = lm_display_name md,
     aw_phone = Option.bind (lm_phone md) normalize_phone_value,
     aw_email = Option.bind (lm_email md) normalize_email,
     aw_github_username = Option.bind (lm_github_username md) normalize_github_username,
     aw_balance_credits = 0, aw_usdc_cents = 0, aw_created_at = now, aw_updated_at = now,
     aw_solana_address = None, aw_solana_enabled = 0, aw_deposited_usdc_cents_total = 0,
     aw_withdrawn_usdc_cents_total = 0\<rparr>"

definition merge_account_wallet :: "account_wallet_row \<Rightarrow> account_wallet_row \<Rightarrow> account_wallet_row" where
  "merge_account_wallet n r = r\<lparr>
     aw_display_name := coalesce (aw_display_name n) (aw_display_name r),
     aw_phone := coalesce (aw_phone n) (aw_phone r),
     aw_email := coalesce (aw_email n) (aw_email r),
     aw_github_username := coalesce (aw_github_username n) (aw_github_username r),
     aw_updated_at := aw_updated_at n\<rparr>"

definition upsert_account_wallet :: "int \<Rightarrow> string \<Rightarrow> AccountLinkMetadata \<Rightarrow> gateway_db \<Rightarrow> gateway_db" where
  [stmt_defs]: "upsert_account_wallet now acct md db = db\<lparr>account_wallets :=
     sql_upsert aw_account_user_id (new_account_wallet now acct md)
       (merge_account_wallet (new_account_wallet now acct md)) (account_wallets db)\<rparr>"

definition merge_account_device :: "account_device_row \<Rightarrow> account_device_row \<Rightarrow> account_device_row" where
  "merge_account_device n r = r\<lparr>ad_account_user_id := ad_account_user_id n,
     ad_device_name := coalesce (ad_device_name n) (ad_device_name r),
     ad_platform := coalesce (ad_platform n) (ad_platform r),
     ad_linked_at := ad_linked_at n, ad_last_seen := ad_last_seen n\<rparr>"

definition new_account_device ::
  "int \<Rightarrow> string \<Rightarrow> string \<Rightarrow> AccountLinkMetadata \<Rightarrow> account_device_row" where
  "new_account_device now d acct md = \<lparr>ad_device_id = d, ad_account_user_id = acct,
     ad_device_name = lm_device_name md, ad_platform = lm_platform md,
     ad_linked_at = now, ad_last_seen = now\<rparr>"

text \<open>The two foreign keys of \<open>account_devices\<close> are satisfied by the rows the same transaction has
  just ensured.\<close>

definition upsert_account_device :: "account_device_row \<Rightarrow> gateway_db \<Rightarrow> gateway_db" where
  [stmt_defs]: "upsert_account_device n db = db\<lparr>account_devices :=
     sql_upsert ad_device_id n (merge_account_device n) (account_devices db)\<rparr>"

definition link_device_to_account ::
  "int \<Rightarrow> string \<Rightarrow> string \<Rightarrow> AccountLinkMetadata \<Rightarrow> gateway_db \<Rightarrow> anyhow + gateway_db" where
  "link_device_to_account now d account_user_id metadata db =
     rbind (normalize_account_user_id account_user_id) (\<lambda>acct.
     let db1 = ensure_device now d db;
         db2 = ensure_balance d db1;
         db3 = upsert_account_wallet now acct metadata db2;
         db4 = touch_device now d db3
     in Inr (upsert_account_device (new_account_device now d acct metadata) db4))"

section \<open>Reading an account\<close>

definition account_user_id_for_device :: "gateway_db \<Rightarrow> string \<Rightarrow> string option" where
  "account_user_id_for_device db d =
     map_option ad_account_user_id (find (\<lambda>r. ad_device_id r = d) (account_devices db))"

definition account_balance_credits :: "gateway_db \<Rightarrow> string \<Rightarrow> int" where
  "account_balance_credits db acct = (case account_row_of db acct of
      None \<Rightarrow> 0 | Some r \<Rightarrow> aw_balance_credits r)"

definition api_key_remaining_limit :: "gateway_db \<Rightarrow> string \<Rightarrow> int option" where
  "api_key_remaining_limit db key = (case find (\<lambda>r. ak_key_id r = key) (api_keys db) of
      None \<Rightarrow> None
    | Some r \<Rightarrow> map_option (\<lambda>limit. max (limit - ak_usage_credits r) 0) (ak_credit_limit r))"

record CreditsSnapshot =
  cs_account_user_id :: string
  cs_balance_credits :: int
  cs_total_usage_credits :: int
  cs_deposited_usdc_cents_total :: int
  cs_withdrawn_usdc_cents_total :: int

definition credits_snapshot :: "gateway_db \<Rightarrow> string \<Rightarrow> anyhow + CreditsSnapshot" where
  "credits_snapshot db acct = (case account_row_of db acct of
      None \<Rightarrow> Inl (Bail ''account not found'')
    | Some r \<Rightarrow> Inr \<lparr>cs_account_user_id = acct, cs_balance_credits = aw_balance_credits r,
        cs_total_usage_credits = table_sum (\<lambda>l. - al_amount l)
          (filter (\<lambda>l. al_account_user_id l = acct \<and> al_type l = ''SPENT'' \<and> al_asset l = ''credits'')
            (account_ledger db)),
        cs_deposited_usdc_cents_total = aw_deposited_usdc_cents_total r,
        cs_withdrawn_usdc_cents_total = aw_withdrawn_usdc_cents_total r\<rparr>)"

record AccountWalletState =
  ws_display_name :: "string option"
  ws_phone :: "string option"
  ws_email :: "string option"
  ws_github_username :: "string option"
  ws_balance_credits :: int
  ws_usdc_cents :: int
  ws_solana_address :: "string option"
  ws_solana_enabled :: bool
  ws_deposited_usdc_cents_total :: int
  ws_withdrawn_usdc_cents_total :: int

definition load_account_wallet_state_locked :: "gateway_db \<Rightarrow> string \<Rightarrow> anyhow + AccountWalletState" where
  "load_account_wallet_state_locked db acct =
     rbind (ok_or QueryReturnedNoRows (account_row_of db acct)) (\<lambda>r.
     Inr \<lparr>ws_display_name = aw_display_name r, ws_phone = aw_phone r, ws_email = aw_email r,
       ws_github_username = aw_github_username r, ws_balance_credits = aw_balance_credits r,
       ws_usdc_cents = aw_usdc_cents r, ws_solana_address = aw_solana_address r,
       ws_solana_enabled = (aw_solana_enabled r \<noteq> 0),
       ws_deposited_usdc_cents_total = aw_deposited_usdc_cents_total r,
       ws_withdrawn_usdc_cents_total = aw_withdrawn_usdc_cents_total r\<rparr>)"

section \<open>Dollars and credits\<close>

definition credits_from_usdc_cents :: "int \<Rightarrow> anyhow + int" where
  "credits_from_usdc_cents usdc_cents =
     ok_or (Bail ''usdc cents overflow while converting to credits'')
       (checked_mul_i64 usdc_cents CREDITS_PER_USDC_CENT)"

definition redeemable_usdc_cents :: "int \<Rightarrow> int \<Rightarrow> int" where
  "redeemable_usdc_cents deposited withdrawn = max (deposited - withdrawn) 0"

definition withdrawable_credits :: "int \<Rightarrow> int \<Rightarrow> int \<Rightarrow> int" where
  "withdrawable_credits balance deposited withdrawn =
     (let redeemable_credits =
        (case credits_from_usdc_cents (redeemable_usdc_cents deposited withdrawn) of
           Inl _ \<Rightarrow> i64_max | Inr c \<Rightarrow> c)
      in max (min balance redeemable_credits) 0)"

section \<open>Snapshots\<close>

record AccountDeviceSnapshot =
  ds_device_id :: string
  ds_device_name :: "string option"
  ds_platform :: "string option"
  ds_linked_at :: int
  ds_last_seen :: int
  ds_wallet_balance_credits :: int
  ds_wallet_usdc_cents :: int

record AccountLedgerEntry =
  le_id :: int
  le_account_user_id :: string
  le_asset :: string
  le_amount :: int
  le_type :: string
  le_timestamp :: int
  le_device_id :: "string option"
  le_note :: "string option"

record AccountOnchainSnapshot =
  os_account_user_id :: string
  os_balance_credits :: int
  os_usdc_cents :: int
  os_solana_address :: "string option"
  os_solana_enabled :: bool
  os_deposited_usdc_cents_total :: int
  os_withdrawn_usdc_cents_total :: int
  os_redeemable_usdc_cents :: int
  os_withdrawable_credits :: int

record AccountWalletSnapshot =
  was_account_user_id :: string
  was_balance_credits :: int
  was_usdc_cents :: int
  was_solana_address :: "string option"
  was_solana_enabled :: bool
  was_deposited_usdc_cents_total :: int
  was_withdrawn_usdc_cents_total :: int
  was_redeemable_usdc_cents :: int
  was_withdrawable_credits :: int
  was_display_name :: "string option"
  was_phone :: "string option"
  was_email :: "string option"
  was_github_username :: "string option"
  was_devices :: "AccountDeviceSnapshot list"
  was_transactions :: "AccountLedgerEntry list"

definition onchain_snapshot_from_state :: "string \<Rightarrow> AccountWalletState \<Rightarrow> AccountOnchainSnapshot" where
  "onchain_snapshot_from_state acct st = \<lparr>os_account_user_id = acct,
     os_balance_credits = ws_balance_credits st, os_usdc_cents = ws_usdc_cents st,
     os_solana_address = ws_solana_address st, os_solana_enabled = ws_solana_enabled st,
     os_deposited_usdc_cents_total = ws_deposited_usdc_cents_total st,
     os_withdrawn_usdc_cents_total = ws_withdrawn_usdc_cents_total st,
     os_redeemable_usdc_cents = redeemable_usdc_cents (ws_deposited_usdc_cents_total st)
       (ws_withdrawn_usdc_cents_total st),
     os_withdrawable_credits = withdrawable_credits (ws_balance_credits st)
       (ws_deposited_usdc_cents_total st) (ws_withdrawn_usdc_cents_total st)\<rparr>"

definition account_devices_by_recency :: "gateway_db \<Rightarrow> string \<Rightarrow> account_device_row list" where
  "account_devices_by_recency db acct =
     sort_key (\<lambda>r. (- ad_last_seen r, ad_device_id r))
       (filter (\<lambda>r. ad_account_user_id r = acct) (account_devices db))"

definition account_device_ids :: "gateway_db \<Rightarrow> string \<Rightarrow> string list" where
  "account_device_ids db acct = map ad_device_id (account_devices_by_recency db acct)"

definition account_device_snapshot :: "gateway_db \<Rightarrow> account_device_row \<Rightarrow> AccountDeviceSnapshot" where
  "account_device_snapshot db r = \<lparr>ds_device_id = ad_device_id r, ds_device_name = ad_device_name r,
     ds_platform = ad_platform r, ds_linked_at = ad_linked_at r, ds_last_seen = ad_last_seen r,
     ds_wallet_balance_credits = balance_of db (ad_device_id r), ds_wallet_usdc_cents = 0\<rparr>"

definition account_ledger_entry :: "account_ledger_row \<Rightarrow> AccountLedgerEntry" where
  "account_ledger_entry r = \<lparr>le_id = al_id r, le_account_user_id = al_account_user_id r,
     le_asset = al_asset r, le_amount = al_amount r, le_type = al_type r,
     le_timestamp = al_timestamp r, le_device_id = al_device_id r, le_note = al_note r\<rparr>"

definition list_account_transactions_locked :: "gateway_db \<Rightarrow> string \<Rightarrow> int \<Rightarrow> AccountLedgerEntry list" where
  "list_account_transactions_locked db acct limit = map account_ledger_entry (sql_limit limit
     (sort_key (\<lambda>r. (- al_timestamp r, - al_id r))
       (filter (\<lambda>r. al_account_user_id r = acct) (account_ledger db))))"

definition account_summary :: "gateway_db \<Rightarrow> string \<Rightarrow> anyhow + AccountWalletSnapshot" where
  "account_summary db acct =
     rbind (load_account_wallet_state_locked db acct) (\<lambda>st.
     let onchain = onchain_snapshot_from_state acct st in
     Inr \<lparr>was_account_user_id = acct, was_balance_credits = ws_balance_credits st,
       was_usdc_cents = ws_usdc_cents st, was_solana_address = ws_solana_address st,
       was_solana_enabled = ws_solana_enabled st,
       was_deposited_usdc_cents_total = ws_deposited_usdc_cents_total st,
       was_withdrawn_usdc_cents_total = ws_withdrawn_usdc_cents_total st,
       was_redeemable_usdc_cents = os_redeemable_usdc_cents onchain,
       was_withdrawable_credits = os_withdrawable_credits onchain,
       was_display_name = ws_display_name st, was_phone = ws_phone st, was_email = ws_email st,
       was_github_username = ws_github_username st,
       was_devices = map (account_device_snapshot db) (account_devices_by_recency db acct),
       was_transactions = list_account_transactions_locked db acct 100\<rparr>)"

definition account_summary_for_device :: "gateway_db \<Rightarrow> string \<Rightarrow> anyhow + AccountWalletSnapshot" where
  "account_summary_for_device db d = (case account_user_id_for_device db d of
      None \<Rightarrow> Inl (Bail ''device is not linked to an account'')
    | Some acct \<Rightarrow> account_summary db acct)"

section \<open>Sweeping and removing a device\<close>

record AccountSweepResult =
  sw_swept_credits :: int
  sw_swept_usdc_cents :: int
  sw_account :: AccountWalletSnapshot

definition same_account_as :: "gateway_db \<Rightarrow> string \<Rightarrow> string \<Rightarrow> anyhow + string" where
  "same_account_as db requester target =
     rbind (ok_or (Bail ''requesting device is not linked to an account'')
       (account_user_id_for_device db requester)) (\<lambda>acct.
     rbind (ensure (account_user_id_for_device db target = Some acct)
       (Bail ''target device is not linked to this account'')) (\<lambda>_. Inr acct))"

definition sweep_credits :: "int \<Rightarrow> string \<Rightarrow> string \<Rightarrow> int \<Rightarrow> gateway_db \<Rightarrow> anyhow + gateway_db" where
  "sweep_credits now target acct credits db =
     (let db1 = insert_ledger target ''ACCOUNT_SWEEP_OUT'' (- credits) now None
            (Some (''swept to account '' @ acct)) db;
          db2 = update_balance target (row_spend credits) db1;
          db3 = update_account_wallet acct (row_account_credit now credits) db2
      in insert_account_ledger acct ''credits'' credits ''SWEEP_IN'' now (Some target)
           (Some (''swept from device '' @ target)) None db3)"

text \<open>The source also sweeps dollars, but reads the amount from a query that returns the constant 0, so
  that branch is never taken.\<close>

definition sweep_device_to_account ::
  "int \<Rightarrow> string \<Rightarrow> string \<Rightarrow> gateway_db \<Rightarrow> anyhow + gateway_db \<times> AccountSweepResult" where
  "sweep_device_to_account now requester target db =
     rbind (same_account_as db requester target) (\<lambda>acct.
     let db1 = ensure_balance target db in
     rbind (ok_or QueryReturnedNoRows (balance_row_of db1 target)) (\<lambda>r.
     let balance_credits = bal_balance r in
     rbind (if balance_credits > 0 then sweep_credits now target acct balance_credits db1 else Inr db1) (\<lambda>db2.
     rbind (account_summary db2 acct) (\<lambda>summary.
     Inr (db2, \<lparr>sw_swept_credits = balance_credits, sw_swept_usdc_cents = 0, sw_account = summary\<rparr>)))))"

definition remove_device_from_account ::
  "string \<Rightarrow> string \<Rightarrow> gateway_db \<Rightarrow> anyhow + gateway_db \<times> AccountWalletSnapshot" where
  "remove_device_from_account requester target db =
     rbind (ensure (requester \<noteq> target)
       (Bail ''current device cannot remove itself from this account'')) (\<lambda>_.
     rbind (same_account_as db requester target) (\<lambda>acct.
     let db1 = db\<lparr>account_devices := sql_delete (\<lambda>r. ad_device_id r = target) (account_devices db)\<rparr> in
     rbind (account_summary db1 acct) (\<lambda>summary. Inr (db1, summary))))"

section \<open>Lemmas: canonical forms\<close>

lemma lower_char_idem [simp]: "lower_char (lower_char c) = lower_char c"
  by (auto simp: lower_char_def Let_def)

lemma ascii_upper_char_idem [simp]: "ascii_upper_char (ascii_upper_char c) = ascii_upper_char c"
  by (auto simp: ascii_upper_char_def Let_def)

lemma ascii_upper_lower [simp]: "ascii_upper_char (ascii_lower_char c) = ascii_upper_char c"
  by (auto simp: ascii_upper_char_def ascii_lower_char_def Let_def)

lemma lower_char_whitespace [simp]: "is_whitespace (lower_char c) = is_whitespace c"
  by (auto simp: lower_char_def is_whitespace_def Let_def)

lemma upper_char_whitespace [simp]: "is_whitespace (ascii_upper_char c) = is_whitespace c"
  by (auto simp: ascii_upper_char_def is_whitespace_def Let_def)

lemma trim_map:
  assumes "\<And>c. is_whitespace (f c) = is_whitespace c"
  shows "trim (map f s) = map f (trim s)"
  using assms by (simp add: trim_def trim_start_def dropWhile_map rev_map comp_def)

lemma to_lowercase_idem [simp]: "to_lowercase (to_lowercase s) = to_lowercase s"
  by (simp add: to_lowercase_def)

lemma trim_to_lowercase: "trim (to_lowercase s) = to_lowercase (trim s)"
  by (simp add: to_lowercase_def trim_map)

lemma trim_to_ascii_uppercase: "trim (to_ascii_uppercase s) = to_ascii_uppercase (trim s)"
  by (simp add: to_ascii_uppercase_def trim_map)

lemma utf8_len_upper [simp]: "utf8_len (to_ascii_uppercase s) = utf8_len s"
  by (induction s) (auto simp: utf8_len_def to_ascii_uppercase_def ascii_upper_char_def Let_def)

lemma hexdigit_upper [simp]: "is_ascii_hexdigit (ascii_upper_char c) = is_ascii_hexdigit c"
  by (auto simp: is_ascii_hexdigit_def ascii_upper_char_def Let_def)

lemma char_code_iff: "c = d \<longleftrightarrow> (of_char c :: nat) = of_char d"
  by simp

lemma dash_upper [simp]: "ascii_upper_char c = CHR ''-'' \<longleftrightarrow> c = CHR ''-''"
  unfolding char_code_iff by (auto simp: ascii_upper_char_def Let_def simp del: of_char_eq_iff)

lemma list_all_enumerate_map:
  assumes "\<And>i c. P i (f c) = P i c"
  shows "list_all (\<lambda>(i, c). P i c) (enumerate n (map f v)) = list_all (\<lambda>(i, c). P i c) (enumerate n v)"
  by (induction v arbitrary: n) (simp_all add: assms)

lemma is_uuid_upper [simp]: "is_uuid (to_ascii_uppercase v) = is_uuid v"
  unfolding is_uuid_def utf8_len_upper unfolding to_ascii_uppercase_def
  by (subst list_all_enumerate_map) simp_all

lemma not_uuid_email: "\<not> is_uuid (''email:'' @ s)"
  by (simp add: is_uuid_def is_ascii_hexdigit_def)

lemma trim_eq_self: "trim s = s \<longleftrightarrow> s = [] \<or> (\<not> is_whitespace (hd s) \<and> \<not> is_whitespace (last s))"
proof
  assume eq: "trim s = s"
  have dw: "dropWhile is_whitespace t = t" if "length t \<le> length (dropWhile is_whitespace t)" for t
    using that length_dropWhile_le [of is_whitespace "tl t"] by (cases t) (auto split: if_splits)
  have "length s = length (dropWhile is_whitespace (rev (dropWhile is_whitespace s)))"
    using arg_cong [OF eq, of length] by (simp add: trim_def trim_start_def)
  then have "length s \<le> length (dropWhile is_whitespace s)"
    using length_dropWhile_le [of is_whitespace "rev (dropWhile is_whitespace s)"] by simp
  then have 1: "dropWhile is_whitespace s = s" by (rule dw)
  then have "dropWhile is_whitespace (rev s) = rev s"
    using eq by (simp add: trim_def trim_start_def rev_swap)
  with 1 show "s = [] \<or> (\<not> is_whitespace (hd s) \<and> \<not> is_whitespace (last s))"
    by (auto simp: dropWhile_eq_self_iff hd_rev)
next
  assume "s = [] \<or> (\<not> is_whitespace (hd s) \<and> \<not> is_whitespace (last s))"
  then have "dropWhile is_whitespace s = s" "dropWhile is_whitespace (rev s) = rev s"
    by (auto simp: dropWhile_eq_self_iff hd_rev)
  then show "trim s = s" by (simp add: trim_def trim_start_def)
qed

lemma split_at_byte_append:
  "split_at_byte n s = Some (a, b) \<Longrightarrow> s = a @ b \<and> utf8_len a = n"
  by (induction n s arbitrary: a b rule: split_at_byte.induct)
     (auto simp: utf8_len_def Let_def split: if_splits)

lemma normalize_email_idem: "normalize_email v = Some w \<Longrightarrow> normalize_email w = Some w"
  by (auto simp: normalize_email_def then_some_def trim_to_lowercase split: if_splits)

lemma normalize_phone_digits_idem: "normalize_phone_digits v = Some w \<Longrightarrow> normalize_phone_digits w = Some w"
  by (auto simp: normalize_phone_digits_def then_some_def split: if_splits)

lemma split_email: "split_at_byte 6 (''email:'' @ s) = Some (''email:'', s)"
  by (simp add: numeral_eq_Suc utf8_len_def)
lemma utf8_len_append: "utf8_len (a @ b) = utf8_len a + utf8_len b"
  by (simp add: utf8_len_def)

lemma utf8_len_pos: "utf8_len s = 0 \<longleftrightarrow> s = []"
  by (cases s) (simp_all add: utf8_len_def)

lemma normalize_email_id:
  assumes "trim (a @ b) = a @ b" and "b \<noteq> []"
  shows "normalize_account_user_id (''email:'' @ to_lowercase b) = Inr (''email:'' @ to_lowercase b)"
proof -
  have "\<not> is_whitespace (last b)" using assms trim_eq_self [of "a @ b"] by simp
  then have "\<not> is_whitespace (last (to_lowercase b))" using assms(2) by (simp add: to_lowercase_def last_map)
  then have t: "trim (''email:'' @ to_lowercase b) = ''email:'' @ to_lowercase b"
    using assms(2) unfolding trim_eq_self by (simp add: to_lowercase_def is_whitespace_def)
  have "utf8_len (to_lowercase b) > 0" using assms(2) utf8_len_pos [of "to_lowercase b"]
    by (auto simp: to_lowercase_def)
  then have "utf8_len (''email:'' @ to_lowercase b) > 6"
    unfolding utf8_len_append by (simp add: utf8_len_def)
  then show ?thesis
    unfolding normalize_account_user_id_def t Let_def split_email
    using not_uuid_email [of "to_lowercase b"] by (simp add: sql_lower_def ascii_lower_char_def)
qed

lemma normalize_account_user_id_idem:
  assumes "normalize_account_user_id v = Inr w"
  shows "normalize_account_user_id w = Inr w"
proof -
  consider (uuid) "is_uuid (trim v)" "w = to_ascii_uppercase (trim v)"
    | (email) a b where "split_at_byte 6 (trim v) = Some (a, b)" "utf8_len (trim v) > 6"
        "w = ''email:'' @ to_lowercase b"
    | (other) "w = trim v"
    using assms by (auto simp: normalize_account_user_id_def Let_def split: if_splits option.splits)
  then show ?thesis
  proof cases
    case uuid
    then show ?thesis
      by (simp add: normalize_account_user_id_def trim_to_ascii_uppercase) (simp add: to_ascii_uppercase_def)
  next
    case email
    then have ab: "trim v = a @ b" "utf8_len a = 6" using split_at_byte_append by blast+
    have "b \<noteq> []" using email(2) ab utf8_len_pos [of b] by (auto simp: utf8_len_append)
    then show ?thesis unfolding email(3) using ab(1) trim_idem [of v] by (intro normalize_email_id) simp_all
  next
    case other
    then show ?thesis using assms by (simp add: normalize_account_user_id_def)
  qed
qed

section \<open>Lemmas: linking\<close>

text \<open>Every linked device points to an account that exists: the foreign key of \<open>account_devices\<close>.\<close>

definition links_ok :: "gateway_db \<Rightarrow> bool" where
  "links_ok db \<longleftrightarrow> list_all (\<lambda>r. account_exists db (ad_account_user_id r)) (account_devices db)"

lemma merge_keys [simp]:
  "aw_account_user_id (merge_account_wallet n r) = aw_account_user_id r"
  "aw_balance_credits (merge_account_wallet n r) = aw_balance_credits r"
  "ad_device_id (merge_account_device m q) = ad_device_id q"
  "ad_account_user_id (merge_account_device m q) = ad_account_user_id m"
  "aw_account_user_id (new_account_wallet now acct md) = acct"
  "aw_balance_credits (new_account_wallet now acct md) = 0"
  "ad_device_id (new_account_device now d acct md) = d"
  "ad_account_user_id (new_account_device now d acct md) = acct"
  by (simp_all add: merge_account_wallet_def merge_account_device_def new_account_wallet_def
      new_account_device_def)

lemma upsert_account_wallet_obs [simp]:
  "account_balance_of (upsert_account_wallet now acct md db) = account_balance_of db"
  "account_credits (upsert_account_wallet now acct md db) = account_credits db"
  "balances (upsert_account_wallet now acct md db) = balances db"
  "provider_wallets (upsert_account_wallet now acct md db) = provider_wallets db"
  "share_keys (upsert_account_wallet now acct md db) = share_keys db"
  "share_key_contributions (upsert_account_wallet now acct md db) = share_key_contributions db"
  "account_exists (upsert_account_wallet now acct md db) a \<longleftrightarrow> a = acct \<or> account_exists db a"
  by (simp_all add: obs_defs stmt_defs row_amount_upsert table_sum_upsert fun_eq_iff account_exists_iff
      sql_upsert_key_set)

lemma upsert_account_wallet_ok: "db_ok db \<Longrightarrow> db_ok (upsert_account_wallet now acct md db)"
  by (auto simp: db_ok_def keys_ok_def wallets_nonneg_def stmt_defs sql_upsert_distinct list_all_iff)
     (auto simp: sql_upsert_def set_sql_update split: if_splits)

lemma upsert_account_device_same [simp]: "same_wallets db (upsert_account_device n db)"
  "share_keys (upsert_account_device n db) = share_keys db"
  "share_key_contributions (upsert_account_device n db) = share_key_contributions db"
  by (simp_all add: same_wallets_def stmt_defs)

lemma upsert_account_device_ok [simp]: "db_ok (upsert_account_device n db) = db_ok db"
  by (simp add: db_ok_def keys_ok_def wallets_nonneg_def stmt_defs sql_upsert_distinct)

lemmas upsert_account_device_obs [simp] = same_wallets_obs [OF upsert_account_device_same(1)]

lemma link_device_to_account_db:
  assumes "link_device_to_account now d a md db = Inr db'"
  obtains acct where "normalize_account_user_id a = Inr acct"
    "db' = upsert_account_device (new_account_device now d acct md) (touch_device now d
      (upsert_account_wallet now acct md (ensure_balance d (ensure_device now d db))))"
  using assms by (auto simp: link_device_to_account_def Let_def)

lemma stmt_account_devices [simp]:
  "account_devices (ensure_device now d db) = account_devices db"
  "account_devices (touch_device now d db) = account_devices db"
  "account_devices (ensure_balance d db) = account_devices db"
  "account_devices (upsert_account_wallet now acct md db) = account_devices db"
  by (simp_all add: stmt_defs)

lemma upsert_account_device_link:
  "account_user_id_for_device (upsert_account_device n db) d =
     (if d = ad_device_id n then Some (ad_account_user_id n) else account_user_id_for_device db d)"
  by (simp add: account_user_id_for_device_def stmt_defs find_sql_upsert split: option.splits)

lemma links_ok_upsert:
  assumes "links_ok db" and "account_exists db' (ad_account_user_id n)"
    and "account_devices db' = account_devices db" and "\<And>a. account_exists db a \<Longrightarrow> account_exists db' a"
  shows "links_ok (upsert_account_device n db')"
  using assms unfolding links_ok_def upsert_account_device_obs
  by (auto simp: stmt_defs sql_upsert_def list_all_iff set_sql_update split: if_splits)

lemma link_device_to_account_effect:
  assumes ok: "db_ok db" and s: "link_device_to_account now d a md db = Inr db'"
  shows "db_ok db'" "balance_of db' = balance_of db" "account_balance_of db' = account_balance_of db"
    "total_credits db' = total_credits db" "links_ok db \<Longrightarrow> links_ok db'"
    "share_keys db' = share_keys db" "share_key_contributions db' = share_key_contributions db"
proof -
  obtain acct where a: "normalize_account_user_id a = Inr acct"
    and db': "db' = upsert_account_device (new_account_device now d acct md) (touch_device now d
      (upsert_account_wallet now acct md (ensure_balance d (ensure_device now d db))))"
    using s by (rule link_device_to_account_db)
  let ?w = "upsert_account_wallet now acct md (ensure_balance d (ensure_device now d db))"
  show "db_ok db'" unfolding db' using ok by (simp add: upsert_account_wallet_ok)
  have "balance_of ?w = balance_of (ensure_balance d (ensure_device now d db))"
    "device_credits ?w = device_credits (ensure_balance d (ensure_device now d db))"
    "provider_credits ?w = provider_credits (ensure_balance d (ensure_device now d db))"
    "pool_credits ?w = pool_credits (ensure_balance d (ensure_device now d db))"
    by (rule table_obs, simp)+
  then show "balance_of db' = balance_of db" "total_credits db' = total_credits db"
    by (simp_all add: db' fun_eq_iff total_credits_def)
  show "account_balance_of db' = account_balance_of db" "share_keys db' = share_keys db"
    "share_key_contributions db' = share_key_contributions db"
    by (simp_all add: db')
  show "links_ok db'" if "links_ok db" unfolding db'
    by (rule links_ok_upsert [OF that]) auto
qed

section \<open>Lemmas: sweeping and removing\<close>

lemma same_account_as_Inr:
  "same_account_as db requester target = Inr acct \<longleftrightarrow>
     account_user_id_for_device db requester = Some acct \<and> account_user_id_for_device db target = Some acct"
  by (auto simp: same_account_as_def)

lemma sweep_credits_effect:
  assumes ok: "db_ok db" and c: "0 < c" "c \<le> balance_of db target" and h: "has_balance db target"
    and s: "sweep_credits now target acct c db = Inr db'"
  shows "db_ok db'" "balance_of db' d = balance_of db d - (if d = target then c else 0)"
    "account_balance_of db' a = account_balance_of db a + (if a = acct then c else 0)"
    "total_credits db' = total_credits db" "account_devices db' = account_devices db"
    "account_exists db' = account_exists db" "account_exists db acct"
    "share_keys db' = share_keys db" "share_key_contributions db' = share_key_contributions db"
proof -
  let ?db1 = "insert_ledger target ''ACCOUNT_SWEEP_OUT'' (- c) now None (Some (''swept to account '' @ acct)) db"
  let ?db2 = "update_balance target (row_spend c) ?db1"
  let ?db3 = "update_account_wallet acct (row_account_credit now c) ?db2"
  have l: "insert_account_ledger acct ''credits'' c ''SWEEP_IN'' now (Some target)
      (Some (''swept from device '' @ target)) None ?db3 = Inr db'"
    using s by (simp add: sweep_credits_def Let_def)
  note obs = insert_account_ledger_obs [OF l]
  have ex3: "account_exists ?db3 acct" using l by (simp add: insert_account_ledger_def split: if_splits)
  then show ex: "account_exists db acct" by simp
  have ok2: "db_ok ?db2" using ok c by (simp add: spend_ok)
  have "0 \<le> account_balance_of ?db2 acct"
    using account_balance_of_nonneg [OF db_ok_nonneg [OF ok2]] .
  then have "db_ok ?db3" using ok2 c(1) by (intro account_credit_ok) simp_all
  then show "db_ok db'" using insert_account_ledger_ok [OF l] by simp
  show "balance_of db' d = balance_of db d - (if d = target then c else 0)"
    using ok h by (simp add: obs spend_obs)
  show "account_balance_of db' a = account_balance_of db a + (if a = acct then c else 0)"
    using ok2 ex by (simp add: obs account_credit_obs)
  show "total_credits db' = total_credits db"
    using ok ok2 h ex by (simp add: obs total_credits_def account_credit_obs spend_obs)
  show "account_exists db' = account_exists db" by (simp add: obs)
  show "account_devices db' = account_devices db" "share_keys db' = share_keys db"
    "share_key_contributions db' = share_key_contributions db"
    using l by (auto simp: insert_account_ledger_def stmt_defs split: if_splits)
qed

lemma sweep_device_to_account_effect:
  assumes ok: "db_ok db" and s: "sweep_device_to_account now requester target db = Inr (db', r)"
  obtains acct where "account_user_id_for_device db requester = Some acct"
    "account_user_id_for_device db target = Some acct" "db_ok db'"
    "sw_swept_credits r = balance_of db target"
    "\<And>d. balance_of db' d = (if d = target then 0 else balance_of db d)"
    "\<And>a. account_balance_of db' a = account_balance_of db a + (if a = acct then balance_of db target else 0)"
    "total_credits db' = total_credits db" "account_devices db' = account_devices db"
    "account_exists db' = account_exists db" "share_keys db' = share_keys db"
    "share_key_contributions db' = share_key_contributions db"
proof -
  let ?db1 = "ensure_balance target db"
  obtain acct row where a: "account_user_id_for_device db requester = Some acct"
      "account_user_id_for_device db target = Some acct"
    and row: "balance_row_of ?db1 target = Some row"
    and sw: "(if bal_balance row > 0 then sweep_credits now target acct (bal_balance row) ?db1 else Inr ?db1) = Inr db'"
    and r: "sw_swept_credits r = bal_balance row"
    using s unfolding sweep_device_to_account_def Let_def rbind_Inr_iff ok_or_Inr_iff same_account_as_Inr
    by (elim exE conjE) auto
  have b: "bal_balance row = balance_of db target" using balance_row_of_amount [OF row] by simp
  have ok1: "db_ok ?db1" using ok by simp
  show thesis
  proof (cases "balance_of db target > 0")
    case True
    have "sweep_credits now target acct (balance_of db target) ?db1 = Inr db'" using sw True b by simp
    note e = sweep_credits_effect [OF ok1 True _ _ this]
    show thesis by (rule that [OF a]) (use e b r in \<open>simp_all add: total_credits_def\<close>)
  next
    case False
    moreover have "0 \<le> balance_of db target" using ok by (simp add: balance_of_nonneg db_ok_nonneg)
    ultimately have z: "balance_of db target = 0" by simp
    then have "db' = ?db1" using sw b by simp
    then show thesis using z b r ok1 by (intro that [OF a]) (simp_all add: total_credits_def)
  qed
qed

lemma remove_device_from_account_db:
  assumes "remove_device_from_account requester target db = Inr (db', snap)"
  shows "requester \<noteq> target" "account_user_id_for_device db requester = Some (was_account_user_id snap)"
    "account_user_id_for_device db target = Some (was_account_user_id snap)"
    "db' = db\<lparr>account_devices := sql_delete (\<lambda>r. ad_device_id r = target) (account_devices db)\<rparr>"
  using assms unfolding remove_device_from_account_def Let_def rbind_Inr_iff ensure_Inr_iff same_account_as_Inr
    account_summary_def
  by (elim exE conjE, auto)+

lemma find_sql_delete_key:
  "find (\<lambda>r. key r = k') (sql_delete (\<lambda>r. key r = k) t) = (if k' = k then None else find (\<lambda>r. key r = k') t)"
  by (induction t) (auto simp: sql_delete_def)

lemma withdrawable_bounds:
  assumes "in_i64 balance" and "0 \<le> deposited - withdrawn" and "in_i64 ((deposited - withdrawn) * 10000)"
  shows "withdrawable_credits balance deposited withdrawn = max (min balance ((deposited - withdrawn) * 10000)) 0"
  using assms
  by (simp add: withdrawable_credits_def credits_from_usdc_cents_def redeemable_usdc_cents_def
      checked_mul_i64_def CREDITS_PER_USDC_CENT_def CREDITS_PER_USDC_def sdiv_nonneg)

section \<open>Properties\<close>

text \<open>
The canonical account id is a fixed point: normalising it again changes nothing; and all spellings
of a UUID that differ only in the case of its letters or in surrounding white space get the same id, so
an account cannot be split by them.
\<close>

theorem account_id_canonical:
  assumes "normalize_account_user_id v = Inr w"
  shows "normalize_account_user_id w = Inr w \<and>
    (is_uuid (trim v) \<longrightarrow>
      (\<forall>u. sql_lower (trim u) = sql_lower (trim v) \<longrightarrow> normalize_account_user_id u = Inr w))"
proof (intro conjI impI allI)
  show "normalize_account_user_id w = Inr w" using assms by (rule normalize_account_user_id_idem)
  fix u assume uuid: "is_uuid (trim v)" and same: "sql_lower (trim u) = sql_lower (trim v)"
  have "to_ascii_uppercase (sql_lower s) = to_ascii_uppercase s" for s
    by (simp add: to_ascii_uppercase_def sql_lower_def)
  then have up: "to_ascii_uppercase (trim u) = to_ascii_uppercase (trim v)" using same by metis
  then have "is_uuid (trim u)" using uuid is_uuid_upper by metis
  then show "normalize_account_user_id u = Inr w"
    using assms uuid up by (simp add: normalize_account_user_id_def)
qed

theorem account_id_canonical_witness:
  "normalize_account_user_id ''6BA7B810-9DAD-11D1-80B4-00C04FD430C8'' =
   normalize_account_user_id '' 6ba7b810-9dad-11d1-80b4-00c04fd430c8''"
proof -
  have "normalize_account_user_id '' 6ba7b810-9dad-11d1-80b4-00c04fd430c8'' =
      Inr ''6BA7B810-9DAD-11D1-80B4-00C04FD430C8''" by code_simp
  moreover from account_id_canonical [OF this]
  have "normalize_account_user_id ''6BA7B810-9DAD-11D1-80B4-00C04FD430C8'' =
      Inr ''6BA7B810-9DAD-11D1-80B4-00C04FD430C8''" by blast
  ultimately show ?thesis by simp
qed

text \<open>
The slice that looks for the prefix \<open>email:\<close> cuts at byte 6 without checking that a character
starts there: an id whose sixth byte begins a two-byte character makes the normalisation panic.
\<close>

theorem account_id_slice_panics:
  "normalize_account_user_id (''accou'' @ [CHR 0xE9, CHR ''x'']) =
     Inl (Panicked ''byte index 6 is not a char boundary'')"
  by code_simp

text \<open>
Linking a device attaches it to the canonical account, whose wallet exists afterwards, and leaves
every other link alone. A detail of the account that the caller does not supply keeps its value. No
credits move and the database stays consistent.
\<close>

theorem link_device_attaches:
  assumes "db_ok db" and "links_ok db" and "link_device_to_account now d a md db = Inr db'"
  shows "db_ok db' \<and> links_ok db' \<and> balance_of db' = balance_of db \<and>
    account_balance_of db' = account_balance_of db \<and> total_credits db' = total_credits db \<and>
    (\<exists>acct. normalize_account_user_id a = Inr acct \<and> account_exists db' acct \<and>
      account_user_id_for_device db' d = Some acct \<and>
      (\<forall>d'. d' \<noteq> d \<longrightarrow> account_user_id_for_device db' d' = account_user_id_for_device db d') \<and>
      (\<forall>r. lm_email md = None \<longrightarrow> account_row_of db acct = Some r \<longrightarrow>
        (\<exists>r'. account_row_of db' acct = Some r' \<and> aw_email r' = aw_email r \<and>
          aw_balance_credits r' = aw_balance_credits r)))"
proof -
  note e = link_device_to_account_effect [OF assms(1,3)]
  obtain acct where a: "normalize_account_user_id a = Inr acct"
    and db': "db' = upsert_account_device (new_account_device now d acct md) (touch_device now d
      (upsert_account_wallet now acct md (ensure_balance d (ensure_device now d db))))"
    using assms(3) by (rule link_device_to_account_db)
  have "\<exists>r'. account_row_of db' acct = Some r' \<and> aw_email r' = aw_email r \<and>
      aw_balance_credits r' = aw_balance_credits r"
    if "lm_email md = None" "account_row_of db acct = Some r" for r
    using that by (simp add: db' account_row_of_def stmt_defs find_sql_upsert merge_account_wallet_def
        new_account_wallet_def coalesce_def)
  moreover have "account_exists db' acct" by (simp add: db')
  moreover have "account_user_id_for_device db' x =
      (if x = d then Some acct else account_user_id_for_device db x)" for x
    by (simp add: db' upsert_account_device_link) (simp add: account_user_id_for_device_def)
  ultimately show ?thesis using e assms(2) a by simp
qed

theorem link_device_attaches_witness:
  "account_user_id_for_device (case link_device_to_account 5 ''phone'' ''EMAIL:Ann@x.org''
     \<lparr>lm_device_name = None, lm_platform = None, lm_display_name = None, lm_phone = None, lm_email = None,
       lm_github_username = None\<rparr> (seed_mint_pool empty_db) of Inl _ \<Rightarrow> empty_db | Inr db' \<Rightarrow> db')
     ''phone'' = Some ''email:ann@x.org''"
proof -
  let ?md = "\<lparr>lm_device_name = None, lm_platform = None, lm_display_name = None, lm_phone = None,
    lm_email = None, lm_github_username = None\<rparr>"
  let ?r = "link_device_to_account 5 ''phone'' ''EMAIL:Ann@x.org'' ?md (seed_mint_pool empty_db)"
  have ok: "db_ok (seed_mint_pool empty_db)" "links_ok (seed_mint_pool empty_db)" by code_simp+
  have id: "normalize_account_user_id ''EMAIL:Ann@x.org'' = Inr ''email:ann@x.org''" by code_simp
  then obtain db' where r: "?r = Inr db'" by (auto simp: link_device_to_account_def Let_def)
  show ?thesis using link_device_attaches [OF ok r] id r by auto
qed

text \<open>
A sweep moves the whole balance of a device into the account both devices are linked to: the
device is left with nothing, the account gains exactly that amount, no other wallet changes and no
credits are created or destroyed.
\<close>

theorem sweep_moves_whole_balance:
  assumes "db_ok db" and "sweep_device_to_account now requester target db = Inr (db', result)"
  shows "db_ok db' \<and> total_credits db' = total_credits db \<and> sw_swept_credits result = balance_of db target \<and>
    (\<forall>d. balance_of db' d = (if d = target then 0 else balance_of db d)) \<and>
    (\<exists>acct. account_user_id_for_device db requester = Some acct \<and>
      account_user_id_for_device db target = Some acct \<and>
      (\<forall>a. account_balance_of db' a = account_balance_of db a + (if a = acct then balance_of db target else 0)))"
proof (rule sweep_device_to_account_effect [OF assms], goal_cases)
  case (1 acct)
  then show ?case by simp
qed

definition linked_db :: gateway_db where
  "linked_db = (let md = \<lparr>lm_device_name = None, lm_platform = None, lm_display_name = None, lm_phone = None,
       lm_email = None, lm_github_username = None\<rparr>;
     link = (\<lambda>d db. case link_device_to_account 5 d ''acct'' md db of Inl _ \<Rightarrow> empty_db | Inr db' \<Rightarrow> db')
   in case admin_mint 6 ''phone'' 700 ''seed'' (link ''laptop'' (link ''phone'' (seed_mint_pool empty_db)))
      of Inl _ \<Rightarrow> empty_db | Inr (db, _) \<Rightarrow> db)"

theorem sweep_moves_whole_balance_witness:
  "\<exists>db' result. sweep_device_to_account 9 ''laptop'' ''phone'' linked_db = Inr (db', result) \<and>
     balance_of db' ''phone'' = 0 \<and> account_balance_of db' ''acct'' = 700 \<and> db_ok linked_db"
proof -
  have ok: "db_ok linked_db" and b: "balance_of linked_db ''phone'' = 700" "account_balance_of linked_db ''acct'' = 0"
    "account_user_id_for_device linked_db ''laptop'' = Some ''acct''"
    "\<not> isl (sweep_device_to_account 9 ''laptop'' ''phone'' linked_db)" by code_simp+
  then obtain db' result where r: "sweep_device_to_account 9 ''laptop'' ''phone'' linked_db = Inr (db', result)"
    by (cases "sweep_device_to_account 9 ''laptop'' ''phone'' linked_db") auto
  show ?thesis using sweep_moves_whole_balance [OF ok r] ok r b by auto
qed

text \<open>
Removing a device from an account is only done by another device of the same account; afterwards the
removed device is linked to no account, so it can no longer act for it, while every other link and every
wallet is unchanged.
\<close>

theorem removed_device_is_out:
  assumes "remove_device_from_account requester target db = Inr (db', snapshot)"
  shows "requester \<noteq> target \<and> account_user_id_for_device db requester = account_user_id_for_device db target \<and>
    account_user_id_for_device db' target = None \<and>
    (\<forall>d. d \<noteq> target \<longrightarrow> account_user_id_for_device db' d = account_user_id_for_device db d) \<and>
    same_wallets db db'"
  using remove_device_from_account_db [OF assms]
  by (auto simp: account_user_id_for_device_def find_sql_delete_key same_wallets_def)

theorem removed_device_is_out_witness:
  "\<exists>db' snapshot. remove_device_from_account ''laptop'' ''phone'' linked_db = Inr (db', snapshot) \<and>
     account_user_id_for_device db' ''phone'' = None"
proof -
  have "\<not> isl (remove_device_from_account ''laptop'' ''phone'' linked_db)" by code_simp
  then obtain db' snapshot where r: "remove_device_from_account ''laptop'' ''phone'' linked_db = Inr (db', snapshot)"
    by (cases "remove_device_from_account ''laptop'' ''phone'' linked_db") auto
  then show ?thesis using removed_device_is_out [OF r] by blast
qed

end
