(* ===== verification/Transfers.thy ===== *)
theory Transfers
  imports Accounts
begin

text \<open>
  Credit transfers between wallets (\<open>gateway/src/ledger.rs\<close>): reading a recipient from text, resolving
  it to a device or an account, and moving the credits.
\<close>

section \<open>Who receives\<close>

datatype ResolvedTransferTarget =
    TargetDevice string
  | TargetAccount string "string option" "string option" "string option" "string option"

record TransferRecipientSummary =
  trs_kind :: string
  trs_id :: string
  trs_display_name :: "string option"
  trs_device_id :: "string option"
  trs_account_user_id :: "string option"
  trs_phone :: "string option"
  trs_email :: "string option"
  trs_github_username :: "string option"

fun target_summary :: "ResolvedTransferTarget \<Rightarrow> TransferRecipientSummary" where
  "target_summary (TargetDevice d) = \<lparr>trs_kind = ''device'', trs_id = d, trs_display_name = None,
     trs_device_id = Some d, trs_account_user_id = None, trs_phone = None, trs_email = None,
     trs_github_username = None\<rparr>"
| "target_summary (TargetAccount acct display_name phone email github) = \<lparr>trs_kind = ''account'',
     trs_id = acct, trs_display_name = display_name, trs_device_id = None,
     trs_account_user_id = Some acct, trs_phone = phone, trs_email = email,
     trs_github_username = github\<rparr>"

datatype TransferLookup =
    LookupDevice string
  | LookupAccount string
  | LookupEmail string
  | LookupPhoneDigits string
  | LookupGithub string

datatype TransferError =
    UnsupportedAsset
  | InvalidAmount
  | MissingRecipient
  | RecipientAccountNotFound
  | RecipientDeviceNotFound
  | AmbiguousRecipient
  | SameWallet
  | AccountNotLinked
  | InsufficientBalance int int
  | TransferOther anyhow

definition looks_like_device_id :: "string \<Rightarrow> bool" where
  "looks_like_device_id value \<longleftrightarrow> utf8_len value = 64 \<and> list_all is_ascii_hexdigit value"

definition is_phone_mark :: "char \<Rightarrow> bool" where
  "is_phone_mark c \<longleftrightarrow> c \<in> set ''() -.''"

definition parse_transfer_lookup :: "string \<Rightarrow> TransferError + TransferLookup" where
  "parse_transfer_lookup raw =
     (let trimmed = trim raw in
      if trimmed = [] then Inl MissingRecipient
      else case strip_prefix ''device:'' trimmed of Some rest \<Rightarrow> Inr (LookupDevice (trim rest)) | None \<Rightarrow>
      case strip_prefix ''account:'' trimmed of Some rest \<Rightarrow> Inr (LookupAccount (trim rest)) | None \<Rightarrow>
      case strip_prefix ''email:'' trimmed of
        Some rest \<Rightarrow> rbind (ok_or MissingRecipient (normalize_email rest)) (\<lambda>e. Inr (LookupEmail e)) | None \<Rightarrow>
      case strip_prefix ''phone:'' trimmed of
        Some rest \<Rightarrow> rbind (ok_or MissingRecipient (normalize_phone_digits rest)) (\<lambda>p. Inr (LookupPhoneDigits p)) | None \<Rightarrow>
      case strip_prefix ''github:'' trimmed of
        Some rest \<Rightarrow> rbind (ok_or MissingRecipient (normalize_github_username rest)) (\<lambda>g. Inr (LookupGithub g)) | None \<Rightarrow>
      if looks_like_device_id trimmed then Inr (LookupDevice trimmed)
      else if CHR ''@'' \<in> set trimmed
        then rbind (ok_or MissingRecipient (normalize_email trimmed)) (\<lambda>e. Inr (LookupEmail e))
      else case normalize_phone_digits trimmed of
        Some digits \<Rightarrow>
          if starts_with ''+'' trimmed \<or> list_ex is_phone_mark trimmed then Inr (LookupPhoneDigits digits)
          else rbind (ok_or MissingRecipient (normalize_github_username trimmed)) (\<lambda>g. Inr (LookupGithub g))
      | None \<Rightarrow> rbind (ok_or MissingRecipient (normalize_github_username trimmed)) (\<lambda>g. Inr (LookupGithub g)))"

definition account_target :: "account_wallet_row \<Rightarrow> ResolvedTransferTarget" where
  "account_target r = TargetAccount (aw_account_user_id r) (aw_display_name r) (aw_phone r)
     (aw_email r) (aw_github_username r)"

definition load_account_target_from_query ::
  "gateway_db \<Rightarrow> (account_wallet_row \<Rightarrow> bool) \<Rightarrow> TransferError + ResolvedTransferTarget" where
  "load_account_target_from_query db P =
     (case take 2 (filter P (account_wallets db)) of
        [] \<Rightarrow> Inl RecipientAccountNotFound
      | [r] \<Rightarrow> Inr (account_target r)
      | _ \<Rightarrow> Inl AmbiguousRecipient)"

definition phone_digits_of :: "string option \<Rightarrow> string" where
  "phone_digits_of phone =
     filter (\<lambda>c. c \<notin> set ''+ -().'') (case phone of None \<Rightarrow> [] | Some p \<Rightarrow> p)"

definition find_device_target :: "gateway_db \<Rightarrow> string \<Rightarrow> ResolvedTransferTarget option" where
  "find_device_target db d =
     map_option (\<lambda>r. TargetDevice (dev_device_id r)) (find (\<lambda>r. dev_device_id r = d) (devices db))"

definition find_account_target :: "gateway_db \<Rightarrow> string \<Rightarrow> ResolvedTransferTarget option" where
  "find_account_target db acct = map_option account_target (account_row_of db acct)"

definition is_bare_id :: "string \<Rightarrow> bool" where
  "is_bare_id trimmed \<longleftrightarrow> trimmed \<noteq> [] \<and> CHR ''@'' \<notin> set trimmed \<and> \<not> starts_with ''+'' trimmed
     \<and> CHR '':'' \<notin> set trimmed"

fun run_lookup :: "gateway_db \<Rightarrow> TransferLookup \<Rightarrow> TransferError + ResolvedTransferTarget" where
  "run_lookup db (LookupDevice d) = ok_or RecipientDeviceNotFound (find_device_target db d)"
| "run_lookup db (LookupAccount acct) = ok_or RecipientAccountNotFound (find_account_target db acct)"
| "run_lookup db (LookupEmail email) = load_account_target_from_query db
     (\<lambda>r. map_option sql_lower (aw_email r) = Some email)"
| "run_lookup db (LookupPhoneDigits digits) = load_account_target_from_query db
     (\<lambda>r. phone_digits_of (aw_phone r) = digits)"
| "run_lookup db (LookupGithub username) = load_account_target_from_query db
     (\<lambda>r. map_option sql_lower (aw_github_username r) = Some username)"

definition resolve_transfer_target_tx :: "gateway_db \<Rightarrow> string \<Rightarrow> TransferError + ResolvedTransferTarget" where
  "resolve_transfer_target_tx db raw_recipient =
     (let trimmed = trim raw_recipient;
          by_text = rbind (parse_transfer_lookup raw_recipient) (run_lookup db) in
      if is_bare_id trimmed then
        (case find_device_target db trimmed of
           Some t \<Rightarrow> Inr t
         | None \<Rightarrow> (case find_account_target db trimmed of Some t \<Rightarrow> Inr t | None \<Rightarrow> by_text))
      else by_text)"

section \<open>Notes\<close>

fun target_label :: "ResolvedTransferTarget \<Rightarrow> string" where
  "target_label (TargetDevice d) = ''device '' @ d"
| "target_label (TargetAccount acct display_name phone email github) =
     (case coalesce phone (coalesce email github) of Some x \<Rightarrow> x | None \<Rightarrow> ''account '' @ acct)"

definition format_sender_note :: "ResolvedTransferTarget \<Rightarrow> string option \<Rightarrow> string" where
  "format_sender_note recipient memo =
     (case normalized_optional_string memo of
        Some m \<Rightarrow> ''transfer to '' @ target_label recipient @ '': '' @ m
      | None \<Rightarrow> ''transfer to '' @ target_label recipient)"

definition format_recipient_note :: "string \<Rightarrow> string option \<Rightarrow> string" where
  "format_recipient_note sender_label memo =
     (case normalized_optional_string memo of
        Some m \<Rightarrow> ''transfer from '' @ sender_label @ '': '' @ m
      | None \<Rightarrow> ''transfer from '' @ sender_label)"

section \<open>The transfer\<close>

record TransferReceipt =
  tr_asset :: string
  tr_amount :: int
  tr_memo :: "string option"
  tr_sender_kind :: string
  tr_sender_id :: string
  tr_sender_balance_credits :: int
  tr_recipient :: TransferRecipientSummary

text \<open>The credit side is the same text in both transfer functions, up to the note's sender and the
  device recorded on an account row.\<close>

fun credit_target ::
  "int \<Rightarrow> ResolvedTransferTarget \<Rightarrow> int \<Rightarrow> string option \<Rightarrow> string \<Rightarrow> gateway_db \<Rightarrow> anyhow + gateway_db" where
  "credit_target now (TargetDevice d) amount actor note db =
     (let db1 = ensure_balance d db;
          db2 = update_balance d (row_move amount) db1
      in Inr (insert_ledger d ''TRANSFER_IN'' amount now None (Some note) db2))"
| "credit_target now (TargetAccount acct display_name phone email github) amount actor note db =
     insert_account_ledger acct ''credits'' amount ''TRANSFER_IN'' now actor (Some note) None
       (update_account_wallet acct (row_account_credit now amount) db)"

definition transfer_receipt ::
  "string \<Rightarrow> string \<Rightarrow> int \<Rightarrow> int \<Rightarrow> string option \<Rightarrow> ResolvedTransferTarget \<Rightarrow> TransferReceipt" where
  "transfer_receipt kind sender amount balance_after memo recipient = \<lparr>tr_asset = ''credits'',
     tr_amount = amount, tr_memo = normalized_optional_string memo, tr_sender_kind = kind,
     tr_sender_id = sender, tr_sender_balance_credits = balance_after,
     tr_recipient = target_summary recipient\<rparr>"

definition transfer_from_device_wallet ::
  "int \<Rightarrow> string \<Rightarrow> string \<Rightarrow> int \<Rightarrow> string option \<Rightarrow> gateway_db \<Rightarrow>
   TransferError + gateway_db \<times> TransferReceipt" where
  "transfer_from_device_wallet now sender raw_recipient amount memo db =
     rbind (ensure (\<not> amount \<le> 0) InvalidAmount) (\<lambda>_.
     let db1 = ensure_balance sender db;
         sender_balance = balance_of db1 sender in
     rbind (ensure (\<not> sender_balance < amount) (InsufficientBalance sender_balance amount)) (\<lambda>_.
     rbind (resolve_transfer_target_tx db1 raw_recipient) (\<lambda>recipient.
     rbind (ensure (recipient \<noteq> TargetDevice sender) SameWallet) (\<lambda>_.
     let db2 = update_balance sender (row_move (- amount)) db1;
         db3 = insert_ledger sender ''TRANSFER_OUT'' (- amount) now None
           (Some (format_sender_note recipient memo)) db2 in
     rbind (map_err TransferOther (credit_target now recipient amount (Some sender)
       (format_recipient_note sender memo) db3)) (\<lambda>db4.
     Inr (db4, transfer_receipt ''device'' sender amount (sender_balance - amount) memo recipient))))))"

fun is_account_target :: "string \<Rightarrow> ResolvedTransferTarget \<Rightarrow> bool" where
  "is_account_target acct (TargetAccount a display_name phone email github) = (a = acct)"
| "is_account_target acct (TargetDevice d) = False"

definition transfer_from_account_wallet_for_account ::
  "int \<Rightarrow> string \<Rightarrow> string \<Rightarrow> int \<Rightarrow> string option \<Rightarrow> string option \<Rightarrow> gateway_db \<Rightarrow>
   TransferError + gateway_db \<times> TransferReceipt" where
  "transfer_from_account_wallet_for_account now acct raw_recipient amount memo actor db =
     rbind (ensure (\<not> amount \<le> 0) InvalidAmount) (\<lambda>_.
     rbind (ensure (account_exists db acct) AccountNotLinked) (\<lambda>_.
     let sender_balance = account_balance_of db acct in
     rbind (ensure (\<not> sender_balance < amount) (InsufficientBalance sender_balance amount)) (\<lambda>_.
     rbind (resolve_transfer_target_tx db raw_recipient) (\<lambda>recipient.
     rbind (ensure (\<not> is_account_target acct recipient) SameWallet) (\<lambda>_.
     let db1 = update_account_wallet acct (row_account_credit now (- amount)) db in
     rbind (map_err TransferOther (insert_account_ledger acct ''credits'' (- amount) ''TRANSFER_OUT'' now actor
       (Some (format_sender_note recipient memo)) None db1)) (\<lambda>db2.
     rbind (map_err TransferOther (credit_target now recipient amount actor
       (format_recipient_note (''account '' @ acct) memo) db2)) (\<lambda>db3.
     Inr (db3, transfer_receipt ''account'' acct amount (sender_balance - amount) memo recipient))))))))"

definition transfer_from_account_wallet ::
  "int \<Rightarrow> string \<Rightarrow> string \<Rightarrow> int \<Rightarrow> string option \<Rightarrow> gateway_db \<Rightarrow>
   TransferError + gateway_db \<times> TransferReceipt" where
  "transfer_from_account_wallet now requester raw_recipient amount memo db =
     rbind (ok_or AccountNotLinked (account_user_id_for_device db requester)) (\<lambda>acct.
     transfer_from_account_wallet_for_account now acct raw_recipient amount memo (Some requester) db)"

section \<open>Lemmas\<close>

lemma find_device_target_Some:
  "find_device_target db d = Some t \<Longrightarrow> t = TargetDevice d"
  by (auto simp: find_device_target_def dest: find_key_SomeD)

lemma account_row_of_SomeD: "account_row_of db a = Some r \<Longrightarrow> r \<in> set (account_wallets db) \<and> aw_account_user_id r = a"
  unfolding account_row_of_def by (rule find_key_SomeD)

fun target_exists :: "gateway_db \<Rightarrow> ResolvedTransferTarget \<Rightarrow> bool" where
  "target_exists db (TargetDevice d) = device_exists db d"
| "target_exists db (TargetAccount acct display_name phone email github) = account_exists db acct"

lemma account_target_exists: "r \<in> set (account_wallets db) \<Longrightarrow> target_exists db (account_target r)"
  by (auto simp: account_target_def account_exists_iff)

lemma load_account_target_Inr:
  assumes "load_account_target_from_query db P = Inr t"
  shows "\<exists>r\<in>set (account_wallets db). P r \<and> t = account_target r"
proof -
  define rows where "rows = take 2 (filter P (account_wallets db))"
  have "set rows \<subseteq> {r \<in> set (account_wallets db). P r}"
    unfolding rows_def using set_take_subset [of 2 "filter P (account_wallets db)"] by simp
  moreover obtain r where "rows = [r]" "t = account_target r"
    using assms unfolding load_account_target_from_query_def rows_def [symmetric]
    by (cases rows; cases "tl rows"; simp)
  ultimately show ?thesis by auto
qed

text \<open>Whatever the text, the recipient it resolves to is a wallet of the database.\<close>

lemma resolved_target_exists:
  assumes "resolve_transfer_target_tx db raw = Inr t"
  shows "target_exists db t"
proof -
  have dev: "target_exists db x" if "find_device_target db d = Some x" for d x
    using that by (auto simp: find_device_target_def device_exists_def has_row_key_iff dest!: find_key_SomeD)
  have acc: "target_exists db x" if "find_account_target db d = Some x" for d x
    using that account_row_of_SomeD by (auto simp: find_account_target_def intro!: account_target_exists)
  have run: "target_exists db x" if "run_lookup db l = Inr x" for l x
    using that dev acc by (cases l) (auto dest!: load_account_target_Inr intro: account_target_exists)
  show ?thesis
    using assms dev acc
    by (auto simp: resolve_transfer_target_tx_def Let_def split: if_splits option.splits dest: run)
qed

lemma credit_target_ok_iff:
  "target_exists db t \<Longrightarrow> \<not> isl (credit_target now t amount actor n db)"
  by (cases t) (simp_all add: insert_account_ledger_def)

lemma credit_target_effect:
  assumes ok: "db_ok db" and a: "0 < amount" and s: "credit_target now t amount actor n db = Inr db'"
  shows "db_ok db' \<and> (\<forall>d. balance_of db' d = balance_of db d + (if t = TargetDevice d then amount else 0)) \<and>
    (\<forall>x. account_balance_of db' x = account_balance_of db x + (if is_account_target x t then amount else 0)) \<and>
    total_credits db' = total_credits db + amount \<and>
    share_keys db' = share_keys db \<and> share_key_contributions db' = share_key_contributions db"
proof (cases t)
  case (TargetDevice d)
  have "0 \<le> balance_of db d" using ok by (simp add: balance_of_nonneg db_ok_nonneg)
  then show ?thesis
    using s ok a TargetDevice
    by (auto simp: move_obs move_ok total_credits_def Let_def)
next
  case (TargetAccount acct dn ph em gh)
  let ?db1 = "update_account_wallet acct (row_account_credit now amount) db"
  have l: "insert_account_ledger acct ''credits'' amount ''TRANSFER_IN'' now actor (Some n) None ?db1 = Inr db'"
    using s TargetAccount by simp
  have ex: "account_exists db acct" using l by (simp add: insert_account_ledger_def split: if_splits)
  have "db_ok ?db1"
    using ok a account_balance_of_nonneg [of db acct] by (simp add: account_credit_ok db_ok_nonneg)
  moreover have "share_keys db' = share_keys db" "share_key_contributions db' = share_key_contributions db"
    using l by (auto simp: insert_account_ledger_def split: if_splits)
  ultimately show ?thesis
    using TargetAccount insert_account_ledger_obs [OF l] insert_account_ledger_ok [OF l] ok ex
    by (auto simp: account_credit_obs total_credits_def)
qed

text \<open>The movement of a transfer of \<open>amount\<close> out of one wallet into another.\<close>

definition transferred ::
  "string option \<Rightarrow> string option \<Rightarrow> ResolvedTransferTarget \<Rightarrow> int \<Rightarrow> gateway_db \<Rightarrow> gateway_db \<Rightarrow> bool" where
  "transferred dev acct t amount db db' \<longleftrightarrow> db_ok db' \<and> total_credits db' = total_credits db \<and>
     (\<forall>d. balance_of db' d = balance_of db d - (if dev = Some d then amount else 0)
       + (if t = TargetDevice d then amount else 0)) \<and>
     (\<forall>a. account_balance_of db' a = account_balance_of db a - (if acct = Some a then amount else 0)
       + (if is_account_target a t then amount else 0)) \<and>
     share_keys db' = share_keys db \<and> share_key_contributions db' = share_key_contributions db"

lemma transfer_from_device_wallet_effect:
  assumes ok: "db_ok db"
    and s: "transfer_from_device_wallet now sender raw amount memo db = Inr (db', receipt)"
  obtains t where "resolve_transfer_target_tx (ensure_balance sender db) raw = Inr t" "t \<noteq> TargetDevice sender"
    "0 < amount" "amount \<le> balance_of db sender" "transferred (Some sender) None t amount db db'"
    "receipt = transfer_receipt ''device'' sender amount (balance_of db sender - amount) memo t"
proof -
  let ?db1 = "ensure_balance sender db"
  let ?db2 = "update_balance sender (row_move (- amount)) ?db1"
  obtain t where t: "resolve_transfer_target_tx ?db1 raw = Inr t" "t \<noteq> TargetDevice sender"
    "0 < amount" "amount \<le> balance_of db sender"
    and c: "credit_target now t amount (Some sender) (format_recipient_note sender memo)
      (insert_ledger sender ''TRANSFER_OUT'' (- amount) now None (Some (format_sender_note t memo)) ?db2) = Inr db'"
    and r: "receipt = transfer_receipt ''device'' sender amount (balance_of db sender - amount) memo t"
    using s unfolding transfer_from_device_wallet_def Let_def rbind_Inr_iff ensure_Inr_iff map_err_Inr_iff
    by (elim exE conjE) simp
  have ok2: "db_ok ?db2" using ok t by (simp add: move_ok)
  have "transferred (Some sender) None t amount db db'"
    using credit_target_effect [OF _ t(3) c] ok2 ok
    by (auto simp: transferred_def move_obs total_credits_def)
  then show thesis using that t r by blast
qed

lemma transfer_from_account_effect:
  assumes ok: "db_ok db"
    and s: "transfer_from_account_wallet_for_account now acct raw amount memo actor db = Inr (db', receipt)"
  obtains t where "resolve_transfer_target_tx db raw = Inr t" "\<not> is_account_target acct t"
    "0 < amount" "amount \<le> account_balance_of db acct" "transferred None (Some acct) t amount db db'"
    "receipt = transfer_receipt ''account'' acct amount (account_balance_of db acct - amount) memo t"
proof -
  let ?db1 = "update_account_wallet acct (row_account_credit now (- amount)) db"
  obtain t db2 where t: "resolve_transfer_target_tx db raw = Inr t" "\<not> is_account_target acct t"
    "0 < amount" "amount \<le> account_balance_of db acct" and ex: "account_exists db acct"
    and l: "insert_account_ledger acct ''credits'' (- amount) ''TRANSFER_OUT'' now actor
      (Some (format_sender_note t memo)) None ?db1 = Inr db2"
    and c: "credit_target now t amount actor (format_recipient_note (''account '' @ acct) memo) db2 = Inr db'"
    and r: "receipt = transfer_receipt ''account'' acct amount (account_balance_of db acct - amount) memo t"
    using s unfolding transfer_from_account_wallet_for_account_def Let_def rbind_Inr_iff ensure_Inr_iff map_err_Inr_iff
    by (elim exE conjE) simp
  have "db_ok ?db1" using ok t by (intro account_credit_ok) simp_all
  then have ok2: "db_ok db2" using insert_account_ledger_ok [OF l] by simp
  have "share_keys db2 = share_keys db" "share_key_contributions db2 = share_key_contributions db"
    using l by (auto simp: insert_account_ledger_def split: if_splits)
  then have "transferred None (Some acct) t amount db db'"
    using credit_target_effect [OF ok2 t(3) c] insert_account_ledger_obs [OF l] ok ex
    by (auto simp: transferred_def account_credit_obs total_credits_def)
  then show thesis using that t r by blast
qed

lemma ensure_balance_resolve: "resolve_transfer_target_tx (ensure_balance d db) = resolve_transfer_target_tx db"
proof -
  have t: "find_device_target (ensure_balance d db) = find_device_target db"
    "find_account_target (ensure_balance d db) = find_account_target db"
    "load_account_target_from_query (ensure_balance d db) = load_account_target_from_query db"
    by (simp_all add: fun_eq_iff find_device_target_def find_account_target_def account_row_of_def
        load_account_target_from_query_def stmt_defs)
  have "run_lookup (ensure_balance d db) l = run_lookup db l" for l
    by (cases l) (simp_all add: t)
  then have "run_lookup (ensure_balance d db) = run_lookup db" by blast
  with t show ?thesis by (intro ext) (simp only: resolve_transfer_target_tx_def)
qed

lemma resolve_same_wallets [simp]:
  "target_exists (insert_ledger d ty a ts req n db) t = target_exists db t"
  "target_exists (update_balance d f db) t = target_exists db t"
  "target_exists (ensure_balance d db) t = target_exists db t"
  by (cases t; simp add: device_exists_def account_exists_def stmt_defs)+

lemma sql_lower_lowercase: "sql_lower (to_lowercase s) = to_lowercase s"
proof -
  have "ascii_lower_char (lower_char c) = lower_char c" for c
    by (auto simp: ascii_lower_char_def lower_char_def Let_def)
  then show ?thesis by (simp add: sql_lower_def to_lowercase_def)
qed

lemma unique_match_filter:
  assumes "r \<in> set t" "P r" "distinct t" and other: "\<And>x. x \<in> set t \<Longrightarrow> x \<noteq> r \<Longrightarrow> \<not> P x"
  shows "filter P t = [r]"
proof -
  have "filter P t = filter (\<lambda>x. x = r) t"
    by (rule filter_cong) (use assms(2) other in blast)+
  also have "\<dots> = [r]" using assms(1,3) by (induction t) (auto simp: filter_empty_conv)
  finally show ?thesis .
qed

section \<open>Properties\<close>

text \<open>
C30. A transfer out of a device wallet moves exactly the amount: the sender could afford it, the
recipient the text resolves to is an existing wallet other than the sender's, it gains what the sender
loses, no other wallet and no pool changes, and no credits are created or destroyed; the receipt shows
the sender's new balance.
\<close>

theorem transfer_from_device_moves:
  assumes "db_ok db" and "transfer_from_device_wallet now sender raw amount memo db = Inr (db', receipt)"
  shows "db_ok db' \<and> total_credits db' = total_credits db \<and> 0 < amount \<and> amount \<le> balance_of db sender \<and>
    tr_sender_balance_credits receipt = balance_of db' sender \<and>
    (\<exists>t. resolve_transfer_target_tx db raw = Inr t \<and> t \<noteq> TargetDevice sender \<and> target_exists db t \<and>
      tr_recipient receipt = target_summary t \<and>
      (\<forall>d. balance_of db' d = balance_of db d - (if d = sender then amount else 0)
        + (if t = TargetDevice d then amount else 0)) \<and>
      (\<forall>a. account_balance_of db' a = account_balance_of db a + (if is_account_target a t then amount else 0)))"
proof (rule transfer_from_device_wallet_effect [OF assms], goal_cases)
  case (1 t)
  then have "resolve_transfer_target_tx db raw = Inr t" by (simp add: ensure_balance_resolve)
  moreover from this have "target_exists db t" by (rule resolved_target_exists)
  ultimately show ?case
    using 1 unfolding transferred_def transfer_receipt_def
    by (intro conjI exI [of _ t]) auto
qed

definition friends_db :: gateway_db where
  "friends_db = (case admin_mint 6 ''ann'' 700 ''seed'' linked_db of Inl _ \<Rightarrow> empty_db | Inr (db, _) \<Rightarrow> db)"

lemma friends_ok: "db_ok friends_db" by code_simp

theorem transfer_from_device_moves_witness:
  "\<exists>db' receipt. transfer_from_device_wallet 7 ''ann'' '' acct'' 250 None friends_db = Inr (db', receipt) \<and>
     balance_of db' ''ann'' = 450 \<and> db_ok friends_db"
proof -
  have "\<not> isl (transfer_from_device_wallet 7 ''ann'' '' acct'' 250 None friends_db)"
    and b: "balance_of friends_db ''ann'' = 700" by code_simp+
  then obtain db' receipt where
    r: "transfer_from_device_wallet 7 ''ann'' '' acct'' 250 None friends_db = Inr (db', receipt)"
    by (cases "transfer_from_device_wallet 7 ''ann'' '' acct'' 250 None friends_db") auto
  show ?thesis using transfer_from_device_moves [OF friends_ok r] b r friends_ok by auto
qed

text \<open>
A transfer out of an account wallet moves exactly the amount to an existing wallet other than the
account's own, and is refused when the balance does not cover it: the account never goes below zero.
\<close>

theorem transfer_from_account_moves:
  assumes "db_ok db"
    and "transfer_from_account_wallet now requester raw amount memo db = Inr (db', receipt)"
  shows "db_ok db' \<and> total_credits db' = total_credits db \<and> 0 < amount \<and>
    (\<exists>acct t. account_user_id_for_device db requester = Some acct \<and>
      resolve_transfer_target_tx db raw = Inr t \<and> \<not> is_account_target acct t \<and> target_exists db t \<and>
      amount \<le> account_balance_of db acct \<and>
      tr_sender_balance_credits receipt = account_balance_of db' acct \<and>
      (\<forall>d. balance_of db' d = balance_of db d + (if t = TargetDevice d then amount else 0)) \<and>
      (\<forall>a. account_balance_of db' a = account_balance_of db a - (if a = acct then amount else 0)
        + (if is_account_target a t then amount else 0)))"
proof -
  obtain acct where a: "account_user_id_for_device db requester = Some acct"
    and s: "transfer_from_account_wallet_for_account now acct raw amount memo (Some requester) db = Inr (db', receipt)"
    using assms(2) by (auto simp: transfer_from_account_wallet_def)
  show ?thesis
  proof (rule transfer_from_account_effect [OF assms(1) s], goal_cases)
    case (1 t)
    moreover have "target_exists db t" using 1(1) by (rule resolved_target_exists)
    ultimately show ?case
      using a unfolding transferred_def transfer_receipt_def
      by (intro conjI exI [of _ acct] exI [of _ t]) auto
  qed
qed

theorem transfer_from_account_moves_witness:
  "\<exists>db1 res db' receipt. sweep_device_to_account 7 ''laptop'' ''phone'' friends_db = Inr (db1, res) \<and>
     transfer_from_account_wallet 8 ''laptop'' ''device:ann'' 300 None db1 = Inr (db', receipt) \<and>
     db_ok db1 \<and> db_ok db'"
proof -
  define db1 where "db1 = (case sweep_device_to_account 7 ''laptop'' ''phone'' friends_db of
    Inl _ \<Rightarrow> empty_db | Inr (db, _) \<Rightarrow> db)"
  have "\<not> isl (sweep_device_to_account 7 ''laptop'' ''phone'' friends_db)" by code_simp
  then obtain res where s: "sweep_device_to_account 7 ''laptop'' ''phone'' friends_db = Inr (db1, res)"
    by (cases "sweep_device_to_account 7 ''laptop'' ''phone'' friends_db") (auto simp: db1_def)
  have ok: "db_ok db1" and "\<not> isl (transfer_from_account_wallet 8 ''laptop'' ''device:ann'' 300 None db1)"
    unfolding db1_def by code_simp+
  then obtain db' receipt where
    r: "transfer_from_account_wallet 8 ''laptop'' ''device:ann'' 300 None db1 = Inr (db', receipt)"
    by (cases "transfer_from_account_wallet 8 ''laptop'' ''device:ann'' 300 None db1") auto
  show ?thesis using transfer_from_account_moves [OF ok r] s r ok by blast
qed

text \<open>
A transfer out of a device wallet is refused only for the reasons its error type lists, in the order
of the checks: a non-positive amount, a balance below it, a recipient that does not resolve, the sender
itself. Otherwise it goes through.
\<close>

theorem transfer_from_device_outcome:
  "isl (transfer_from_device_wallet now sender raw amount memo db) = (amount \<le> 0 \<or>
      balance_of db sender < amount \<or> isl (resolve_transfer_target_tx db raw) \<or>
      resolve_transfer_target_tx db raw = Inr (TargetDevice sender)) \<and>
   (amount \<le> 0 \<longrightarrow> transfer_from_device_wallet now sender raw amount memo db = Inl InvalidAmount) \<and>
   (0 < amount \<and> balance_of db sender < amount \<longrightarrow>
      transfer_from_device_wallet now sender raw amount memo db =
        Inl (InsufficientBalance (balance_of db sender) amount))"
proof (cases "resolve_transfer_target_tx db raw")
  case (Inl e)
  then show ?thesis
    by (auto simp: transfer_from_device_wallet_def Let_def ensure_balance_resolve ensure_def rbind_def)
next
  case (Inr t)
  have c: "\<not> isl (credit_target now t amount (Some sender) n (insert_ledger sender ty x now None m
      (update_balance sender f (ensure_balance sender db))))" for n ty x m f
    by (rule credit_target_ok_iff) (simp add: resolved_target_exists [OF Inr])
  have "\<not> isl (rbind (map_err TransferOther r) (\<lambda>y. Inr (y, z)))" if "\<not> isl r"
    for r :: "anyhow + gateway_db" and z :: TransferReceipt
    using that by (cases r) simp_all
  from this [OF c] Inr show ?thesis
    by (simp add: transfer_from_device_wallet_def Let_def ensure_balance_resolve ensure_def rbind_def)
qed

theorem transfer_from_device_outcome_witness:
  "transfer_from_device_wallet 7 ''ann'' ''acct'' 0 None friends_db = Inl InvalidAmount"
  using transfer_from_device_outcome [of 7 "''ann''" "''acct''" 0 None friends_db] by simp

text \<open>
An account is found by its email address whatever the case it is written in, when no other account
has the same address and the stored address is in the normal form linking gives it.
\<close>

theorem recipient_found_by_email:
  assumes "db_ok db" and "r \<in> set (account_wallets db)" and "aw_email r = normalize_email address"
    and "normalize_email address = Some e" and "trim address = address"
    and "\<forall>r'\<in>set (account_wallets db). map_option sql_lower (aw_email r') = Some e \<longrightarrow> r' = r"
  shows "resolve_transfer_target_tx db (''email:'' @ address) = Inr (account_target r)"
proof -
  have e: "e = to_lowercase address" "address \<noteq> []"
    using assms(4,5) by (auto simp: normalize_email_def then_some_def to_lowercase_def split: if_splits)
  have t: "trim (''email:'' @ address) = ''email:'' @ address"
    using assms(5) e(2) unfolding trim_eq_self by (simp add: is_whitespace_def)
  have d: "distinct (account_wallets db)"
    using assms(1) by (simp add: db_ok_def keys_ok_def distinct_map)
  have m: "map_option sql_lower (aw_email r) = Some e"
    using assms(3,4) e(1) sql_lower_lowercase [of address] by simp
  have u: "map_option sql_lower (aw_email x) \<noteq> Some e" if "x \<in> set (account_wallets db)" "x \<noteq> r" for x
    using bspec [OF assms(6) that(1)] that(2) by blast
  have "filter (\<lambda>r. map_option sql_lower (aw_email r) = Some e) (account_wallets db) = [r]"
    by (rule unique_match_filter [OF assms(2) _ d]) (use m u in blast)+
  then have "load_account_target_from_query db (\<lambda>r. map_option sql_lower (aw_email r) = Some e) =
      Inr (account_target r)" by (simp add: load_account_target_from_query_def)
  moreover have "parse_transfer_lookup (''email:'' @ address) = Inr (LookupEmail e)"
    using assms(4) unfolding parse_transfer_lookup_def t Let_def by (simp add: strip_prefix_def)
  moreover have "\<not> is_bare_id (''email:'' @ address)" by (simp add: is_bare_id_def)
  ultimately show ?thesis unfolding resolve_transfer_target_tx_def Let_def t by simp
qed

definition mail_db :: gateway_db where
  "mail_db = (case link_device_to_account 5 ''tablet'' ''bob-account'' \<lparr>lm_device_name = None, lm_platform = None,
       lm_display_name = None, lm_phone = None, lm_email = Some '' Bob@Mail.org'', lm_github_username = None\<rparr>
     linked_db of Inl _ \<Rightarrow> empty_db | Inr db' \<Rightarrow> db')"

theorem recipient_found_by_email_witness:
  "\<exists>r. r \<in> set (account_wallets mail_db) \<and>
     resolve_transfer_target_tx mail_db ''email:BOB@mail.ORG'' = Inr (account_target r) \<and> db_ok mail_db"
proof -
  define r where "r = last (account_wallets mail_db)"
  have f: "db_ok mail_db" "list_ex (\<lambda>x. x = r) (account_wallets mail_db)"
    "aw_email r = normalize_email ''BOB@mail.ORG''" "normalize_email ''BOB@mail.ORG'' = Some ''bob@mail.org''"
    "trim ''BOB@mail.ORG'' = ''BOB@mail.ORG''"
    "list_all (\<lambda>r'. map_option sql_lower (aw_email r') = Some ''bob@mail.org'' \<longrightarrow> r' = r) (account_wallets mail_db)"
    unfolding r_def by code_simp+
  have "r \<in> set (account_wallets mail_db)" using f(2) by (simp add: list_ex_iff)
  moreover from recipient_found_by_email [OF f(1) this f(3-5) f(6) [unfolded list_all_iff]]
  have "resolve_transfer_target_tx mail_db ''email:BOB@mail.ORG'' = Inr (account_target r)" by simp
  ultimately show ?thesis using f(1) by blast
qed

end
