(* ===== verification/Referrals.thy ===== *)
theory Referrals
  imports Accounts
begin

text \<open>
  Referral codes and join rewards (\<open>gateway/src/ledger.rs\<close>): the welcome bonus of a device or an
  account, and the one-time bonus paid to both sides when somebody joins with a referral code. The
  random codes and claim ids are arguments.
\<close>

section \<open>Codes\<close>

definition REFERRAL_BONUS_CREDITS :: int where "REFERRAL_BONUS_CREDITS = 1000000"

datatype ReferralOwner = OwnerDevice string | OwnerAccount string

datatype ReferralError =
    ReferralAccountNotLinked
  | InvalidCode
  | SelfReferral
  | DeviceAlreadyClaimed
  | AccountAlreadyClaimed
  | ReferralOther anyhow

record ReferralCodeSnapshot =
  rs_code :: string
  rs_owner_kind :: string
  rs_owner_id :: string

fun referral_code_for_owner_locked :: "gateway_db \<Rightarrow> ReferralOwner \<Rightarrow> ReferralCodeSnapshot option" where
  "referral_code_for_owner_locked db (OwnerDevice d) = map_option
     (\<lambda>r. \<lparr>rs_code = rc_code r, rs_owner_kind = rc_owner_kind r, rs_owner_id = d\<rparr>)
     (find (\<lambda>r. rc_owner_device_id r = Some d) (referral_codes db))"
| "referral_code_for_owner_locked db (OwnerAccount acct) = map_option
     (\<lambda>r. \<lparr>rs_code = rc_code r, rs_owner_kind = rc_owner_kind r, rs_owner_id = acct\<rparr>)
     (find (\<lambda>r. rc_owner_account_user_id r = Some acct) (referral_codes db))"

fun new_code_row :: "int \<Rightarrow> string \<Rightarrow> ReferralOwner \<Rightarrow> referral_code_row" where
  "new_code_row now code (OwnerDevice d) = \<lparr>rc_code = code, rc_owner_kind = ''device'',
     rc_owner_device_id = Some d, rc_owner_account_user_id = None, rc_created_at = now\<rparr>"
| "new_code_row now code (OwnerAccount acct) = \<lparr>rc_code = code, rc_owner_kind = ''account'',
     rc_owner_device_id = None, rc_owner_account_user_id = Some acct, rc_created_at = now\<rparr>"

fun owner_exists :: "gateway_db \<Rightarrow> ReferralOwner \<Rightarrow> bool" where
  "owner_exists db (OwnerDevice d) = device_exists db d"
| "owner_exists db (OwnerAccount acct) = account_exists db acct"

fun owner_snapshot :: "string \<Rightarrow> ReferralOwner \<Rightarrow> ReferralCodeSnapshot" where
  "owner_snapshot code (OwnerDevice d) =
     \<lparr>rs_code = code, rs_owner_kind = ''device'', rs_owner_id = d\<rparr>"
| "owner_snapshot code (OwnerAccount acct) =
     \<lparr>rs_code = code, rs_owner_kind = ''account'', rs_owner_id = acct\<rparr>"

definition ensure_referral_code_tx ::
  "int \<Rightarrow> string \<Rightarrow> ReferralOwner \<Rightarrow> gateway_db \<Rightarrow> anyhow + gateway_db \<times> ReferralCodeSnapshot" where
  "ensure_referral_code_tx now code own db =
     (case referral_code_for_owner_locked db own of
        Some existing \<Rightarrow> Inr (db, existing)
      | None \<Rightarrow>
          if has_row (\<lambda>r. rc_code r = code) (referral_codes db) \<or> \<not> owner_exists db own
          then Inl ConstraintViolation
          else Inr (db\<lparr>referral_codes := referral_codes db @ [new_code_row now code own]\<rparr>,
            owner_snapshot code own))"

definition referral_owner :: "gateway_db \<Rightarrow> string \<Rightarrow> ReferralOwner" where
  "referral_owner db d = (case account_user_id_for_device db d of
      Some acct \<Rightarrow> OwnerAccount acct | None \<Rightarrow> OwnerDevice d)"

definition referral_code_for_device ::
  "int \<Rightarrow> string \<Rightarrow> string \<Rightarrow> gateway_db \<Rightarrow> anyhow + gateway_db \<times> ReferralCodeSnapshot" where
  "referral_code_for_device now code d db =
     (let db2 = ensure_balance d (ensure_device now d db)
      in ensure_referral_code_tx now code (referral_owner db2 d) db2)"

section \<open>Claims\<close>

definition referral_claim_exists_for_device_locked :: "gateway_db \<Rightarrow> string \<Rightarrow> bool" where
  "referral_claim_exists_for_device_locked db d =
     has_row (\<lambda>r. rl_referred_device_id r = Some d) (referral_claims db)"

definition referral_claim_exists_for_account_locked :: "gateway_db \<Rightarrow> string \<Rightarrow> bool" where
  "referral_claim_exists_for_account_locked db acct =
     has_row (\<lambda>r. rl_referred_account_user_id r = Some acct) (referral_claims db)"

definition insert_referral_claim :: "referral_claim_row \<Rightarrow> gateway_db \<Rightarrow> anyhow + gateway_db" where
  "insert_referral_claim r db =
     (if has_row (\<lambda>x. rl_claim_id x = rl_claim_id r) (referral_claims db)
       \<or> (case rl_referred_device_id r of None \<Rightarrow> False
          | Some d \<Rightarrow> referral_claim_exists_for_device_locked db d \<or> \<not> device_exists db d)
       \<or> (case rl_referred_account_user_id r of None \<Rightarrow> False
          | Some a \<Rightarrow> referral_claim_exists_for_account_locked db a \<or> \<not> account_exists db a)
       \<or> \<not> has_row (\<lambda>c. rc_code c = rl_code r) (referral_codes db)
      then Inl ConstraintViolation
      else Inr (db\<lparr>referral_claims := referral_claims db @ [r]\<rparr>))"

definition code_row_of :: "gateway_db \<Rightarrow> string \<Rightarrow> referral_code_row option" where
  "code_row_of db code = find (\<lambda>r. rc_code r = code) (referral_codes db)"

text \<open>The bonus of the referrer: a device wallet is ensured first, an account wallet must exist.\<close>

definition pay_referrer ::
  "int \<Rightarrow> referral_code_row \<Rightarrow> string \<Rightarrow> string \<Rightarrow> bool \<Rightarrow> gateway_db \<Rightarrow> ReferralError + gateway_db" where
  "pay_referrer now own actor note self_account db =
     (if rc_owner_kind own = ''device'' then
        rbind (ok_or InvalidCode (rc_owner_device_id own)) (\<lambda>d.
        Inr (credit_device_wallet_tx now d REFERRAL_BONUS_CREDITS ''REFERRAL_BONUS'' note db))
      else if rc_owner_kind own = ''account'' then
        rbind (ok_or InvalidCode (rc_owner_account_user_id own)) (\<lambda>acct.
        rbind (ensure (\<not> self_account) SelfReferral) (\<lambda>_.
        map_err ReferralOther (credit_account_wallet_tx now acct REFERRAL_BONUS_CREDITS ''REFERRAL_BONUS''
          (Some actor) note db)))
      else Inl InvalidCode)"

definition referrer_of :: "referral_code_row \<Rightarrow> string option" where
  "referrer_of own = coalesce (rc_owner_account_user_id own) (rc_owner_device_id own)"

definition apply_referral_for_device_tx ::
  "int \<Rightarrow> string \<Rightarrow> string \<Rightarrow> string \<Rightarrow> gateway_db \<Rightarrow> ReferralError + gateway_db \<times> int" where
  "apply_referral_for_device_tx now claim_id d code db =
     rbind (ensure (\<not> referral_claim_exists_for_device_locked db d) DeviceAlreadyClaimed) (\<lambda>_.
     rbind (ok_or InvalidCode (code_row_of db code)) (\<lambda>own.
     rbind (ok_or InvalidCode (referrer_of own)) (\<lambda>referrer_id.
     rbind (ensure (rc_owner_device_id own \<noteq> Some d) SelfReferral) (\<lambda>_.
     rbind (pay_referrer now own d (''referral bonus for device '' @ d)
       (account_user_id_for_device db d \<noteq> None \<and>
        account_user_id_for_device db d = rc_owner_account_user_id own) db) (\<lambda>db1.
     let db2 = credit_device_wallet_tx now d REFERRAL_BONUS_CREDITS ''REFERRAL_BONUS''
       (''joined with referral code '' @ code) db1 in
     rbind (map_err ReferralOther (insert_referral_claim \<lparr>rl_claim_id = claim_id, rl_code = code,
       rl_referrer_kind = rc_owner_kind own, rl_referrer_id = referrer_id, rl_referred_kind = ''device'',
       rl_referred_device_id = Some d, rl_referred_account_user_id = None,
       rl_referrer_bonus_credits = REFERRAL_BONUS_CREDITS,
       rl_referred_bonus_credits = REFERRAL_BONUS_CREDITS, rl_created_at = now\<rparr> db2)) (\<lambda>db3.
     Inr (db3, REFERRAL_BONUS_CREDITS)))))))"

definition apply_referral_for_account_tx ::
  "int \<Rightarrow> string \<Rightarrow> string \<Rightarrow> string \<Rightarrow> string \<Rightarrow> gateway_db \<Rightarrow> ReferralError + gateway_db \<times> int" where
  "apply_referral_for_account_tx now claim_id requester acct code db =
     rbind (ensure (\<not> referral_claim_exists_for_account_locked db acct) AccountAlreadyClaimed) (\<lambda>_.
     rbind (ok_or InvalidCode (code_row_of db code)) (\<lambda>own.
     rbind (ok_or InvalidCode (referrer_of own)) (\<lambda>referrer_id.
     rbind (ensure (\<not> (rc_owner_account_user_id own = Some acct \<or> rc_owner_device_id own = Some requester))
       SelfReferral) (\<lambda>_.
     rbind (pay_referrer now own requester (''referral bonus for account '' @ acct) False db) (\<lambda>db1.
     rbind (map_err ReferralOther (credit_account_wallet_tx now acct REFERRAL_BONUS_CREDITS ''REFERRAL_BONUS''
       (Some requester) (''joined with referral code '' @ code) db1)) (\<lambda>db2.
     rbind (map_err ReferralOther (insert_referral_claim \<lparr>rl_claim_id = claim_id, rl_code = code,
       rl_referrer_kind = rc_owner_kind own, rl_referrer_id = referrer_id, rl_referred_kind = ''account'',
       rl_referred_device_id = None, rl_referred_account_user_id = Some acct,
       rl_referrer_bonus_credits = REFERRAL_BONUS_CREDITS,
       rl_referred_bonus_credits = REFERRAL_BONUS_CREDITS, rl_created_at = now\<rparr> db2)) (\<lambda>db3.
     Inr (db3, REFERRAL_BONUS_CREDITS))))))))"

section \<open>Join rewards\<close>

record JoinRewards =
  jr_welcome_bonus_credits :: int
  jr_referral_bonus_credits :: int

definition has_device_bonus :: "gateway_db \<Rightarrow> string \<Rightarrow> bool" where
  "has_device_bonus db d = has_row (\<lambda>r. lg_device_id r = d \<and> lg_type r = ''BONUS'') (ledger db)"

definition has_account_bonus :: "gateway_db \<Rightarrow> string \<Rightarrow> bool" where
  "has_account_bonus db acct =
     has_row (\<lambda>r. al_account_user_id r = acct \<and> al_type r = ''BONUS'') (account_ledger db)"

definition device_welcome_bonus :: "int \<Rightarrow> string \<Rightarrow> gateway_db \<Rightarrow> gateway_db" where
  "device_welcome_bonus now d db =
     update_balance d (row_earn WELCOME_BONUS_CREDITS)
       (insert_ledger d ''BONUS'' WELCOME_BONUS_CREDITS now None (Some ''Welcome to Teale'')
         (debit_mint_pool WELCOME_BONUS_CREDITS db))"

definition apply_device_join_rewards ::
  "int \<Rightarrow> string \<Rightarrow> string \<Rightarrow> string option \<Rightarrow> gateway_db \<Rightarrow> ReferralError + gateway_db \<times> JoinRewards" where
  "apply_device_join_rewards now claim_id d referral_code db =
     (let db2 = ensure_balance d (ensure_device now d db);
          welcome = \<not> has_device_bonus db2 d;
          db3 = (if welcome then device_welcome_bonus now d db2 else db2);
          bonus = (if welcome then WELCOME_BONUS_CREDITS else 0) in
      case normalized_optional_string referral_code of
        None \<Rightarrow> Inr (db3, \<lparr>jr_welcome_bonus_credits = bonus, jr_referral_bonus_credits = 0\<rparr>)
      | Some code \<Rightarrow>
          rbind (apply_referral_for_device_tx now claim_id d code db3) (\<lambda>(db4, referral).
          Inr (db4, \<lparr>jr_welcome_bonus_credits = bonus, jr_referral_bonus_credits = referral\<rparr>)))"

definition apply_account_join_rewards ::
  "int \<Rightarrow> string \<Rightarrow> string \<Rightarrow> string \<Rightarrow> string option \<Rightarrow> gateway_db \<Rightarrow>
   ReferralError + gateway_db \<times> JoinRewards" where
  "apply_account_join_rewards now claim_id requester acct referral_code db =
     (let welcome = \<not> has_account_bonus db acct;
          bonus = (if welcome then WELCOME_BONUS_CREDITS else 0) in
      rbind (if welcome then map_err ReferralOther (credit_account_wallet_tx now acct WELCOME_BONUS_CREDITS
          ''BONUS'' (Some requester) ''Welcome to Teale'' db) else Inr db) (\<lambda>db1.
      case normalized_optional_string referral_code of
        None \<Rightarrow> Inr (db1, \<lparr>jr_welcome_bonus_credits = bonus, jr_referral_bonus_credits = 0\<rparr>)
      | Some code \<Rightarrow>
          rbind (apply_referral_for_account_tx now claim_id requester acct code db1) (\<lambda>(db2, referral).
          Inr (db2, \<lparr>jr_welcome_bonus_credits = bonus, jr_referral_bonus_credits = referral\<rparr>))))"

section \<open>Lemmas\<close>

lemma credit_device_wallet_tx_tables [simp]:
  "referral_claims (credit_device_wallet_tx now d a ty n db) = referral_claims db"
  "referral_codes (credit_device_wallet_tx now d a ty n db) = referral_codes db"
  "account_devices (credit_device_wallet_tx now d a ty n db) = account_devices db"
  "share_keys (credit_device_wallet_tx now d a ty n db) = share_keys db"
  "share_key_contributions (credit_device_wallet_tx now d a ty n db) = share_key_contributions db"
  "account_wallets (credit_device_wallet_tx now d a ty n db) = account_wallets db"
  by (simp_all add: credit_device_wallet_tx_def Let_def) (simp_all add: stmt_defs)

lemma credit_account_wallet_tx_tables:
  assumes "credit_account_wallet_tx now acct a ty dev n db = Inr db'"
  shows "referral_claims db' = referral_claims db" "referral_codes db' = referral_codes db"
    "account_devices db' = account_devices db" "share_keys db' = share_keys db"
    "share_key_contributions db' = share_key_contributions db" "balances db' = balances db"
    "account_exists db' = account_exists db"
    "account_ledger db' = account_ledger db @ [\<lparr>al_id = account_ledger_seq db + 1, al_account_user_id = acct,
      al_asset = ''credits'', al_amount = a, al_type = ty, al_timestamp = now, al_device_id = dev,
      al_note = Some n, al_api_key_id = None\<rparr>]"
proof -
  let ?db2 = "update_account_wallet acct (row_account_credit now a) (debit_mint_pool a db)"
  have l: "insert_account_ledger acct ''credits'' a ty now dev (Some n) None ?db2 = Inr db'"
    using assms by (simp add: credit_account_wallet_tx_def)
  show "account_exists db' = account_exists db" by (simp add: insert_account_ledger_obs [OF l])
  show "referral_claims db' = referral_claims db" "referral_codes db' = referral_codes db"
    "account_devices db' = account_devices db" "share_keys db' = share_keys db"
    "share_key_contributions db' = share_key_contributions db" "balances db' = balances db"
    "account_ledger db' = account_ledger db @ [\<lparr>al_id = account_ledger_seq db + 1, al_account_user_id = acct,
      al_asset = ''credits'', al_amount = a, al_type = ty, al_timestamp = now, al_device_id = dev,
      al_note = Some n, al_api_key_id = None\<rparr>]"
    using l by (auto simp: insert_account_ledger_def stmt_defs split: if_splits)
qed

text \<open>Who is paid the referrer's bonus.\<close>

definition paid_device :: "referral_code_row \<Rightarrow> string \<Rightarrow> bool" where
  "paid_device own d \<longleftrightarrow> rc_owner_kind own = ''device'' \<and> rc_owner_device_id own = Some d"

definition paid_account :: "referral_code_row \<Rightarrow> string \<Rightarrow> bool" where
  "paid_account own a \<longleftrightarrow> rc_owner_kind own = ''account'' \<and> rc_owner_account_user_id own = Some a"

text \<open>What minting \<open>x\<close> credits into the wallets of \<open>dev\<close> and \<open>acct\<close> does.\<close>

definition minted_to ::
  "(string \<Rightarrow> int) \<Rightarrow> (string \<Rightarrow> int) \<Rightarrow> int \<Rightarrow> gateway_db \<Rightarrow> gateway_db \<Rightarrow> bool" where
  "minted_to dev acct x db db' \<longleftrightarrow> db_ok db' \<and> total_credits db' = total_credits db + x \<and>
     (\<forall>d. balance_of db' d = balance_of db d + dev d) \<and>
     (\<forall>a. account_balance_of db' a = account_balance_of db a + acct a) \<and>
     share_keys db' = share_keys db \<and> share_key_contributions db' = share_key_contributions db \<and>
     account_devices db' = account_devices db \<and> account_exists db' = account_exists db"

lemma minted_to_trans:
  assumes "minted_to f g x db db1" and "minted_to f' g' y db1 db2"
    and "\<And>d. f d + f' d = h d" and "\<And>a. g a + g' a = k a" and "z = x + y"
  shows "minted_to h k z db db2"
proof -
  have "h = (\<lambda>d. f d + f' d)" "k = (\<lambda>a. g a + g' a)" by (simp_all add: fun_eq_iff assms(3,4))
  then show ?thesis using assms(1,2,5) by (simp add: minted_to_def)
qed

lemma credit_device_minted:
  assumes "db_ok db" and "0 \<le> x"
  shows "minted_to (\<lambda>d'. if d' = d then x else 0) (\<lambda>_. 0) x db (credit_device_wallet_tx now d x ty n db)"
proof -
  have "account_exists (credit_device_wallet_tx now d x ty n db) = account_exists db"
    by (rule table_obs) simp
  then show ?thesis
    using credit_device_wallet_tx_effect [OF assms] by (simp add: minted_to_def total_credits_def)
qed

lemma credit_account_minted:
  assumes "db_ok db" and "0 \<le> x" and s: "credit_account_wallet_tx now acct x ty dev n db = Inr db'"
  shows "minted_to (\<lambda>_. 0) (\<lambda>a. if a = acct then x else 0) x db db'"
  using credit_account_wallet_tx_effect [OF assms] credit_account_wallet_tx_tables [OF s]
  by (simp add: minted_to_def total_credits_def)

lemma bonus_nonneg [simp]: "0 \<le> REFERRAL_BONUS_CREDITS" "0 \<le> WELCOME_BONUS_CREDITS"
  by (simp_all add: REFERRAL_BONUS_CREDITS_def WELCOME_BONUS_CREDITS_def)

lemma pay_referrer_effect:
  assumes ok: "db_ok db" and s: "pay_referrer now own actor n self db = Inr db'"
  shows "minted_to (\<lambda>d. if paid_device own d then REFERRAL_BONUS_CREDITS else 0)
      (\<lambda>a. if paid_account own a then REFERRAL_BONUS_CREDITS else 0) REFERRAL_BONUS_CREDITS db db'"
    and "referral_claims db' = referral_claims db \<and> referral_codes db' = referral_codes db"
proof -
  consider (dev) d where "rc_owner_kind own = ''device''" "rc_owner_device_id own = Some d"
      "db' = credit_device_wallet_tx now d REFERRAL_BONUS_CREDITS ''REFERRAL_BONUS'' n db"
    | (acct) a where "rc_owner_kind own = ''account''" "rc_owner_account_user_id own = Some a"
      "credit_account_wallet_tx now a REFERRAL_BONUS_CREDITS ''REFERRAL_BONUS'' (Some actor) n db = Inr db'"
    using s by (auto simp: pay_referrer_def split: if_splits)
  note cs = this
  show "minted_to (\<lambda>d. if paid_device own d then REFERRAL_BONUS_CREDITS else 0)
      (\<lambda>a. if paid_account own a then REFERRAL_BONUS_CREDITS else 0) REFERRAL_BONUS_CREDITS db db'"
    using cs
  proof cases
    case dev
    then have "paid_device own = (\<lambda>x. x = d)" "paid_account own = (\<lambda>_. False)"
      by (auto simp: paid_device_def paid_account_def)
    then show ?thesis using credit_device_minted [OF ok, of REFERRAL_BONUS_CREDITS d] dev(3) by simp
  next
    case acct
    then have "paid_account own = (\<lambda>x. x = a)" "paid_device own = (\<lambda>_. False)"
      by (auto simp: paid_device_def paid_account_def)
    then show ?thesis using credit_account_minted [OF ok _ acct(3)] by simp
  qed
  show "referral_claims db' = referral_claims db \<and> referral_codes db' = referral_codes db"
    using cs by cases (simp_all add: credit_account_wallet_tx_tables)
qed

lemma insert_referral_claim_Inr:
  "insert_referral_claim r db = Inr db' \<Longrightarrow> db' = db\<lparr>referral_claims := referral_claims db @ [r]\<rparr>"
  by (simp add: insert_referral_claim_def split: if_splits)

lemma minted_to_claims:
  "minted_to f g x db (db'\<lparr>referral_claims := c\<rparr>) \<longleftrightarrow> minted_to f g x db db'"
proof -
  have "same_wallets db' (db'\<lparr>referral_claims := c\<rparr>)" by (simp add: same_wallets_def)
  from same_wallets_obs [OF this] show ?thesis
    by (simp add: minted_to_def db_ok_def keys_ok_def)
qed

lemma apply_referral_for_device_effect:
  assumes ok: "db_ok db" and s: "apply_referral_for_device_tx now cid d code db = Inr (db', bonus)"
  obtains own where "code_row_of db code = Some own" "rc_owner_device_id own \<noteq> Some d"
    "\<not> referral_claim_exists_for_device_locked db d" "referral_claim_exists_for_device_locked db' d"
    "bonus = REFERRAL_BONUS_CREDITS"
    "minted_to (\<lambda>x. (if paid_device own x then REFERRAL_BONUS_CREDITS else 0) + (if x = d then REFERRAL_BONUS_CREDITS else 0))
      (\<lambda>a. if paid_account own a then REFERRAL_BONUS_CREDITS else 0) (2 * REFERRAL_BONUS_CREDITS) db db'"
proof -
  obtain own db1 db2 row where own: "code_row_of db code = Some own" "rc_owner_device_id own \<noteq> Some d"
      "\<not> referral_claim_exists_for_device_locked db d"
    and p: "pay_referrer now own d (''referral bonus for device '' @ d)
      (account_user_id_for_device db d \<noteq> None \<and>
        account_user_id_for_device db d = rc_owner_account_user_id own) db = Inr db1"
    and db2: "db2 = credit_device_wallet_tx now d REFERRAL_BONUS_CREDITS ''REFERRAL_BONUS''
      (''joined with referral code '' @ code) db1"
    and c: "insert_referral_claim row db2 = Inr db'" "rl_referred_device_id row = Some d"
    and b: "bonus = REFERRAL_BONUS_CREDITS"
    using s unfolding apply_referral_for_device_tx_def Let_def rbind_Inr_iff ensure_Inr_iff ok_or_Inr_iff map_err_Inr_iff
    by (elim exE conjE) simp
  note e = pay_referrer_effect [OF ok p]
  have ok1: "db_ok db1" using e(1) by (simp add: minted_to_def)
  have "minted_to (\<lambda>x. (if paid_device own x then REFERRAL_BONUS_CREDITS else 0) + (if x = d then REFERRAL_BONUS_CREDITS else 0))
      (\<lambda>a. if paid_account own a then REFERRAL_BONUS_CREDITS else 0) (2 * REFERRAL_BONUS_CREDITS) db db2"
    unfolding db2 by (rule minted_to_trans [OF e(1) credit_device_minted [OF ok1, of REFERRAL_BONUS_CREDITS d]]) simp_all
  moreover note db' = insert_referral_claim_Inr [OF c(1)]
  moreover have "referral_claim_exists_for_device_locked db' d"
    using c(2) by (simp add: db' referral_claim_exists_for_device_locked_def has_row_iff)
  ultimately show thesis using own b by (intro that [of own]) (simp_all add: minted_to_claims)
qed

lemma apply_referral_for_account_effect:
  assumes ok: "db_ok db" and s: "apply_referral_for_account_tx now cid requester acct code db = Inr (db', bonus)"
  obtains own where "code_row_of db code = Some own" "rc_owner_account_user_id own \<noteq> Some acct"
    "\<not> referral_claim_exists_for_account_locked db acct" "referral_claim_exists_for_account_locked db' acct"
    "bonus = REFERRAL_BONUS_CREDITS"
    "minted_to (\<lambda>x. if paid_device own x then REFERRAL_BONUS_CREDITS else 0)
      (\<lambda>a. (if paid_account own a then REFERRAL_BONUS_CREDITS else 0) + (if a = acct then REFERRAL_BONUS_CREDITS else 0))
      (2 * REFERRAL_BONUS_CREDITS) db db'"
proof -
  obtain own db1 db2 row where own: "code_row_of db code = Some own" "rc_owner_account_user_id own \<noteq> Some acct"
      "\<not> referral_claim_exists_for_account_locked db acct"
    and p: "pay_referrer now own requester (''referral bonus for account '' @ acct) False db = Inr db1"
    and db2: "credit_account_wallet_tx now acct REFERRAL_BONUS_CREDITS ''REFERRAL_BONUS'' (Some requester)
      (''joined with referral code '' @ code) db1 = Inr db2"
    and c: "insert_referral_claim row db2 = Inr db'" "rl_referred_account_user_id row = Some acct"
    and b: "bonus = REFERRAL_BONUS_CREDITS"
    using s unfolding apply_referral_for_account_tx_def Let_def rbind_Inr_iff ensure_Inr_iff ok_or_Inr_iff map_err_Inr_iff
    by (elim exE conjE) simp
  note e = pay_referrer_effect [OF ok p]
  have ok1: "db_ok db1" using e(1) by (simp add: minted_to_def)
  have "minted_to (\<lambda>x. if paid_device own x then REFERRAL_BONUS_CREDITS else 0)
      (\<lambda>a. (if paid_account own a then REFERRAL_BONUS_CREDITS else 0) + (if a = acct then REFERRAL_BONUS_CREDITS else 0))
      (2 * REFERRAL_BONUS_CREDITS) db db2"
    by (rule minted_to_trans [OF e(1) credit_account_minted [OF ok1 _ db2]]) simp_all
  moreover note db' = insert_referral_claim_Inr [OF c(1)]
  moreover have "referral_claim_exists_for_account_locked db' acct"
    using c(2) by (simp add: db' referral_claim_exists_for_account_locked_def has_row_iff)
  ultimately show thesis using own b by (intro that [of own]) (simp_all add: minted_to_claims)
qed

lemma ensure_wallet_minted:
  "db_ok db \<Longrightarrow> minted_to (\<lambda>_. 0) (\<lambda>_. 0) 0 db (ensure_balance d (ensure_device now d db))"
  by (simp add: minted_to_def total_credits_def)

lemma device_welcome_bonus_minted:
  assumes "db_ok db" "has_balance db d"
  shows "minted_to (\<lambda>x. if x = d then WELCOME_BONUS_CREDITS else 0) (\<lambda>_. 0) WELCOME_BONUS_CREDITS db
    (device_welcome_bonus now d db)"
proof -
  have "0 \<le> balance_of db d" using assms(1) by (simp add: balance_of_nonneg db_ok_nonneg)
  then show ?thesis
    using assms by (simp add: minted_to_def device_welcome_bonus_def earn_obs earn_ok total_credits_def)
      (simp add: stmt_defs)
qed

lemma device_welcome_bonus_has: "has_device_bonus (device_welcome_bonus now d db) d"
  by (simp add: has_device_bonus_def device_welcome_bonus_def has_row_iff stmt_defs)

lemma ledger_tables [simp]:
  "ledger (ensure_balance d db) = ledger db" "ledger (ensure_device now d db) = ledger db"
  by (simp_all add: stmt_defs)

definition join_base :: "int \<Rightarrow> string \<Rightarrow> gateway_db \<Rightarrow> gateway_db" where
  "join_base now d db = (let db2 = ensure_balance d (ensure_device now d db)
     in if has_device_bonus db d then db2 else device_welcome_bonus now d db2)"

lemma join_base_effect:
  assumes "db_ok db"
  shows "minted_to (\<lambda>x. if x = d \<and> \<not> has_device_bonus db d then WELCOME_BONUS_CREDITS else 0) (\<lambda>_. 0)
      (if has_device_bonus db d then 0 else WELCOME_BONUS_CREDITS) db (join_base now d db)"
    and "has_device_bonus (join_base now d db) d"
proof -
  let ?db2 = "ensure_balance d (ensure_device now d db)"
  note e = ensure_wallet_minted [OF assms, of d now]
  have ok2: "db_ok ?db2" "has_balance ?db2 d" using assms by simp_all
  show "minted_to (\<lambda>x. if x = d \<and> \<not> has_device_bonus db d then WELCOME_BONUS_CREDITS else 0) (\<lambda>_. 0)
      (if has_device_bonus db d then 0 else WELCOME_BONUS_CREDITS) db (join_base now d db)"
  proof (cases "has_device_bonus db d")
    case True
    then show ?thesis using e by (simp add: join_base_def)
  next
    case False
    then show ?thesis
      using minted_to_trans [OF e device_welcome_bonus_minted [OF ok2]] by (simp add: join_base_def)
  qed
  show "has_device_bonus (join_base now d db) d"
    using device_welcome_bonus_has by (auto simp: join_base_def Let_def has_device_bonus_def)
qed

lemma apply_device_join_rewards_alt:
  "apply_device_join_rewards now cid d code db =
     (let bonus = (if has_device_bonus db d then 0 else WELCOME_BONUS_CREDITS) in
      case normalized_optional_string code of
        None \<Rightarrow> Inr (join_base now d db, \<lparr>jr_welcome_bonus_credits = bonus, jr_referral_bonus_credits = 0\<rparr>)
      | Some c \<Rightarrow> rbind (apply_referral_for_device_tx now cid d c (join_base now d db)) (\<lambda>(db4, referral).
          Inr (db4, \<lparr>jr_welcome_bonus_credits = bonus, jr_referral_bonus_credits = referral\<rparr>)))"
  by (simp add: apply_device_join_rewards_def join_base_def Let_def has_device_bonus_def split: option.splits)

text \<open>The rows that make the two bonuses one-time survive the rest of the operation.\<close>

lemma credit_device_keeps_bonus:
  "has_device_bonus db x \<Longrightarrow> has_device_bonus (credit_device_wallet_tx now d a ty n db) x"
  by (auto simp: has_device_bonus_def has_row_iff credit_device_wallet_tx_def Let_def stmt_defs)

lemma credit_account_ledger:
  "credit_account_wallet_tx now acct a ty dev n db = Inr db' \<Longrightarrow> ledger db' = ledger db"
  by (auto simp: credit_account_wallet_tx_def insert_account_ledger_def stmt_defs Let_def split: if_splits)

lemma credit_account_keeps_bonus:
  "credit_account_wallet_tx now acct a ty dev n db = Inr db' \<Longrightarrow> has_device_bonus db' x = has_device_bonus db x"
  by (simp add: has_device_bonus_def credit_account_ledger)

lemma pay_referrer_keeps_bonus:
  assumes "pay_referrer now own actor n self db = Inr db'" and "has_device_bonus db x"
  shows "has_device_bonus db' x"
  using assms by (auto simp: pay_referrer_def credit_device_keeps_bonus credit_account_keeps_bonus
      split: if_splits)

lemma apply_referral_keeps_bonus:
  assumes "apply_referral_for_device_tx now cid d code db = Inr (db', b)" and "has_device_bonus db x"
  shows "has_device_bonus db' x"
proof -
  obtain own self db1 row where p: "pay_referrer now own d (''referral bonus for device '' @ d) self db = Inr db1"
    and c: "insert_referral_claim row (credit_device_wallet_tx now d REFERRAL_BONUS_CREDITS ''REFERRAL_BONUS''
      (''joined with referral code '' @ code) db1) = Inr db'"
    using assms(1) unfolding apply_referral_for_device_tx_def Let_def rbind_Inr_iff ensure_Inr_iff ok_or_Inr_iff map_err_Inr_iff
    by (elim exE conjE) simp
  have "has_device_bonus (credit_device_wallet_tx now d REFERRAL_BONUS_CREDITS ''REFERRAL_BONUS''
      (''joined with referral code '' @ code) db1) x"
    by (rule credit_device_keeps_bonus) (rule pay_referrer_keeps_bonus [OF p assms(2)])
  then show ?thesis unfolding insert_referral_claim_Inr [OF c] by (simp add: has_device_bonus_def)
qed

lemma join_base_claims [simp]: "referral_claims (join_base now d db) = referral_claims db"
  by (simp add: join_base_def Let_def device_welcome_bonus_def stmt_defs)

lemma claimed_refused:
  assumes "referral_claim_exists_for_device_locked db d" and "normalized_optional_string code \<noteq> None"
  shows "apply_device_join_rewards now cid d code db = Inl DeviceAlreadyClaimed"
  using assms by (auto simp: apply_device_join_rewards_alt apply_referral_for_device_tx_def
      referral_claim_exists_for_device_locked_def ensure_def rbind_def)

section \<open>Properties\<close>

text \<open>
C34. Joining pays a device its welcome bonus only when it has never had one, and the referral bonus only
with a valid code of somebody else; with a code both sides get the same bonus. What is minted is exactly
what is reported. Afterwards the device can never be paid again: a further join mints no welcome bonus,
and a second referral is refused.
\<close>

theorem device_join_rewards_once:
  assumes "db_ok db" and "apply_device_join_rewards now cid d code db = Inr (db', rewards)"
  shows "db_ok db' \<and>
    jr_welcome_bonus_credits rewards = (if has_device_bonus db d then 0 else WELCOME_BONUS_CREDITS) \<and>
    jr_referral_bonus_credits rewards =
      (if normalized_optional_string code = None then 0 else REFERRAL_BONUS_CREDITS) \<and>
    balance_of db' d =
      balance_of db d + jr_welcome_bonus_credits rewards + jr_referral_bonus_credits rewards \<and>
    total_credits db' =
      total_credits db + jr_welcome_bonus_credits rewards + 2 * jr_referral_bonus_credits rewards \<and>
    (\<exists>db2 again. apply_device_join_rewards now' cid' d None db' = Inr (db2, again) \<and>
      jr_welcome_bonus_credits again = 0 \<and> total_credits db2 = total_credits db') \<and>
    (normalized_optional_string code \<noteq> None \<and> normalized_optional_string code' \<noteq> None \<longrightarrow>
      apply_device_join_rewards now' cid' d code' db' = Inl DeviceAlreadyClaimed)"
proof -
  note jb = join_base_effect [OF assms(1), where d = d and now = now]
  have ok1: "db_ok (join_base now d db)" using jb(1) by (simp add: minted_to_def)
  have again: "\<exists>db2 again. apply_device_join_rewards now' cid' d None db' = Inr (db2, again) \<and>
      jr_welcome_bonus_credits again = 0 \<and> total_credits db2 = total_credits db'"
    if "db_ok db'" "has_device_bonus db' d"
    using join_base_effect(1) [OF that(1), of d now'] that(2)
    by (simp add: apply_device_join_rewards_alt normalized_optional_string_def minted_to_def)
  show ?thesis
  proof (cases "normalized_optional_string code")
    case None
    then have "db' = join_base now d db" "jr_welcome_bonus_credits rewards =
        (if has_device_bonus db d then 0 else WELCOME_BONUS_CREDITS)" "jr_referral_bonus_credits rewards = 0"
      using assms(2) by (auto simp: apply_device_join_rewards_alt Let_def)
    then show ?thesis using jb again ok1 None by (simp add: minted_to_def)
  next
    case (Some c)
    then obtain ref where r: "apply_referral_for_device_tx now cid d c (join_base now d db) = Inr (db', ref)"
      and w: "jr_welcome_bonus_credits rewards = (if has_device_bonus db d then 0 else WELCOME_BONUS_CREDITS)"
        "jr_referral_bonus_credits rewards = ref"
      using assms(2) by (auto simp: apply_device_join_rewards_alt Let_def)
    show ?thesis
    proof (rule apply_referral_for_device_effect [OF ok1 r], goal_cases)
      case (1 own)
      have "\<not> paid_device own d" using 1(2) by (simp add: paid_device_def)
      moreover have "has_device_bonus db' d" by (rule apply_referral_keeps_bonus [OF r jb(2)])
      moreover have "db_ok db'" using 1(6) by (simp add: minted_to_def)
      ultimately show ?case
        using 1 jb(1) w again Some claimed_refused [OF 1(4)] by (simp add: minted_to_def)
    qed
  qed
qed

definition referral_db :: gateway_db where
  "referral_db = (case referral_code_for_device 5 ''CODE'' ''phone'' (seed_mint_pool empty_db) of
     Inl _ \<Rightarrow> empty_db | Inr (db, _) \<Rightarrow> db)"

theorem device_join_rewards_once_witness:
  "\<exists>db' rewards. apply_device_join_rewards 6 ''c1'' ''tablet'' (Some '' CODE'') referral_db = Inr (db', rewards) \<and>
     balance_of db' ''tablet'' = 1100000 \<and> total_credits db' = 2100000 \<and> db_ok referral_db"
proof -
  let ?r = "apply_device_join_rewards 6 ''c1'' ''tablet'' (Some '' CODE'') referral_db"
  have ok: "db_ok referral_db" and "\<not> isl ?r" and b: "balance_of referral_db ''tablet'' = 0"
    "total_credits referral_db = 0" "\<not> has_device_bonus referral_db ''tablet''"
    "normalized_optional_string (Some '' CODE'') = Some ''CODE''" by code_simp+
  then obtain db' rewards where r: "?r = Inr (db', rewards)" by (cases ?r) auto
  show ?thesis
    using device_join_rewards_once [OF ok r, of 7 "''c2''" "Some ''CODE''"] b r ok
    by (auto simp: WELCOME_BONUS_CREDITS_def REFERRAL_BONUS_CREDITS_def)
qed

text \<open>
Asking for the referral code of a device is idempotent: the first answer is the answer for ever, the
second call stores nothing new, whatever code it would have drawn.
\<close>

theorem referral_code_stable:
  assumes "referral_code_for_device now code d db = Inr (db', snapshot)"
  shows "\<exists>db2. referral_code_for_device now' code' d db' = Inr (db2, snapshot) \<and>
    referral_codes db2 = referral_codes db'"
proof -
  let ?e = "\<lambda>t x. ensure_balance d (ensure_device t d x)"
  have e: "ensure_referral_code_tx now code (referral_owner db d) (?e now db) = Inr (db', snapshot)"
    using assms by (simp add: referral_code_for_device_def Let_def referral_owner_def account_user_id_for_device_def)
  have same: "referral_code_for_owner_locked (?e t x) own = referral_code_for_owner_locked x own" for t x own
    by (cases own) (simp_all add: stmt_defs)
  have "account_devices db' = account_devices db" "referral_code_for_owner_locked db' (referral_owner db d) = Some snapshot"
    using e by (cases "referral_owner db d"; force simp: ensure_referral_code_tx_def find_append stmt_defs
        split: option.splits if_splits)+
  then show ?thesis
    by (simp add: referral_code_for_device_def Let_def ensure_referral_code_tx_def same referral_owner_def
        account_user_id_for_device_def) (simp add: stmt_defs)
qed

theorem referral_code_stable_witness:
  "\<exists>db2. referral_code_for_device 9 ''OTHER'' ''phone'' referral_db =
     Inr (db2, \<lparr>rs_code = ''CODE'', rs_owner_kind = ''device'', rs_owner_id = ''phone''\<rparr>)"
proof -
  have "referral_code_for_device 5 ''CODE'' ''phone'' (seed_mint_pool empty_db) =
      Inr (referral_db, \<lparr>rs_code = ''CODE'', rs_owner_kind = ''device'', rs_owner_id = ''phone''\<rparr>)"
    by code_simp
  from referral_code_stable [OF this, of 9 "''OTHER''"] show ?thesis by blast
qed

definition own_code_db :: gateway_db where
  "own_code_db = (let md = \<lparr>lm_device_name = None, lm_platform = None, lm_display_name = None, lm_phone = None,
       lm_email = None, lm_github_username = None\<rparr>;
     link = (\<lambda>d db. case link_device_to_account 5 d ''acct'' md db of Inl _ \<Rightarrow> empty_db | Inr db' \<Rightarrow> db')
   in link ''laptop'' (link ''phone'' referral_db))"

text \<open>
The check against referring oneself compares only the requesting device: the account a device belongs
to can be paid both bonuses for the code that device drew before it was linked, when another device of
the same account makes the request. Here the phone draws a code, phone and laptop join one account, and
the laptop claims the phone's code for the account.
\<close>

theorem self_referral_by_second_device:
  "account_user_id_for_device own_code_db ''phone'' = account_user_id_for_device own_code_db ''laptop'' \<and>
   (\<exists>db' rewards. apply_account_join_rewards 6 ''c1'' ''laptop'' ''acct'' (Some ''CODE'') own_code_db =
      Inr (db', rewards) \<and> jr_referral_bonus_credits rewards = REFERRAL_BONUS_CREDITS \<and>
      balance_of db' ''phone'' = REFERRAL_BONUS_CREDITS)"
proof -
  let ?r = "apply_account_join_rewards 6 ''c1'' ''laptop'' ''acct'' (Some ''CODE'') own_code_db"
  have "case ?r of Inl _ \<Rightarrow> False | Inr (db', rewards) \<Rightarrow>
      jr_referral_bonus_credits rewards = REFERRAL_BONUS_CREDITS \<and> balance_of db' ''phone'' = REFERRAL_BONUS_CREDITS"
    and "account_user_id_for_device own_code_db ''phone'' = account_user_id_for_device own_code_db ''laptop''"
    by code_simp+
  then show ?thesis by (cases ?r) auto
qed

end
