(* ===== verification/Onchain.thy ===== *)
theory Onchain
  imports Accounts
begin

text \<open>
  Deposits and withdrawals of dollars (\<open>gateway/src/ledger.rs\<close>). A deposit is recorded once per
  on-chain signature and credits the account at a fixed rate; a withdrawal is requested (its credits are
  reserved), then completed by a payout or rejected, or submitted at once with the signature of the
  payout. The verification of signatures on the chain happens before these calls.
\<close>

section \<open>Requests and errors\<close>

datatype AccountOnchainError =
    OnchainAccountNotLinked
  | SolanaAddressRequired
  | SolanaAddressMismatch
  | SolanaWalletNotEnabled
  | InvalidUsdcAmount
  | DepositAmountRequired
  | MissingRequestId
  | MissingDestinationAddress
  | DepositConflict
  | WithdrawalConflict
  | WithdrawalSignatureConflict
  | WithdrawalNotPending
  | InsufficientWithdrawable int int int
  | OnchainOther anyhow

record AccountOnchainDepositIntent =
  di_solana_address :: "string option"
  di_tx_signature :: "string option"
  di_source_address :: "string option"
  di_amount_usdc_cents :: "int option"

record AccountWithdrawalRequest =
  wr_request_id :: string
  wr_destination_address :: string
  wr_amount_usdc_cents :: int
  wr_tx_signature :: "string option"

definition linked_account :: "gateway_db \<Rightarrow> string \<Rightarrow> AccountOnchainError + string" where
  "linked_account db d = ok_or OnchainAccountNotLinked (account_user_id_for_device db d)"

definition wallet_state :: "gateway_db \<Rightarrow> string \<Rightarrow> AccountOnchainError + AccountWalletState" where
  "wallet_state db acct = map_err OnchainOther (load_account_wallet_state_locked db acct)"

definition account_onchain_summary :: "gateway_db \<Rightarrow> string \<Rightarrow> AccountOnchainError + AccountOnchainSnapshot" where
  "account_onchain_summary db acct =
     rbind (wallet_state db acct) (\<lambda>st. Inr (onchain_snapshot_from_state acct st))"

definition account_onchain_summary_for_device ::
  "gateway_db \<Rightarrow> string \<Rightarrow> AccountOnchainError + AccountOnchainSnapshot" where
  "account_onchain_summary_for_device db d = rbind (linked_account db d) (account_onchain_summary db)"

definition list_account_withdrawals_locked :: "gateway_db \<Rightarrow> string \<Rightarrow> int \<Rightarrow> withdrawal_row list" where
  "list_account_withdrawals_locked db acct limit = sql_limit limit
     (rev (sort_key (\<lambda>r. (wd_created_at r, wd_withdrawal_id r))
       (filter (\<lambda>r. wd_account_user_id r = acct) (account_withdrawals db))))"

definition list_account_withdrawals_for_device ::
  "gateway_db \<Rightarrow> string \<Rightarrow> int \<Rightarrow> AccountOnchainError + withdrawal_row list" where
  "list_account_withdrawals_for_device db d limit =
     rbind (linked_account db d) (\<lambda>acct.
     Inr (list_account_withdrawals_locked db acct (max 1 (min limit 200))))"

definition get_withdrawal_by_request :: "gateway_db \<Rightarrow> string \<Rightarrow> withdrawal_row option" where
  "get_withdrawal_by_request db request_id = find (\<lambda>r. wd_request_id r = request_id) (account_withdrawals db)"

definition list_pending_withdrawals :: "gateway_db \<Rightarrow> nat \<Rightarrow> withdrawal_row list" where
  "list_pending_withdrawals db limit = sql_limit (int limit)
     (sort_key wd_created_at (filter (\<lambda>r. wd_status r = ''pending'') (account_withdrawals db)))"

section \<open>Deposits\<close>

definition resolve_account_onchain_address_from_state ::
  "AccountWalletState \<Rightarrow> string option \<Rightarrow> AccountOnchainError + string" where
  "resolve_account_onchain_address_from_state st requested_address =
     (case (ws_solana_address st, normalized_optional_string requested_address) of
        (Some existing, Some requested) \<Rightarrow>
          if existing \<noteq> requested then Inl SolanaAddressMismatch else Inr existing
      | (Some existing, None) \<Rightarrow> Inr existing
      | (None, Some requested) \<Rightarrow> Inr requested
      | (None, None) \<Rightarrow> Inl SolanaAddressRequired)"

definition resolve_account_onchain_address_for_device ::
  "gateway_db \<Rightarrow> string \<Rightarrow> string option \<Rightarrow> AccountOnchainError + string" where
  "resolve_account_onchain_address_for_device db requester requested =
     rbind (linked_account db requester) (\<lambda>acct.
     rbind (wallet_state db acct) (\<lambda>st. resolve_account_onchain_address_from_state st requested))"

definition row_enable_solana :: "int \<Rightarrow> string \<Rightarrow> account_wallet_row \<Rightarrow> account_wallet_row" where
  "row_enable_solana now addr r =
     r\<lparr>aw_solana_address := Some addr, aw_solana_enabled := 1, aw_updated_at := now\<rparr>"

definition row_deposit :: "int \<Rightarrow> int \<Rightarrow> int \<Rightarrow> account_wallet_row \<Rightarrow> account_wallet_row" where
  "row_deposit now cents credits r = r\<lparr>aw_balance_credits := aw_balance_credits r + credits,
     aw_usdc_cents := aw_usdc_cents r + cents,
     aw_deposited_usdc_cents_total := aw_deposited_usdc_cents_total r + cents, aw_updated_at := now\<rparr>"

definition deposit_by_signature :: "gateway_db \<Rightarrow> string \<Rightarrow> deposit_row option" where
  "deposit_by_signature db sig = find (\<lambda>r. dp_tx_signature r = sig) (account_onchain_deposits db)"

definition insert_deposit :: "deposit_row \<Rightarrow> gateway_db \<Rightarrow> anyhow + gateway_db" where
  "insert_deposit r db =
     (if has_row (\<lambda>x. dp_deposit_id x = dp_deposit_id r \<or> dp_tx_signature x = dp_tx_signature r)
          (account_onchain_deposits db)
       \<or> \<not> account_exists db (dp_account_user_id r)
       \<or> dp_amount_usdc_cents r \<le> 0 \<or> dp_amount_credits r \<le> 0
      then Inl ConstraintViolation
      else Inr (db\<lparr>account_onchain_deposits := account_onchain_deposits db @ [r]\<rparr>))"

definition book_deposit ::
  "int \<Rightarrow> deposit_row \<Rightarrow> string \<Rightarrow> string \<Rightarrow> string \<Rightarrow> gateway_db \<Rightarrow> anyhow + gateway_db" where
  "book_deposit now r device note_in note_credit db =
     (let acct = dp_account_user_id r in
      rbind (insert_deposit r db) (\<lambda>db1.
      let db2 = update_account_wallet acct (row_deposit now (dp_amount_usdc_cents r) (dp_amount_credits r)) db1 in
      rbind (insert_account_ledger acct ''usdc'' (dp_amount_usdc_cents r) ''ONCHAIN_DEPOSIT_IN'' now
        (Some device) (Some note_in) None db2) (\<lambda>db3.
      insert_account_ledger acct ''credits'' (dp_amount_credits r) ''ONCHAIN_DEPOSIT_CREDIT'' now
        (Some device) (Some note_credit) None db3)))"

definition record_onchain_signature ::
  "int \<Rightarrow> string \<Rightarrow> string \<Rightarrow> string \<Rightarrow> string \<Rightarrow> AccountOnchainDepositIntent \<Rightarrow> string \<Rightarrow> gateway_db \<Rightarrow>
   AccountOnchainError + gateway_db" where
  "record_onchain_signature now deposit_id requester acct addr req sig db =
     rbind (ok_or DepositAmountRequired (di_amount_usdc_cents req)) (\<lambda>cents.
     rbind (ensure (\<not> cents \<le> 0) InvalidUsdcAmount) (\<lambda>_.
     rbind (map_err OnchainOther (credits_from_usdc_cents cents)) (\<lambda>credits.
     let source = normalized_optional_string (di_source_address req) in
     case deposit_by_signature db sig of
       Some e \<Rightarrow>
         if dp_account_user_id e \<noteq> acct \<or> dp_solana_address e \<noteq> addr
           \<or> dp_amount_usdc_cents e \<noteq> cents \<or> dp_source_address e \<noteq> source
         then Inl DepositConflict else Inr db
     | None \<Rightarrow> map_err OnchainOther (book_deposit now
         \<lparr>dp_deposit_id = deposit_id, dp_account_user_id = acct, dp_tx_signature = sig,
           dp_solana_address = addr, dp_source_address = source, dp_amount_usdc_cents = cents,
           dp_amount_credits = credits, dp_created_at = now\<rparr> requester
         (''deposit '' @ sig @ '' to '' @ addr) (''credited from deposit '' @ sig) db))))"

definition record_account_onchain_deposit ::
  "int \<Rightarrow> string \<Rightarrow> string \<Rightarrow> AccountOnchainDepositIntent \<Rightarrow> gateway_db \<Rightarrow>
   AccountOnchainError + gateway_db \<times> AccountOnchainSnapshot" where
  "record_account_onchain_deposit now deposit_id requester req db =
     rbind (linked_account db requester) (\<lambda>acct.
     rbind (wallet_state db acct) (\<lambda>st.
     rbind (resolve_account_onchain_address_from_state st (di_solana_address req)) (\<lambda>addr.
     let db1 = update_account_wallet acct (row_enable_solana now addr) db in
     rbind (case normalized_optional_string (di_tx_signature req) of
         None \<Rightarrow> Inr db1
       | Some sig \<Rightarrow> record_onchain_signature now deposit_id requester acct addr req sig db1) (\<lambda>db2.
     rbind (account_onchain_summary db2 acct) (\<lambda>summary. Inr (db2, summary))))))"

definition treasury_deposit_memo :: "string \<Rightarrow> string" where
  "treasury_deposit_memo account_user_id = ''teale:deposit:'' @ account_user_id"

definition record_account_treasury_deposit ::
  "int \<Rightarrow> string \<Rightarrow> string \<Rightarrow> string \<Rightarrow> int \<Rightarrow> string option \<Rightarrow> string \<Rightarrow> gateway_db \<Rightarrow>
   AccountOnchainError + gateway_db \<times> AccountOnchainSnapshot" where
  "record_account_treasury_deposit now deposit_id requester sig cents source treasury db =
     rbind (ensure (\<not> cents \<le> 0) InvalidUsdcAmount) (\<lambda>_.
     rbind (map_err (\<lambda>_. InvalidUsdcAmount) (credits_from_usdc_cents cents)) (\<lambda>credits.
     rbind (linked_account db requester) (\<lambda>acct.
     rbind (wallet_state db acct) (\<lambda>_.
     rbind (case deposit_by_signature db sig of
         Some e \<Rightarrow>
           if dp_account_user_id e \<noteq> acct \<or> dp_solana_address e \<noteq> treasury \<or> dp_amount_usdc_cents e \<noteq> cents
           then Inl DepositConflict else Inr db
       | None \<Rightarrow> map_err OnchainOther (book_deposit now
           \<lparr>dp_deposit_id = deposit_id, dp_account_user_id = acct, dp_tx_signature = sig,
             dp_solana_address = treasury, dp_source_address = source, dp_amount_usdc_cents = cents,
             dp_amount_credits = credits, dp_created_at = now\<rparr> requester
           (''treasury deposit '' @ sig) (''credited from treasury deposit '' @ sig) db)) (\<lambda>db2.
     rbind (account_onchain_summary db2 acct) (\<lambda>summary. Inr (db2, summary)))))))"

section \<open>Withdrawals\<close>

definition row_hold :: "int \<Rightarrow> int \<Rightarrow> int \<Rightarrow> account_wallet_row \<Rightarrow> account_wallet_row" where
  "row_hold now cents credits r = r\<lparr>aw_balance_credits := aw_balance_credits r - credits,
     aw_usdc_cents := aw_usdc_cents r - cents, aw_updated_at := now\<rparr>"

definition row_unhold :: "int \<Rightarrow> int \<Rightarrow> int \<Rightarrow> account_wallet_row \<Rightarrow> account_wallet_row" where
  "row_unhold now cents credits r = r\<lparr>aw_balance_credits := aw_balance_credits r + credits,
     aw_usdc_cents := aw_usdc_cents r + cents, aw_updated_at := now\<rparr>"

definition row_withdrawn :: "int \<Rightarrow> int \<Rightarrow> account_wallet_row \<Rightarrow> account_wallet_row" where
  "row_withdrawn now cents r = r\<lparr>
     aw_withdrawn_usdc_cents_total := aw_withdrawn_usdc_cents_total r + cents, aw_updated_at := now\<rparr>"

definition row_burn :: "int \<Rightarrow> int \<Rightarrow> int \<Rightarrow> account_wallet_row \<Rightarrow> account_wallet_row" where
  "row_burn now cents credits r = r\<lparr>aw_balance_credits := aw_balance_credits r - credits,
     aw_usdc_cents := aw_usdc_cents r - cents,
     aw_withdrawn_usdc_cents_total := aw_withdrawn_usdc_cents_total r + cents, aw_updated_at := now\<rparr>"

definition update_withdrawal ::
  "string \<Rightarrow> (withdrawal_row \<Rightarrow> withdrawal_row) \<Rightarrow> gateway_db \<Rightarrow> gateway_db" where
  [stmt_defs]: "update_withdrawal request_id f db = db\<lparr>account_withdrawals :=
     sql_update (\<lambda>r. wd_request_id r = request_id) f (account_withdrawals db)\<rparr>"

definition wd_submitted :: "int \<Rightarrow> string \<Rightarrow> withdrawal_row \<Rightarrow> withdrawal_row" where
  "wd_submitted now sig r =
     r\<lparr>wd_status := ''submitted'', wd_tx_signature := Some sig, wd_completed_at := Some now\<rparr>"

definition wd_rejected :: "int \<Rightarrow> withdrawal_row \<Rightarrow> withdrawal_row" where
  "wd_rejected now r = r\<lparr>wd_status := ''rejected'', wd_completed_at := Some now\<rparr>"

definition signature_in_use :: "gateway_db \<Rightarrow> string \<Rightarrow> withdrawal_row option" where
  "signature_in_use db sig = find (\<lambda>r. wd_tx_signature r = Some sig) (account_withdrawals db)"

definition burn_rows ::
  "int \<Rightarrow> string \<Rightarrow> int \<Rightarrow> int \<Rightarrow> string \<Rightarrow> string \<Rightarrow> string \<Rightarrow> gateway_db \<Rightarrow> anyhow + gateway_db" where
  "burn_rows now acct cents credits device note_burn note_out db =
     rbind (insert_account_ledger acct ''credits'' (- credits) ''ONCHAIN_WITHDRAWAL_BURN'' now (Some device)
       (Some note_burn) None db) (\<lambda>db1.
     insert_account_ledger acct ''usdc'' (- cents) ''ONCHAIN_WITHDRAWAL_OUT'' now (Some device)
       (Some note_out) None db1)"

definition read_back :: "gateway_db \<Rightarrow> string \<Rightarrow> AccountOnchainError + gateway_db \<times> withdrawal_row" where
  "read_back db request_id =
     rbind (ok_or (OnchainOther QueryReturnedNoRows) (get_withdrawal_by_request db request_id)) (\<lambda>r. Inr (db, r))"

definition complete_account_withdrawal_from_treasury ::
  "int \<Rightarrow> string \<Rightarrow> string \<Rightarrow> gateway_db \<Rightarrow> AccountOnchainError + gateway_db \<times> withdrawal_row" where
  "complete_account_withdrawal_from_treasury now request_id sig db =
     rbind (ok_or WithdrawalNotPending (get_withdrawal_by_request db request_id)) (\<lambda>existing.
     if wd_status existing \<noteq> ''pending'' then
       (if wd_tx_signature existing = Some sig then Inr (db, existing) else Inl WithdrawalConflict)
     else if signature_in_use db sig \<noteq> None then Inl WithdrawalSignatureConflict
     else
       let acct = wd_account_user_id existing;
           db1 = update_account_wallet acct (row_withdrawn now (wd_amount_usdc_cents existing)) db in
       rbind (map_err OnchainOther (burn_rows now acct (wd_amount_usdc_cents existing)
         (wd_amount_credits existing) ''treasury-payout'' (''burned for treasury payout '' @ request_id)
         (''treasury payout '' @ request_id @ '' to '' @ wd_destination_address existing) db1)) (\<lambda>db2.
       read_back (update_withdrawal request_id (wd_submitted now sig) db2) request_id))"

definition reject_account_withdrawal ::
  "int \<Rightarrow> string \<Rightarrow> string option \<Rightarrow> gateway_db \<Rightarrow> AccountOnchainError + gateway_db \<times> withdrawal_row" where
  "reject_account_withdrawal now request_id reason db =
     rbind (ok_or WithdrawalNotPending (get_withdrawal_by_request db request_id)) (\<lambda>existing.
     rbind (ensure (wd_status existing = ''pending'') WithdrawalConflict) (\<lambda>_.
     let acct = wd_account_user_id existing;
         db1 = update_account_wallet acct
           (row_unhold now (wd_amount_usdc_cents existing) (wd_amount_credits existing)) db in
     rbind (map_err OnchainOther (insert_account_ledger acct ''credits'' (wd_amount_credits existing)
       ''ONCHAIN_WITHDRAWAL_REFUND'' now (Some ''treasury-payout'')
       (Some (''refunded rejected withdrawal '' @ request_id @ '' ('' @
         (case reason of None \<Rightarrow> ''no reason given'' | Some r \<Rightarrow> r) @ '')'')) None db1)) (\<lambda>db2.
     read_back (update_withdrawal request_id (wd_rejected now) db2) request_id)))"

definition insert_withdrawal :: "withdrawal_row \<Rightarrow> gateway_db \<Rightarrow> anyhow + gateway_db" where
  "insert_withdrawal r db =
     (if has_row (\<lambda>x. wd_withdrawal_id x = wd_withdrawal_id r \<or> wd_request_id x = wd_request_id r)
          (account_withdrawals db)
       \<or> \<not> account_exists db (wd_account_user_id r)
       \<or> wd_amount_usdc_cents r \<le> 0 \<or> wd_amount_credits r \<le> 0
      then Inl ConstraintViolation
      else Inr (db\<lparr>account_withdrawals := account_withdrawals db @ [r]\<rparr>))"

text \<open>A request without signature: the credits are reserved, the newest withdrawal of the account is
  reported.\<close>

definition reserve_withdrawal ::
  "int \<Rightarrow> string \<Rightarrow> string \<Rightarrow> AccountWalletState \<Rightarrow> string \<Rightarrow> int \<Rightarrow> int \<Rightarrow> gateway_db \<Rightarrow>
   AccountOnchainError + gateway_db \<times> withdrawal_row" where
  "reserve_withdrawal now requester acct st request_id cents credits db =
     rbind (ensure (\<not> ws_balance_credits st < credits)
       (InsufficientWithdrawable (ws_balance_credits st) (ws_balance_credits st) credits)) (\<lambda>_.
     let db1 = update_account_wallet acct (row_hold now cents credits) db in
     rbind (map_err OnchainOther (insert_account_ledger acct ''credits'' (- credits) ''ONCHAIN_WITHDRAWAL_HOLD''
       now (Some requester) (Some (''reserved for withdrawal request '' @ request_id)) None db1)) (\<lambda>db2.
     rbind (list_account_withdrawals_for_device db2 requester 1) (\<lambda>withdrawals.
     case withdrawals of
       [] \<Rightarrow> Inl (OnchainOther (Bail ''withdrawal not found after insert''))
     | r # _ \<Rightarrow> Inr (db2, r))))"

text \<open>A request with the signature of its payout.\<close>

definition finish_withdrawal ::
  "int \<Rightarrow> string \<Rightarrow> string \<Rightarrow> AccountWalletState \<Rightarrow> bool \<Rightarrow> string \<Rightarrow> string \<Rightarrow> int \<Rightarrow> int \<Rightarrow> string \<Rightarrow>
   gateway_db \<Rightarrow> AccountOnchainError + gateway_db \<times> withdrawal_row" where
  "finish_withdrawal now requester acct st was_reserved request_id destination cents credits sig db =
     rbind (map_err OnchainOther (credits_from_usdc_cents (redeemable_usdc_cents
       (ws_deposited_usdc_cents_total st) (ws_withdrawn_usdc_cents_total st)))) (\<lambda>redeemable_credits.
     rbind (if was_reserved then Inr (update_account_wallet acct (row_withdrawn now cents) db)
       else if ws_balance_credits st < credits
       then Inl (InsufficientWithdrawable (ws_balance_credits st) redeemable_credits credits)
       else Inr (update_account_wallet acct (row_burn now cents credits) db)) (\<lambda>db1.
     rbind (map_err OnchainOther (burn_rows now acct cents credits requester
       (''burned for withdrawal '' @ request_id)
       (''withdrawal '' @ request_id @ '' to '' @ destination) db1)) (\<lambda>db2.
     read_back (update_withdrawal request_id (wd_submitted now sig) db2) request_id)))"

definition submit_account_withdrawal ::
  "int \<Rightarrow> string \<Rightarrow> string \<Rightarrow> AccountWithdrawalRequest \<Rightarrow> gateway_db \<Rightarrow>
   AccountOnchainError + gateway_db \<times> withdrawal_row" where
  "submit_account_withdrawal now withdrawal_id requester req db =
     rbind (ok_or MissingRequestId (normalized_optional_string (Some (wr_request_id req)))) (\<lambda>request_id.
     rbind (ok_or MissingDestinationAddress (normalized_optional_string (Some (wr_destination_address req)))) (\<lambda>destination.
     rbind (ensure (\<not> wr_amount_usdc_cents req \<le> 0) InvalidUsdcAmount) (\<lambda>_.
     rbind (linked_account db requester) (\<lambda>acct.
     rbind (wallet_state db acct) (\<lambda>st.
     rbind (ensure (ws_solana_enabled st \<and> ws_solana_address st \<noteq> None) SolanaWalletNotEnabled) (\<lambda>_.
     let cents = wr_amount_usdc_cents req in
     rbind (map_err OnchainOther (credits_from_usdc_cents cents)) (\<lambda>credits.
     let provided = normalized_optional_string (wr_tx_signature req) in
     rbind (ensure (case Option.bind provided (signature_in_use db) of
         None \<Rightarrow> True | Some r \<Rightarrow> wd_request_id r = request_id) WithdrawalSignatureConflict) (\<lambda>_.
     case get_withdrawal_by_request db request_id of
       Some existing \<Rightarrow>
         if \<not> (wd_account_user_id existing = acct \<and> wd_destination_address existing = destination
            \<and> wd_amount_usdc_cents existing = cents \<and> wd_amount_credits existing = credits)
         then Inl WithdrawalConflict
         else if wd_status existing \<noteq> ''pending'' then
           (if provided \<noteq> None \<and> wd_tx_signature existing \<noteq> provided then Inl WithdrawalConflict
            else Inr (db, existing))
         else (case provided of
             None \<Rightarrow> Inr (db, existing)
           | Some sig \<Rightarrow> finish_withdrawal now requester acct st True request_id destination cents credits sig db)
     | None \<Rightarrow>
         rbind (map_err OnchainOther (insert_withdrawal
           \<lparr>wd_withdrawal_id = withdrawal_id, wd_request_id = request_id, wd_account_user_id = acct,
             wd_destination_address = destination, wd_amount_usdc_cents = cents, wd_amount_credits = credits,
             wd_status = ''pending'', wd_tx_signature = None, wd_created_at = now, wd_completed_at = None\<rparr> db)) (\<lambda>db1.
         case provided of
           None \<Rightarrow> reserve_withdrawal now requester acct st request_id cents credits db1
         | Some sig \<Rightarrow> finish_withdrawal now requester acct st False request_id destination cents credits sig db1)))))))))"

section \<open>Lemmas: statements on account wallets\<close>

text \<open>
  A posting to one account wallet, seen by the observers of the whole database. The statements of this
  theory interpret it once for the credits, and the postings to the dollar columns once more for the
  gap between the dollars an account holds and those its totals account for.
\<close>

locale account_post = wallet_post aw_account_user_id aw_balance_credits post delta
  for post :: "int \<Rightarrow> account_wallet_row \<Rightarrow> account_wallet_row" and delta
begin

lemma obs_credits:
  "keys_ok db \<Longrightarrow> account_exists db acct \<Longrightarrow>
     account_credits (update_account_wallet acct (post a) db) = account_credits db + delta a"
  using post_total [of "account_wallets db" acct a]
  by (simp add: obs_defs stmt_defs keys_ok_def account_exists_iff)

lemma obs_balance:
  "account_exists db acct \<Longrightarrow>
     account_balance_of (update_account_wallet acct (post a) db) acct' =
     account_balance_of db acct' + (if acct' = acct then delta a else 0)"
  using post_amount [of acct a "account_wallets db" acct']
  by (auto simp: obs_defs stmt_defs account_exists_iff)

lemma obs_total:
  "keys_ok db \<Longrightarrow> account_exists db acct \<Longrightarrow>
     total_credits (update_account_wallet acct (post a) db) = total_credits db + delta a"
  by (simp add: total_credits_def obs_credits)

lemma obs_exists [simp]: "account_exists (update_account_wallet acct (post a) db) = account_exists db"
  by (rule update_account_wallet_exists) (rule key_post)

lemma obs_ok:
  assumes "db_ok db" and "0 \<le> account_balance_of db acct + delta a"
  shows "db_ok (update_account_wallet acct (post a) db)"
proof -
  have "0 \<le> aw_balance_credits r"
    if "r \<in> set (sql_update (\<lambda>r. aw_account_user_id r = acct) (post a) (account_wallets db))" for r
    using post_nonneg [OF _ _ _ that] assms
    by (auto simp: db_ok_def keys_ok_def wallets_nonneg_def list_all_iff account_balance_of_def)
  then show ?thesis
    using assms(1) post_keys [of _ a "account_wallets db"]
    by (auto simp: db_ok_def keys_ok_def wallets_nonneg_def stmt_defs list_all_iff)
qed

end

interpretation dep: account_post "row_deposit now cents" "\<lambda>a. a"
  by unfold_locales (simp_all add: row_deposit_def)

interpretation hold: account_post "row_hold now cents" "\<lambda>a. - a"
  by unfold_locales (simp_all add: row_hold_def)

interpretation unhold: account_post "row_unhold now cents" "\<lambda>a. a"
  by unfold_locales (simp_all add: row_unhold_def)

interpretation burn: account_post "row_burn now cents" "\<lambda>a. - a"
  by unfold_locales (simp_all add: row_burn_def)

interpretation withdrawn: account_post "row_withdrawn now" "\<lambda>_. 0"
  by unfold_locales (simp_all add: row_withdrawn_def)

interpretation enable: account_post "\<lambda>_. row_enable_solana now addr" "\<lambda>_. 0"
  by unfold_locales (simp_all add: row_enable_solana_def)

text \<open>Dollars that have come in, have not gone out and are not in the wallet: those of the pending
  withdrawals.\<close>

definition usdc_gap :: "account_wallet_row \<Rightarrow> int" where
  "usdc_gap r = aw_deposited_usdc_cents_total r - aw_withdrawn_usdc_cents_total r - aw_usdc_cents r"

definition gap_of :: "gateway_db \<Rightarrow> string \<Rightarrow> int" where
  "gap_of db acct = row_amount aw_account_user_id usdc_gap (account_wallets db) acct"

interpretation gap_dep: wallet_post aw_account_user_id usdc_gap "\<lambda>c. row_deposit now c x" "\<lambda>_. 0"
  by unfold_locales (simp_all add: row_deposit_def usdc_gap_def)

interpretation gap_hold: wallet_post aw_account_user_id usdc_gap "\<lambda>c. row_hold now c x" "\<lambda>c. c"
  by unfold_locales (simp_all add: row_hold_def usdc_gap_def)

interpretation gap_unhold: wallet_post aw_account_user_id usdc_gap "\<lambda>c. row_unhold now c x" "\<lambda>c. - c"
  by unfold_locales (simp_all add: row_unhold_def usdc_gap_def)

interpretation gap_burn: wallet_post aw_account_user_id usdc_gap "\<lambda>c. row_burn now c x" "\<lambda>_. 0"
  by unfold_locales (simp_all add: row_burn_def usdc_gap_def)

interpretation gap_withdrawn: wallet_post aw_account_user_id usdc_gap "row_withdrawn now" "\<lambda>c. - c"
  by unfold_locales (simp_all add: row_withdrawn_def usdc_gap_def)

interpretation gap_enable: wallet_post aw_account_user_id usdc_gap "\<lambda>_. row_enable_solana now addr" "\<lambda>_. 0"
  by unfold_locales (simp_all add: row_enable_solana_def usdc_gap_def)

lemma gap_of_posts:
  assumes "account_exists db acct"
  shows "gap_of (update_account_wallet acct (row_deposit now c x) db) a = gap_of db a"
    "gap_of (update_account_wallet acct (row_hold now c x) db) a = gap_of db a + (if a = acct then c else 0)"
    "gap_of (update_account_wallet acct (row_unhold now c x) db) a = gap_of db a - (if a = acct then c else 0)"
    "gap_of (update_account_wallet acct (row_burn now c x) db) a = gap_of db a"
    "gap_of (update_account_wallet acct (row_withdrawn now c) db) a = gap_of db a - (if a = acct then c else 0)"
    "gap_of (update_account_wallet acct (row_enable_solana now addr) db) a = gap_of db a"
  using assms gap_dep.post_amount [of acct now c x "account_wallets db" a]
    gap_hold.post_amount [of acct now c x "account_wallets db" a]
    gap_unhold.post_amount [of acct now c x "account_wallets db" a]
    gap_burn.post_amount [of acct now c x "account_wallets db" a]
    gap_withdrawn.post_amount [of acct now c "account_wallets db" a]
    gap_enable.post_amount [of acct now addr "account_wallets db" a]
  by (simp_all add: gap_of_def stmt_defs account_exists_iff)

section \<open>Lemmas: the invariant of the withdrawals\<close>

definition held_amount :: "withdrawal_row \<Rightarrow> int" where
  "held_amount r = (if wd_status r = ''pending'' then wd_amount_credits r else 0)"

definition pending_amount :: "string \<Rightarrow> withdrawal_row \<Rightarrow> int" where
  "pending_amount a r =
     (if wd_status r = ''pending'' \<and> wd_account_user_id r = a then wd_amount_usdc_cents r else 0)"

definition held_credits :: "gateway_db \<Rightarrow> int" where
  "held_credits db = table_sum held_amount (account_withdrawals db)"

definition pending_cents :: "gateway_db \<Rightarrow> string \<Rightarrow> int" where
  "pending_cents db a = table_sum (pending_amount a) (account_withdrawals db)"

text \<open>A withdrawal is pending, or submitted with the signature of its payout, or rejected without one;
  its amounts agree at the fixed rate.\<close>

definition wd_ok :: "withdrawal_row \<Rightarrow> bool" where
  "wd_ok r \<longleftrightarrow> 0 < wd_amount_usdc_cents r \<and>
     wd_amount_credits r = wd_amount_usdc_cents r * CREDITS_PER_USDC_CENT \<and>
     (wd_status r = ''pending'' \<and> wd_tx_signature r = None \<and> wd_completed_at r = None \<or>
      wd_status r = ''submitted'' \<and> wd_tx_signature r \<noteq> None \<and> wd_completed_at r \<noteq> None \<or>
      wd_status r = ''rejected'' \<and> wd_tx_signature r = None \<and> wd_completed_at r \<noteq> None)"

definition onchain_inv :: "gateway_db \<Rightarrow> bool" where
  "onchain_inv db \<longleftrightarrow> db_ok db \<and> links_ok db \<and>
     list_all (\<lambda>r. wd_ok r \<and> account_exists db (wd_account_user_id r)) (account_withdrawals db) \<and>
     (\<forall>a. account_exists db a \<longrightarrow> gap_of db a = pending_cents db a)"

text \<open>A statement that writes only the account ledger is invisible to all of this.\<close>

definition only_ledger :: "gateway_db \<Rightarrow> gateway_db \<Rightarrow> bool" where
  "only_ledger db db' \<longleftrightarrow> (\<exists>l s. db' = db\<lparr>account_ledger := l, account_ledger_seq := s\<rparr>)"

lemma insert_account_ledger_only:
  "insert_account_ledger acct asset a ty ts dev n api db = Inr db' \<Longrightarrow> only_ledger db db' \<and> account_exists db acct"
  by (auto simp: insert_account_ledger_def only_ledger_def split: if_splits)

lemma only_ledger_trans: "only_ledger db db1 \<Longrightarrow> only_ledger db1 db2 \<Longrightarrow> only_ledger db db2"
  by (force simp: only_ledger_def)

lemma burn_rows_only:
  "burn_rows now acct cents credits dev n m db = Inr db' \<Longrightarrow> only_ledger db db' \<and> account_exists db acct"
  by (auto simp: burn_rows_def intro: only_ledger_trans dest!: insert_account_ledger_only)

lemma only_ledger_tables:
  assumes "only_ledger db db'"
  shows "account_wallets db' = account_wallets db" "account_withdrawals db' = account_withdrawals db"
    "account_devices db' = account_devices db" "share_keys db' = share_keys db"
    "share_key_contributions db' = share_key_contributions db" "same_wallets db db'" "db_ok db' = db_ok db"
  using assms by (auto simp: only_ledger_def same_wallets_def db_ok_def keys_ok_def wallets_nonneg_def)

text \<open>What an operation of this theory does: the credits of account \<open>a\<close> change by \<open>x\<close>, the reserved
  credits by \<open>h\<close>, and nothing else moves.\<close>

definition onchain_moved :: "string \<Rightarrow> int \<Rightarrow> int \<Rightarrow> gateway_db \<Rightarrow> gateway_db \<Rightarrow> bool" where
  "onchain_moved a x h db db' \<longleftrightarrow> onchain_inv db' \<and> total_credits db' = total_credits db + x \<and>
     (\<forall>b. account_balance_of db' b = account_balance_of db b + (if b = a then x else 0)) \<and>
     held_credits db' = held_credits db + h \<and> balance_of db' = balance_of db \<and>
     share_keys db' = share_keys db \<and> share_key_contributions db' = share_key_contributions db \<and>
     account_devices db' = account_devices db \<and> account_exists db' = account_exists db"

lemma gap_table: "account_wallets db' = account_wallets db \<Longrightarrow> gap_of db' = gap_of db"
  by (simp add: gap_of_def fun_eq_iff)

lemma withdrawals_obs:
  "account_withdrawals db' = account_withdrawals db \<Longrightarrow> held_credits db' = held_credits db"
  "account_withdrawals db' = account_withdrawals db \<Longrightarrow> pending_cents db' = pending_cents db"
  by (simp_all add: held_credits_def pending_cents_def fun_eq_iff)

lemma onchain_moved_ledger:
  assumes "onchain_moved a x h db db1" and o: "only_ledger db1 db2"
  shows "onchain_moved a x h db db2"
proof -
  note t = only_ledger_tables [OF o]
  note obs = same_wallets_obs [OF t(6)] withdrawals_obs [OF t(2)] gap_table [OF t(1)]
  have "links_ok db2 = links_ok db1" by (simp add: links_ok_def t obs)
  then have "onchain_inv db2 = onchain_inv db1" by (simp add: onchain_inv_def t obs)
  then show ?thesis using assms(1) by (simp add: onchain_moved_def t obs)
qed

lemma update_withdrawal_sums:
  assumes "keys_ok db" and "get_withdrawal_by_request db req = Some r"
  shows "held_credits (update_withdrawal req f db) = held_credits db - held_amount r + held_amount (f r)"
    "pending_cents (update_withdrawal req f db) a = pending_cents db a - pending_amount a r + pending_amount a (f r)"
  using assms table_sum_update_row [of wd_request_id "account_withdrawals db" req r _ f]
  by (simp_all add: held_credits_def pending_cents_def keys_ok_def get_withdrawal_by_request_def stmt_defs)

lemma update_withdrawal_frame [simp]:
  "account_wallets (update_withdrawal req f db) = account_wallets db"
  "account_devices (update_withdrawal req f db) = account_devices db"
  "share_keys (update_withdrawal req f db) = share_keys db"
  "share_key_contributions (update_withdrawal req f db) = share_key_contributions db"
  "same_wallets db (update_withdrawal req f db)"
  by (simp_all add: stmt_defs same_wallets_def)

lemmas update_withdrawal_obs [simp] = same_wallets_obs [OF update_withdrawal_frame(5)]

lemma update_account_wallet_wd [simp]:
  "account_withdrawals (update_account_wallet a f db) = account_withdrawals db"
  "account_devices (update_account_wallet a f db) = account_devices db"
  by (simp_all add: stmt_defs)

lemma get_withdrawal_SomeD:
  "get_withdrawal_by_request db req = Some r \<Longrightarrow> r \<in> set (account_withdrawals db) \<and> wd_request_id r = req"
  unfolding get_withdrawal_by_request_def by (rule find_key_SomeD)

lemma pending_row:
  assumes "onchain_inv db" and "get_withdrawal_by_request db req = Some r"
  shows "wd_ok r" "account_exists db (wd_account_user_id r)" "0 < wd_amount_credits r"
proof -
  have r: "r \<in> set (account_withdrawals db)" using get_withdrawal_SomeD [OF assms(2)] by simp
  then show ok: "wd_ok r" and "account_exists db (wd_account_user_id r)"
    using assms(1) by (auto simp: onchain_inv_def list_all_iff)
  show "0 < wd_amount_credits r"
    using ok by (simp add: wd_ok_def CREDITS_PER_USDC_CENT_def CREDITS_PER_USDC_def sdiv_nonneg)
qed

text \<open>Closing a pending withdrawal: the row leaves the pending state, the wallet of its account takes the
  matching step.\<close>

lemma close_pending:
  assumes inv: "onchain_inv db" and r: "get_withdrawal_by_request db req = Some r" "wd_status r = ''pending''"
    and f: "\<And>q. wd_request_id (f q) = wd_request_id q" "wd_account_user_id (f r) = wd_account_user_id r"
      "wd_ok (f r)" "wd_status (f r) \<noteq> ''pending''"
    and g: "db_ok (update_account_wallet acct g db)" "acct = wd_account_user_id r"
      "\<And>q. aw_account_user_id (g q) = aw_account_user_id q"
      "\<And>a. gap_of (update_account_wallet acct g db) a = gap_of db a - (if a = acct then wd_amount_usdc_cents r else 0)"
      "\<And>b. account_balance_of (update_account_wallet acct g db) b = account_balance_of db b + (if b = acct then x else 0)"
      "total_credits (update_account_wallet acct g db) = total_credits db + x"
    and o: "only_ledger (update_account_wallet acct g db) db1"
  shows "onchain_moved acct x (- wd_amount_credits r) db (update_withdrawal req f db1)"
proof -
  let ?db0 = "update_account_wallet acct g db" and ?db2 = "update_withdrawal req f db1"
  note t = only_ledger_tables [OF o] and obs = same_wallets_obs [OF only_ledger_tables(6) [OF o]]
  have k1: "keys_ok db1" using g(1) t(7) by auto
  have r1: "get_withdrawal_by_request db1 req = Some r" using r(1) by (simp add: get_withdrawal_by_request_def t)
  note sums = update_withdrawal_sums [OF k1 r1, of f]
  have h: "held_credits ?db2 = held_credits db - wd_amount_credits r"
    using sums(1) r(2) f(4) withdrawals_obs(1) [of db1 db] t(2) by (simp add: held_amount_def)
  have p: "pending_cents ?db2 a = pending_cents db a - (if a = acct then wd_amount_usdc_cents r else 0)" for a
    using sums(2) [of a] r(2) f(2,4) g(2) withdrawals_obs(2) [of db1 db] t(2) by (auto simp: pending_amount_def)
  have ex: "account_exists ?db0 = account_exists db" by (rule update_account_wallet_exists) (rule g(3))
  have ex2: "account_exists ?db2 = account_exists db" using ex obs by simp
  have gap: "gap_of ?db2 a = gap_of db a - (if a = acct then wd_amount_usdc_cents r else 0)" for a
    using g(4) [of a] gap_table [of ?db2 ?db0] t(1) by simp
  have "db_ok ?db2"
    using g(1) t(7) f(1) sql_update_key_map [of wd_request_id f]
    by (simp add: db_ok_def keys_ok_def wallets_nonneg_def stmt_defs)
  moreover have "links_ok ?db2" using inv ex2 by (simp add: onchain_inv_def links_ok_def t)
  moreover have "wd_ok q \<and> account_exists db (wd_account_user_id q)"
    if q: "q \<in> set (account_withdrawals ?db2)" for q
  proof -
    obtain q0 where q0: "q0 \<in> set (account_withdrawals db)" "q = (if wd_request_id q0 = req then f q0 else q0)"
      using q t(2) by (auto simp: stmt_defs set_sql_update)
    have "q0 = r" if "wd_request_id q0 = req"
      using find_key_unique [of wd_request_id "account_withdrawals db" q0] inv q0(1) that r(1)
      by (simp add: onchain_inv_def db_ok_def keys_ok_def get_withdrawal_by_request_def)
    then show ?thesis
      using q0 inv f(2,3) pending_row(2) [OF inv r(1)] by (cases "wd_request_id q0 = req") (auto simp: onchain_inv_def list_all_iff)
  qed
  ultimately have "onchain_inv ?db2"
    using inv p gap ex2 by (simp add: onchain_inv_def list_all_iff)
  then show ?thesis using h g(5,6) ex2 t obs by (simp add: onchain_moved_def)
qed

lemma wd_rows [simp]:
  "wd_request_id (wd_submitted now sig r) = wd_request_id r" "wd_request_id (wd_rejected now r) = wd_request_id r"
  "wd_account_user_id (wd_submitted now sig r) = wd_account_user_id r"
  "wd_account_user_id (wd_rejected now r) = wd_account_user_id r"
  "wd_status (wd_submitted now sig r) = ''submitted''" "wd_status (wd_rejected now r) = ''rejected''"
  "wd_tx_signature (wd_submitted now sig r) = Some sig"
  "wd_ok r \<Longrightarrow> wd_status r = ''pending'' \<Longrightarrow> wd_ok (wd_submitted now sig r)"
  "wd_ok r \<Longrightarrow> wd_status r = ''pending'' \<Longrightarrow> wd_ok (wd_rejected now r)"
  by (auto simp: wd_submitted_def wd_rejected_def wd_ok_def)

lemma row_account_keys [simp]:
  "aw_account_user_id (row_withdrawn now c r) = aw_account_user_id r"
  "aw_account_user_id (row_unhold now c x r) = aw_account_user_id r"
  "aw_account_user_id (row_hold now c x r) = aw_account_user_id r"
  "aw_account_user_id (row_burn now c x r) = aw_account_user_id r"
  "aw_account_user_id (row_deposit now c x r) = aw_account_user_id r"
  "aw_account_user_id (row_enable_solana now addr r) = aw_account_user_id r"
  by (simp_all add: row_withdrawn_def row_unhold_def row_hold_def row_burn_def row_deposit_def row_enable_solana_def)

lemma read_back_Inr:
  "read_back db req = Inr (db', r) \<longleftrightarrow> db' = db \<and> get_withdrawal_by_request db req = Some r"
  by (auto simp: read_back_def)

lemma get_updated_withdrawal:
  assumes "\<And>q. wd_request_id (f q) = wd_request_id q" and "account_withdrawals db1 = account_withdrawals db"
  shows "get_withdrawal_by_request (update_withdrawal req f db1) req = map_option f (get_withdrawal_by_request db req)"
  using find_sql_update [of wd_request_id f req req "account_withdrawals db", OF assms(1)]
  by (simp add: get_withdrawal_by_request_def stmt_defs assms(2))

lemma account_ok_nonneg: "db_ok db \<Longrightarrow> 0 \<le> account_balance_of db a"
  by (simp add: account_balance_of_nonneg db_ok_nonneg)

text \<open>Finishing a pending withdrawal with the signature of a payout.\<close>

lemma submitted_moved:
  assumes inv: "onchain_inv db" and r: "get_withdrawal_by_request db req = Some r" "wd_status r = ''pending''"
    and b: "burn_rows now (wd_account_user_id r) c x dev n m
      (update_account_wallet (wd_account_user_id r) (row_withdrawn now (wd_amount_usdc_cents r)) db) = Inr db1"
  shows "onchain_moved (wd_account_user_id r) 0 (- wd_amount_credits r) db (update_withdrawal req (wd_submitted now sig) db1)"
proof -
  note row = pending_row [OF inv r(1)]
  have ok: "db_ok db" using inv by (simp add: onchain_inv_def)
  show ?thesis
    by (rule close_pending [OF inv r, where g = "row_withdrawn now (wd_amount_usdc_cents r)" and x = 0])
       (use row r(2) ok burn_rows_only [OF b] in
         \<open>simp_all add: withdrawn.obs_ok account_ok_nonneg gap_of_posts withdrawn.obs_balance withdrawn.obs_total\<close>)
qed

lemma complete_withdrawal_effect:
  assumes inv: "onchain_inv db" and s: "complete_account_withdrawal_from_treasury now req sig db = Inr (db', r')"
  obtains (final) "db' = db" "get_withdrawal_by_request db req = Some r'" "wd_status r' \<noteq> ''pending''"
      "wd_tx_signature r' = Some sig"
    | (paid) r where "get_withdrawal_by_request db req = Some r" "wd_status r = ''pending''"
      "r' = wd_submitted now sig r" "get_withdrawal_by_request db' req = Some r'"
      "onchain_moved (wd_account_user_id r) 0 (- wd_amount_credits r) db db'"
proof -
  obtain r where r: "get_withdrawal_by_request db req = Some r"
    using s by (auto simp: complete_account_withdrawal_from_treasury_def)
  show thesis
  proof (cases "wd_status r = ''pending''")
    case False
    then show thesis
      using s r by (intro final) (auto simp: complete_account_withdrawal_from_treasury_def split: if_splits)
  next
    case True
    then obtain db1 where b: "burn_rows now (wd_account_user_id r) (wd_amount_usdc_cents r) (wd_amount_credits r)
        ''treasury-payout'' (''burned for treasury payout '' @ req)
        (''treasury payout '' @ req @ '' to '' @ wd_destination_address r)
        (update_account_wallet (wd_account_user_id r) (row_withdrawn now (wd_amount_usdc_cents r)) db) = Inr db1"
      and rb: "read_back (update_withdrawal req (wd_submitted now sig) db1) req = Inr (db', r')"
      using s r by (auto simp: complete_account_withdrawal_from_treasury_def Let_def split: if_splits)
    have "account_withdrawals db1 = account_withdrawals db"
      using burn_rows_only [OF b] only_ledger_tables(2) by fastforce
    then have "r' = wd_submitted now sig r" "get_withdrawal_by_request db' req = Some r'"
      using rb get_updated_withdrawal [of "wd_submitted now sig" db1 db req] r by (simp_all add: read_back_Inr)
    moreover have "onchain_moved (wd_account_user_id r) 0 (- wd_amount_credits r) db db'"
      using submitted_moved [OF inv r True b] rb by (simp add: read_back_Inr)
    ultimately show thesis using r True by (intro paid)
  qed
qed

lemma reject_withdrawal_effect:
  assumes inv: "onchain_inv db" and s: "reject_account_withdrawal now req reason db = Inr (db', r')"
  obtains r where "get_withdrawal_by_request db req = Some r" "wd_status r = ''pending''"
      "r' = wd_rejected now r" "get_withdrawal_by_request db' req = Some r'"
      "onchain_moved (wd_account_user_id r) (wd_amount_credits r) (- wd_amount_credits r) db db'"
proof -
  obtain r db1 n where r: "get_withdrawal_by_request db req = Some r" "wd_status r = ''pending''"
    and l: "insert_account_ledger (wd_account_user_id r) ''credits'' (wd_amount_credits r)
      ''ONCHAIN_WITHDRAWAL_REFUND'' now (Some ''treasury-payout'') n None
      (update_account_wallet (wd_account_user_id r) (row_unhold now (wd_amount_usdc_cents r) (wd_amount_credits r)) db) = Inr db1"
    and rb: "read_back (update_withdrawal req (wd_rejected now) db1) req = Inr (db', r')"
    using s unfolding reject_account_withdrawal_def Let_def rbind_Inr_iff ensure_Inr_iff ok_or_Inr_iff map_err_Inr_iff
    by (elim exE conjE) simp
  note row = pending_row [OF inv r(1)]
  have ok: "db_ok db" using inv by (simp add: onchain_inv_def)
  have o: "only_ledger (update_account_wallet (wd_account_user_id r)
      (row_unhold now (wd_amount_usdc_cents r) (wd_amount_credits r)) db) db1"
    using insert_account_ledger_only [OF l] by simp
  have "account_withdrawals db1 = account_withdrawals db" using only_ledger_tables(2) [OF o] by simp
  then have rr: "r' = wd_rejected now r" "get_withdrawal_by_request db' req = Some r'"
    using rb get_updated_withdrawal [of "wd_rejected now" db1 db req] r by (simp_all add: read_back_Inr)
  have "0 \<le> account_balance_of db (wd_account_user_id r) + wd_amount_credits r"
    using row(3) account_ok_nonneg [OF ok] by (simp add: add_nonneg_nonneg less_imp_le)
  then have "onchain_moved (wd_account_user_id r) (wd_amount_credits r) (- wd_amount_credits r) db
      (update_withdrawal req (wd_rejected now) db1)"
    by (intro close_pending [OF inv r, where g = "row_unhold now (wd_amount_usdc_cents r) (wd_amount_credits r)"])
       (use row r(2) ok o in \<open>simp_all add: unhold.obs_ok gap_of_posts unhold.obs_balance unhold.obs_total\<close>)
  then show thesis using that r rr rb by (simp add: read_back_Inr)
qed

lemma wallet_state_Inr:
  assumes "wallet_state db acct = Inr st"
  shows "account_exists db acct" "ws_balance_credits st = account_balance_of db acct"
proof -
  obtain r where r: "account_row_of db acct = Some r" "ws_balance_credits st = aw_balance_credits r"
    using assms by (auto simp: wallet_state_def load_account_wallet_state_locked_def)
  show "account_exists db acct" using r(1) account_exists_row by blast
  show "ws_balance_credits st = account_balance_of db acct" using r account_row_of_amount [OF r(1)] by simp
qed

lemma credits_from_usdc_cents_Inr:
  "credits_from_usdc_cents cents = Inr credits \<Longrightarrow> credits = cents * CREDITS_PER_USDC_CENT"
  by (auto simp: credits_from_usdc_cents_def checked_mul_i64_def split: if_splits)

lemma rate_pos [simp]: "0 < CREDITS_PER_USDC_CENT"
  by (simp add: CREDITS_PER_USDC_CENT_def CREDITS_PER_USDC_def sdiv_nonneg)

lemma insert_withdrawal_Inr:
  assumes "insert_withdrawal r db = Inr db1"
  shows "db1 = db\<lparr>account_withdrawals := account_withdrawals db @ [r]\<rparr>"
    "wd_request_id r \<notin> wd_request_id ` set (account_withdrawals db)"
  using assms by (auto simp: insert_withdrawal_def has_row_iff split: if_splits)

text \<open>A new withdrawal: the row is appended, the wallet takes the matching step, the row may have been
  closed in the same call.\<close>

lemma open_withdrawal:
  assumes inv: "onchain_inv db" and i: "insert_withdrawal r db = Inr db0" and ex: "account_exists db acct"
    and r: "wd_account_user_id r = acct" "wd_request_id q = wd_request_id r" "wd_account_user_id q = acct" "wd_ok q"
    and g: "db_ok (update_account_wallet acct g db)" "\<And>w. aw_account_user_id (g w) = aw_account_user_id w"
      "\<And>a. gap_of (update_account_wallet acct g db) a = gap_of db a + pending_amount a q"
      "\<And>b. account_balance_of (update_account_wallet acct g db) b = account_balance_of db b + (if b = acct then x else 0)"
      "total_credits (update_account_wallet acct g db) = total_credits db + x"
    and o: "only_ledger (update_account_wallet acct g db0) db1"
    and db2: "account_withdrawals db2 = account_withdrawals db @ [q]" "db2\<lparr>account_withdrawals := []\<rparr> = db1\<lparr>account_withdrawals := []\<rparr>"
  shows "onchain_moved acct x (held_amount q) db db2"
proof -
  let ?dbw = "update_account_wallet acct g db"
  note ins = insert_withdrawal_Inr [OF i]
  obtain l sq where db1: "db1 = (update_account_wallet acct g db0)\<lparr>account_ledger := l, account_ledger_seq := sq\<rparr>"
    using o by (auto simp: only_ledger_def)
  have swap: "update_account_wallet acct g db0 = ?dbw\<lparr>account_withdrawals := account_withdrawals db @ [r]\<rparr>"
    by (rule gateway_db.equality) (simp_all add: ins(1) stmt_defs)
  have e: "f db2 = f ?dbw" if "\<And>d w. f (d\<lparr>account_withdrawals := w\<rparr>) = f d"
    "\<And>d l s. f (d\<lparr>account_ledger := l, account_ledger_seq := s\<rparr>) = f d" for f :: "gateway_db \<Rightarrow> 'b"
  proof -
    have "f db2 = f (db2\<lparr>account_withdrawals := []\<rparr>)" by (simp add: that(1))
    also have "\<dots> = f db1" by (simp add: db2(2) that(1))
    also have "\<dots> = f (update_account_wallet acct g db0)" by (simp add: db1 that(2))
    finally show ?thesis by (simp add: swap that(1))
  qed
  have w: "same_wallets ?dbw db2" unfolding same_wallets_def by (intro conjI; rule e; simp)
  note obs = same_wallets_obs [OF w]
  have t: "share_keys db2 = share_keys db" "account_devices db2 = account_devices db"
    "share_key_contributions db2 = share_key_contributions db"
    by (subst e; simp)+
  have "account_exists ?dbw = account_exists db" by (rule update_account_wallet_exists) (rule g(2))
  then have ex2: "account_exists db2 = account_exists db" using obs by simp
  have "keys_ok db2"
  proof -
    have "distinct (map wd_request_id (account_withdrawals db2))"
      using inv ins(2) r(2) by (auto simp: db2(1) onchain_inv_def db_ok_def keys_ok_def)
    moreover have "api_keys db2 = api_keys ?dbw" "account_devices db2 = account_devices ?dbw"
      "availability_sessions db2 = availability_sessions ?dbw" "share_keys db2 = share_keys ?dbw"
      by (rule e; simp)+
    ultimately show ?thesis using g(1) w by (simp add: keys_ok_def db_ok_def same_wallets_def)
  qed
  then have "db_ok db2" using g(1) obs by (simp add: db_ok_def)
  moreover have "links_ok db2" using inv by (simp add: links_ok_def ex2 t onchain_inv_def)
  moreover have "gap_of db2 a = pending_cents db2 a" if "account_exists db a" for a
    using g(3) [of a] inv that gap_table [of db2 ?dbw] w
    by (simp add: pending_cents_def db2(1) onchain_inv_def same_wallets_def)
  ultimately have "onchain_inv db2"
    using inv r(3,4) ex by (simp add: onchain_inv_def ex2 db2(1))
  then show ?thesis
    using g(4,5) obs t ex2 by (simp add: onchain_moved_def held_credits_def db2(1))
qed

definition new_withdrawal :: "int \<Rightarrow> string \<Rightarrow> string \<Rightarrow> string \<Rightarrow> string \<Rightarrow> int \<Rightarrow> withdrawal_row" where
  "new_withdrawal now wid req acct dest cents =
     \<lparr>wd_withdrawal_id = wid, wd_request_id = req, wd_account_user_id = acct,
       wd_destination_address = dest, wd_amount_usdc_cents = cents,
       wd_amount_credits = cents * CREDITS_PER_USDC_CENT,
       wd_status = ''pending'', wd_tx_signature = None, wd_created_at = now, wd_completed_at = None\<rparr>"

lemma new_withdrawal_simps [simp]:
  "wd_request_id (new_withdrawal now wid req acct dest cents) = req"
  "wd_account_user_id (new_withdrawal now wid req acct dest cents) = acct"
  "wd_amount_usdc_cents (new_withdrawal now wid req acct dest cents) = cents"
  "wd_amount_credits (new_withdrawal now wid req acct dest cents) = cents * CREDITS_PER_USDC_CENT"
  "wd_status (new_withdrawal now wid req acct dest cents) = ''pending''"
  "0 < cents \<Longrightarrow> wd_ok (new_withdrawal now wid req acct dest cents)"
  by (simp_all add: new_withdrawal_def wd_ok_def)

lemma reserve_moved:
  assumes inv: "onchain_inv db" and st: "wallet_state db acct = Inr st" and c: "0 < cents"
    and i: "insert_withdrawal (new_withdrawal now wid req acct dest cents) db = Inr db0"
    and s: "reserve_withdrawal now requester acct st req cents (cents * CREDITS_PER_USDC_CENT) db0 = Inr (db', r')"
  shows "cents * CREDITS_PER_USDC_CENT \<le> account_balance_of db acct"
    "onchain_moved acct (- (cents * CREDITS_PER_USDC_CENT)) (cents * CREDITS_PER_USDC_CENT) db db'"
    "account_withdrawals db' = account_withdrawals db @ [new_withdrawal now wid req acct dest cents]"
proof -
  let ?w = "new_withdrawal now wid req acct dest cents" and ?c = "cents * CREDITS_PER_USDC_CENT"
  note ins = insert_withdrawal_Inr [OF i] and ws = wallet_state_Inr [OF st]
  obtain n where le: "?c \<le> account_balance_of db acct"
    and l: "insert_account_ledger acct ''credits'' (- ?c) ''ONCHAIN_WITHDRAWAL_HOLD'' now (Some requester) n None
      (update_account_wallet acct (row_hold now cents ?c) db0) = Inr db'"
    using s ws(2) unfolding reserve_withdrawal_def Let_def rbind_Inr_iff ensure_Inr_iff map_err_Inr_iff
    by (elim exE conjE) (auto split: list.splits)
  have o: "only_ledger (update_account_wallet acct (row_hold now cents ?c) db0) db'"
    using insert_account_ledger_only [OF l] by simp
  have ok: "db_ok db" using inv by (simp add: onchain_inv_def)
  show "?c \<le> account_balance_of db acct" by (rule le)
  show wd: "account_withdrawals db' = account_withdrawals db @ [?w]"
    using only_ledger_tables(2) [OF o] ins(1) by simp
  have "onchain_moved acct (- ?c) (held_amount ?w) db db'"
    by (rule open_withdrawal [OF inv i ws(1), where q = ?w and g = "row_hold now cents ?c" and ?db1.0 = db'])
       (use c ok le ws(1) wd o in \<open>simp_all add: hold.obs_ok gap_of_posts hold.obs_balance hold.obs_total pending_amount_def\<close>)
  then show "onchain_moved acct (- ?c) ?c db db'" by (simp add: held_amount_def)
qed

lemma burn_moved:
  assumes inv: "onchain_inv db" and st: "wallet_state db acct = Inr st" and c: "0 < cents"
    and i: "insert_withdrawal (new_withdrawal now wid req acct dest cents) db = Inr db0"
    and s: "finish_withdrawal now requester acct st False req dest cents (cents * CREDITS_PER_USDC_CENT) sig db0 = Inr (db', r')"
  shows "cents * CREDITS_PER_USDC_CENT \<le> account_balance_of db acct"
    "onchain_moved acct (- (cents * CREDITS_PER_USDC_CENT)) 0 db db'"
    "account_withdrawals db' = account_withdrawals db @ [wd_submitted now sig (new_withdrawal now wid req acct dest cents)]"
proof -
  let ?w = "new_withdrawal now wid req acct dest cents" and ?c = "cents * CREDITS_PER_USDC_CENT"
  let ?q = "wd_submitted now sig ?w"
  note ins = insert_withdrawal_Inr [OF i] and ws = wallet_state_Inr [OF st]
  obtain n m db2 where le: "?c \<le> account_balance_of db acct"
    and b: "burn_rows now acct cents ?c requester n m (update_account_wallet acct (row_burn now cents ?c) db0) = Inr db2"
    and rb: "read_back (update_withdrawal req (wd_submitted now sig) db2) req = Inr (db', r')"
    using s ws(2) unfolding finish_withdrawal_def Let_def rbind_Inr_iff map_err_Inr_iff
    by (elim exE conjE) (auto split: if_splits)
  have o: "only_ledger (update_account_wallet acct (row_burn now cents ?c) db0) db2" using burn_rows_only [OF b] by simp
  have db': "db' = update_withdrawal req (wd_submitted now sig) db2" using rb by (simp add: read_back_Inr)
  have ok: "db_ok db" using inv by (simp add: onchain_inv_def)
  show "?c \<le> account_balance_of db acct" by (rule le)
  have "sql_update (\<lambda>r. wd_request_id r = req) (wd_submitted now sig) (account_withdrawals db) = account_withdrawals db"
    using ins(2) by (intro sql_update_no_match) auto
  then show wd: "account_withdrawals db' = account_withdrawals db @ [?q]"
    using only_ledger_tables(2) [OF o] ins(1) by (simp add: db' stmt_defs)
  have same: "db'\<lparr>account_withdrawals := []\<rparr> = db2\<lparr>account_withdrawals := []\<rparr>" by (simp add: db' stmt_defs)
  have "onchain_moved acct (- ?c) (held_amount ?q) db db'"
    by (rule open_withdrawal [OF inv i ws(1), where q = ?q and g = "row_burn now cents ?c" and ?db1.0 = db2])
       (use c ok le ws(1) wd o same in \<open>simp_all add: burn.obs_ok gap_of_posts burn.obs_balance burn.obs_total pending_amount_def\<close>)
  then show "onchain_moved acct (- ?c) 0 db db'" by (simp add: held_amount_def)
qed

text \<open>The four ways a submission succeeds.\<close>

lemma submit_withdrawal_steps:
  assumes s: "submit_account_withdrawal now wid requester req db = Inr (db', r')"
  obtains request_id dest acct st where
    "normalized_optional_string (Some (wr_request_id req)) = Some request_id"
    "normalized_optional_string (Some (wr_destination_address req)) = Some dest"
    "0 < wr_amount_usdc_cents req" "account_user_id_for_device db requester = Some acct"
    "wallet_state db acct = Inr st"
    "(case get_withdrawal_by_request db request_id of
       Some e \<Rightarrow> wd_account_user_id e = acct \<and> wd_amount_usdc_cents e = wr_amount_usdc_cents req \<and>
         (db' = db \<and> r' = e \<or> wd_status e = ''pending'' \<and>
           (\<exists>sig c. finish_withdrawal now requester acct st True request_id dest (wr_amount_usdc_cents req) c sig db = Inr (db', r')))
     | None \<Rightarrow> \<exists>db0. insert_withdrawal (new_withdrawal now wid request_id acct dest (wr_amount_usdc_cents req)) db = Inr db0 \<and>
         (reserve_withdrawal now requester acct st request_id (wr_amount_usdc_cents req)
            (wr_amount_usdc_cents req * CREDITS_PER_USDC_CENT) db0 = Inr (db', r') \<or>
          (\<exists>sig. finish_withdrawal now requester acct st False request_id dest (wr_amount_usdc_cents req)
            (wr_amount_usdc_cents req * CREDITS_PER_USDC_CENT) sig db0 = Inr (db', r'))))"
proof -
  let ?cents = "wr_amount_usdc_cents req" and ?p = "normalized_optional_string (wr_tx_signature req)"
  obtain request_id dest acct st credits where
    h: "normalized_optional_string (Some (wr_request_id req)) = Some request_id"
      "normalized_optional_string (Some (wr_destination_address req)) = Some dest"
      "0 < ?cents" "account_user_id_for_device db requester = Some acct" "wallet_state db acct = Inr st"
    and c: "credits_from_usdc_cents ?cents = Inr credits"
    and k: "(case get_withdrawal_by_request db request_id of
       Some existing \<Rightarrow>
         if \<not> (wd_account_user_id existing = acct \<and> wd_destination_address existing = dest
            \<and> wd_amount_usdc_cents existing = ?cents \<and> wd_amount_credits existing = credits)
         then Inl WithdrawalConflict
         else if wd_status existing \<noteq> ''pending'' then
           (if ?p \<noteq> None \<and> wd_tx_signature existing \<noteq> ?p then Inl WithdrawalConflict
            else Inr (db, existing))
         else (case ?p of
             None \<Rightarrow> Inr (db, existing)
           | Some sig \<Rightarrow> finish_withdrawal now requester acct st True request_id dest ?cents credits sig db)
     | None \<Rightarrow>
         rbind (map_err OnchainOther (insert_withdrawal
           \<lparr>wd_withdrawal_id = wid, wd_request_id = request_id, wd_account_user_id = acct,
             wd_destination_address = dest, wd_amount_usdc_cents = ?cents, wd_amount_credits = credits,
             wd_status = ''pending'', wd_tx_signature = None, wd_created_at = now, wd_completed_at = None\<rparr> db)) (\<lambda>db1.
         case ?p of
           None \<Rightarrow> reserve_withdrawal now requester acct st request_id ?cents credits db1
         | Some sig \<Rightarrow> finish_withdrawal now requester acct st False request_id dest ?cents credits sig db1)) = Inr (db', r')"
    using s unfolding submit_account_withdrawal_def Let_def rbind_Inr_iff ensure_Inr_iff ok_or_Inr_iff map_err_Inr_iff linked_account_def
    by (elim exE conjE) simp
  have cr: "credits = ?cents * CREDITS_PER_USDC_CENT" using credits_from_usdc_cents_Inr [OF c] .
  show thesis
    by (rule that [OF h]) (use k in \<open>auto simp: cr new_withdrawal_def split: option.splits if_splits\<close>)
qed

lemma finish_reserved_moved:
  assumes inv: "onchain_inv db" and e: "get_withdrawal_by_request db req = Some e" "wd_status e = ''pending''"
    and s: "finish_withdrawal now requester (wd_account_user_id e) st True req dest (wd_amount_usdc_cents e) c sig db = Inr (db', r')"
  shows "onchain_moved (wd_account_user_id e) 0 (- wd_amount_credits e) db db'"
    "r' = wd_submitted now sig e"
proof -
  let ?a = "wd_account_user_id e" and ?cents = "wd_amount_usdc_cents e"
  obtain n m db2 where b: "burn_rows now ?a ?cents c requester n m (update_account_wallet ?a (row_withdrawn now ?cents) db) = Inr db2"
    and rb: "read_back (update_withdrawal req (wd_submitted now sig) db2) req = Inr (db', r')"
    using s unfolding finish_withdrawal_def Let_def rbind_Inr_iff map_err_Inr_iff by (elim exE conjE) auto
  show "onchain_moved ?a 0 (- wd_amount_credits e) db db'"
    using submitted_moved [OF inv e b] rb by (simp add: read_back_Inr)
  have "account_withdrawals db2 = account_withdrawals db"
    using burn_rows_only [OF b] only_ledger_tables(2) by fastforce
  then show "r' = wd_submitted now sig e"
    using rb get_updated_withdrawal [of "wd_submitted now sig" db2 db req] e by (simp add: read_back_Inr)
qed

lemma submit_withdrawal_effect:
  assumes inv: "onchain_inv db" and s: "submit_account_withdrawal now wid requester req db = Inr (db', r')"
  shows "\<exists>acct x h. account_user_id_for_device db requester = Some acct \<and> onchain_moved acct x h db db' \<and>
    (x = 0 \<and> h = 0 \<and> db' = db \<or>
     x = 0 \<and> h = - (wr_amount_usdc_cents req * CREDITS_PER_USDC_CENT) \<or>
     x = - (wr_amount_usdc_cents req * CREDITS_PER_USDC_CENT) \<and> - x \<le> account_balance_of db acct \<and> (h = 0 \<or> h = - x))"
proof (rule submit_withdrawal_steps [OF s], goal_cases)
  case (1 request_id dest acct st)
  let ?c = "wr_amount_usdc_cents req * CREDITS_PER_USDC_CENT"
  have same: "onchain_moved acct 0 0 db db" using inv by (simp add: onchain_moved_def)
  show ?case
  proof (cases "get_withdrawal_by_request db request_id")
    case None
    then obtain db0 where i: "insert_withdrawal (new_withdrawal now wid request_id acct dest (wr_amount_usdc_cents req)) db = Inr db0"
      and cs: "reserve_withdrawal now requester acct st request_id (wr_amount_usdc_cents req) ?c db0 = Inr (db', r') \<or>
        (\<exists>sig. finish_withdrawal now requester acct st False request_id dest (wr_amount_usdc_cents req) ?c sig db0 = Inr (db', r'))"
      using 1(6) by auto
    from cs show ?thesis
    proof
      assume "reserve_withdrawal now requester acct st request_id (wr_amount_usdc_cents req) ?c db0 = Inr (db', r')"
      from reserve_moved(1,2) [OF inv 1(5,3) i this] 1(4) show ?thesis
        by (intro exI [of _ acct] exI [of _ "- ?c"] exI [of _ ?c]) simp
    next
      assume "\<exists>sig. finish_withdrawal now requester acct st False request_id dest (wr_amount_usdc_cents req) ?c sig db0 = Inr (db', r')"
      then obtain sig where f: "finish_withdrawal now requester acct st False request_id dest (wr_amount_usdc_cents req) ?c sig db0 = Inr (db', r')" ..
      from burn_moved(1,2) [OF inv 1(5,3) i f] 1(4) show ?thesis
        by (intro exI [of _ acct] exI [of _ "- ?c"] exI [of _ 0]) simp
    qed
  next
    case (Some e)
    show ?thesis
    proof (cases "db' = db")
      case True
      then show ?thesis using same 1(4) by (intro exI [of _ acct] exI [of _ 0]) simp
    next
      case False
      then obtain sig c where e: "wd_account_user_id e = acct" "wd_amount_usdc_cents e = wr_amount_usdc_cents req"
        "wd_status e = ''pending''"
        "finish_withdrawal now requester acct st True request_id dest (wr_amount_usdc_cents req) c sig db = Inr (db', r')"
        using 1(6) Some by auto
      have "wd_amount_credits e = ?c" using pending_row(1) [OF inv Some] e(2) by (simp add: wd_ok_def)
      then have "onchain_moved acct 0 (- ?c) db db'"
        using finish_reserved_moved(1) [OF inv Some e(3), of now requester st dest c sig db' r'] e by simp
      then show ?thesis using 1(4) by (intro exI [of _ acct] exI [of _ 0] exI [of _ "- ?c"]) simp
    qed
  qed
qed

lemma book_deposit_moved:
  assumes inv: "onchain_inv db" and s: "book_deposit now r dev n m db = Inr db'"
  shows "onchain_moved (dp_account_user_id r) (dp_amount_credits r) 0 db db'"
    "account_onchain_deposits db' = account_onchain_deposits db @ [r]" "0 < dp_amount_credits r"
proof -
  let ?a = "dp_account_user_id r"
  let ?db1 = "db\<lparr>account_onchain_deposits := account_onchain_deposits db @ [r]\<rparr>"
  let ?db2 = "update_account_wallet ?a (row_deposit now (dp_amount_usdc_cents r) (dp_amount_credits r)) ?db1"
  obtain db3 where i: "insert_deposit r db = Inr ?db1" "0 < dp_amount_credits r" "account_exists db ?a"
    and l: "insert_account_ledger ?a ''usdc'' (dp_amount_usdc_cents r) ''ONCHAIN_DEPOSIT_IN'' now (Some dev) (Some n) None ?db2 = Inr db3"
      "insert_account_ledger ?a ''credits'' (dp_amount_credits r) ''ONCHAIN_DEPOSIT_CREDIT'' now (Some dev) (Some m) None db3 = Inr db'"
    using s by (auto simp: book_deposit_def insert_deposit_def Let_def split: if_splits)
  have o: "only_ledger ?db2 db'"
    using insert_account_ledger_only [OF l(1)] insert_account_ledger_only [OF l(2)] only_ledger_trans by blast
  show "0 < dp_amount_credits r" by (rule i(2))
  show "account_onchain_deposits db' = account_onchain_deposits db @ [r]"
    using o by (auto simp: only_ledger_def stmt_defs)
  have w: "same_wallets db ?db1" by (simp add: same_wallets_def)
  note obs = same_wallets_obs [OF w]
  have ok1: "db_ok ?db1" using inv by (simp add: onchain_inv_def db_ok_def keys_ok_def wallets_nonneg_def)
  have ex1: "account_exists ?db1 ?a" using i(3) obs by simp
  have nn: "0 \<le> account_balance_of ?db1 ?a + dp_amount_credits r"
    using account_ok_nonneg [OF ok1, of ?a] i(2) by simp
  have "gap_of ?db1 = gap_of db" by (rule gap_table) simp
  moreover have "pending_cents ?db2 = pending_cents db" "held_credits ?db2 = held_credits db"
    by (rule withdrawals_obs; simp)+
  ultimately have "onchain_inv ?db2"
    using inv dep.obs_ok [OF ok1 nn] ex1 obs
    by (simp add: onchain_inv_def links_ok_def gap_of_posts dep.obs_exists)
  then have "onchain_moved ?a (dp_amount_credits r) 0 db ?db2"
    using ok1 ex1 obs \<open>held_credits ?db2 = held_credits db\<close>
    by (simp add: onchain_moved_def dep.obs_total dep.obs_balance)
  then show "onchain_moved ?a (dp_amount_credits r) 0 db db'" by (rule onchain_moved_ledger [OF _ o])
qed

lemma enable_moved:
  assumes inv: "onchain_inv db" and ex: "account_exists db acct"
  shows "onchain_moved acct 0 0 db (update_account_wallet acct (row_enable_solana now addr) db)"
proof -
  let ?db1 = "update_account_wallet acct (row_enable_solana now addr) db"
  have ok: "db_ok db" using inv by (simp add: onchain_inv_def)
  have "pending_cents ?db1 = pending_cents db" "held_credits ?db1 = held_credits db" by (rule withdrawals_obs; simp)+
  then show ?thesis
    using inv ex ok enable.obs_ok [OF ok, of acct] account_ok_nonneg [OF ok, of acct]
    by (simp add: onchain_moved_def onchain_inv_def links_ok_def gap_of_posts enable.obs_total enable.obs_balance)
qed

lemma onchain_moved_trans:
  "onchain_moved a x h db db1 \<Longrightarrow> onchain_moved a y k db1 db2 \<Longrightarrow> onchain_moved a (x + y) (h + k) db db2"
  by (auto simp: onchain_moved_def)

lemma treasury_deposit_effect:
  assumes inv: "onchain_inv db"
    and s: "record_account_treasury_deposit now did requester sig cents src treasury db = Inr (db', snap)"
  obtains acct where "account_user_id_for_device db requester = Some acct" "0 < cents"
    "deposit_by_signature db sig \<noteq> None \<Longrightarrow> db' = db"
    "deposit_by_signature db sig = None \<Longrightarrow> onchain_moved acct (cents * CREDITS_PER_USDC_CENT) 0 db db'"
    "\<exists>d. deposit_by_signature db' sig = Some d \<and> dp_account_user_id d = acct \<and> dp_amount_usdc_cents d = cents \<and>
      dp_solana_address d = treasury"
proof -
  obtain acct credits where h: "account_user_id_for_device db requester = Some acct" "0 < cents"
      "credits_from_usdc_cents cents = Inr credits"
    and k: "(case deposit_by_signature db sig of
         Some e \<Rightarrow>
           if dp_account_user_id e \<noteq> acct \<or> dp_solana_address e \<noteq> treasury \<or> dp_amount_usdc_cents e \<noteq> cents
           then Inl DepositConflict else Inr db
       | None \<Rightarrow> map_err OnchainOther (book_deposit now
           \<lparr>dp_deposit_id = did, dp_account_user_id = acct, dp_tx_signature = sig,
             dp_solana_address = treasury, dp_source_address = src, dp_amount_usdc_cents = cents,
             dp_amount_credits = credits, dp_created_at = now\<rparr> requester
           (''treasury deposit '' @ sig) (''credited from treasury deposit '' @ sig) db)) = Inr db'"
    using s unfolding record_account_treasury_deposit_def Let_def rbind_Inr_iff ensure_Inr_iff ok_or_Inr_iff linked_account_def map_err_Inr_iff
    by (elim exE conjE) simp
  note c = credits_from_usdc_cents_Inr [OF h(3)]
  show thesis
  proof (cases "deposit_by_signature db sig")
    case (Some e)
    then show thesis using k h by (intro that [of acct]) (auto split: if_splits)
  next
    case None
    let ?r = "\<lparr>dp_deposit_id = did, dp_account_user_id = acct, dp_tx_signature = sig,
      dp_solana_address = treasury, dp_source_address = src, dp_amount_usdc_cents = cents,
      dp_amount_credits = credits, dp_created_at = now\<rparr>"
    have b: "book_deposit now ?r requester (''treasury deposit '' @ sig) (''credited from treasury deposit '' @ sig) db = Inr db'"
      using k None by simp
    note e = book_deposit_moved [OF inv b]
    have "deposit_by_signature db' sig = Some ?r"
      using None by (simp add: deposit_by_signature_def e(2) find_append)
    then show thesis using e(1) h c None by (intro that [of acct]) simp_all
  qed
qed

end
