(* ===== verification/Onchain_Laws.thy ===== *)
theory Onchain_Laws
  imports Onchain
begin

text \<open>
  The withdrawals as a state machine: the step relation of the deposit and withdrawal operations, the
  life of one withdrawal, and the properties of both.
\<close>

section \<open>The step relation\<close>

inductive onchain_step :: "gateway_db \<Rightarrow> gateway_db \<Rightarrow> bool" where
  deposit: "record_account_onchain_deposit now did d req db = Inr (db', snap) \<Longrightarrow> onchain_step db db'"
| treasury: "record_account_treasury_deposit now did d sig cents src addr db = Inr (db', snap) \<Longrightarrow> onchain_step db db'"
| submit: "submit_account_withdrawal now wid d wreq db = Inr (db', w) \<Longrightarrow> onchain_step db db'"
| complete: "complete_account_withdrawal_from_treasury now rid sig db = Inr (db', w) \<Longrightarrow> onchain_step db db'"
| reject: "reject_account_withdrawal now rid reason db = Inr (db', w) \<Longrightarrow> onchain_step db db'"

text \<open>The life of one withdrawal.\<close>

inductive wd_next :: "withdrawal_row \<Rightarrow> withdrawal_row \<Rightarrow> bool" where
  stay: "wd_next r r"
| submitted: "wd_status r = ''pending'' \<Longrightarrow> wd_next r (wd_submitted now sig r)"
| rejected: "wd_status r = ''pending'' \<Longrightarrow> wd_next r (wd_rejected now r)"

inductive_cases wd_nextE: "wd_next r r'"

definition withdrawals_evolve :: "gateway_db \<Rightarrow> gateway_db \<Rightarrow> bool" where
  "withdrawals_evolve db db' \<longleftrightarrow> (\<forall>req r. get_withdrawal_by_request db req = Some r \<longrightarrow>
     (\<exists>r'. get_withdrawal_by_request db' req = Some r' \<and> wd_next r r'))"

section \<open>Lemmas\<close>

lemma record_onchain_signature_Inr:
  assumes "record_onchain_signature now did requester acct addr req sig db = Inr db'"
  shows "db' = db \<or> (\<exists>r dev n m. book_deposit now r dev n m db = Inr db' \<and> dp_account_user_id r = acct)"
proof (cases "deposit_by_signature db sig")
  case None
  then obtain r n m where "book_deposit now r requester n m db = Inr db'" "dp_account_user_id r = acct"
    using assms unfolding record_onchain_signature_def Let_def rbind_Inr_iff ok_or_Inr_iff ensure_Inr_iff
    by (elim exE conjE) simp
  then show ?thesis by blast
next
  case (Some e)
  then show ?thesis
    using assms unfolding record_onchain_signature_def Let_def rbind_Inr_iff ok_or_Inr_iff ensure_Inr_iff
    by (elim exE conjE) (simp split: if_splits)
qed

lemma onchain_deposit_effect:
  assumes inv: "onchain_inv db" and s: "record_account_onchain_deposit now did requester req db = Inr (db', snap)"
  obtains acct x where "account_user_id_for_device db requester = Some acct" "onchain_moved acct x 0 db db'" "0 \<le> x"
    "account_withdrawals db' = account_withdrawals db"
proof -
  obtain acct st addr where h: "account_user_id_for_device db requester = Some acct" "wallet_state db acct = Inr st"
    and k: "(case normalized_optional_string (di_tx_signature req) of
         None \<Rightarrow> Inr (update_account_wallet acct (row_enable_solana now addr) db)
       | Some sig \<Rightarrow> record_onchain_signature now did requester acct addr req sig
           (update_account_wallet acct (row_enable_solana now addr) db)) = Inr db'"
    using s unfolding record_account_onchain_deposit_def Let_def rbind_Inr_iff ok_or_Inr_iff linked_account_def
    by (elim exE conjE) simp
  let ?db1 = "update_account_wallet acct (row_enable_solana now addr) db"
  have m: "onchain_moved acct 0 0 db ?db1" using enable_moved [OF inv wallet_state_Inr(1) [OF h(2)]] .
  then have inv1: "onchain_inv ?db1" by (simp add: onchain_moved_def)
  have "db' = ?db1 \<or> (\<exists>r dev n m'. book_deposit now r dev n m' ?db1 = Inr db' \<and> dp_account_user_id r = acct)"
    using k record_onchain_signature_Inr [of now did requester acct addr req _ ?db1 db']
    by (cases "normalized_optional_string (di_tx_signature req)") simp_all
  then show thesis
  proof
    assume "db' = ?db1"
    then show thesis using m by (intro that [OF h(1), of 0]) simp_all
  next
    assume "\<exists>r dev n m'. book_deposit now r dev n m' ?db1 = Inr db' \<and> dp_account_user_id r = acct"
    then obtain r dev n m' where b: "book_deposit now r dev n m' ?db1 = Inr db'" "dp_account_user_id r = acct" by blast
    note e = book_deposit_moved [OF inv1 b(1)]
    have "account_withdrawals db' = account_withdrawals ?db1"
      using b(1) by (auto simp: book_deposit_def insert_deposit_def insert_account_ledger_def Let_def stmt_defs split: if_splits)
    then show thesis
      using onchain_moved_trans [OF m] e b(2) by (intro that [OF h(1), of "dp_amount_credits r"]) simp_all
  qed
qed

lemma book_deposit_withdrawals:
  "book_deposit now r dev n m db = Inr db' \<Longrightarrow> account_withdrawals db' = account_withdrawals db"
  by (auto simp: book_deposit_def insert_deposit_def insert_account_ledger_def Let_def stmt_defs split: if_splits)

lemma treasury_deposit_withdrawals:
  "record_account_treasury_deposit now did requester sig cents src addr db = Inr (db', snap) \<Longrightarrow>
     account_withdrawals db' = account_withdrawals db"
  by (auto simp: record_account_treasury_deposit_def Let_def book_deposit_withdrawals split: option.splits if_splits)

lemma onchain_step_moved:
  assumes "onchain_step db db'" and inv: "onchain_inv db"
  shows "\<exists>a x h. onchain_moved a x h db db'"
  using assms(1)
proof cases
  case (deposit now did d req snap)
  show ?thesis by (rule onchain_deposit_effect [OF inv deposit]) blast
next
  case (treasury now did d sig cents src addr snap)
  have m: "onchain_moved a 0 0 db db" for a using inv by (simp add: onchain_moved_def)
  show ?thesis
  proof (rule treasury_deposit_effect [OF inv treasury], goal_cases)
    case (1 acct)
    then show ?case using m by (cases "deposit_by_signature db sig") auto
  qed
next
  case (submit now wid d wreq w)
  then show ?thesis using submit_withdrawal_effect [OF inv] by blast
next
  case (complete now rid sig w)
  have m: "onchain_moved a 0 0 db db" for a using inv by (simp add: onchain_moved_def)
  show ?thesis by (rule complete_withdrawal_effect [OF inv complete]) (use m in blast)+
next
  case (reject now rid reason w)
  show ?thesis by (rule reject_withdrawal_effect [OF inv reject]) blast
qed

lemma evolve_same: "account_withdrawals db' = account_withdrawals db \<Longrightarrow> withdrawals_evolve db db'"
  by (auto simp: withdrawals_evolve_def get_withdrawal_by_request_def intro: wd_next.stay)

lemma evolve_append: "account_withdrawals db' = account_withdrawals db @ rows \<Longrightarrow> withdrawals_evolve db db'"
  by (auto simp: withdrawals_evolve_def get_withdrawal_by_request_def find_append intro: wd_next.stay)

lemma evolve_update:
  assumes "get_withdrawal_by_request db req = Some r" "wd_next r (f r)"
    and f: "\<And>q. wd_request_id (f q) = wd_request_id q" and "account_withdrawals db1 = account_withdrawals db"
  shows "withdrawals_evolve db (update_withdrawal req f db1)"
  unfolding withdrawals_evolve_def
proof (intro allI impI)
  fix x q assume q: "get_withdrawal_by_request db x = Some q"
  have "get_withdrawal_by_request (update_withdrawal req f db1) x =
      (if x = req then Some (f r) else get_withdrawal_by_request db x)"
    using assms(1,4) find_sql_update [of wd_request_id f x req "account_withdrawals db", OF f]
    by (simp add: get_withdrawal_by_request_def stmt_defs)
  then show "\<exists>r'. get_withdrawal_by_request (update_withdrawal req f db1) x = Some r' \<and> wd_next q r'"
    using q assms(1,2) by (cases "x = req") (auto intro: wd_next.stay)
qed

lemma evolve_trans_terminal:
  assumes "withdrawals_evolve db db1" "get_withdrawal_by_request db req = Some r" "wd_status r \<noteq> ''pending''"
  shows "get_withdrawal_by_request db1 req = Some r"
  using assms by (auto simp: withdrawals_evolve_def elim!: wd_nextE)

lemma finish_evolves:
  assumes e: "get_withdrawal_by_request db req = Some e" "wd_status e = ''pending''"
    and s: "finish_withdrawal now requester acct st True req dest cents c sig db = Inr (db', r')"
  shows "withdrawals_evolve db db'"
proof -
  obtain n m db2 where b: "burn_rows now acct cents c requester n m (update_account_wallet acct (row_withdrawn now cents) db) = Inr db2"
    and rb: "read_back (update_withdrawal req (wd_submitted now sig) db2) req = Inr (db', r')"
    using s unfolding finish_withdrawal_def Let_def rbind_Inr_iff map_err_Inr_iff by (elim exE conjE) auto
  have "account_withdrawals db2 = account_withdrawals db"
    using burn_rows_only [OF b] only_ledger_tables(2) by fastforce
  then have "withdrawals_evolve db (update_withdrawal req (wd_submitted now sig) db2)"
    by (intro evolve_update [OF e(1)] wd_next.submitted e(2)) simp_all
  then show ?thesis using rb by (simp add: read_back_Inr)
qed

lemma submit_evolves:
  assumes inv: "onchain_inv db" and s: "submit_account_withdrawal now wid d req db = Inr (db', w)"
  shows "withdrawals_evolve db db'"
proof (rule submit_withdrawal_steps [OF s], goal_cases)
  case (1 rid dest acct st)
  show ?case
  proof (cases "get_withdrawal_by_request db rid")
    case None
    then obtain db0 where i: "insert_withdrawal (new_withdrawal now wid rid acct dest (wr_amount_usdc_cents req)) db = Inr db0"
      and cs: "reserve_withdrawal now d acct st rid (wr_amount_usdc_cents req)
          (wr_amount_usdc_cents req * CREDITS_PER_USDC_CENT) db0 = Inr (db', w) \<or>
        (\<exists>sig. finish_withdrawal now d acct st False rid dest (wr_amount_usdc_cents req)
          (wr_amount_usdc_cents req * CREDITS_PER_USDC_CENT) sig db0 = Inr (db', w))"
      using 1(6) by auto
    from cs show ?thesis
      using reserve_moved(3) [OF inv 1(5,3) i] burn_moved(3) [OF inv 1(5,3) i] evolve_append by blast
  next
    case (Some e)
    then show ?thesis
      using 1(6) finish_evolves [OF Some] evolve_same [of db db] by auto
  qed
qed

lemma onchain_step_evolves:
  assumes "onchain_step db db'" and inv: "onchain_inv db"
  shows "withdrawals_evolve db db'"
  using assms(1)
proof cases
  case (deposit now did d req snap)
  show ?thesis by (rule onchain_deposit_effect [OF inv deposit]) (rule evolve_same)
next
  case (treasury now did d sig cents src addr snap)
  show ?thesis by (rule evolve_same [OF treasury_deposit_withdrawals [OF treasury]])
next
  case (submit now wid d wreq w)
  then show ?thesis by (rule submit_evolves [OF inv])
next
  case (complete now rid sig w)
  obtain r where r: "get_withdrawal_by_request db rid = Some r"
    using complete by (auto simp: complete_account_withdrawal_from_treasury_def)
  show ?thesis
  proof (cases "wd_status r = ''pending''")
    case True
    then obtain db1 c n m where b: "burn_rows now (wd_account_user_id r) c (wd_amount_credits r) ''treasury-payout'' n m
        (update_account_wallet (wd_account_user_id r) (row_withdrawn now (wd_amount_usdc_cents r)) db) = Inr db1"
      and db': "db' = update_withdrawal rid (wd_submitted now sig) db1"
      using complete r by (auto simp: complete_account_withdrawal_from_treasury_def Let_def read_back_Inr split: if_splits)
    have "account_withdrawals db1 = account_withdrawals db"
      using burn_rows_only [OF b] only_ledger_tables(2) by fastforce
    then show ?thesis unfolding db' by (intro evolve_update [OF r] wd_next.submitted True) simp_all
  next
    case False
    then show ?thesis
      using complete r evolve_same [of db db] by (auto simp: complete_account_withdrawal_from_treasury_def split: if_splits)
  qed
next
  case (reject now rid reason w)
  obtain r db1 n where r: "get_withdrawal_by_request db rid = Some r" "wd_status r = ''pending''"
    and l: "insert_account_ledger (wd_account_user_id r) ''credits'' (wd_amount_credits r)
      ''ONCHAIN_WITHDRAWAL_REFUND'' now (Some ''treasury-payout'') n None
      (update_account_wallet (wd_account_user_id r) (row_unhold now (wd_amount_usdc_cents r) (wd_amount_credits r)) db) = Inr db1"
    and db': "db' = update_withdrawal rid (wd_rejected now) db1"
    using reject unfolding reject_account_withdrawal_def Let_def rbind_Inr_iff ensure_Inr_iff ok_or_Inr_iff map_err_Inr_iff read_back_Inr
    by (elim exE conjE) simp
  have "account_withdrawals db1 = account_withdrawals db"
    using insert_account_ledger_only [OF l] only_ledger_tables(2) by fastforce
  then show ?thesis unfolding db' by (intro evolve_update [OF r(1)] wd_next.rejected r(2)) simp_all
qed

lemma onchain_run_inv: "onchain_step\<^sup>*\<^sup>* db db' \<Longrightarrow> onchain_inv db \<Longrightarrow> onchain_inv db'"
  by (induction rule: rtranclp_induct) (auto dest: onchain_step_moved simp: onchain_moved_def)

lemma submit_new_pending:
  assumes "submit_account_withdrawal now wid d req db = Inr (db1, w)"
    and "normalized_optional_string (Some (wr_request_id req)) = Some rid"
    and "get_withdrawal_by_request db rid = None" and "normalized_optional_string (wr_tx_signature req) = None"
    and "normalized_optional_string (Some (wr_request_id req)) = Some rid'"
    "normalized_optional_string (Some (wr_destination_address req)) = Some dest"
    "0 < wr_amount_usdc_cents req" "account_user_id_for_device db d = Some acct" "wallet_state db acct = Inr st"
  shows "\<exists>db0. insert_withdrawal (new_withdrawal now wid rid acct dest (wr_amount_usdc_cents req)) db = Inr db0 \<and>
    reserve_withdrawal now d acct st rid (wr_amount_usdc_cents req)
      (wr_amount_usdc_cents req * CREDITS_PER_USDC_CENT) db0 = Inr (db1, w)"
  using assms unfolding submit_account_withdrawal_def Let_def
  by (auto simp: linked_account_def new_withdrawal_def dest!: credits_from_usdc_cents_Inr)

section \<open>A concrete account\<close>

text \<open>An account with three dollar cents deposited, its wallet enabled for withdrawals.\<close>

definition bank_step :: "('e + gateway_db \<times> 'a) \<Rightarrow> gateway_db" where
  "bank_step r = (case r of Inl _ \<Rightarrow> empty_db | Inr (db, _) \<Rightarrow> db)"

definition bank_db :: gateway_db where
  "bank_db = bank_step (record_account_treasury_deposit 20 ''dep_1'' ''phone'' ''sig1'' 3 None ''treasury''
     (bank_step (record_account_onchain_deposit 19 ''dep_0'' ''phone''
       \<lparr>di_solana_address = Some ''sol'', di_tx_signature = None, di_source_address = None,
         di_amount_usdc_cents = None\<rparr> linked_db)))"

definition bank_request :: "string \<Rightarrow> int \<Rightarrow> string option \<Rightarrow> AccountWithdrawalRequest" where
  "bank_request rid cents sig = \<lparr>wr_request_id = rid, wr_destination_address = ''dest'',
     wr_amount_usdc_cents = cents, wr_tx_signature = sig\<rparr>"

definition held_db :: gateway_db where
  "held_db = bank_step (submit_account_withdrawal 21 ''wd_1'' ''phone'' (bank_request ''r1'' 2 None) bank_db)"

definition paid_db :: gateway_db where
  "paid_db = bank_step (complete_account_withdrawal_from_treasury 22 ''r1'' ''payout'' held_db)"

lemma bank_step_Inr: "\<not> isl r \<Longrightarrow> \<exists>x. r = Inr (bank_step r, x)"
  by (cases r) (auto simp: bank_step_def)

definition onchain_inv_exec :: "gateway_db \<Rightarrow> bool" where
  "onchain_inv_exec db \<longleftrightarrow> db_ok db \<and> links_ok db \<and>
     list_all (\<lambda>r. wd_ok r \<and> account_exists db (wd_account_user_id r)) (account_withdrawals db) \<and>
     list_all (\<lambda>w. usdc_gap w = pending_cents db (aw_account_user_id w)) (account_wallets db)"

lemma onchain_inv_iff: "onchain_inv db \<longleftrightarrow> onchain_inv_exec db"
proof -
  have "(\<forall>a. account_exists db a \<longrightarrow> gap_of db a = pending_cents db a) \<longleftrightarrow>
      list_all (\<lambda>w. usdc_gap w = pending_cents db (aw_account_user_id w)) (account_wallets db)" if "db_ok db"
  proof -
    have g: "gap_of db (aw_account_user_id w) = usdc_gap w" if "w \<in> set (account_wallets db)" for w
      using row_amount_eq [OF _ that, of aw_account_user_id usdc_gap] \<open>db_ok db\<close>
      by (simp add: gap_of_def db_ok_def keys_ok_def)
    show ?thesis by (auto simp: account_exists_iff list_all_iff g)
  qed
  then show ?thesis by (auto simp: onchain_inv_def onchain_inv_exec_def)
qed

lemma bank_inv: "onchain_inv bank_db" "onchain_inv held_db"
  unfolding onchain_inv_iff by code_simp+

section \<open>Properties\<close>

text \<open>
C27. Whatever sequence of deposits, withdrawal requests, payouts and rejections runs, every withdrawal is
pending, paid with a signature or rejected without one, and the dollars of every account are what was
deposited less what was paid out less what its pending withdrawals reserve; balances of credits never
become negative.
\<close>

theorem onchain_invariant:
  assumes "onchain_inv db" and "onchain_step\<^sup>*\<^sup>* db db'"
  shows "db_ok db' \<and> list_all wd_ok (account_withdrawals db') \<and>
    list_all (\<lambda>w. aw_usdc_cents w = aw_deposited_usdc_cents_total w - aw_withdrawn_usdc_cents_total w
      - pending_cents db' (aw_account_user_id w) \<and> 0 \<le> aw_balance_credits w) (account_wallets db')"
  using onchain_run_inv [OF assms(2,1)] unfolding onchain_inv_iff onchain_inv_exec_def usdc_gap_def
  by (auto simp: list_all_iff db_ok_def wallets_nonneg_def)

theorem onchain_invariant_witness:
  "db_ok held_db \<and> list_all wd_ok (account_withdrawals held_db) \<and> onchain_inv bank_db"
proof -
  have "\<not> isl (submit_account_withdrawal 21 ''wd_1'' ''phone'' (bank_request ''r1'' 2 None) bank_db)" by code_simp
  from bank_step_Inr [OF this] have "onchain_step bank_db held_db"
    unfolding held_db_def by (auto intro: onchain_step.submit)
  then show ?thesis using onchain_invariant [OF bank_inv(1)] bank_inv(1) by blast
qed

text \<open>
C28. A withdrawal that has been paid or rejected is final: no later deposit, request, payout or rejection
changes its row. A rejected withdrawal is never paid, a paid one never refunded, and neither is paid
twice.
\<close>

theorem withdrawal_final:
  assumes "onchain_inv db" and "get_withdrawal_by_request db req = Some r" and "wd_status r \<noteq> ''pending''"
    and "onchain_step\<^sup>*\<^sup>* db db'"
  shows "get_withdrawal_by_request db' req = Some r"
  using assms(4,1-3)
proof (induction rule: rtranclp_induct)
  case (step db1 db2)
  have "onchain_inv db1" by (rule onchain_run_inv [OF step.hyps(1) step.prems(1)])
  then have "withdrawals_evolve db1 db2" by (rule onchain_step_evolves [OF step.hyps(2)])
  then show ?case by (rule evolve_trans_terminal [OF _ step.IH [OF step.prems] step.prems(3)])
qed simp

theorem withdrawal_final_witness:
  "\<exists>r. get_withdrawal_by_request paid_db ''r1'' = Some r \<and> wd_status r = ''submitted'' \<and>
     get_withdrawal_by_request (bank_step (submit_account_withdrawal 30 ''wd_2'' ''phone''
       (bank_request ''r1'' 2 None) paid_db)) ''r1'' = Some r"
proof -
  define r where "r = the (get_withdrawal_by_request paid_db ''r1'')"
  have inv: "onchain_inv paid_db" unfolding onchain_inv_iff by code_simp
  have g: "get_withdrawal_by_request paid_db ''r1'' = Some r" "wd_status r = ''submitted''"
    unfolding r_def by code_simp+
  have "\<not> isl (submit_account_withdrawal 30 ''wd_2'' ''phone'' (bank_request ''r1'' 2 None) paid_db)" by code_simp
  from bank_step_Inr [OF this] have "onchain_step paid_db (bank_step (submit_account_withdrawal 30 ''wd_2'' ''phone''
      (bank_request ''r1'' 2 None) paid_db))" by (auto intro: onchain_step.submit)
  then show ?thesis using withdrawal_final [OF inv g(1)] g by auto
qed

text \<open>
Rejecting a pending withdrawal gives back exactly what the request reserved: the account, all other
wallets, the reserved credits and the credits in the system are as before the request.
\<close>

theorem reject_restores:
  assumes "onchain_inv db" and "normalized_optional_string (Some (wr_request_id req)) = Some rid"
    and "get_withdrawal_by_request db rid = None" and "normalized_optional_string (wr_tx_signature req) = None"
    and "submit_account_withdrawal now wid d req db = Inr (db1, w)"
    and "reject_account_withdrawal now' rid reason db1 = Inr (db2, w')"
  shows "account_balance_of db2 = account_balance_of db \<and> balance_of db2 = balance_of db \<and>
    total_credits db2 = total_credits db \<and> held_credits db2 = held_credits db"
proof (rule submit_withdrawal_steps [OF assms(5)], goal_cases)
  case (1 rid' dest acct st)
  let ?c = "wr_amount_usdc_cents req * CREDITS_PER_USDC_CENT"
  let ?w = "new_withdrawal now wid rid acct dest (wr_amount_usdc_cents req)"
  have rid: "rid' = rid" using 1(1) assms(2) by simp
  obtain db0 where i: "insert_withdrawal ?w db = Inr db0"
    and s: "reserve_withdrawal now d acct st rid (wr_amount_usdc_cents req) ?c db0 = Inr (db1, w)"
    using submit_new_pending [OF assms(5,2-4) 1(1-5)] by auto
  note e = reserve_moved [OF assms(1) 1(5,3) i s]
  have inv1: "onchain_inv db1" using e(2) by (simp add: onchain_moved_def)
  have g: "get_withdrawal_by_request db1 rid = Some ?w"
    using assms(3) by (simp add: get_withdrawal_by_request_def e(3) find_append)
  show ?case
  proof (rule reject_withdrawal_effect [OF inv1 assms(6)], goal_cases)
    case (1 r)
    then have "r = ?w" using g by simp
    then show ?case using 1(5) e(2) by (simp add: onchain_moved_def fun_eq_iff)
  qed
qed

theorem reject_restores_witness:
  "\<exists>db2 w'. reject_account_withdrawal 25 ''r1'' None held_db = Inr (db2, w') \<and>
     account_balance_of db2 = account_balance_of bank_db"
proof -
  have "\<not> isl (submit_account_withdrawal 21 ''wd_1'' ''phone'' (bank_request ''r1'' 2 None) bank_db)" by code_simp
  from bank_step_Inr [OF this] obtain w where
    s: "submit_account_withdrawal 21 ''wd_1'' ''phone'' (bank_request ''r1'' 2 None) bank_db = Inr (held_db, w)"
    by (auto simp: held_db_def)
  have "\<not> isl (reject_account_withdrawal 25 ''r1'' None held_db)" by code_simp
  from bank_step_Inr [OF this] obtain db2 w' where r: "reject_account_withdrawal 25 ''r1'' None held_db = Inr (db2, w')" by blast
  have "normalized_optional_string (Some (wr_request_id (bank_request ''r1'' 2 None))) = Some ''r1''"
    "get_withdrawal_by_request bank_db ''r1'' = None"
    "normalized_optional_string (wr_tx_signature (bank_request ''r1'' 2 None)) = None" by code_simp+
  from reject_restores [OF bank_inv(1) this s r] show ?thesis using r by blast
qed



text \<open>
Paying out a pending withdrawal takes the credits from the reserve and from nowhere else: no wallet
changes, the reserved credits drop by exactly its amount, and the row records the signature. A second
call with the same signature changes nothing, one with another signature is refused.
\<close>

theorem payout_from_reserve:
  assumes "onchain_inv db" and "get_withdrawal_by_request db rid = Some r" and "wd_status r = ''pending''"
    and "complete_account_withdrawal_from_treasury now rid sig db = Inr (db1, w)"
  shows "account_balance_of db1 = account_balance_of db \<and> balance_of db1 = balance_of db \<and>
    held_credits db1 = held_credits db - wd_amount_credits r \<and> wd_tx_signature w = Some sig \<and>
    complete_account_withdrawal_from_treasury now' rid sig db1 = Inr (db1, w) \<and>
    (sig' \<noteq> sig \<longrightarrow> complete_account_withdrawal_from_treasury now' rid sig' db1 = Inl WithdrawalConflict)"
proof (rule complete_withdrawal_effect [OF assms(1,4)], goal_cases)
  case 1
  then show ?case using assms(2,3) by simp
next
  case (2 r0)
  then have "r0 = r" using assms(2) by simp
  then show ?case
    using 2 by (simp add: onchain_moved_def fun_eq_iff complete_account_withdrawal_from_treasury_def)
qed

theorem payout_from_reserve_witness:
  "held_credits held_db = 20000 \<and> held_credits paid_db = 0"
proof -
  define r where "r = the (get_withdrawal_by_request held_db ''r1'')"
  have g: "get_withdrawal_by_request held_db ''r1'' = Some r" "wd_status r = ''pending''" "wd_amount_credits r = 20000"
    "held_credits held_db = 20000" unfolding r_def by code_simp+
  have "\<not> isl (complete_account_withdrawal_from_treasury 22 ''r1'' ''payout'' held_db)" by code_simp
  from bank_step_Inr [OF this] obtain w where
    "complete_account_withdrawal_from_treasury 22 ''r1'' ''payout'' held_db = Inr (paid_db, w)"
    by (auto simp: paid_db_def)
  from payout_from_reserve [OF bank_inv(2) g(1,2) this, of 0 "''x''"] g show ?thesis by simp
qed

section \<open>What the ledger rows do not show\<close>

text \<open>A paid-out withdrawal leaves two negative rows in the account ledger, the hold and the burn, so the
  credit rows of the account no longer add up to its balance.\<close>

lemma ledger_counts_payout_twice:
  "account_balance_of paid_db ''acct'' = 10000 \<and>
   table_sum al_amount (filter (\<lambda>l. al_account_user_id l = ''acct'' \<and> al_asset l = ''credits'') (account_ledger paid_db)) = - 10000"
  by code_simp

text \<open>The dollars of an account become negative when it withdraws credits it was given rather than ones it
  bought.\<close>

lemma usdc_can_be_negative:
  "map aw_usdc_cents (account_wallets (bank_step (submit_account_withdrawal 40 ''wd_9'' ''phone'' (bank_request ''r9'' 5 None)
     (bank_step (record_account_bonus 30 ''acct'' 100000 None ''gift'' bank_db))))) = [- 2]"
  by code_simp

text \<open>Two requests of one account in the same second: the second call reports the first withdrawal, because
  it reads back the greatest identifier of that second.\<close>

lemma same_second_reports_other_request:
  "(case submit_account_withdrawal 21 ''wd_0'' ''phone'' (bank_request ''r2'' 1 None) held_db of
      Inl _ \<Rightarrow> None | Inr (_, w) \<Rightarrow> Some (wd_request_id w)) = Some ''r1''"
  by code_simp

end
