(* ===== verification/Availability.thy ===== *)
theory Availability
  imports Device_Wallets
begin

text \<open>
  The availability drip (\<open>reconcile_availability_sessions\<close> of \<open>gateway/src/ledger.rs\<close>): every tick the
  devices that keep a model available are paid out of the mint pool, and one ledger row is written for a
  whole session when it ends. The rates and the demand weighting are computed in floating point before
  the call; the recipients are an argument.
\<close>

section \<open>Operations\<close>

record DripRecipient =
  dr_device_id :: string
  dr_credits :: int
  dr_model_id :: "string option"

record AvailabilityReconcileReport =
  ar_credited_devices :: nat
  ar_finalized_sessions :: nat

definition load_active_availability_sessions :: "gateway_db \<Rightarrow> availability_session_row list" where
  "load_active_availability_sessions db = availability_sessions db"

definition session_note :: "availability_session_row \<Rightarrow> int \<Rightarrow> string" where
  "session_note s ended_at =
     (let duration_secs = max (saturating_sub_i64 ended_at (as_started_at s)) 1 in
      case as_model_id s of
        Some m \<Rightarrow> ''availability session ended // model='' @ m @ '' // duration='' @ show_int duration_secs @ ''s''
      | None \<Rightarrow> ''availability session ended // duration='' @ show_int duration_secs @ ''s'')"

definition delete_session :: "string \<Rightarrow> gateway_db \<Rightarrow> gateway_db" where
  [stmt_defs]: "delete_session d db = db\<lparr>availability_sessions :=
     sql_delete (\<lambda>r. as_device_id r = d) (availability_sessions db)\<rparr>"

definition finalize_availability_session ::
  "int \<Rightarrow> availability_session_row \<Rightarrow> gateway_db \<Rightarrow> gateway_db" where
  "finalize_availability_session ended_at s db =
     delete_session (as_device_id s)
       (if as_accrued_credits s > 0
        then insert_ledger (as_device_id s) (as_str AvailabilitySession) (as_accrued_credits s) ended_at None
          (Some (session_note s ended_at)) db
        else db)"

text \<open>The source collects the recipients into a hash map: the last recipient of a device counts.\<close>

definition recipient_map :: "DripRecipient list \<Rightarrow> string \<Rightarrow> DripRecipient option" where
  "recipient_map recipients d = find (\<lambda>r. dr_device_id r = d) (rev recipients)"

definition still_matching :: "DripRecipient list \<Rightarrow> availability_session_row \<Rightarrow> bool" where
  "still_matching recipients s = (case recipient_map recipients (as_device_id s) of
      None \<Rightarrow> False | Some r \<Rightarrow> dr_model_id r = as_model_id s)"

definition finalize_stale ::
  "int \<Rightarrow> DripRecipient list \<Rightarrow> availability_session_row list \<Rightarrow> gateway_db \<Rightarrow> gateway_db" where
  "finalize_stale now recipients sessions db =
     fold (finalize_availability_session now) (filter (\<lambda>s. \<not> still_matching recipients s) sessions) db"

definition total_needed :: "DripRecipient list \<Rightarrow> int" where
  "total_needed recipients = (\<Sum>r\<leftarrow>recipients. max (dr_credits r) 0)"

definition take_from_mint_pool :: "int \<Rightarrow> gateway_db \<Rightarrow> gateway_db" where
  [stmt_defs]: "take_from_mint_pool a db =
     db\<lparr>mint_pool := map_option (\<lambda>r. r\<lparr>mp_remaining := mp_remaining r - a\<rparr>) (mint_pool db)\<rparr>"

definition new_session :: "int \<Rightarrow> DripRecipient \<Rightarrow> availability_session_row" where
  "new_session now r = \<lparr>as_device_id = dr_device_id r, as_model_id = dr_model_id r, as_started_at = now,
     as_last_accrued_at = now, as_accrued_credits = dr_credits r\<rparr>"

definition accrue_session :: "availability_session_row \<Rightarrow> availability_session_row \<Rightarrow> availability_session_row" where
  "accrue_session n s = s\<lparr>as_model_id := as_model_id n, as_last_accrued_at := as_last_accrued_at n,
     as_accrued_credits := as_accrued_credits s + as_accrued_credits n\<rparr>"

definition upsert_session :: "availability_session_row \<Rightarrow> gateway_db \<Rightarrow> gateway_db" where
  [stmt_defs]: "upsert_session n db = db\<lparr>availability_sessions :=
     sql_upsert as_device_id n (accrue_session n) (availability_sessions db)\<rparr>"

definition credit_recipient :: "int \<Rightarrow> DripRecipient \<Rightarrow> gateway_db \<Rightarrow> gateway_db" where
  "credit_recipient now r db =
     (let d = dr_device_id r;
          db1 = touch_device now d (ensure_device now d db);
          db2 = update_balance d (row_earn (dr_credits r)) (ensure_balance d db1)
      in upsert_session (new_session now r) db2)"

definition reconcile_availability_sessions ::
  "int \<Rightarrow> DripRecipient list \<Rightarrow> gateway_db \<Rightarrow> anyhow + gateway_db \<times> AvailabilityReconcileReport" where
  "reconcile_availability_sessions now recipients db =
     (let active = load_active_availability_sessions db;
          db1 = finalize_stale now recipients active db;
          finalized = length (filter (\<lambda>s. \<not> still_matching recipients s) active);
          needed = total_needed recipients;
          pay = (\<lambda>db2. Inr (fold (credit_recipient now) recipients db2,
            \<lparr>ar_credited_devices = length recipients, ar_finalized_sessions = finalized\<rparr>)) in
      if needed > 0 then
        (case mint_pool db1 of
           None \<Rightarrow> Inl QueryReturnedNoRows
         | Some mp \<Rightarrow>
             if mp_remaining mp < needed
             then Inr (db1, \<lparr>ar_credited_devices = 0, ar_finalized_sessions = finalized\<rparr>)
             else pay (take_from_mint_pool needed db1))
      else pay db1)"

section \<open>Lemmas: the payments\<close>

lemma session_tables [simp]:
  "same_wallets db (delete_session d db)" "same_wallets db (upsert_session n db)"
  "same_wallets db (take_from_mint_pool a db)"
  "mint_pool (delete_session d db) = mint_pool db" "mint_pool (upsert_session n db) = mint_pool db"
  "share_keys (delete_session d db) = share_keys db" "share_keys (upsert_session n db) = share_keys db"
  "share_keys (take_from_mint_pool a db) = share_keys db"
  "share_key_contributions (delete_session d db) = share_key_contributions db"
  "share_key_contributions (upsert_session n db) = share_key_contributions db"
  "share_key_contributions (take_from_mint_pool a db) = share_key_contributions db"
  "mint_pool (insert_ledger x ty a ts req nt db) = mint_pool db"
  "mint_pool (ensure_device now x db) = mint_pool db" "mint_pool (touch_device now x db) = mint_pool db"
  "mint_pool (ensure_balance x db) = mint_pool db" "mint_pool (update_balance x f db) = mint_pool db"
  by (simp_all add: stmt_defs same_wallets_def)

lemmas delete_session_obs [simp] = same_wallets_obs [OF session_tables(1)]
lemmas upsert_session_obs [simp] = same_wallets_obs [OF session_tables(2)]
lemmas take_from_mint_pool_obs [simp] = same_wallets_obs [OF session_tables(3)]

lemma session_keys [simp]:
  "as_device_id (accrue_session n s) = as_device_id s" "as_device_id (new_session now r) = dr_device_id r"
  by (simp_all add: accrue_session_def new_session_def)

lemma distinct_sql_delete: "distinct (map key t) \<Longrightarrow> distinct (map key (sql_delete P t))"
  by (simp add: sql_delete_def distinct_map_filter)

lemma session_stmt_ok [simp]:
  "db_ok db \<Longrightarrow> db_ok (delete_session d db)" "db_ok db \<Longrightarrow> db_ok (upsert_session n db)"
  "db_ok db \<Longrightarrow> db_ok (take_from_mint_pool a db)"
  by (simp_all add: db_ok_def keys_ok_def wallets_nonneg_def stmt_defs sql_upsert_distinct distinct_sql_delete)

lemma credit_recipient_effect:
  assumes "db_ok db" and "0 \<le> dr_credits r"
  shows "total_credits (credit_recipient now r db) = total_credits db + dr_credits r"
    "balance_of (credit_recipient now r db) d = balance_of db d + (if d = dr_device_id r then dr_credits r else 0)"
    "db_ok (credit_recipient now r db)" "mint_pool (credit_recipient now r db) = mint_pool db"
    "share_keys (credit_recipient now r db) = share_keys db"
    "share_key_contributions (credit_recipient now r db) = share_key_contributions db"
    "account_balance_of (credit_recipient now r db) = account_balance_of db"
  using assms balance_of_nonneg [of db "dr_device_id r"]
  by (simp_all add: credit_recipient_def Let_def earn_obs earn_ok db_ok_nonneg total_credits_def)

text \<open>The third loop over device wallets the gateway has.\<close>

interpretation drip: credit_loop "credit_recipient now" dr_device_id dr_credits total_credits balance_of db_ok
  "\<lambda>r. 0 \<le> dr_credits r"
  by unfold_locales (simp_all add: credit_recipient_effect)

section \<open>Lemmas: the sessions\<close>

definition accrued_of :: "gateway_db \<Rightarrow> string \<Rightarrow> int" where
  "accrued_of db d = row_amount as_device_id as_accrued_credits (availability_sessions db) d"

definition session_rows :: "gateway_db \<Rightarrow> string \<Rightarrow> int" where
  "session_rows db d = table_sum lg_amount
     (filter (\<lambda>r. lg_device_id r = d \<and> lg_type r = ''AVAILABILITY_SESSION'') (ledger db))"

text \<open>What a device has been dripped: the rows of its ended sessions and the open one.\<close>

definition dripped :: "gateway_db \<Rightarrow> string \<Rightarrow> int" where
  "dripped db d = session_rows db d + accrued_of db d"

definition sessions_ok :: "gateway_db \<Rightarrow> bool" where
  "sessions_ok db \<longleftrightarrow> distinct (map as_device_id (availability_sessions db)) \<and>
     list_all (\<lambda>s. 0 \<le> as_accrued_credits s) (availability_sessions db)"

lemma row_amount_delete:
  "row_amount key amt (sql_delete (\<lambda>r. key r = k) t) k' = (if k' = k then 0 else row_amount key amt t k')"
proof -
  have "find (\<lambda>r. key r = k') (sql_delete (\<lambda>r. key r = k) t) = (if k' = k then None else find (\<lambda>r. key r = k') t)"
    by (induction t) (auto simp: sql_delete_def)
  then show ?thesis by (simp add: row_amount_def)
qed

lemma insert_ledger_sessions [simp]:
  "availability_sessions (insert_ledger d ty a ts req n db) = availability_sessions db"
  by (simp add: stmt_defs)

lemma finalize_effect:
  assumes ok: "sessions_ok db" and s: "s \<in> set (availability_sessions db)"
  shows "dripped (finalize_availability_session now s db) d = dripped db d"
    "availability_sessions (finalize_availability_session now s db) =
      filter (\<lambda>r. as_device_id r \<noteq> as_device_id s) (availability_sessions db)"
    "sessions_ok (finalize_availability_session now s db)"
proof -
  let ?db = "finalize_availability_session now s db"
  have a: "accrued_of db (as_device_id s) = as_accrued_credits s" "0 \<le> as_accrued_credits s"
    using ok s row_amount_eq [of as_device_id "availability_sessions db" s as_accrued_credits]
    by (auto simp: accrued_of_def sessions_ok_def list_all_iff)
  show t: "availability_sessions ?db = filter (\<lambda>r. as_device_id r \<noteq> as_device_id s) (availability_sessions db)"
    by (simp add: finalize_availability_session_def delete_session_def sql_delete_def)
  then show "sessions_ok ?db" using ok by (auto simp: sessions_ok_def distinct_map_filter list_all_iff)
  have "accrued_of ?db d = (if d = as_device_id s then 0 else accrued_of db d)"
    using row_amount_delete [of as_device_id as_accrued_credits "as_device_id s" "availability_sessions db" d]
    by (simp add: accrued_of_def t sql_delete_def)
  moreover have "session_rows ?db d = session_rows db d + (if d = as_device_id s then as_accrued_credits s else 0)"
    using a(2) by (auto simp: session_rows_def finalize_availability_session_def stmt_defs)
  ultimately show "dripped ?db d = dripped db d" using a(1) by (auto simp: dripped_def)
qed

lemma finalize_obs [simp]:
  "total_credits (finalize_availability_session now s db) = total_credits db"
  "balance_of (finalize_availability_session now s db) = balance_of db"
  "mint_pool (finalize_availability_session now s db) = mint_pool db"
  "share_keys (finalize_availability_session now s db) = share_keys db"
  "share_key_contributions (finalize_availability_session now s db) = share_key_contributions db"
  "account_balance_of (finalize_availability_session now s db) = account_balance_of db"
  "db_ok db \<Longrightarrow> db_ok (finalize_availability_session now s db)"
  by (simp_all add: finalize_availability_session_def)

lemma finalize_loop_obs:
  "total_credits (fold (finalize_availability_session now) ss db) = total_credits db"
  "balance_of (fold (finalize_availability_session now) ss db) = balance_of db"
  "mint_pool (fold (finalize_availability_session now) ss db) = mint_pool db"
  "share_keys (fold (finalize_availability_session now) ss db) = share_keys db"
  "share_key_contributions (fold (finalize_availability_session now) ss db) = share_key_contributions db"
  "account_balance_of (fold (finalize_availability_session now) ss db) = account_balance_of db"
  "db_ok db \<Longrightarrow> db_ok (fold (finalize_availability_session now) ss db)"
  by (induction ss arbitrary: db) simp_all

lemma finalize_loop:
  assumes "sessions_ok db" and "set ss \<subseteq> set (availability_sessions db)" and "distinct (map as_device_id ss)"
  shows "dripped (fold (finalize_availability_session now) ss db) d = dripped db d"
    "availability_sessions (fold (finalize_availability_session now) ss db) =
      filter (\<lambda>r. as_device_id r \<notin> as_device_id ` set ss) (availability_sessions db)"
    "sessions_ok (fold (finalize_availability_session now) ss db)"
proof -
  have "dripped (fold (finalize_availability_session now) ss db) d = dripped db d \<and>
    availability_sessions (fold (finalize_availability_session now) ss db) =
      filter (\<lambda>r. as_device_id r \<notin> as_device_id ` set ss) (availability_sessions db) \<and>
    sessions_ok (fold (finalize_availability_session now) ss db)"
    using assms
  proof (induction ss arbitrary: db)
    case (Cons s ss)
    have s: "s \<in> set (availability_sessions db)" using Cons.prems(2) by simp
    note e = finalize_effect [OF Cons.prems(1) s, of now]
    have "as_device_id x \<noteq> as_device_id s" if "x \<in> set ss" for x
      using Cons.prems(3) that by (auto simp: image_iff)
    then have "set ss \<subseteq> set (availability_sessions (finalize_availability_session now s db))"
      using Cons.prems(2) by (auto simp: e(2))
    from Cons.IH [OF e(3) this] Cons.prems(3) show ?case
      by (simp add: e(1,2) conj_commute)
  qed simp
  then show "dripped (fold (finalize_availability_session now) ss db) d = dripped db d"
    "availability_sessions (fold (finalize_availability_session now) ss db) =
      filter (\<lambda>r. as_device_id r \<notin> as_device_id ` set ss) (availability_sessions db)"
    "sessions_ok (fold (finalize_availability_session now) ss db)" by simp_all
qed

lemma credit_recipient_session:
  assumes "sessions_ok db" and "0 \<le> dr_credits r"
  shows "dripped (credit_recipient now r db) d = dripped db d + (if d = dr_device_id r then dr_credits r else 0)"
    "sessions_ok (credit_recipient now r db)"
    "as_device_id ` set (availability_sessions (credit_recipient now r db)) =
      insert (dr_device_id r) (as_device_id ` set (availability_sessions db))"
proof -
  let ?n = "new_session now r"
  have t: "availability_sessions (credit_recipient now r db) =
      sql_upsert as_device_id ?n (accrue_session ?n) (availability_sessions db)"
    "ledger (credit_recipient now r db) = ledger db"
    by (simp_all add: credit_recipient_def Let_def stmt_defs)
  show "dripped (credit_recipient now r db) d = dripped db d + (if d = dr_device_id r then dr_credits r else 0)"
    by (simp add: dripped_def session_rows_def accrued_of_def t row_amount_def find_sql_upsert split: option.splits)
       (simp add: accrue_session_def new_session_def)
  show "as_device_id ` set (availability_sessions (credit_recipient now r db)) =
      insert (dr_device_id r) (as_device_id ` set (availability_sessions db))"
    by (simp add: t sql_upsert_key_set)
  have "distinct (map as_device_id (sql_upsert as_device_id ?n (accrue_session ?n) (availability_sessions db)))"
    using assms(1) by (simp add: sql_upsert_distinct sessions_ok_def)
  moreover have "0 \<le> as_accrued_credits x" if "x \<in> set (sql_upsert as_device_id ?n (accrue_session ?n) (availability_sessions db))" for x
    using that assms by (auto simp: sql_upsert_def set_sql_update accrue_session_def new_session_def sessions_ok_def
        list_all_iff split: if_splits)
  ultimately show "sessions_ok (credit_recipient now r db)" by (simp add: sessions_ok_def t list_all_iff)
qed

interpretation accrue: credit_loop "credit_recipient now" dr_device_id dr_credits total_credits dripped
  "\<lambda>db. db_ok db \<and> sessions_ok db" "\<lambda>r. 0 \<le> dr_credits r"
  by unfold_locales (simp_all add: credit_recipient_effect credit_recipient_session)

lemma db_ok_sessions: "db_ok db \<Longrightarrow> distinct (map as_device_id (availability_sessions db))"
  by (simp add: db_ok_def keys_ok_def)

lemma credit_loop_frame:
  "mint_pool (fold (credit_recipient now) rs db) = mint_pool db"
  "share_keys (fold (credit_recipient now) rs db) = share_keys db"
  "share_key_contributions (fold (credit_recipient now) rs db) = share_key_contributions db"
  by (induction rs arbitrary: db) (simp_all add: credit_recipient_def Let_def)

lemma credit_loop_sessions:
  assumes "sessions_ok db" and "\<forall>r\<in>set rs. 0 \<le> dr_credits r"
  shows "as_device_id ` set (availability_sessions (fold (credit_recipient now) rs db)) =
      dr_device_id ` set rs \<union> as_device_id ` set (availability_sessions db)"
  using assms by (induction rs arbitrary: db) (auto simp: credit_recipient_session)

text \<open>Everything one reconciliation does to wallets, sessions and the mint pool.\<close>

definition paid_out :: "DripRecipient list \<Rightarrow> string \<Rightarrow> int" where
  "paid_out rs d = (\<Sum>r\<leftarrow>rs. if dr_device_id r = d then dr_credits r else 0)"

definition reconciled :: "DripRecipient list \<Rightarrow> int \<Rightarrow> gateway_db \<Rightarrow> gateway_db \<Rightarrow> bool" where
  "reconciled rs x db db' \<longleftrightarrow> db_ok db' \<and> sessions_ok db' \<and>
     total_credits db' = total_credits db + x \<and>
     mint_pool db' = map_option (\<lambda>m. m\<lparr>mp_remaining := mp_remaining m - x\<rparr>) (mint_pool db) \<and>
     (\<forall>d. balance_of db' d = balance_of db d + paid_out rs d) \<and>
     (\<forall>d. dripped db' d = dripped db d + paid_out rs d) \<and>
     share_keys db' = share_keys db \<and> share_key_contributions db' = share_key_contributions db"

lemma total_needed_nonneg: "\<forall>r\<in>set rs. 0 \<le> dr_credits r \<Longrightarrow> total_needed rs = (\<Sum>r\<leftarrow>rs. dr_credits r)"
  by (induction rs) (simp_all add: total_needed_def)

lemma stale_loop:
  fixes now rs
  assumes "db_ok db" "sessions_ok db"
  defines "db1 \<equiv> finalize_stale now rs (load_active_availability_sessions db) db"
  shows "reconciled [] 0 db db1"
    "as_device_id ` set (availability_sessions db1) \<subseteq> dr_device_id ` set rs"
proof -
  let ?ss = "filter (\<lambda>s. \<not> still_matching rs s) (availability_sessions db)"
  have db1: "db1 = fold (finalize_availability_session now) ?ss db"
    by (simp add: db1_def finalize_stale_def load_active_availability_sessions_def)
  have "set ?ss \<subseteq> set (availability_sessions db)" "distinct (map as_device_id ?ss)"
    using assms(2) by (auto simp: sessions_ok_def distinct_map_filter)
  note l = finalize_loop [OF assms(2) this, of now]
  have "map_option (\<lambda>m. m\<lparr>mp_remaining := mp_remaining m - 0\<rparr>) (mint_pool db) = mint_pool db"
    by (cases "mint_pool db") simp_all
  then show "reconciled [] 0 db db1"
    using assms(1) l by (simp add: reconciled_def db1 finalize_loop_obs paid_out_def)
  have "as_device_id s \<in> dr_device_id ` set rs"
    if "s \<in> set (availability_sessions db)" "as_device_id s \<notin> as_device_id ` set ?ss" for s
  proof -
    have "still_matching rs s" using that by auto
    then obtain r where "find (\<lambda>r. dr_device_id r = as_device_id s) (rev rs) = Some r"
      by (auto simp: still_matching_def recipient_map_def split: option.splits)
    then have "r \<in> set rs \<and> dr_device_id r = as_device_id s" by (auto dest: find_key_SomeD)
    then show ?thesis by (metis image_eqI)
  qed
  then show "as_device_id ` set (availability_sessions db1) \<subseteq> dr_device_id ` set rs"
    by (auto simp: db1 l(2))
qed

lemma pay_loop:
  assumes ok: "db_ok db" "sessions_ok db" and rs: "\<forall>r\<in>set rs. 0 \<le> dr_credits r"
  shows "reconciled rs (total_needed rs) db (fold (credit_recipient now) rs (take_from_mint_pool (total_needed rs) db))"
proof -
  let ?db = "take_from_mint_pool (total_needed rs) db"
  have ok1: "db_ok ?db" "sessions_ok ?db" using ok by (simp, simp add: sessions_ok_def stmt_defs)
  have dr: "dripped ?db = dripped db"
    by (simp add: fun_eq_iff dripped_def session_rows_def accrued_of_def stmt_defs)
  have 1: "r \<in> set rs \<Longrightarrow> 0 \<le> dr_credits r" for r using rs by simp
  note a = accrue.loop_inv [OF conjI [OF ok1] 1] accrue.loop_total [OF conjI [OF ok1] 1]
    accrue.loop_wallet [OF conjI [OF ok1] 1] drip.loop_wallet [OF ok1(1) 1]
  show ?thesis
    using a dr total_needed_nonneg [OF rs]
    by (simp add: reconciled_def credit_loop_frame paid_out_def) (simp add: stmt_defs)
qed

lemma reconciled_trans:
  "reconciled [] 0 db db1 \<Longrightarrow> reconciled rs x db1 db2 \<Longrightarrow> reconciled rs x db db2"
  by (auto simp: reconciled_def paid_out_def option.map_comp comp_def)

lemma take_nothing: "take_from_mint_pool 0 db = db"
  by (cases "mint_pool db") (simp_all add: take_from_mint_pool_def)

lemma reconcile_effect:
  assumes ok: "db_ok db" "sessions_ok db" and rs: "\<forall>r\<in>set rs. 0 \<le> dr_credits r"
    and s: "reconcile_availability_sessions now rs db = Inr (db', report)"
  obtains (paid) "reconciled rs (total_needed rs) db db'" "ar_credited_devices report = length rs"
      "\<forall>m. mint_pool db = Some m \<longrightarrow> total_needed rs \<le> 0 \<or> total_needed rs \<le> mp_remaining m"
      "as_device_id ` set (availability_sessions db') = dr_device_id ` set rs"
    | (skipped) m where "reconciled [] 0 db db'" "ar_credited_devices report = 0"
      "mint_pool db = Some m" "mp_remaining m < total_needed rs"
proof -
  let ?db1 = "finalize_stale now rs (load_active_availability_sessions db) db"
  note st = stale_loop [OF ok, of now rs]
  have ok1: "db_ok ?db1" "sessions_ok ?db1" using st(1) by (simp_all add: reconciled_def)
  have m1: "mint_pool ?db1 = mint_pool db"
    by (simp add: finalize_stale_def finalize_loop_obs)
  let ?pay = "fold (credit_recipient now) rs (take_from_mint_pool (total_needed rs) ?db1)"
  have pay: "reconciled rs (total_needed rs) db ?pay" by (rule reconciled_trans [OF st(1) pay_loop [OF ok1 rs]])
  have "as_device_id ` set (availability_sessions ?pay) =
      dr_device_id ` set rs \<union> as_device_id ` set (availability_sessions ?db1)"
    using credit_loop_sessions [of "take_from_mint_pool (total_needed rs) ?db1" rs now] ok1 rs
    by (simp add: sessions_ok_def stmt_defs)
  then have dev: "as_device_id ` set (availability_sessions ?pay) = dr_device_id ` set rs" using st(2) by auto
  show thesis
  proof (cases "total_needed rs > 0")
    case False
    moreover have "0 \<le> total_needed rs" unfolding total_needed_def by (rule sum_list_nonneg) auto
    ultimately have "total_needed rs = 0" by simp
    then show thesis using s pay dev False
      by (intro paid) (auto simp: reconcile_availability_sessions_def Let_def take_nothing)
  next
    case True
    then obtain m where m: "mint_pool db = Some m"
      using s m1 by (auto simp: reconcile_availability_sessions_def Let_def split: option.splits)
    show thesis
    proof (cases "mp_remaining m < total_needed rs")
      case lt: True
      then show thesis using s m m1 st(1) True
        by (intro skipped) (auto simp: reconcile_availability_sessions_def Let_def)
    next
      case ge: False
      then show thesis using s m m1 pay dev True
        by (intro paid) (auto simp: reconcile_availability_sessions_def Let_def)
    qed
  qed
qed

section \<open>Properties\<close>

text \<open>
C31. A tick of the drip only moves credits out of the mint pool: what the wallets gain is exactly what the
pool loses, every recipient is paid its amount or, when the pool cannot pay all of them, nobody is and
the pool is untouched. The pool never becomes negative, and the database stays consistent.
\<close>

theorem drip_conserves_mint_pool:
  assumes "db_ok db" and "sessions_ok db" and "\<forall>r\<in>set recipients. 0 \<le> dr_credits r"
    and "mint_pool db = Some m" and "0 \<le> mp_remaining m"
    and "reconcile_availability_sessions now recipients db = Inr (db', report)"
  shows "db_ok db' \<and> sessions_ok db' \<and> (\<exists>m'. mint_pool db' = Some m' \<and> 0 \<le> mp_remaining m' \<and>
      total_credits db' + mp_remaining m' = total_credits db + mp_remaining m) \<and>
    (if total_needed recipients \<le> mp_remaining m
     then (\<forall>d. balance_of db' d = balance_of db d + paid_out recipients d)
     else balance_of db' = balance_of db)"
proof (rule reconcile_effect [OF assms(1-3,6)], goal_cases)
  case 1
  then have "total_needed recipients \<le> mp_remaining m" using assms(4,5) by auto
  then show ?case using 1(1) assms(4) by (auto simp: reconciled_def)
next
  case (2 m0)
  then have "mp_remaining m < total_needed recipients" using assms(4) by simp
  then show ?case using 2(1) assms(4,5) by (auto simp: reconciled_def paid_out_def)
qed

definition drip_two :: "DripRecipient list" where
  "drip_two = [\<lparr>dr_device_id = ''a'', dr_credits = 3, dr_model_id = Some ''m''\<rparr>,
     \<lparr>dr_device_id = ''b'', dr_credits = 4, dr_model_id = None\<rparr>]"

theorem drip_conserves_mint_pool_witness:
  "\<exists>db' report. reconcile_availability_sessions 9 drip_two (seed_mint_pool empty_db) = Inr (db', report) \<and>
     balance_of db' ''b'' = 4"
proof -
  let ?db = "seed_mint_pool empty_db"
  define m where "m = the (mint_pool ?db)"
  have f: "db_ok ?db" "sessions_ok ?db" "list_all (\<lambda>r. 0 \<le> dr_credits r) drip_two" "mint_pool ?db = Some m"
    "0 \<le> mp_remaining m" "total_needed drip_two \<le> mp_remaining m" "balance_of ?db ''b'' = 0"
    "paid_out drip_two ''b'' = 4" "\<not> isl (reconcile_availability_sessions 9 drip_two ?db)"
    unfolding m_def by code_simp+
  then obtain db' report where r: "reconcile_availability_sessions 9 drip_two ?db = Inr (db', report)"
    by (cases "reconcile_availability_sessions 9 drip_two ?db") auto
  have "\<forall>r\<in>set drip_two. 0 \<le> dr_credits r" using f(3) by (simp add: list_all_iff)
  from drip_conserves_mint_pool [OF f(1,2) this f(4,5) r] f(6-8) r show ?thesis by auto
qed

text \<open>
No dripped credit is lost from the history: what a device has been paid by the drip is, at any time, the
sum of the ledger rows of its ended sessions and of its open session; a tick raises it by exactly what
the wallet gains. After a tick that pays, the open sessions are those of the recipients.
\<close>

theorem drip_history_complete:
  assumes "db_ok db" and "sessions_ok db" and "\<forall>r\<in>set recipients. 0 \<le> dr_credits r"
    and "reconcile_availability_sessions now recipients db = Inr (db', report)"
  shows "(\<forall>d. dripped db' d - dripped db d = balance_of db' d - balance_of db d) \<and>
    (ar_credited_devices report = length recipients \<and> recipients \<noteq> [] \<longrightarrow>
      as_device_id ` set (availability_sessions db') = dr_device_id ` set recipients)"
proof (rule reconcile_effect [OF assms], goal_cases)
  case 1
  then show ?case by (simp add: reconciled_def)
next
  case (2 m0)
  then show ?case by (simp add: reconciled_def paid_out_def)
qed

definition drip_db :: gateway_db where
  "drip_db = (case reconcile_availability_sessions 9 drip_two (seed_mint_pool empty_db) of
     Inl _ \<Rightarrow> empty_db | Inr (db, _) \<Rightarrow> db)"

theorem drip_history_complete_witness:
  "\<exists>db' report. reconcile_availability_sessions 10 [] drip_db = Inr (db', report) \<and>
     dripped db' ''a'' - dripped drip_db ''a'' = balance_of db' ''a'' - balance_of drip_db ''a''"
proof -
  have f: "db_ok drip_db" "sessions_ok drip_db" "\<not> isl (reconcile_availability_sessions 10 [] drip_db)"
    by code_simp+
  then obtain db' report where r: "reconcile_availability_sessions 10 [] drip_db = Inr (db', report)"
    by (cases "reconcile_availability_sessions 10 [] drip_db") auto
  from drip_history_complete [OF f(1,2) _ r] r show ?thesis by simp
qed

end
