(* ===== verification/Account_Auth.thy ===== *)
theory Account_Auth
  imports Accounts
begin

text \<open>
  Passwordless login of accounts (\<open>gateway/src/ledger.rs\<close>): email codes and magic links, and the
  sessions they open. The hash function (SHA-256, hex encoded) and the random identifiers, codes and
  tokens are arguments. A failed verification writes to the database too, so these operations return the
  database beside their result.
\<close>

section \<open>Constants and records\<close>

definition EMAIL_CODE_TTL_SECONDS :: int where "EMAIL_CODE_TTL_SECONDS = 10 * 60"

definition EMAIL_CODE_RESEND_WINDOW_SECONDS :: int where "EMAIL_CODE_RESEND_WINDOW_SECONDS = 60"

definition EMAIL_CODE_MAX_ATTEMPTS :: int where "EMAIL_CODE_MAX_ATTEMPTS = 5"

definition ACCOUNT_SESSION_TTL_SECONDS :: int where "ACCOUNT_SESSION_TTL_SECONDS = 30 * 24 * 60 * 60"

record AccountEmailCodeRequest =
  ecr_email :: string
  ecr_expires_at :: int

record AccountEmailCodeVerification =
  ecv_account_user_id :: string
  ecv_email :: string

record AccountSession =
  ses_session_id :: string
  ses_account_user_id :: string
  ses_expires_at :: int

record AccountSessionIssued =
  sei_session_id :: string
  sei_token :: string
  sei_account_user_id :: string
  sei_expires_at :: int

section \<open>Email codes\<close>

definition normalize_account_email :: "string \<Rightarrow> string option" where
  "normalize_account_email value =
     (let trimmed = to_lowercase (trim value)
      in if CHR ''@'' \<in> set trimmed \<and> CHR ''.'' \<in> set trimmed \<and> utf8_len trimmed \<le> 320
         then Some trimmed else None)"

definition account_user_id_for_email :: "string \<Rightarrow> string" where
  "account_user_id_for_email email = ''email:'' @ email"

definition hash_account_email_code :: "(string \<Rightarrow> string) \<Rightarrow> string \<Rightarrow> string \<Rightarrow> string" where
  "hash_account_email_code sha email code = sha (email @ '':'' @ code)"

definition hash_account_session_token :: "(string \<Rightarrow> string) \<Rightarrow> string \<Rightarrow> string" where
  "hash_account_session_token sha token = sha (''account-session:'' @ token)"

text \<open>\<open>ORDER BY created_at DESC LIMIT 1\<close>.\<close>

definition newest :: "email_code_row list \<Rightarrow> email_code_row option" where
  "newest rows = (case sort_key (\<lambda>r. - ec_created_at r) rows of [] \<Rightarrow> None | r # _ \<Rightarrow> Some r)"

definition open_codes :: "gateway_db \<Rightarrow> string \<Rightarrow> email_code_row list" where
  "open_codes db email =
     filter (\<lambda>r. ec_email r = email \<and> ec_consumed_at r = None) (account_email_codes db)"

definition insert_email_code :: "email_code_row \<Rightarrow> gateway_db \<Rightarrow> anyhow + gateway_db" where
  "insert_email_code r db =
     (if has_row (\<lambda>x. ec_id x = ec_id r) (account_email_codes db) then Inl ConstraintViolation
      else Inr (db\<lparr>account_email_codes := account_email_codes db @ [r]\<rparr>))"

definition resend_too_soon :: "int \<Rightarrow> gateway_db \<Rightarrow> string \<Rightarrow> bool" where
  "resend_too_soon now db email = (case newest (open_codes db email) of
      None \<Rightarrow> False | Some r \<Rightarrow> now - ec_created_at r < EMAIL_CODE_RESEND_WINDOW_SECONDS)"

definition create_email_code_row ::
  "(string \<Rightarrow> string) \<Rightarrow> int \<Rightarrow> string \<Rightarrow> string \<Rightarrow> string \<Rightarrow> string option \<Rightarrow> gateway_db \<Rightarrow>
   anyhow + gateway_db \<times> AccountEmailCodeRequest" where
  "create_email_code_row sha now row_id email_text code link db =
     rbind (ok_or (Bail ''valid email is required'') (normalize_account_email email_text)) (\<lambda>email.
     rbind (ensure (\<not> resend_too_soon now db email) (Bail ''wait before requesting another code'')) (\<lambda>_.
     let expires_at = now + EMAIL_CODE_TTL_SECONDS in
     rbind (insert_email_code \<lparr>ec_id = row_id, ec_email = email, ec_code_hash = hash_account_email_code sha email code,
       ec_created_at = now, ec_expires_at = expires_at, ec_attempts = 0, ec_consumed_at = None,
       ec_link_token_hash = link\<rparr> db) (\<lambda>db1.
     Inr (db1, \<lparr>ecr_email = email, ecr_expires_at = expires_at\<rparr>))))"

definition create_account_email_code ::
  "(string \<Rightarrow> string) \<Rightarrow> int \<Rightarrow> string \<Rightarrow> string \<Rightarrow> string \<Rightarrow> gateway_db \<Rightarrow>
   anyhow + gateway_db \<times> AccountEmailCodeRequest" where
  "create_account_email_code sha now row_id email code db = create_email_code_row sha now row_id email code None db"

definition create_account_email_login_code ::
  "(string \<Rightarrow> string) \<Rightarrow> int \<Rightarrow> string \<Rightarrow> string \<Rightarrow> string \<Rightarrow> string \<Rightarrow> gateway_db \<Rightarrow>
   anyhow + gateway_db \<times> AccountEmailCodeRequest" where
  "create_account_email_login_code sha now row_id email code link_token db =
     create_email_code_row sha now row_id email code (Some (hash_account_session_token sha link_token)) db"

definition update_email_code ::
  "string \<Rightarrow> (email_code_row \<Rightarrow> email_code_row) \<Rightarrow> gateway_db \<Rightarrow> gateway_db" where
  [stmt_defs]: "update_email_code row_id f db = db\<lparr>account_email_codes :=
     sql_update (\<lambda>r. ec_id r = row_id) f (account_email_codes db)\<rparr>"

definition well_formed_code :: "string \<Rightarrow> bool" where
  "well_formed_code code \<longleftrightarrow> utf8_len code = 6 \<and> list_all is_ascii_digit code"

definition verify_account_email_code ::
  "(string \<Rightarrow> string) \<Rightarrow> int \<Rightarrow> string \<Rightarrow> string \<Rightarrow> gateway_db \<Rightarrow>
   gateway_db \<times> (anyhow + AccountEmailCodeVerification)" where
  "verify_account_email_code sha now email_text code db =
     (case normalize_account_email email_text of
        None \<Rightarrow> (db, Inl (Bail ''valid email is required''))
      | Some email \<Rightarrow>
          let normalized_code = trim code in
          if \<not> well_formed_code normalized_code then (db, Inl (Bail ''code must be 6 digits''))
          else case newest (open_codes db email) of
            None \<Rightarrow> (db, Inl (Bail ''code not found or already used''))
          | Some r \<Rightarrow>
              if ec_expires_at r < now then (db, Inl (Bail ''code expired''))
              else if ec_attempts r \<ge> EMAIL_CODE_MAX_ATTEMPTS then (db, Inl (Bail ''too many code attempts''))
              else if ec_code_hash r \<noteq> hash_account_email_code sha email normalized_code
              then (update_email_code (ec_id r) (\<lambda>x. x\<lparr>ec_attempts := ec_attempts x + 1\<rparr>) db,
                Inl (Bail ''invalid code''))
              else (update_email_code (ec_id r)
                  (\<lambda>x. x\<lparr>ec_consumed_at := Some now, ec_attempts := ec_attempts x + 1\<rparr>) db,
                Inr \<lparr>ecv_account_user_id = account_user_id_for_email email, ecv_email = email\<rparr>))"

definition verify_account_email_link_token ::
  "(string \<Rightarrow> string) \<Rightarrow> int \<Rightarrow> string \<Rightarrow> gateway_db \<Rightarrow>
   anyhow + gateway_db \<times> AccountEmailCodeVerification" where
  "verify_account_email_link_token sha now link_token db =
     rbind (ok_or (Bail ''link not found or already used'') (newest (filter
       (\<lambda>r. ec_link_token_hash r = Some (hash_account_session_token sha link_token) \<and> ec_consumed_at r = None)
       (account_email_codes db)))) (\<lambda>r.
     rbind (ensure (\<not> ec_expires_at r < now) (Bail ''link expired'')) (\<lambda>_.
     Inr (update_email_code (ec_id r) (\<lambda>x. x\<lparr>ec_consumed_at := Some now\<rparr>) db,
       \<lparr>ecv_account_user_id = account_user_id_for_email (ec_email r), ecv_email = ec_email r\<rparr>)))"

section \<open>Logins and sessions\<close>

definition email_wallet :: "int \<Rightarrow> string \<Rightarrow> string \<Rightarrow> account_wallet_row" where
  "email_wallet now acct email = \<lparr>aw_account_user_id = acct, aw_display_name = None, aw_phone = None,
     aw_email = Some email, aw_github_username = None, aw_balance_credits = 0, aw_usdc_cents = 0,
     aw_created_at = now, aw_updated_at = now, aw_solana_address = None, aw_solana_enabled = 0,
     aw_deposited_usdc_cents_total = 0, aw_withdrawn_usdc_cents_total = 0\<rparr>"

definition account_user_id_for_login :: "int \<Rightarrow> string \<Rightarrow> gateway_db \<Rightarrow> anyhow + gateway_db \<times> string" where
  "account_user_id_for_login now email_text db =
     rbind (ok_or (Bail ''valid email is required'') (normalize_account_email email_text)) (\<lambda>email.
     case find (\<lambda>r. map_option sql_lower (aw_email r) = Some email) (account_wallets db) of
       Some r \<Rightarrow> Inr (db, aw_account_user_id r)
     | None \<Rightarrow>
         let acct = account_user_id_for_email email
         in Inr (db\<lparr>account_wallets :=
           insert_or_ignore aw_account_user_id (email_wallet now acct email) (account_wallets db)\<rparr>, acct))"

definition account_email_for_user :: "gateway_db \<Rightarrow> string \<Rightarrow> string option" where
  "account_email_for_user db acct = Option.bind (account_row_of db acct) aw_email"

definition create_account_session ::
  "(string \<Rightarrow> string) \<Rightarrow> int \<Rightarrow> string \<Rightarrow> string \<Rightarrow> string \<Rightarrow> string option \<Rightarrow> string option \<Rightarrow> gateway_db \<Rightarrow>
   anyhow + gateway_db \<times> AccountSessionIssued" where
  "create_account_session sha now session_id token acct device_id device_name db =
     (let h = hash_account_session_token sha token; expires_at = now + ACCOUNT_SESSION_TTL_SECONDS in
      if has_row (\<lambda>r. se_id r = session_id \<or> se_token_hash r = h) (account_sessions db)
      then Inl ConstraintViolation
      else Inr (db\<lparr>account_sessions := account_sessions db @ [\<lparr>se_id = session_id, se_account_user_id = acct,
          se_token_hash = h, se_created_at = now, se_expires_at = expires_at, se_last_seen_at = now,
          se_device_id = device_id, se_device_name = device_name, se_revoked_at = None\<rparr>]\<rparr>,
        \<lparr>sei_session_id = session_id, sei_token = token, sei_account_user_id = acct, sei_expires_at = expires_at\<rparr>))"

definition update_session ::
  "string \<Rightarrow> (account_session_row \<Rightarrow> account_session_row) \<Rightarrow> gateway_db \<Rightarrow> gateway_db" where
  [stmt_defs]: "update_session row_id f db = db\<lparr>account_sessions :=
     sql_update (\<lambda>r. se_id r = row_id) f (account_sessions db)\<rparr>"

definition live_session :: "(string \<Rightarrow> string) \<Rightarrow> gateway_db \<Rightarrow> string \<Rightarrow> account_session_row option" where
  "live_session sha db token = find (\<lambda>r. se_token_hash r = hash_account_session_token sha token \<and> se_revoked_at r = None)
     (account_sessions db)"

definition resolve_account_session ::
  "(string \<Rightarrow> string) \<Rightarrow> int \<Rightarrow> string \<Rightarrow> gateway_db \<Rightarrow> gateway_db \<times> AccountSession option" where
  "resolve_account_session sha now token db =
     (if \<not> starts_with ''tsess_'' token then (db, None)
      else case live_session sha db token of
        None \<Rightarrow> (db, None)
      | Some r \<Rightarrow>
          if se_expires_at r < now then (db, None)
          else if now > se_expires_at r - ACCOUNT_SESSION_TTL_SECONDS sdiv 2 then
            let expires_at = now + ACCOUNT_SESSION_TTL_SECONDS
            in (update_session (se_id r) (\<lambda>x. x\<lparr>se_expires_at := expires_at, se_last_seen_at := now\<rparr>) db,
              Some \<lparr>ses_session_id = se_id r, ses_account_user_id = se_account_user_id r, ses_expires_at = expires_at\<rparr>)
          else (update_session (se_id r) (\<lambda>x. x\<lparr>se_last_seen_at := now\<rparr>) db,
            Some \<lparr>ses_session_id = se_id r, ses_account_user_id = se_account_user_id r,
              ses_expires_at = se_expires_at r\<rparr>))"

definition revoke_account_session :: "(string \<Rightarrow> string) \<Rightarrow> int \<Rightarrow> string \<Rightarrow> gateway_db \<Rightarrow> gateway_db \<times> bool" where
  "revoke_account_session sha now token db =
     (let P = (\<lambda>r. se_token_hash r = hash_account_session_token sha token \<and> se_revoked_at r = None)
      in (db\<lparr>account_sessions := sql_update P (\<lambda>r. r\<lparr>se_revoked_at := Some now\<rparr>) (account_sessions db)\<rparr>,
        has_row P (account_sessions db)))"

section \<open>The newest open code\<close>

lemma newest_None_iff: "newest rows = None \<longleftrightarrow> rows = []"
proof -
  have "sort_key f rows = [] \<longleftrightarrow> rows = []" for f :: "email_code_row \<Rightarrow> int"
    by (metis length_sort length_0_conv)
  then show ?thesis by (auto simp: newest_def split: list.splits)
qed

lemma newest_SomeD:
  assumes "newest rows = Some r"
  shows "r \<in> set rows \<and> (\<forall>x\<in>set rows. ec_created_at x \<le> ec_created_at r)"
proof -
  let ?k = "\<lambda>r. - ec_created_at r"
  obtain rest where s: "sort_key ?k rows = r # rest"
    using assms by (auto simp: newest_def split: list.splits)
  have set_eq: "set rows = insert r (set rest)" using set_sort [of ?k rows] s by simp
  moreover have "\<forall>x\<in>set rest. ?k r \<le> ?k x" using sorted_sort_key [of ?k rows] s by simp
  ultimately show ?thesis by auto
qed

lemma newest_append:
  assumes "\<And>x. x \<in> set rows \<Longrightarrow> ec_created_at x < ec_created_at r"
  shows "newest (rows @ [r]) = Some r"
proof (cases "newest (rows @ [r])")
  case None
  then show ?thesis by (simp add: newest_None_iff)
next
  case (Some y)
  then have "y \<in> set (rows @ [r])" "ec_created_at r \<le> ec_created_at y"
    using newest_SomeD by force+
  then show ?thesis using assms Some by force
qed

lemma resend_gap:
  assumes "\<not> resend_too_soon now db email" and "x \<in> set (open_codes db email)"
  shows "ec_created_at x + EMAIL_CODE_RESEND_WINDOW_SECONDS \<le> now"
proof (cases "newest (open_codes db email)")
  case None
  then show ?thesis using assms(2) by (simp add: newest_None_iff)
next
  case (Some r)
  then show ?thesis using assms newest_SomeD [OF Some] by (fastforce simp: resend_too_soon_def)
qed

section \<open>The tables of codes\<close>

definition codes_ok :: "gateway_db \<Rightarrow> bool" where
  "codes_ok db \<longleftrightarrow> distinct (map ec_id (account_email_codes db))"

definition guess_amount :: "string \<Rightarrow> email_code_row \<Rightarrow> int" where
  "guess_amount e r = (if ec_email r = e \<and> ec_consumed_at r = None
     then max 0 (EMAIL_CODE_MAX_ATTEMPTS - ec_attempts r) else 0)"

definition guesses_left :: "gateway_db \<Rightarrow> string \<Rightarrow> int" where
  "guesses_left db e = table_sum (guess_amount e) (account_email_codes db)"

lemma guesses_left_nonneg: "0 \<le> guesses_left db e"
  unfolding guesses_left_def by (rule table_sum_nonneg) (simp add: guess_amount_def)

lemma codes_ok_update:
  "(\<And>r. ec_id (f r) = ec_id r) \<Longrightarrow> codes_ok (update_email_code i f db) \<longleftrightarrow> codes_ok db"
  by (simp add: codes_ok_def update_email_code_def sql_update_key_map)

lemma guesses_left_update:
  assumes "codes_ok db" and "r \<in> set (account_email_codes db)"
  shows "guesses_left (update_email_code (ec_id r) f db) e = guesses_left db e - guess_amount e r + guess_amount e (f r)"
proof -
  have "find (\<lambda>x. ec_id x = ec_id r) (account_email_codes db) = Some r"
    by (rule find_key_unique) (use assms in \<open>simp_all add: codes_ok_def\<close>)
  then show ?thesis
    using assms(1) by (simp add: guesses_left_def update_email_code_def codes_ok_def table_sum_update_row)
qed

lemma newest_open_code:
  assumes "newest (open_codes db e) = Some r"
  shows "r \<in> set (account_email_codes db) \<and> ec_email r = e \<and> ec_consumed_at r = None"
  using newest_SomeD [OF assms] by (simp add: open_codes_def)

text \<open>A guess is compared with the stored hash in two outcomes only: the code is wrong, or it is right.\<close>

definition compared :: "anyhow + AccountEmailCodeVerification \<Rightarrow> bool" where
  "compared res \<longleftrightarrow> (case res of Inr _ \<Rightarrow> True | Inl e \<Rightarrow> e = Bail ''invalid code'')"

lemma verify_code_cost:
  assumes "codes_ok db" and "verify_account_email_code sha now email_text code db = (db', res)"
  shows "codes_ok db' \<and> guesses_left db' e \<le> guesses_left db e - (if compared res \<and>
    normalize_account_email email_text = Some e then 1 else 0)"
proof (cases "\<exists>email r. normalize_account_email email_text = Some email \<and> well_formed_code (trim code) \<and>
    newest (open_codes db email) = Some r \<and> \<not> ec_expires_at r < now \<and> ec_attempts r < EMAIL_CODE_MAX_ATTEMPTS")
  case False
  then have "db' = db \<and> \<not> compared res"
    using assms(2) by (auto simp: verify_account_email_code_def Let_def compared_def not_le
        split: option.splits if_splits)
  then show ?thesis using assms(1) by simp
next
  case True
  then obtain email r where t: "normalize_account_email email_text = Some email" "well_formed_code (trim code)"
    "newest (open_codes db email) = Some r" "\<not> ec_expires_at r < now" "ec_attempts r < EMAIL_CODE_MAX_ATTEMPTS"
    by blast
  obtain f where f: "db' = update_email_code (ec_id r) f db" "\<And>x. ec_id (f x) = ec_id x"
    "guess_amount e (f r) \<le> guess_amount e r - (if email = e then 1 else 0)"
    using assms(2) t newest_open_code [OF t(3)]
    by (cases "ec_code_hash r = hash_account_email_code sha email (trim code)")
      (auto simp: verify_account_email_code_def Let_def guess_amount_def)
  then show ?thesis
    using assms(1) t(1) newest_open_code [OF t(3)]
    by (auto simp: codes_ok_update guesses_left_update split: if_splits)
qed

lemma create_code_steps:
  assumes "create_email_code_row sha now i email_text code link db = Inr (db', req)"
  obtains email r where "normalize_account_email email_text = Some email" "\<not> resend_too_soon now db email"
    "i \<notin> ec_id ` set (account_email_codes db)" "db' = db\<lparr>account_email_codes := account_email_codes db @ [r]\<rparr>"
    "r = \<lparr>ec_id = i, ec_email = email, ec_code_hash = hash_account_email_code sha email code, ec_created_at = now,
       ec_expires_at = now + EMAIL_CODE_TTL_SECONDS, ec_attempts = 0, ec_consumed_at = None, ec_link_token_hash = link\<rparr>"
    "req = \<lparr>ecr_email = email, ecr_expires_at = now + EMAIL_CODE_TTL_SECONDS\<rparr>"
  using assms unfolding create_email_code_row_def Let_def rbind_Inr_iff ensure_Inr_iff ok_or_Inr_iff
  by (elim exE conjE) (simp add: insert_email_code_def has_row_key_iff split: if_splits)

lemma create_code_guesses:
  assumes "codes_ok db" and "create_email_code_row sha now i email_text code link db = Inr (db', req)"
  shows "codes_ok db' \<and> guesses_left db' e = guesses_left db e +
    (if normalize_account_email email_text = Some e then EMAIL_CODE_MAX_ATTEMPTS else 0)"
  using assms(2)
proof (cases rule: create_code_steps)
  case (1 email r)
  then show ?thesis using assms(1)
    by (simp add: codes_ok_def guesses_left_def guess_amount_def EMAIL_CODE_MAX_ATTEMPTS_def)
qed

lemma link_token_guesses:
  assumes "codes_ok db" and "verify_account_email_link_token sha now link db = Inr (db', v)"
  shows "codes_ok db' \<and> guesses_left db' e \<le> guesses_left db e"
proof -
  obtain r where r: "r \<in> set (account_email_codes db)"
    "db' = update_email_code (ec_id r) (\<lambda>x. x\<lparr>ec_consumed_at := Some now\<rparr>) db"
    using assms(2) by (auto simp: verify_account_email_link_token_def dest!: newest_SomeD)
  then show ?thesis using assms(1)
    by (simp add: codes_ok_update guesses_left_update) (simp add: guess_amount_def)
qed

section \<open>Runs of the login endpoints\<close>

text \<open>Requests for codes, guesses and followed links, in any order and for any addresses.
  \<open>auth_run\<close> counts, for one address, the guesses that were compared and the codes that were issued.\<close>

datatype auth_event =
    RequestCode int string string string "string option"
  | GuessCode int string string
  | FollowLink int string

fun auth_event_step :: "(string \<Rightarrow> string) \<Rightarrow> string \<Rightarrow> auth_event \<Rightarrow> gateway_db \<Rightarrow> gateway_db \<times> nat \<times> nat" where
  "auth_event_step sha e (RequestCode now i email code link) db =
     (case create_email_code_row sha now i email code (map_option (hash_account_session_token sha) link) db of
        Inl _ \<Rightarrow> (db, 0, 0)
      | Inr (db1, _) \<Rightarrow> (db1, 0, if normalize_account_email email = Some e then 1 else 0))"
| "auth_event_step sha e (GuessCode now email code) db =
     (case verify_account_email_code sha now email code db of
        (db1, res) \<Rightarrow> (db1, if compared res \<and> normalize_account_email email = Some e then 1 else 0, 0))"
| "auth_event_step sha e (FollowLink now link) db =
     (case verify_account_email_link_token sha now link db of
        Inl _ \<Rightarrow> (db, 0, 0) | Inr (db1, _) \<Rightarrow> (db1, 0, 0))"

fun auth_run :: "(string \<Rightarrow> string) \<Rightarrow> string \<Rightarrow> auth_event list \<Rightarrow> gateway_db \<Rightarrow> gateway_db \<times> nat \<times> nat" where
  "auth_run sha e [] db = (db, 0, 0)"
| "auth_run sha e (ev # evs) db = (case auth_event_step sha e ev db of (db1, c1, s1) \<Rightarrow>
     (case auth_run sha e evs db1 of (db2, c2, s2) \<Rightarrow> (db2, c1 + c2, s1 + s2)))"

lemma auth_event_cost:
  assumes "codes_ok db" and "auth_event_step sha e ev db = (db', c, s)"
  shows "codes_ok db' \<and> int c + guesses_left db' e \<le> guesses_left db e + EMAIL_CODE_MAX_ATTEMPTS * int s"
proof (cases ev)
  case (RequestCode now i email code link)
  then show ?thesis using assms create_code_guesses [OF assms(1), of sha now i email code _ _ _ e]
    by (auto split: sum.splits prod.splits if_splits)
next
  case (GuessCode now email code)
  then show ?thesis using assms verify_code_cost [OF assms(1), of sha now email code _ _ e]
    by (auto split: prod.splits)
next
  case (FollowLink now link)
  then show ?thesis using assms link_token_guesses [OF assms(1), of sha now link _ _ e]
    by (auto split: sum.splits prod.splits)
qed

lemma auth_run_cost:
  assumes "codes_ok db" and "auth_run sha e evs db = (db', c, s)"
  shows "codes_ok db' \<and> int c + guesses_left db' e \<le> guesses_left db e + EMAIL_CODE_MAX_ATTEMPTS * int s"
  using assms
proof (induction evs arbitrary: db db' c s)
  case Nil
  then show ?case by simp
next
  case (Cons ev evs)
  obtain db1 c1 s1 where 1: "auth_event_step sha e ev db = (db1, c1, s1)" by (metis prod_cases3)
  obtain c2 s2 where 2: "auth_run sha e evs db1 = (db', c2, s2)" "c = c1 + c2" "s = s1 + s2"
    using Cons.prems(2) 1 by (auto split: prod.splits)
  show ?case using auth_event_cost [OF Cons.prems(1) 1] Cons.IH [OF _ 2(1)] 2(2,3)
    by (simp add: distrib_left)
qed

section \<open>Session lifecycle\<close>

definition auth_sessions_ok :: "gateway_db \<Rightarrow> bool" where
  "auth_sessions_ok db \<longleftrightarrow> distinct (map se_id (account_sessions db)) \<and> distinct (map se_token_hash (account_sessions db))"

inductive session_step :: "(string \<Rightarrow> string) \<Rightarrow> gateway_db \<Rightarrow> gateway_db \<Rightarrow> bool" for sha where
  resolve_step: "resolve_account_session sha now token db = (db', r) \<Longrightarrow> session_step sha db db'"
| create_step: "create_account_session sha now i token acct dev name db = Inr (db', r) \<Longrightarrow> session_step sha db db'"
| revoke_step: "revoke_account_session sha now token db = (db', b) \<Longrightarrow> session_step sha db db'"

inductive_cases session_stepE: "session_step sha db db'"

text \<open>A token whose only sessions are revoked.\<close>

definition token_dead :: "(string \<Rightarrow> string) \<Rightarrow> string \<Rightarrow> gateway_db \<Rightarrow> bool" where
  "token_dead sha token db \<longleftrightarrow>
     has_row (\<lambda>r. se_token_hash r = hash_account_session_token sha token) (account_sessions db) \<and>
     list_all (\<lambda>r. se_token_hash r = hash_account_session_token sha token \<longrightarrow> se_revoked_at r \<noteq> None)
       (account_sessions db)"

lemma token_dead_resolve: "token_dead sha token db \<Longrightarrow> resolve_account_session sha now token db = (db, None)"
proof -
  assume d: "token_dead sha token db"
  have "live_session sha db token = None"
    using d by (auto simp: token_dead_def live_session_def find_None_iff list_all_iff)
  then show ?thesis by (simp add: resolve_account_session_def)
qed

lemma resolve_touches:
  assumes "resolve_account_session sha now token db = (db', r)"
  shows "\<exists>i f. db' = update_session i f db \<and> (\<forall>x. se_id (f x) = se_id x \<and> se_token_hash (f x) = se_token_hash x \<and>
    se_revoked_at (f x) = se_revoked_at x)"
proof -
  have same: "db = update_session i (\<lambda>x. x) db" for i
    by (simp add: update_session_def sql_update_def)
  consider "db' = db" | (renewed) i e where "db' = update_session i (\<lambda>x. x\<lparr>se_expires_at := e, se_last_seen_at := now\<rparr>) db"
    | (seen) i where "db' = update_session i (\<lambda>x. x\<lparr>se_last_seen_at := now\<rparr>) db"
    using assms by (fastforce simp: resolve_account_session_def Let_def split: if_splits option.splits)
  then show ?thesis
  proof cases
    case 1
    show ?thesis unfolding 1 by (rule exI, rule exI [of _ "\<lambda>x. x"]) (simp add: same [symmetric])
  next
    case (renewed i e)
    show ?thesis unfolding renewed by (rule exI, rule exI, rule conjI, rule refl) simp
  next
    case (seen i)
    show ?thesis unfolding seen by (rule exI, rule exI, rule conjI, rule refl) simp
  qed
qed

lemma token_dead_update:
  assumes "\<And>x. se_token_hash (f x) = se_token_hash x" "\<And>x. se_revoked_at x \<noteq> None \<Longrightarrow> se_revoked_at (f x) \<noteq> None"
    "token_dead sha token db"
  shows "token_dead sha token (db\<lparr>account_sessions := sql_update P f (account_sessions db)\<rparr>)"
  using assms by (simp add: token_dead_def has_row_key_iff sql_update_key_set) (auto simp: list_all_iff set_sql_update)

lemma token_dead_step: "session_step sha db db' \<Longrightarrow> token_dead sha token db \<Longrightarrow> token_dead sha token db'"
proof (erule session_stepE)
  fix now tk r assume d: "token_dead sha token db" and "resolve_account_session sha now tk db = (db', r)"
  then show "token_dead sha token db'"
    using resolve_touches [of sha now tk db db' r] token_dead_update [OF _ _ d] by (auto simp: update_session_def)
next
  fix now i tk acct dev name r
  assume "token_dead sha token db" and "create_account_session sha now i tk acct dev name db = Inr (db', r)"
  then show "token_dead sha token db'"
    by (auto simp: create_account_session_def Let_def token_dead_def has_row_iff split: if_splits)
next
  fix now tk b assume d: "token_dead sha token db" and "revoke_account_session sha now tk db = (db', b)"
  then show "token_dead sha token db'"
    using token_dead_update [OF _ _ d] by (auto simp: revoke_account_session_def Let_def)
qed

lemma token_dead_steps: "(session_step sha)\<^sup>*\<^sup>* db db' \<Longrightarrow> token_dead sha token db \<Longrightarrow> token_dead sha token db'"
  by (induction rule: rtranclp_induct) (auto dest: token_dead_step)

lemma revoke_kills:
  assumes "revoke_account_session sha now token db = (db', True)"
  shows "token_dead sha token db'"
proof -
  let ?h = "hash_account_session_token sha token"
  have db': "db' = db\<lparr>account_sessions := sql_update (\<lambda>r. se_token_hash r = ?h \<and> se_revoked_at r = None)
      (\<lambda>r. r\<lparr>se_revoked_at := Some now\<rparr>) (account_sessions db)\<rparr>"
    and row: "?h \<in> se_token_hash ` set (account_sessions db)"
    using assms by (auto simp: revoke_account_session_def Let_def has_row_iff intro: rev_image_eqI)
  show ?thesis using row by (simp add: db' token_dead_def has_row_key_iff sql_update_key_set)
      (auto simp: list_all_iff set_sql_update)
qed

text \<open>A session row that the token resolves to.\<close>

definition session_alive :: "(string \<Rightarrow> string) \<Rightarrow> string \<Rightarrow> string \<Rightarrow> int \<Rightarrow> gateway_db \<Rightarrow> bool" where
  "session_alive sha token acct t db \<longleftrightarrow> (case live_session sha db token of None \<Rightarrow> False
     | Some r \<Rightarrow> se_account_user_id r = acct \<and> t + ACCOUNT_SESSION_TTL_SECONDS sdiv 2 \<le> se_expires_at r)"

fun resolve_each :: "(string \<Rightarrow> string) \<Rightarrow> string \<Rightarrow> int list \<Rightarrow> gateway_db \<Rightarrow> AccountSession option list" where
  "resolve_each sha token [] db = []"
| "resolve_each sha token (t # ts) db = (case resolve_account_session sha t token db of
     (db1, r) \<Rightarrow> r # resolve_each sha token ts db1)"

text \<open>Uses of a session at most half a lifetime apart.\<close>

fun regular_use :: "int \<Rightarrow> int list \<Rightarrow> bool" where
  "regular_use t [] \<longleftrightarrow> True"
| "regular_use t (u # us) \<longleftrightarrow> t \<le> u \<and> u - t \<le> ACCOUNT_SESSION_TTL_SECONDS sdiv 2 \<and> regular_use u us"

lemma find_update_matching:
  assumes "\<And>x. P (f x) = P x"
  shows "find P (sql_update Q f t) = map_option (\<lambda>r. if Q r then f r else r) (find P t)"
  by (induction t) (simp_all add: assms)

lemma resolve_keeps_alive:
  assumes alive: "session_alive sha token acct t db" and "starts_with ''tsess_'' token"
    and time: "t \<le> u" "u - t \<le> ACCOUNT_SESSION_TTL_SECONDS sdiv 2"
  obtains db' s where "resolve_account_session sha u token db = (db', Some s)" "ses_account_user_id s = acct"
    "u \<le> ses_expires_at s" "session_alive sha token acct u db'"
proof -
  obtain r where r: "live_session sha db token = Some r" "se_account_user_id r = acct"
    "t + ACCOUNT_SESSION_TTL_SECONDS sdiv 2 \<le> se_expires_at r"
    using alive by (auto simp: session_alive_def split: option.splits)
  have ttl: "ACCOUNT_SESSION_TTL_SECONDS sdiv 2 = 1296000" "ACCOUNT_SESSION_TTL_SECONDS = 2592000"
    by (simp_all add: ACCOUNT_SESSION_TTL_SECONDS_def signed_divide_int_def)
  have after: "live_session sha (update_session (se_id r) f db) token = Some (f r)"
    if "\<And>x. se_token_hash (f x) = se_token_hash x" "\<And>x. se_revoked_at (f x) = se_revoked_at x" for f
    using r(1) that by (simp add: live_session_def update_session_def find_update_matching)
  have "\<exists>db' s. resolve_account_session sha u token db = (db', Some s) \<and> ses_account_user_id s = acct \<and>
      u \<le> ses_expires_at s \<and> session_alive sha token acct u db'"
    using assms(2) r time
    by (cases "u > se_expires_at r - ACCOUNT_SESSION_TTL_SECONDS sdiv 2")
      (simp_all add: resolve_account_session_def Let_def session_alive_def after ttl)
  then show thesis using that by blast
qed

lemma resolve_each_alive:
  assumes "session_alive sha token acct t db" "starts_with ''tsess_'' token" "regular_use t ts"
  shows "list_all (\<lambda>r. map_option ses_account_user_id r = Some acct) (resolve_each sha token ts db)"
  using assms
proof (induction ts arbitrary: t db)
  case (Cons u us)
  from Cons.prems(3) have time: "t \<le> u" "u - t \<le> ACCOUNT_SESSION_TTL_SECONDS sdiv 2" "regular_use u us" by simp_all
  show ?case
    by (rule resolve_keeps_alive [OF Cons.prems(1,2) time(1,2)])
      (use Cons.IH [OF _ Cons.prems(2) time(3)] in simp)
qed simp

lemma created_session_alive:
  assumes "create_account_session sha now i token acct dev name db = Inr (db', iss)"
  shows "session_alive sha token acct now db' \<and> sei_token iss = token"
proof -
  have "find (\<lambda>r. se_token_hash r = hash_account_session_token sha token \<and> se_revoked_at r = None)
      (account_sessions db) = None" if "\<not> has_row (\<lambda>r. se_id r = i \<or> se_token_hash r = hash_account_session_token sha token)
      (account_sessions db)"
    using that by (auto simp: find_None_iff has_row_iff)
  then show ?thesis using assms
    by (auto simp: create_account_session_def Let_def session_alive_def live_session_def find_append
        ACCOUNT_SESSION_TTL_SECONDS_def signed_divide_int_def split: if_splits)
qed

section \<open>Properties\<close>

lemma no_open_codes_no_guesses: "open_codes db e = [] \<Longrightarrow> guesses_left db e = 0"
proof -
  assume "open_codes db e = []"
  then have "guess_amount e r = 0" if "r \<in> set (account_email_codes db)" for r
    using that by (auto simp: open_codes_def guess_amount_def filter_empty_conv)
  then show ?thesis by (simp add: guesses_left_def table_sum_def sum_list_0 map_idI cong: map_cong)
qed

lemma open_codes_consume:
  assumes "open_codes db1 e = rows @ [r]" "codes_ok db1" "\<And>x. ec_id (f x) = ec_id x" "ec_consumed_at (f r) \<noteq> None"
  shows "open_codes (update_email_code (ec_id r) f db1) e = rows"
proof -
  have rows: "filter (\<lambda>r. ec_email r = e \<and> ec_consumed_at r = None) (account_email_codes db1) = rows @ [r]"
    and dist: "distinct (map ec_id (account_email_codes db1))"
    using assms(1,2) by (simp_all add: open_codes_def codes_ok_def)
  have "filter (\<lambda>r. ec_email r = e \<and> ec_consumed_at r = None) (sql_update (\<lambda>x. ec_id x = ec_id r) f t) =
      filter (\<lambda>x. ec_id x \<noteq> ec_id r) (filter (\<lambda>r. ec_email r = e \<and> ec_consumed_at r = None) t)"
    if "\<And>x. x \<in> set t \<Longrightarrow> ec_id x = ec_id r \<Longrightarrow> x = r" for t
    using that assms(4) by (induction t) auto
  moreover have "x = r" if "x \<in> set (account_email_codes db1)" "ec_id x = ec_id r" for x
  proof -
    have "r \<in> set (filter (\<lambda>r. ec_email r = e \<and> ec_consumed_at r = None) (account_email_codes db1))"
      unfolding rows by simp
    then show ?thesis using dist that by (simp add: distinct_map inj_on_def)
  qed
  moreover have "filter (\<lambda>x. ec_id x \<noteq> ec_id r) (rows @ [r]) = rows"
    using distinct_map_filter [OF dist, of "\<lambda>r. ec_email r = e \<and> ec_consumed_at r = None"]
    unfolding rows by (auto intro!: filter_True simp: image_iff)
  ultimately show ?thesis by (simp add: open_codes_def update_email_code_def rows del: filter_filter)
qed

text \<open>C32. Brute force against an email login is bounded: however requests for codes, guesses and followed
  magic links for this and other addresses interleave, and whatever their times, the number of guesses for
  an address that are ever compared with a stored code is at most five per code issued to it.\<close>

theorem login_guesses_bounded:
  assumes "codes_ok db" and "open_codes db e = []" and "auth_run sha e evs db = (db', guessed, issued)"
  shows "int guessed \<le> EMAIL_CODE_MAX_ATTEMPTS * int issued \<and> codes_ok db'"
  using auth_run_cost [OF assms(1,3)] no_open_codes_no_guesses [OF assms(2)] guesses_left_nonneg [of db' e] by simp

definition guessing_run :: "auth_event list" where
  "guessing_run = RequestCode 1000 ''c1'' ''Ann@x.org'' ''123456'' None #
     replicate 7 (GuessCode 1010 ''ann@x.org'' ''000000'') @ [GuessCode 1020 ''ann@x.org'' ''123456'']"

theorem login_guesses_bounded_witness:
  "case auth_run (\<lambda>s. s) ''ann@x.org'' guessing_run empty_db of (db', guessed, issued) \<Rightarrow>
     guessed = 5 \<and> issued = 1 \<and> int guessed \<le> EMAIL_CODE_MAX_ATTEMPTS * int issued \<and> codes_ok db'"
proof -
  have r: "fst (snd (auth_run (\<lambda>s. s) ''ann@x.org'' guessing_run empty_db)) = 5"
    "snd (snd (auth_run (\<lambda>s. s) ''ann@x.org'' guessing_run empty_db)) = 1"
    by code_simp+
  have "codes_ok empty_db" "open_codes empty_db ''ann@x.org'' = []"
    by (simp_all add: codes_ok_def open_codes_def empty_db_def)
  note bound = login_guesses_bounded [OF this]
  obtain db' guessed issued where run: "auth_run (\<lambda>s. s) ''ann@x.org'' guessing_run empty_db = (db', guessed, issued)"
    by (metis prod_cases3)
  show ?thesis using bound [OF run] r run by simp
qed

text \<open>A code that was mailed logs its address in: within ten minutes of a successful request the code,
  typed with surrounding white space and the address in any capitalisation, is accepted for the account of
  the address, and it is spent, so that only the codes that were open before the request remain open.\<close>

theorem mailed_code_logs_in:
  assumes "codes_ok db" and "create_account_email_code sha now i email_text code db = Inr (db1, req)"
    and "well_formed_code code" and "trim typed = code" and "normalize_account_email typed_email = Some (ecr_email req)"
    and "now \<le> t" and "t \<le> ecr_expires_at req"
  shows "\<exists>db2. verify_account_email_code sha t typed_email typed db1 =
       (db2, Inr \<lparr>ecv_account_user_id = account_user_id_for_email (ecr_email req), ecv_email = ecr_email req\<rparr>) \<and>
     open_codes db2 (ecr_email req) = open_codes db (ecr_email req) \<and> codes_ok db2"
proof -
  have ok1: "codes_ok db1"
    using create_code_guesses assms(1,2) unfolding create_account_email_code_def by blast
  from assms(2) [unfolded create_account_email_code_def] show ?thesis
  proof (cases rule: create_code_steps)
    case (1 email r)
    have open1: "open_codes db1 email = open_codes db email @ [r]"
      using 1(4,5) by (simp add: open_codes_def)
    have "newest (open_codes db1 email) = Some r" unfolding open1
      using resend_gap [OF 1(2)] by (intro newest_append) (force simp: 1(5) EMAIL_CODE_RESEND_WINDOW_SECONDS_def)
    then have "verify_account_email_code sha t typed_email typed db1 = (update_email_code (ec_id r)
        (\<lambda>x. x\<lparr>ec_consumed_at := Some t, ec_attempts := ec_attempts x + 1\<rparr>) db1,
        Inr \<lparr>ecv_account_user_id = account_user_id_for_email email, ecv_email = email\<rparr>)"
      using assms(3-) 1(5,6) by (simp add: verify_account_email_code_def EMAIL_CODE_MAX_ATTEMPTS_def)
    then show ?thesis using open_codes_consume [OF open1 ok1] ok1 1(6) by (simp add: codes_ok_update)
  qed
qed

theorem mailed_code_logs_in_witness:
  "\<exists>db1 db2 req. create_account_email_code (\<lambda>s. s) 1000 ''c1'' ''Ann@x.org'' ''123456'' empty_db = Inr (db1, req) \<and>
     verify_account_email_code (\<lambda>s. s) 1600 ''ann@X.org'' '' 123456 '' db1 = (db2,
       Inr \<lparr>ecv_account_user_id = ''email:ann@x.org'', ecv_email = ''ann@x.org''\<rparr>) \<and>
     open_codes db2 ''ann@x.org'' = []"
proof -
  let ?c = "create_account_email_code (\<lambda>s. s) 1000 ''c1'' ''Ann@x.org'' ''123456'' empty_db"
  have c: "case ?c of Inl _ \<Rightarrow> False | Inr (_, req) \<Rightarrow> req = \<lparr>ecr_email = ''ann@x.org'', ecr_expires_at = 1600\<rparr>"
    by code_simp
  then obtain db1 where 1: "?c = Inr (db1, \<lparr>ecr_email = ''ann@x.org'', ecr_expires_at = 1600\<rparr>)"
    by (auto split: sum.splits prod.splits)
  have h: "codes_ok empty_db" "well_formed_code ''123456''" "trim '' 123456 '' = ''123456''"
    "normalize_account_email ''ann@X.org'' = Some ''ann@x.org''" "open_codes empty_db ''ann@x.org'' = []"
    "account_user_id_for_email ''ann@x.org'' = ''email:ann@x.org''"
    by code_simp+
  show ?thesis
    using mailed_code_logs_in [OF h(1) 1 h(2,3), of "''ann@X.org''" 1600] 1 h by auto
qed

text \<open>C33. A session in regular use never expires: once issued, its token resolves to its account at every
  one of any number of uses that follow each other within half a lifetime (fifteen days), because a use in
  the second half of the lifetime renews it.\<close>

theorem session_kept_alive_by_use:
  assumes "create_account_session sha now i token acct dev name db = Inr (db', issued)"
    and "starts_with ''tsess_'' token" and "regular_use now uses"
  shows "list_all (\<lambda>r. map_option ses_account_user_id r = Some acct) (resolve_each sha (sei_token issued) uses db')"
  using resolve_each_alive [OF _ assms(2,3)] created_session_alive [OF assms(1)] by simp

theorem session_kept_alive_by_use_witness:
  "\<exists>db' issued. create_account_session (\<lambda>s. s) 0 ''s1'' ''tsess_1'' ''acct'' None None empty_db = Inr (db', issued) \<and>
     list_all (\<lambda>r. map_option ses_account_user_id r = Some ''acct'')
       (resolve_each (\<lambda>s. s) (sei_token issued) [1000000, 2200000, 3400000, 4600000] db')"
proof -
  let ?c = "create_account_session (\<lambda>s. s) 0 ''s1'' ''tsess_1'' ''acct'' None None empty_db"
  have "case ?c of Inl _ \<Rightarrow> False | Inr _ \<Rightarrow> True" by code_simp
  then obtain db' issued where 1: "?c = Inr (db', issued)" by (auto split: sum.splits)
  have "starts_with ''tsess_'' ''tsess_1''" "regular_use 0 [1000000, 2200000, 3400000, 4600000]" by code_simp+
  from session_kept_alive_by_use [OF 1 this] 1 show ?thesis by blast
qed

text \<open>Logging out is final: after a revocation that found a live session, and whatever sessions are
  issued, resolved and revoked afterwards, the revoked token never resolves again.\<close>

theorem revoked_session_is_dead:
  assumes "revoke_account_session sha now token db = (db1, True)" and "(session_step sha)\<^sup>*\<^sup>* db1 db2"
  shows "resolve_account_session sha t token db2 = (db2, None)"
  using token_dead_resolve [OF token_dead_steps [OF assms(2) revoke_kills [OF assms(1)]]] .

definition one_session_db :: gateway_db where
  "one_session_db = empty_db\<lparr>account_sessions := [\<lparr>se_id = ''s1'', se_account_user_id = ''acct'',
     se_token_hash = ''account-session:tsess_1'', se_created_at = 0, se_expires_at = 2592000, se_last_seen_at = 0,
     se_device_id = None, se_device_name = None, se_revoked_at = None\<rparr>]\<rparr>"

theorem revoked_session_is_dead_witness:
  "snd (resolve_account_session (\<lambda>s. s) 5 ''tsess_1'' one_session_db) \<noteq> None \<and>
   (\<exists>db1. revoke_account_session (\<lambda>s. s) 10 ''tsess_1'' one_session_db = (db1, True) \<and>
     resolve_account_session (\<lambda>s. s) 20 ''tsess_1'' db1 = (db1, None))"
proof -
  have "snd (revoke_account_session (\<lambda>s. s) 10 ''tsess_1'' one_session_db)" by code_simp
  then obtain db1 where 1: "revoke_account_session (\<lambda>s. s) 10 ''tsess_1'' one_session_db = (db1, True)"
    by (metis (full_types) prod.collapse)
  have "snd (resolve_account_session (\<lambda>s. s) 5 ''tsess_1'' one_session_db) \<noteq> None" by code_simp
  with 1 revoked_session_is_dead [OF 1 rtranclp.rtrancl_refl, of 20] show ?thesis by blast
qed

text \<open>Consuming the newest code uncovers the ones issued before it: while the second of two codes is open
  the first one is not accepted, and once the second has logged in the first is accepted again.\<close>

definition two_codes_db :: gateway_db where
  "two_codes_db = fst (projr (create_account_email_code (\<lambda>s. s) 60 ''c2'' ''a@x.org'' ''222222''
     (fst (projr (create_account_email_code (\<lambda>s. s) 0 ''c1'' ''a@x.org'' ''111111'' empty_db)))))"

lemma older_code_revives:
  "snd (verify_account_email_code (\<lambda>s. s) 70 ''a@x.org'' ''111111'' two_codes_db) = Inl (Bail ''invalid code'') \<and>
   (case verify_account_email_code (\<lambda>s. s) 70 ''a@x.org'' ''222222'' two_codes_db of (db, r) \<Rightarrow>
      r \<noteq> Inl (Bail ''invalid code'') \<and>
      snd (verify_account_email_code (\<lambda>s. s) 80 ''a@x.org'' ''111111'' db) =
        Inr \<lparr>ecv_account_user_id = ''email:a@x.org'', ecv_email = ''a@x.org''\<rparr>)"
  by code_simp

end
