(* ===== verification/Merkle.thy ===== *)
theory Merkle
  imports Gateway_Db "HOL-Library.Word"
begin

text \<open>
  External verifiability of the credit ledger (\<open>gateway/src/anchoring.rs\<close>), first half: the canonical
  encoding of a ledger row, the chain of row hashes, and the Merkle tree with its inclusion proofs. The hash
  function (SHA-256) and the hexadecimal coding are arguments; what the code relies on is that a digest has 32
  bytes and that decoding undoes encoding. The lemmas show that the encoding is unambiguous, that every proof
  the gateway builds is accepted, and that an accepted proof for a row that is not in the tree exhibits a
  collision of the hash function.
\<close>

section \<open>Bytes\<close>

type_synonym bytes = "8 word list"

text \<open>The UTF-8 bytes of a string whose characters are below 256.\<close>

definition utf8_char :: "char \<Rightarrow> bytes" where
  "utf8_char c = (let n = of_char c :: nat in
     if n < 128 then [of_nat n] else [of_nat (192 + n div 64), of_nat (128 + n mod 64)])"

definition as_bytes :: "string \<Rightarrow> bytes" where
  "as_bytes s = concat (map utf8_char s)"

text \<open>\<open>to_le_bytes\<close> of a two's complement integer of \<open>n\<close> bytes.\<close>

primrec le_bytes :: "nat \<Rightarrow> int \<Rightarrow> bytes" where
  "le_bytes 0 x = []"
| "le_bytes (Suc n) x = word_of_int x # le_bytes n (x div 256)"

definition zero32 :: bytes where "zero32 = replicate 32 0"

section \<open>Rows\<close>

definition ENTRY_ENCODING_VERSION :: string where "ENTRY_ENCODING_VERSION = ''TEALE-LEDGER-V1''"

definition MEMO_FORMAT_VERSION :: string where "MEMO_FORMAT_VERSION = ''V1''"

definition push_len_prefixed :: "bytes \<Rightarrow> string \<Rightarrow> bytes" where
  "push_len_prefixed out s = out @ le_bytes 4 (int (length (as_bytes s))) @ as_bytes s"

definition unwrap_or_empty :: "string option \<Rightarrow> string" where
  "unwrap_or_empty s = (case s of None \<Rightarrow> [] | Some v \<Rightarrow> v)"

definition encode_entry :: "ledger_row \<Rightarrow> bytes" where
  "encode_entry row =
     (let out = as_bytes ENTRY_ENCODING_VERSION @ le_bytes 8 (lg_id row) @ le_bytes 8 (lg_timestamp row)
           @ le_bytes 8 (lg_amount row);
          out = push_len_prefixed out (lg_device_id row);
          out = push_len_prefixed out (lg_type row);
          out = push_len_prefixed out (unwrap_or_empty (lg_ref_request_id row))
      in push_len_prefixed out (unwrap_or_empty (lg_note row)))"

definition entry_hash :: "(bytes \<Rightarrow> bytes) \<Rightarrow> ledger_row \<Rightarrow> bytes" where
  "entry_hash sha row = sha (encode_entry row)"

definition chain_hash :: "(bytes \<Rightarrow> bytes) \<Rightarrow> bytes \<Rightarrow> bytes \<Rightarrow> bytes" where
  "chain_hash sha prev entry = sha (prev @ entry)"

section \<open>The tree\<close>

record ProofStep =
  ps_sibling :: string
  ps_is_left :: bool

definition pair_input :: "bytes \<Rightarrow> bytes \<Rightarrow> bytes" where
  "pair_input left right = 1 # left @ right"

definition hash_pair :: "(bytes \<Rightarrow> bytes) \<Rightarrow> bytes \<Rightarrow> bytes \<Rightarrow> bytes" where
  "hash_pair sha left right = sha (pair_input left right)"

text \<open>One pass of the inner loop: neighbours are hashed together, an odd node is promoted.\<close>

fun next_level :: "(bytes \<Rightarrow> bytes) \<Rightarrow> bytes list \<Rightarrow> bytes list" where
  "next_level sha (x # y # rest) = hash_pair sha x y # next_level sha rest"
| "next_level sha level = level"

lemma length_next_level: "length (next_level sha level) = (length level + 1) div 2"
  by (induction sha level rule: next_level.induct) auto

function merkle_loop :: "(bytes \<Rightarrow> bytes) \<Rightarrow> bytes list \<Rightarrow> bytes" where
  "merkle_loop sha level = (if length level > 1 then merkle_loop sha (next_level sha level) else level ! 0)"
  by pat_completeness auto
termination
  by (relation "measure (\<lambda>(sha, level). length level)") (auto simp: length_next_level)

declare merkle_loop.simps [simp del]

definition merkle_root :: "(bytes \<Rightarrow> bytes) \<Rightarrow> bytes list \<Rightarrow> bytes" where
  "merkle_root sha leaves = (if leaves = [] then zero32 else merkle_loop sha leaves)"

function proof_loop ::
  "(bytes \<Rightarrow> bytes) \<Rightarrow> (bytes \<Rightarrow> string) \<Rightarrow> bytes list \<Rightarrow> nat \<Rightarrow> ProofStep list" where
  "proof_loop sha hex level idx =
     (if length level > 1 then
        (let sibling_idx = if even idx then idx + 1 else idx - 1
         in (if sibling_idx < length level
             then [\<lparr>ps_sibling = hex (level ! sibling_idx), ps_is_left = odd idx\<rparr>] else [])
            @ proof_loop sha hex (next_level sha level) (idx div 2))
      else [])"
  by pat_completeness auto
termination
  by (relation "measure (\<lambda>(sha, hex, level, idx). length level)") (auto simp: length_next_level)

declare proof_loop.simps [simp del]

definition merkle_proof ::
  "(bytes \<Rightarrow> bytes) \<Rightarrow> (bytes \<Rightarrow> string) \<Rightarrow> bytes list \<Rightarrow> nat \<Rightarrow> anyhow + ProofStep list" where
  "merkle_proof sha hex leaves index =
     (if index < length leaves then Inr (proof_loop sha hex leaves index)
      else Inl (Panicked ''proof index out of range''))"

definition decode_hash :: "(string \<Rightarrow> bytes option) \<Rightarrow> string \<Rightarrow> bytes option" where
  "decode_hash unhex s = (case unhex s of
      Some b \<Rightarrow> if length b = 32 then Some b else None
    | None \<Rightarrow> None)"

fun fold_proof :: "(bytes \<Rightarrow> bytes) \<Rightarrow> (string \<Rightarrow> bytes option) \<Rightarrow> bytes \<Rightarrow> ProofStep list \<Rightarrow> bytes option" where
  "fold_proof sha unhex running [] = Some running"
| "fold_proof sha unhex running (step # steps) =
     (case decode_hash unhex (ps_sibling step) of
        None \<Rightarrow> None
      | Some sibling \<Rightarrow> fold_proof sha unhex
          (if ps_is_left step then hash_pair sha sibling running else hash_pair sha running sibling) steps)"

definition verify_proof ::
  "(bytes \<Rightarrow> bytes) \<Rightarrow> (string \<Rightarrow> bytes option) \<Rightarrow> bytes \<Rightarrow> ProofStep list \<Rightarrow> bytes \<Rightarrow> bool" where
  "verify_proof sha unhex leaf proof expected_root \<longleftrightarrow> fold_proof sha unhex leaf proof = Some expected_root"

definition anchor_memo :: "(bytes \<Rightarrow> string) \<Rightarrow> int \<Rightarrow> int \<Rightarrow> int \<Rightarrow> bytes \<Rightarrow> bytes \<Rightarrow> string" where
  "anchor_memo hex first_id last_id count root tip =
     ''TEALE:ANCHOR:'' @ MEMO_FORMAT_VERSION @ '':'' @ show_int first_id @ '':'' @ show_int last_id @ '':''
       @ show_int count @ '':'' @ hex root @ '':'' @ hex tip"

text \<open>What the code relies on of the hash function and of the hexadecimal coding.\<close>

definition digest32 :: "(bytes \<Rightarrow> bytes) \<Rightarrow> bool" where
  "digest32 sha \<longleftrightarrow> (\<forall>b. length (sha b) = 32)"

definition hex_codec :: "(bytes \<Rightarrow> string) \<Rightarrow> (string \<Rightarrow> bytes option) \<Rightarrow> bool" where
  "hex_codec hex unhex \<longleftrightarrow> (\<forall>b. unhex (hex b) = Some b)"

lemma digest32_length: "digest32 sha \<Longrightarrow> length (sha b) = 32"
  by (simp add: digest32_def)

section \<open>The encoding is unambiguous\<close>

primrec le_value :: "bytes \<Rightarrow> int" where
  "le_value [] = 0"
| "le_value (b # bs) = uint b + 256 * le_value bs"

lemma length_le_bytes [simp]: "length (le_bytes n x) = n"
  by (induction n arbitrary: x) simp_all

lemma le_value_le_bytes: "le_value (le_bytes n x) = x mod 256 ^ n"
proof (induction n arbitrary: x)
  case (Suc n)
  have "uint (word_of_int x :: 8 word) = x mod 256" by (simp add: uint_word_of_int)
  then show ?case using zmod_zmult2_eq [of "256 ^ n" x 256] by (simp add: Suc.IH)
qed simp

lemma le_bytes_inj_mod: "le_bytes n x = le_bytes n y \<Longrightarrow> x mod 256 ^ n = y mod 256 ^ n"
  using le_value_le_bytes by metis

lemma le_bytes_inj_i64:
  assumes "le_bytes 8 x = le_bytes 8 y" "in_i64 x" "in_i64 y"
  shows "x = y"
proof -
  have "x mod 2 ^ 64 = y mod 2 ^ 64" using le_bytes_inj_mod [OF assms(1)] by simp
  then have "2 ^ 64 dvd (x - y)" by (simp add: mod_eq_dvd_iff)
  moreover have "\<bar>x - y\<bar> < 2 ^ 64" using assms(2,3) by (simp add: in_i64_def i64_min_def i64_max_def abs_if)
  ultimately show ?thesis using zdvd_imp_le [of "2 ^ 64" "\<bar>x - y\<bar>"] by auto
qed

lemma le_bytes_inj_u32:
  assumes "le_bytes 4 (int m) = le_bytes 4 (int n)" "int m < 2 ^ 32" "int n < 2 ^ 32"
  shows "m = n"
  using le_bytes_inj_mod [OF assms(1)] assms(2,3) by (simp add: zmod_int [symmetric] of_nat_less_iff)

lemma of_nat_byte_eq:
  assumes "m < 256" "n < 256"
  shows "(of_nat m :: 8 word) = of_nat n \<longleftrightarrow> m = n"
proof -
  have "unat (of_nat k :: 8 word) = k" if "k < 256" for k
    using that by (simp add: unat_of_nat)
  from this [OF assms(1)] this [OF assms(2)] show ?thesis by metis
qed

lemma of_char_less: "(of_char c :: nat) < 256"
proof -
  have "(of_char c :: nat) mod 256 < 256" by simp
  then show ?thesis by (simp only: of_char_mod_256)
qed

lemma utf8_char_prefix_free:
  assumes "utf8_char c @ s = utf8_char d @ t"
  shows "c = d \<and> s = t"
proof -
  let ?m = "of_char c :: nat" and ?n = "of_char d :: nat"
  have b: "?m < 256" "?n < 256" by (rule of_char_less)+
  have "192 + n div 64 < 256 \<and> 128 + n mod 64 < 256" if "n < 256" for n :: nat
    using that mod_less_divisor [of 64 n] by linarith
  then have div64: "192 + ?m div 64 < 256" "192 + ?n div 64 < 256" "128 + ?m mod 64 < 256" "128 + ?n mod 64 < 256"
    using b by blast+
  have "?m = ?n"
  proof (cases "?m < 128"; cases "?n < 128")
    assume "?m < 128" "?n < 128"
    then show ?thesis using assms by (auto simp: utf8_char_def of_nat_byte_eq)
  next
    assume "?m < 128" "\<not> ?n < 128"
    then show ?thesis using assms of_nat_byte_eq [of ?m "192 + ?n div 64"] div64 by (auto simp: utf8_char_def Let_def)
  next
    assume "\<not> ?m < 128" "?n < 128"
    then show ?thesis using assms of_nat_byte_eq [of "192 + ?m div 64" ?n] div64 by (auto simp: utf8_char_def Let_def)
  next
    assume "\<not> ?m < 128" "\<not> ?n < 128"
    then have "?m div 64 = ?n div 64" "?m mod 64 = ?n mod 64"
      using assms of_nat_byte_eq [OF div64(1,2)] of_nat_byte_eq [OF div64(3,4)] by (auto simp: utf8_char_def Let_def)
    then show ?thesis by (metis div_mult_mod_eq)
  qed
  then have "c = d" by simp
  then show ?thesis using assms by simp
qed

lemma utf8_char_not_Nil: "utf8_char c \<noteq> []"
  by (simp add: utf8_char_def Let_def)

lemma as_bytes_inj: "as_bytes s = as_bytes t \<Longrightarrow> s = t"
proof (induction s arbitrary: t)
  case Nil
  then show ?case using utf8_char_not_Nil by (cases t) (auto simp: as_bytes_def)
next
  case (Cons c s)
  then obtain d t' where t: "t = d # t'"
    using utf8_char_not_Nil by (cases t) (auto simp: as_bytes_def)
  then have "utf8_char c @ as_bytes s = utf8_char d @ as_bytes t'"
    using Cons.prems by (simp add: as_bytes_def)
  then show ?case using utf8_char_prefix_free Cons.IH t by blast
qed

lemma len_prefixed_unambiguous:
  assumes "push_len_prefixed [] s @ r = push_len_prefixed [] t @ r'"
    "int (length (as_bytes s)) < 2 ^ 32" "int (length (as_bytes t)) < 2 ^ 32"
  shows "s = t \<and> r = r'"
proof -
  have "le_bytes 4 (int (length (as_bytes s))) = le_bytes 4 (int (length (as_bytes t))) \<and>
      as_bytes s @ r = as_bytes t @ r'"
    using assms(1) by (simp add: push_len_prefixed_def)
  then have "length (as_bytes s) = length (as_bytes t)" "as_bytes s @ r = as_bytes t @ r'"
    using le_bytes_inj_u32 assms(2,3) by blast+
  then show ?thesis using as_bytes_inj by simp
qed

text \<open>The content of a row as the encoding keeps it (an absent text is an empty one), and the rows SQLite can
  hold: 64-bit integers and texts below the 32-bit length.\<close>

definition row_content :: "ledger_row \<Rightarrow> int \<times> int \<times> int \<times> string \<times> string \<times> string \<times> string" where
  "row_content row = (lg_id row, lg_timestamp row, lg_amount row, lg_device_id row, lg_type row,
     unwrap_or_empty (lg_ref_request_id row), unwrap_or_empty (lg_note row))"

definition row_storable :: "ledger_row \<Rightarrow> bool" where
  "row_storable row \<longleftrightarrow> in_i64 (lg_id row) \<and> in_i64 (lg_timestamp row) \<and> in_i64 (lg_amount row) \<and>
     int (length (as_bytes (lg_device_id row))) < 2 ^ 32 \<and> int (length (as_bytes (lg_type row))) < 2 ^ 32 \<and>
     int (length (as_bytes (unwrap_or_empty (lg_ref_request_id row)))) < 2 ^ 32 \<and>
     int (length (as_bytes (unwrap_or_empty (lg_note row)))) < 2 ^ 32"

lemma encode_entry_parts:
  "encode_entry row = as_bytes ENTRY_ENCODING_VERSION @ le_bytes 8 (lg_id row) @ le_bytes 8 (lg_timestamp row)
     @ le_bytes 8 (lg_amount row) @ push_len_prefixed [] (lg_device_id row) @ push_len_prefixed [] (lg_type row)
     @ push_len_prefixed [] (unwrap_or_empty (lg_ref_request_id row))
     @ push_len_prefixed [] (unwrap_or_empty (lg_note row)) @ []"
  by (simp add: encode_entry_def push_len_prefixed_def)

lemma le_bytes_append: "le_bytes n x @ r = le_bytes n y @ r' \<longleftrightarrow> le_bytes n x = le_bytes n y \<and> r = r'"
  by (rule append_eq_append_conv) simp

lemma encode_entry_inj:
  assumes eq: "encode_entry a = encode_entry b" and ok: "row_storable a" "row_storable b"
  shows "row_content a = row_content b"
proof -
  let ?rest3 = "\<lambda>r. push_len_prefixed [] (unwrap_or_empty (lg_note r)) @ []"
  let ?rest2 = "\<lambda>r. push_len_prefixed [] (unwrap_or_empty (lg_ref_request_id r)) @ ?rest3 r"
  let ?rest1 = "\<lambda>r. push_len_prefixed [] (lg_type r) @ ?rest2 r"
  let ?rest = "\<lambda>r. push_len_prefixed [] (lg_device_id r) @ ?rest1 r"
  have "le_bytes 8 (lg_id a) = le_bytes 8 (lg_id b)" "le_bytes 8 (lg_timestamp a) = le_bytes 8 (lg_timestamp b)"
    "le_bytes 8 (lg_amount a) = le_bytes 8 (lg_amount b)" and rest: "?rest a = ?rest b"
    using eq unfolding encode_entry_parts same_append_eq le_bytes_append by blast+
  then have ints: "lg_id a = lg_id b" "lg_timestamp a = lg_timestamp b" "lg_amount a = lg_amount b"
    using le_bytes_inj_i64 ok by (simp_all add: row_storable_def)
  have 1: "lg_device_id a = lg_device_id b" and r1: "?rest1 a = ?rest1 b"
    using len_prefixed_unambiguous [OF rest] ok by (simp_all add: row_storable_def)
  have 2: "lg_type a = lg_type b" and r2: "?rest2 a = ?rest2 b"
    using len_prefixed_unambiguous [OF r1] ok by (simp_all add: row_storable_def)
  have 3: "unwrap_or_empty (lg_ref_request_id a) = unwrap_or_empty (lg_ref_request_id b)" and r3: "?rest3 a = ?rest3 b"
    using len_prefixed_unambiguous [OF r2] ok by (simp_all add: row_storable_def)
  have 4: "unwrap_or_empty (lg_note a) = unwrap_or_empty (lg_note b)"
    using len_prefixed_unambiguous [OF r3] ok by (simp add: row_storable_def)
  show ?thesis using ints 1 2 3 4 by (simp add: row_content_def)
qed

lemma encode_entry_first_byte: "\<exists>bs. encode_entry row = 84 # bs"
  unfolding encode_entry_parts
  by (simp add: ENTRY_ENCODING_VERSION_def as_bytes_def utf8_char_def)

lemma encode_entry_not_pair: "encode_entry row \<noteq> pair_input x y"
  using encode_entry_first_byte [of row] by (auto simp: pair_input_def)

section \<open>Proofs that are built are accepted\<close>

lemma next_level_nth:
  "idx < length level \<Longrightarrow> next_level sha level ! (idx div 2) =
     (if even idx then (if idx + 1 < length level then hash_pair sha (level ! idx) (level ! (idx + 1)) else level ! idx)
      else hash_pair sha (level ! (idx - 1)) (level ! idx))"
proof (induction sha level arbitrary: idx rule: next_level.induct)
  case (1 sha x y rest)
  consider "idx = 0" | "idx = 1" | k where "idx = k + 2" by (metis One_nat_def add_2_eq_Suc' not0_implies_Suc)
  then show ?case
  proof cases
    case (3 k)
    then have "k < length rest" using 1(2) by simp
    then show ?thesis using 1(1) [of k] 3 by (simp add: nth_Cons' split: if_splits)
  qed simp_all
qed simp_all

lemma next_level_32:
  "digest32 sha \<Longrightarrow> list_all (\<lambda>b. length b = 32) level \<Longrightarrow> list_all (\<lambda>b. length b = 32) (next_level sha level)"
  by (induction sha level rule: next_level.induct) (simp_all add: hash_pair_def digest32_length)

lemma proof_loop_folds:
  assumes "digest32 sha" "hex_codec hex unhex" "list_all (\<lambda>b. length b = 32) level" "idx < length level"
  shows "fold_proof sha unhex (level ! idx) (proof_loop sha hex level idx) = Some (merkle_loop sha level)"
  using assms
proof (induction sha hex level idx rule: proof_loop.induct)
  case (1 sha hex level idx)
  show ?case
  proof (cases "length level > 1")
    case False
    then have "idx = 0" using "1.prems" by simp
    then show ?thesis using False by (simp add: proof_loop.simps merkle_loop.simps)
  next
    case True
    have "idx div 2 < length (next_level sha level)" using "1.prems"(4) by (simp add: length_next_level)
    then have ih: "fold_proof sha unhex (next_level sha level ! (idx div 2))
        (proof_loop sha hex (next_level sha level) (idx div 2)) = Some (merkle_loop sha (next_level sha level))"
      using "1.IH" True "1.prems" next_level_32 by blast
    have dec: "decode_hash unhex (hex (level ! i)) = Some (level ! i)" if "i < length level" for i
      using that "1.prems"(2,3) by (simp add: decode_hash_def hex_codec_def list_all_length)
    show ?thesis using ih True "1.prems"(4)
      by (subst proof_loop.simps, subst merkle_loop.simps) (auto simp: next_level_nth dec Let_def)
  qed
qed

section \<open>Accepted proofs are in the tree\<close>

text \<open>The inputs the tree hashes, level by level, and the ones a verifier hashes.\<close>

fun level_inputs :: "bytes list \<Rightarrow> bytes list" where
  "level_inputs (x # y # rest) = pair_input x y # level_inputs rest"
| "level_inputs level = []"

function tree_inputs :: "(bytes \<Rightarrow> bytes) \<Rightarrow> bytes list \<Rightarrow> bytes list" where
  "tree_inputs sha level =
     (if length level > 1 then level_inputs level @ tree_inputs sha (next_level sha level) else [])"
  by pat_completeness auto
termination
  by (relation "measure (\<lambda>(sha, level). length level)") (auto simp: length_next_level)

declare tree_inputs.simps [simp del]

fun proof_inputs :: "(bytes \<Rightarrow> bytes) \<Rightarrow> (string \<Rightarrow> bytes option) \<Rightarrow> bytes \<Rightarrow> ProofStep list \<Rightarrow> bytes list" where
  "proof_inputs sha unhex running [] = []"
| "proof_inputs sha unhex running (step # steps) =
     (case decode_hash unhex (ps_sibling step) of
        None \<Rightarrow> []
      | Some sibling \<Rightarrow>
          (let b = if ps_is_left step then pair_input sibling running else pair_input running sibling
           in b # proof_inputs sha unhex (sha b) steps))"

definition no_collision :: "(bytes \<Rightarrow> bytes) \<Rightarrow> bytes list \<Rightarrow> bytes list \<Rightarrow> bool" where
  "no_collision sha as bs \<longleftrightarrow> list_all (\<lambda>a. list_all (\<lambda>b. sha a = sha b \<longrightarrow> a = b) bs) as"

definition known :: "(bytes \<Rightarrow> bytes) \<Rightarrow> bytes list \<Rightarrow> bytes set" where
  "known sha leaves = set leaves \<union> sha ` set (tree_inputs sha leaves)"

lemma no_collisionD: "no_collision sha as bs \<Longrightarrow> a \<in> set as \<Longrightarrow> b \<in> set bs \<Longrightarrow> sha a = sha b \<Longrightarrow> a = b"
  by (auto simp: no_collision_def list_all_iff)

lemma next_level_known:
  "x \<in> set (next_level sha level) \<Longrightarrow> x \<in> set level \<or> x \<in> sha ` set (level_inputs level)"
  by (induction sha level rule: next_level.induct) (auto simp: hash_pair_def)

lemma level_inputs_pairs:
  "b \<in> set (level_inputs level) \<Longrightarrow> \<exists>x\<in>set level. \<exists>y\<in>set level. b = pair_input x y"
  by (induction level rule: level_inputs.induct) auto

lemma known_next: "length level > 1 \<Longrightarrow> known sha (next_level sha level) \<subseteq> known sha level"
  using next_level_known [of _ sha level] by (auto simp: known_def tree_inputs.simps [of sha level])

lemma tree_inputs_known:
  "b \<in> set (tree_inputs sha level) \<Longrightarrow> \<exists>x\<in>known sha level. \<exists>y\<in>known sha level. b = pair_input x y"
proof (induction sha level rule: tree_inputs.induct)
  case (1 sha level)
  then have len: "length level > 1" by (simp add: tree_inputs.simps [of sha level] split: if_splits)
  then consider "b \<in> set (level_inputs level)" | "b \<in> set (tree_inputs sha (next_level sha level))"
    using 1(2) by (auto simp: tree_inputs.simps [of sha level])
  then show ?case
  proof cases
    case 1
    then show ?thesis using level_inputs_pairs by (fastforce simp: known_def)
  next
    case 2
    then show ?thesis using "1.IH" [OF len 2] known_next [OF len] by blast
  qed
qed

lemma merkle_loop_known: "level \<noteq> [] \<Longrightarrow> merkle_loop sha level \<in> known sha level"
proof (induction sha level rule: merkle_loop.induct)
  case (1 sha level)
  show ?case
  proof (cases "length level > 1")
    case True
    have "next_level sha level \<noteq> []" using True length_next_level [of sha level] by auto
    then have "merkle_loop sha (next_level sha level) \<in> known sha (next_level sha level)" using "1.IH" True by blast
    then show ?thesis using known_next [OF True] merkle_loop.simps [of sha level] True by auto
  next
    case False
    then show ?thesis using 1(2) by (simp add: merkle_loop.simps [of sha level] known_def)
  qed
qed

lemma known_32:
  "digest32 sha \<Longrightarrow> list_all (\<lambda>b. length b = 32) leaves \<Longrightarrow> x \<in> known sha leaves \<Longrightarrow> length x = 32"
  by (auto simp: known_def digest32_length list_all_iff)

lemma pair_input_inj: "length a = length c \<Longrightarrow> pair_input a b = pair_input c d \<longleftrightarrow> a = c \<and> b = d"
  by (auto simp: pair_input_def)

lemma fold_proof_known:
  fixes rows :: "ledger_row list" and sha :: "bytes \<Rightarrow> bytes"
  defines "leaves \<equiv> map (entry_hash sha) rows"
  assumes "digest32 sha" "length running = 32" "fold_proof sha unhex running steps = Some v" "v \<in> known sha leaves"
    "no_collision sha (proof_inputs sha unhex running steps) (map encode_entry rows @ tree_inputs sha leaves)"
  shows "running \<in> known sha leaves"
  using assms(3-)
proof (induction steps arbitrary: running)
  case Nil
  then show ?case by simp
next
  case (Cons step steps)
  obtain sib where sib: "decode_hash unhex (ps_sibling step) = Some sib" "length sib = 32"
    using Cons.prems(2) by (auto simp: decode_hash_def split: option.splits if_splits)
  define b where "b = (if ps_is_left step then pair_input sib running else pair_input running sib)"
  have inputs: "proof_inputs sha unhex running (step # steps) = b # proof_inputs sha unhex (sha b) steps"
    using sib by (simp add: b_def Let_def)
  have "fold_proof sha unhex (sha b) steps = Some v"
    using Cons.prems(2) sib by (simp add: b_def hash_pair_def if_distrib split: if_splits)
  then have "sha b \<in> known sha leaves"
    using Cons.IH [of "sha b"] Cons.prems(3) Cons.prems(4) [unfolded inputs] digest32_length [OF assms(2)]
    by (simp add: no_collision_def)
  then obtain b' where b': "b' \<in> set (map encode_entry rows @ tree_inputs sha leaves)" "sha b = sha b'"
    by (auto simp: known_def leaves_def entry_hash_def)
  have "b = b'" by (rule no_collisionD [OF Cons.prems(4) [unfolded inputs]]) (use b' in simp_all)
  then have "b \<in> set (tree_inputs sha leaves)"
    using b'(1) encode_entry_not_pair by (simp add: b_def) (metis (no_types, lifting) imageE)
  then obtain x y where "x \<in> known sha leaves" "y \<in> known sha leaves" "b = pair_input x y"
    using tree_inputs_known by blast
  moreover have "list_all (\<lambda>b. length b = 32) leaves"
    using digest32_length [OF assms(2)] by (simp add: leaves_def entry_hash_def list_all_iff)
  ultimately show ?case
    using known_32 [OF assms(2)] sib(2) Cons.prems(1) by (auto simp: b_def pair_input_inj split: if_splits)
qed

lemma verify_proof_member:
  fixes rows :: "ledger_row list" and sha :: "bytes \<Rightarrow> bytes"
  defines "leaves \<equiv> map (entry_hash sha) rows"
  assumes "digest32 sha" "rows \<noteq> []"
    "verify_proof sha unhex (entry_hash sha row) steps (merkle_root sha leaves)"
    "no_collision sha (encode_entry row # proof_inputs sha unhex (entry_hash sha row) steps)
       (map encode_entry rows @ tree_inputs sha leaves)"
  shows "\<exists>r\<in>set rows. encode_entry r = encode_entry row"
proof -
  have ne: "leaves \<noteq> []" using assms(3) by (simp add: leaves_def)
  have "entry_hash sha row \<in> known sha leaves"
    unfolding leaves_def
  proof (rule fold_proof_known [OF assms(2)])
    show "length (entry_hash sha row) = 32" by (simp add: entry_hash_def digest32_length [OF assms(2)])
    show "fold_proof sha unhex (entry_hash sha row) steps = Some (merkle_loop sha leaves)"
      using assms(4) ne by (simp add: verify_proof_def merkle_root_def)
    show "merkle_loop sha leaves \<in> known sha (map (entry_hash sha) rows)"
      using merkle_loop_known [OF ne] by (simp add: leaves_def)
    show "no_collision sha (proof_inputs sha unhex (entry_hash sha row) steps)
        (map encode_entry rows @ tree_inputs sha (map (entry_hash sha) rows))"
      using assms(5) by (simp add: no_collision_def leaves_def)
  qed
  then obtain b where b: "b \<in> set (map encode_entry rows @ tree_inputs sha leaves)" "sha (encode_entry row) = sha b"
    by (auto simp: known_def leaves_def entry_hash_def)
  then have "encode_entry row = b" using no_collisionD [OF assms(5)] by simp
  then show ?thesis using b(1) tree_inputs_known encode_entry_not_pair by fastforce
qed

section \<open>The chain\<close>

definition chain_tip :: "(bytes \<Rightarrow> bytes) \<Rightarrow> bytes \<Rightarrow> ledger_row list \<Rightarrow> bytes" where
  "chain_tip sha prev rows = foldl (\<lambda>p r. chain_hash sha p (entry_hash sha r)) prev rows"

fun chain_inputs :: "(bytes \<Rightarrow> bytes) \<Rightarrow> bytes \<Rightarrow> ledger_row list \<Rightarrow> bytes list" where
  "chain_inputs sha prev [] = []"
| "chain_inputs sha prev (r # rows) = encode_entry r # (prev @ entry_hash sha r)
     # chain_inputs sha (chain_hash sha prev (entry_hash sha r)) rows"

lemma chain_tip_simps [simp]:
  "chain_tip sha prev [] = prev"
  "chain_tip sha prev (r # rows) = chain_tip sha (chain_hash sha prev (entry_hash sha r)) rows"
  "chain_tip sha prev (rows @ [r]) = chain_hash sha (chain_tip sha prev rows) (entry_hash sha r)"
  by (simp_all add: chain_tip_def)

lemma chain_inputs_snoc:
  "chain_inputs sha prev (rows @ [r]) =
     chain_inputs sha prev rows @ [encode_entry r, chain_tip sha prev rows @ entry_hash sha r]"
  by (induction rows arbitrary: prev) simp_all

lemma chain_tip_32: "digest32 sha \<Longrightarrow> length prev = 32 \<Longrightarrow> length (chain_tip sha prev rows) = 32"
  by (induction rows rule: rev_induct) (simp_all add: chain_hash_def digest32_length)

lemma chain_tip_binds:
  assumes "digest32 sha" "length prev = 32" "length as = length bs"
    "chain_tip sha prev as = chain_tip sha prev bs"
    "no_collision sha (chain_inputs sha prev as) (chain_inputs sha prev bs)"
  shows "map encode_entry as = map encode_entry bs"
  using assms(3-)
proof (induction as arbitrary: bs rule: rev_induct)
  case Nil
  then show ?case by simp
next
  case (snoc a as)
  obtain b bs' where bs: "bs = bs' @ [b]" "length as = length bs'"
    using snoc.prems(1) by (cases bs rule: rev_cases) auto
  have nc: "no_collision sha (chain_inputs sha prev as @ [encode_entry a, chain_tip sha prev as @ entry_hash sha a])
      (chain_inputs sha prev bs' @ [encode_entry b, chain_tip sha prev bs' @ entry_hash sha b])"
    using snoc.prems(3) unfolding bs chain_inputs_snoc .
  have "chain_tip sha prev as @ entry_hash sha a = chain_tip sha prev bs' @ entry_hash sha b"
    by (rule no_collisionD [OF nc]) (use snoc.prems(2) bs in \<open>simp_all add: chain_hash_def\<close>)
  then have eq: "chain_tip sha prev as = chain_tip sha prev bs'" "entry_hash sha a = entry_hash sha b"
    using chain_tip_32 [OF assms(1,2)] by simp_all
  have "encode_entry a = encode_entry b"
    by (rule no_collisionD [OF nc]) (use eq(2) in \<open>simp_all add: entry_hash_def\<close>)
  moreover have "map encode_entry as = map encode_entry bs'"
    using snoc.IH [OF bs(2) eq(1)] nc by (simp add: no_collision_def list_all_iff)
  ultimately show ?case by (simp add: bs)
qed

section \<open>Properties\<close>

text \<open>A concrete hash and coding, for the witnesses: the last 32 bytes in reverse order, and bytes as
  characters.\<close>

definition toy_sha :: "bytes \<Rightarrow> bytes" where
  "toy_sha b = take 32 (rev b @ zero32)"

definition toy_hex :: "bytes \<Rightarrow> string" where
  "toy_hex b = map (\<lambda>w. char_of (unat w)) b"

definition toy_unhex :: "string \<Rightarrow> bytes option" where
  "toy_unhex s = Some (map (\<lambda>c. of_nat (of_char c)) s)"

lemma toy_digest32: "digest32 toy_sha"
  by (simp add: digest32_def toy_sha_def zero32_def min_def)

lemma toy_hex_codec: "hex_codec toy_hex toy_unhex"
proof -
  have "unat w < 2 ^ LENGTH(8)" for w :: "8 word" by (rule unsigned_less)
  then have "unat w mod 256 = unat w" for w :: "8 word" by simp
  then show ?thesis by (simp add: hex_codec_def toy_hex_def toy_unhex_def comp_def)
qed

definition sample_row :: "int \<Rightarrow> int \<Rightarrow> ledger_row" where
  "sample_row i amount = \<lparr>lg_id = i, lg_device_id = ''d'', lg_type = ''BONUS'', lg_amount = amount,
     lg_timestamp = 1700000000, lg_ref_request_id = None, lg_note = None\<rparr>"

text \<open>Two ledger rows that SQLite can hold and that encode to the same bytes have the same content, an
  absent text counting as an empty one: no field boundary can be shifted, whatever the texts contain.\<close>

theorem encoding_unambiguous:
  assumes "row_storable a" and "row_storable b" and "encode_entry a = encode_entry b"
  shows "row_content a = row_content b"
  using encode_entry_inj [OF assms(3,1,2)] .

theorem encoding_unambiguous_witness:
  "row_content (sample_row 1 5) = row_content ((sample_row 1 5)\<lparr>lg_note := Some []\<rparr>)"
proof -
  have "row_storable (sample_row 1 5)" "row_storable ((sample_row 1 5)\<lparr>lg_note := Some []\<rparr>)"
    "encode_entry (sample_row 1 5) = encode_entry ((sample_row 1 5)\<lparr>lg_note := Some []\<rparr>)"
    by code_simp+
  then show ?thesis by (rule encoding_unambiguous)
qed

text \<open>C38. Every inclusion proof the gateway builds is accepted: for each leaf of a tree of any size, also with
  odd nodes at several levels, folding the proof for its position from the leaf gives the root.\<close>

theorem merkle_proof_accepted:
  assumes "digest32 sha" and "hex_codec hex unhex" and "list_all (\<lambda>b. length b = 32) leaves"
    and "index < length leaves"
  shows "\<exists>steps. merkle_proof sha hex leaves index = Inr steps \<and>
    verify_proof sha unhex (leaves ! index) steps (merkle_root sha leaves)"
  using proof_loop_folds [OF assms] assms(4) by (auto simp: merkle_proof_def verify_proof_def merkle_root_def)

theorem merkle_proof_accepted_witness:
  "\<exists>steps. merkle_proof toy_sha toy_hex (map (\<lambda>i. toy_sha [i]) [1, 2, 3, 4, 5]) 4 = Inr steps \<and>
     verify_proof toy_sha toy_unhex (toy_sha [5]) steps (merkle_root toy_sha (map (\<lambda>i. toy_sha [i]) [1, 2, 3, 4, 5]))"
proof -
  have "list_all (\<lambda>b. length b = 32) (map (\<lambda>i. toy_sha [i]) [1, 2, 3, 4, 5])" by code_simp
  from merkle_proof_accepted [OF toy_digest32 toy_hex_codec this, of 4] show ?thesis by simp
qed

text \<open>C37. A proof that is accepted for a row is a proof of its membership: unless two different inputs among
  those the verifier hashes and those the anchored tree hashed collide under the hash function, the anchored
  range has a row of exactly the claimed content. In particular an inner node can never pass as a row.\<close>

theorem accepted_proof_is_membership:
  assumes "digest32 sha" and "rows \<noteq> []" and "row_storable row" and "list_all row_storable rows"
    and "verify_proof sha unhex (entry_hash sha row) steps (merkle_root sha (map (entry_hash sha) rows))"
    and "no_collision sha (encode_entry row # proof_inputs sha unhex (entry_hash sha row) steps)
       (map encode_entry rows @ tree_inputs sha (map (entry_hash sha) rows))"
  shows "\<exists>r\<in>set rows. row_content r = row_content row"
  using verify_proof_member [OF assms(1,2,5,6)] encode_entry_inj assms(3,4) by (metis list_all_iff)

definition three_rows :: "ledger_row list" where
  "three_rows = [sample_row 1 10, sample_row 2 20, sample_row 3 30]"

theorem accepted_proof_is_membership_witness:
  "\<exists>r\<in>set three_rows. row_content r = row_content (sample_row 3 30)"
proof -
  let ?steps = "projr (merkle_proof toy_sha toy_hex (map (entry_hash toy_sha) three_rows) 2)"
  have h: "three_rows \<noteq> []" "row_storable (sample_row 3 30)" "list_all row_storable three_rows"
    "verify_proof toy_sha toy_unhex (entry_hash toy_sha (sample_row 3 30)) ?steps
       (merkle_root toy_sha (map (entry_hash toy_sha) three_rows))"
    "no_collision toy_sha (encode_entry (sample_row 3 30) #
         proof_inputs toy_sha toy_unhex (entry_hash toy_sha (sample_row 3 30)) ?steps)
       (map encode_entry three_rows @ tree_inputs toy_sha (map (entry_hash toy_sha) three_rows))"
    by code_simp+
  show ?thesis by (rule accepted_proof_is_membership [OF toy_digest32 h])
qed

text \<open>The chain tip attests the whole history: two histories of the same length with the same tip have the
  same rows in the same order, unless two different inputs hashed along the two chains collide.\<close>

theorem chain_tip_attests_history:
  assumes "digest32 sha" and "length as = length bs" and "list_all row_storable as" and "list_all row_storable bs"
    and "chain_tip sha zero32 as = chain_tip sha zero32 bs"
    and "no_collision sha (chain_inputs sha zero32 as) (chain_inputs sha zero32 bs)"
  shows "map row_content as = map row_content bs"
proof -
  have "map encode_entry as = map encode_entry bs"
    by (rule chain_tip_binds [OF assms(1) _ assms(2,5,6)]) (simp add: zero32_def)
  then show ?thesis
    using assms(2,3,4) encode_entry_inj by (auto simp: list_eq_iff_nth_eq list_all_length)
qed

theorem chain_tip_attests_history_witness:
  "map row_content three_rows = map row_content (map (\<lambda>r. r\<lparr>lg_note := Some []\<rparr>) three_rows)"
proof -
  let ?bs = "map (\<lambda>r. r\<lparr>lg_note := Some []\<rparr>) three_rows"
  have h: "length three_rows = length ?bs" "list_all row_storable three_rows" "list_all row_storable ?bs"
    "chain_tip toy_sha zero32 three_rows = chain_tip toy_sha zero32 ?bs"
    "no_collision toy_sha (chain_inputs toy_sha zero32 three_rows) (chain_inputs toy_sha zero32 ?bs)"
    by code_simp+
  show ?thesis by (rule chain_tip_attests_history [OF toy_digest32 h])
qed

text \<open>C39. The loops over the levels of the tree end: for a tree of at most \<open>2 ^ m\<close> leaves, \<open>m\<close> passes leave exactly one
  node, which is the root, and no inclusion proof has more than \<open>m\<close> steps.\<close>

theorem merkle_loops_end:
  assumes "leaves \<noteq> []" and "length leaves \<le> 2 ^ m"
  shows "(next_level sha ^^ m) leaves = [merkle_root sha leaves] \<and>
    (\<forall>i<length leaves. length (projr (merkle_proof sha hex leaves i)) \<le> m)"
proof -
  have "(next_level sha ^^ m) level = [merkle_loop sha level] \<and> length (proof_loop sha hex level i) \<le> m"
    if "level \<noteq> []" "length level \<le> 2 ^ m" for level i
    using that
  proof (induction m arbitrary: level i)
    case 0
    then obtain x where "level = [x]" by (cases level) auto
    then show ?case by (simp add: merkle_loop.simps [of sha "[x]"] proof_loop.simps [of sha hex "[x]"])
  next
    case (Suc m)
    have "length level \<ge> 1" using Suc.prems(1) by (cases level) simp_all
    then have "length (next_level sha level) \<ge> 1" "length (next_level sha level) \<le> 2 ^ m"
      using Suc.prems(2) by (simp_all add: length_next_level)
    then have next_ok: "next_level sha level \<noteq> []" "length (next_level sha level) \<le> 2 ^ m" by auto
    have pass: "(next_level sha ^^ Suc m) level = (next_level sha ^^ m) (next_level sha level)"
      by (simp add: funpow_swap1)
    show ?case
    proof (cases "length level > 1")
      case True
      then show ?thesis using Suc.IH [OF next_ok, of "i div 2"]
        by (subst merkle_loop.simps, subst proof_loop.simps) (simp add: pass Let_def del: funpow.simps)
    next
      case False
      then obtain x where "level = [x]" using Suc.prems(1) by (cases level) auto
      then show ?thesis using Suc.IH [of level i]
        by (simp add: proof_loop.simps [of sha hex "[x]"])
    qed
  qed
  with assms show ?thesis by (simp add: merkle_root_def merkle_proof_def)
qed

theorem merkle_loops_end_witness:
  "(next_level toy_sha ^^ 3) (map (\<lambda>i. toy_sha [i]) [1, 2, 3, 4, 5]) = [merkle_root toy_sha (map (\<lambda>i. toy_sha [i]) [1, 2, 3, 4, 5])]"
  using merkle_loops_end [of "map (\<lambda>i. toy_sha [i]) [1, 2, 3, 4, 5]" 3 toy_sha] by simp

end
