(* ===== verification/Anchoring.thy ===== *)
theory Anchoring
  imports Merkle Device_Wallets
begin

text \<open>
  External verifiability of the credit ledger (\<open>gateway/src/anchoring.rs\<close>), second half: the side tables of
  row hashes and anchors and the operations on them. The ledger table is the one of the gateway database and is
  only read here. An operation that first brings the row hashes up to date keeps them also when it then fails, so
  such an operation returns the tables beside its result. Messages of errors are quoted without their dashes and
  interpolated hashes.
\<close>

section \<open>Tables\<close>

record entry_hash_row =
  eh_entry_id :: int
  eh_entry_hash :: string
  eh_chain_hash :: string

record AnchorRecord =
  an_id :: int
  an_created_at :: int
  an_first_entry_id :: int
  an_last_entry_id :: int
  an_entry_count :: int
  an_merkle_root :: string
  an_chain_tip :: string
  an_memo :: string
  an_status :: string
  an_tx_signature :: "string option"
  an_confirmed_at :: "int option"

record anchor_tables =
  ledger_entry_hashes :: "entry_hash_row list"
  ledger_anchors :: "AnchorRecord list"
  ledger_anchors_seq :: int

definition no_anchors :: anchor_tables where
  "no_anchors = \<lparr>ledger_entry_hashes = [], ledger_anchors = [], ledger_anchors_seq = 0\<rparr>"

record PreparedAnchor =
  pa_record :: AnchorRecord
  pa_sign_command :: string

record InclusionProof =
  ip_entry :: ledger_row
  ip_entry_hash :: string
  ip_chain_hash :: string
  ip_proof :: "ProofStep list"
  ip_anchor :: AnchorRecord

section \<open>Row hashes\<close>

definition hash_or_zero :: "(string \<Rightarrow> bytes option) \<Rightarrow> string \<Rightarrow> bytes" where
  "hash_or_zero unhex s = (case decode_hash unhex s of Some b \<Rightarrow> b | None \<Rightarrow> zero32)"

definition fetch_unhashed_rows :: "gateway_db \<Rightarrow> anchor_tables \<Rightarrow> ledger_row list" where
  "fetch_unhashed_rows db at = sort_key lg_id
     (filter (\<lambda>l. \<not> has_row (\<lambda>h. eh_entry_id h = lg_id l) (ledger_entry_hashes at)) (ledger db))"

definition last_chain_hash :: "(string \<Rightarrow> bytes option) \<Rightarrow> anchor_tables \<Rightarrow> bytes" where
  "last_chain_hash unhex at = (case rev (sort_key eh_entry_id (ledger_entry_hashes at)) of
      [] \<Rightarrow> zero32 | h # _ \<Rightarrow> hash_or_zero unhex (eh_chain_hash h))"

text \<open>The insert cannot violate the primary key: the rows fetched have distinct ids and no hash yet.\<close>

definition hash_row ::
  "(bytes \<Rightarrow> bytes) \<Rightarrow> (bytes \<Rightarrow> string) \<Rightarrow> ledger_row \<Rightarrow> bytes \<times> entry_hash_row list \<Rightarrow> bytes \<times> entry_hash_row list" where
  "hash_row sha hex row st = (case st of (prev, hs) \<Rightarrow>
     let eh = entry_hash sha row; ch = chain_hash sha prev eh
     in (ch, hs @ [\<lparr>eh_entry_id = lg_id row, eh_entry_hash = hex eh, eh_chain_hash = hex ch\<rparr>]))"

definition backfill_entry_hashes ::
  "(bytes \<Rightarrow> bytes) \<Rightarrow> (bytes \<Rightarrow> string) \<Rightarrow> (string \<Rightarrow> bytes option) \<Rightarrow> gateway_db \<Rightarrow> anchor_tables \<Rightarrow>
   anchor_tables \<times> nat" where
  "backfill_entry_hashes sha hex unhex db at =
     (let rows = fetch_unhashed_rows db at
      in (at\<lparr>ledger_entry_hashes :=
            snd (fold (hash_row sha hex) rows (last_chain_hash unhex at, ledger_entry_hashes at))\<rparr>, length rows))"

section \<open>Anchors\<close>

definition sql_max_or_zero :: "int list \<Rightarrow> int" where
  "sql_max_or_zero xs = (case xs of [] \<Rightarrow> 0 | x # rest \<Rightarrow> fold max rest x)"

definition last_anchored :: "anchor_tables \<Rightarrow> int" where
  "last_anchored at = sql_max_or_zero
     (map an_last_entry_id (filter (\<lambda>a. an_status a = ''confirmed'') (ledger_anchors at)))"

definition hashed_after :: "anchor_tables \<Rightarrow> int \<Rightarrow> entry_hash_row list" where
  "hashed_after at n = sort_key eh_entry_id (filter (\<lambda>h. eh_entry_id h > n) (ledger_entry_hashes at))"

definition sign_command_for :: "string \<Rightarrow> string" where
  "sign_command_for memo = ''solana transfer <ANCHOR_AUTHORITY> 0.000001 --with-memo '' @ [CHR 0x27] @ memo
     @ [CHR 0x27] @ '' --fee-payer <ANCHOR_AUTHORITY_KEYPAIR> --allow-unfunded-recipient''"

definition prepare_anchor ::
  "(bytes \<Rightarrow> bytes) \<Rightarrow> (bytes \<Rightarrow> string) \<Rightarrow> (string \<Rightarrow> bytes option) \<Rightarrow> int \<Rightarrow> gateway_db \<Rightarrow> anchor_tables \<Rightarrow>
   anchor_tables \<times> (anyhow + PreparedAnchor option)" where
  "prepare_anchor sha hex unhex now db at0 =
     (let at = fst (backfill_entry_hashes sha hex unhex db at0) in
      if has_row (\<lambda>a. an_status a = ''pending'') (ledger_anchors at)
      then (at, Inl (Bail ''a pending anchor already exists; finalize or abandon it first''))
      else let hashed = hashed_after at (last_anchored at) in
      if hashed = [] then (at, Inr None)
      else let first_id = eh_entry_id (hd hashed); last_id = eh_entry_id (last hashed) in
      if last_id - first_id + 1 \<noteq> int (length hashed)
      then (at, Inl (Bail (''ledger id range '' @ show_int first_id @ ''..='' @ show_int last_id @ '' has gaps'')))
      else let root = merkle_root sha (map (\<lambda>h. hash_or_zero unhex (eh_entry_hash h)) hashed);
               tip = hash_or_zero unhex (eh_chain_hash (last hashed));
               memo = anchor_memo hex first_id last_id (int (length hashed)) root tip;
               rec = \<lparr>an_id = ledger_anchors_seq at + 1, an_created_at = now, an_first_entry_id = first_id,
                 an_last_entry_id = last_id, an_entry_count = int (length hashed), an_merkle_root = hex root,
                 an_chain_tip = hex tip, an_memo = memo, an_status = ''pending'', an_tx_signature = None,
                 an_confirmed_at = None\<rparr>
           in (at\<lparr>ledger_anchors := ledger_anchors at @ [rec], ledger_anchors_seq := ledger_anchors_seq at + 1\<rparr>,
               Inr (Some \<lparr>pa_record = rec, pa_sign_command = sign_command_for memo\<rparr>)))"

definition is_pending :: "int \<Rightarrow> AnchorRecord \<Rightarrow> bool" where
  "is_pending anchor_id a \<longleftrightarrow> an_id a = anchor_id \<and> an_status a = ''pending''"

definition confirm_anchor :: "int \<Rightarrow> int \<Rightarrow> string \<Rightarrow> anchor_tables \<Rightarrow> anyhow + anchor_tables" where
  "confirm_anchor now anchor_id tx_signature at =
     (if has_row (is_pending anchor_id) (ledger_anchors at)
      then Inr (at\<lparr>ledger_anchors := sql_update (is_pending anchor_id)
        (\<lambda>a. a\<lparr>an_status := ''confirmed'', an_tx_signature := Some tx_signature, an_confirmed_at := Some now\<rparr>)
        (ledger_anchors at)\<rparr>)
      else Inl (Bail (''anchor '' @ show_int anchor_id @ '' is not pending (already confirmed or unknown id)'')))"

definition abandon_anchor :: "int \<Rightarrow> anchor_tables \<Rightarrow> anyhow + anchor_tables" where
  "abandon_anchor anchor_id at =
     (if has_row (is_pending anchor_id) (ledger_anchors at)
      then Inr (at\<lparr>ledger_anchors := sql_update (is_pending anchor_id) (\<lambda>a. a\<lparr>an_status := ''abandoned''\<rparr>)
        (ledger_anchors at)\<rparr>)
      else Inl (Bail (''anchor '' @ show_int anchor_id @ '' is not pending'')))"

definition pending_anchor_memo :: "int \<Rightarrow> anchor_tables \<Rightarrow> string option" where
  "pending_anchor_memo anchor_id at = map_option an_memo (find (is_pending anchor_id) (ledger_anchors at))"

definition list_anchors :: "bool \<Rightarrow> anchor_tables \<Rightarrow> AnchorRecord list" where
  "list_anchors confirmed_only at = rev (sort_key an_id
     (filter (\<lambda>a. \<not> confirmed_only \<or> an_status a = ''confirmed'') (ledger_anchors at)))"

definition covering_anchor :: "anchor_tables \<Rightarrow> int \<Rightarrow> AnchorRecord option" where
  "covering_anchor at entry_id = (case rev (sort_key an_id (filter (\<lambda>a. an_status a = ''confirmed'' \<and>
       an_first_entry_id a \<le> entry_id \<and> an_last_entry_id a \<ge> entry_id) (ledger_anchors at))) of
     [] \<Rightarrow> None | a # _ \<Rightarrow> Some a)"

definition hashed_between :: "anchor_tables \<Rightarrow> int \<Rightarrow> int \<Rightarrow> entry_hash_row list" where
  "hashed_between at lo hi = sort_key eh_entry_id
     (filter (\<lambda>h. lo \<le> eh_entry_id h \<and> eh_entry_id h \<le> hi) (ledger_entry_hashes at))"

definition proof_from_anchor ::
  "(bytes \<Rightarrow> bytes) \<Rightarrow> (bytes \<Rightarrow> string) \<Rightarrow> (string \<Rightarrow> bytes option) \<Rightarrow> anchor_tables \<Rightarrow> int \<Rightarrow> ledger_row \<Rightarrow>
   AnchorRecord \<Rightarrow> anyhow + InclusionProof option" where
  "proof_from_anchor sha hex unhex at entry_id row a =
     (let hashed = hashed_between at (an_first_entry_id a) (an_last_entry_id a);
          leaves = map (\<lambda>h. hash_or_zero unhex (eh_entry_hash h)) hashed;
          position = nat (entry_id - an_first_entry_id a) in
      rbind (ensure (position < length leaves)
        (Bail (''entry '' @ show_int entry_id @ '' outside reconstructed anchor range''))) (\<lambda>_.
      rbind (merkle_proof sha hex leaves position) (\<lambda>steps.
      let h = hashed ! position in
      rbind (ensure (hex (entry_hash sha row) = eh_entry_hash h)
        (Bail (''entry '' @ show_int entry_id @ '' hash mismatch: row content changed after hashing''))) (\<lambda>_.
      Inr (Some \<lparr>ip_entry = row, ip_entry_hash = eh_entry_hash h, ip_chain_hash = eh_chain_hash h,
        ip_proof = steps, ip_anchor = a\<rparr>)))))"

definition inclusion_proof ::
  "(bytes \<Rightarrow> bytes) \<Rightarrow> (bytes \<Rightarrow> string) \<Rightarrow> (string \<Rightarrow> bytes option) \<Rightarrow> int \<Rightarrow> gateway_db \<Rightarrow> anchor_tables \<Rightarrow>
   anchor_tables \<times> (anyhow + InclusionProof option)" where
  "inclusion_proof sha hex unhex entry_id db at0 =
     (let at = fst (backfill_entry_hashes sha hex unhex db at0) in
      case find (\<lambda>l. lg_id l = entry_id) (ledger db) of
        None \<Rightarrow> (at, Inr None)
      | Some row \<Rightarrow>
          (case covering_anchor at entry_id of
             None \<Rightarrow> (at, Inr None)
           | Some a \<Rightarrow> (at, proof_from_anchor sha hex unhex at entry_id row a)))"

section \<open>The row hashes of an untouched ledger\<close>

text \<open>The first \<open>k\<close> rows of the ledger with their hashes, in closed form.\<close>

definition hash_table :: "(bytes \<Rightarrow> bytes) \<Rightarrow> (bytes \<Rightarrow> string) \<Rightarrow> ledger_row list \<Rightarrow> nat \<Rightarrow> entry_hash_row list" where
  "hash_table sha hex rows k = map (\<lambda>i. \<lparr>eh_entry_id = lg_id (rows ! i), eh_entry_hash = hex (entry_hash sha (rows ! i)),
     eh_chain_hash = hex (chain_tip sha zero32 (take (Suc i) rows))\<rparr>) [0..<k]"

definition ledger_ids_ok :: "gateway_db \<Rightarrow> bool" where
  "ledger_ids_ok db \<longleftrightarrow> 0 \<le> ledger_seq db \<and> map lg_id (ledger db) = [1..ledger_seq db]"

lemma ledger_ids_nth:
  assumes "ledger_ids_ok db" "i < length (ledger db)"
  shows "lg_id (ledger db ! i) = int i + 1"
proof -
  have "lg_id (ledger db ! i) = [1..ledger_seq db] ! i"
    using assms by (metis ledger_ids_ok_def nth_map)
  moreover have "length (ledger db) = nat (ledger_seq db)"
    using assms(1) by (metis ledger_ids_ok_def length_map length_upto diff_add_cancel)
  ultimately show ?thesis using assms(2) by (simp add: nth_upto)
qed

lemma ledger_length: "ledger_ids_ok db \<Longrightarrow> length (ledger db) = nat (ledger_seq db)"
  by (metis ledger_ids_ok_def length_map length_upto diff_add_cancel)

lemma ledger_ids_insert: "ledger_ids_ok db \<Longrightarrow> ledger_ids_ok (insert_ledger d ty a ts req note db)"
  by (simp add: ledger_ids_ok_def insert_ledger_def upto_rec2)

lemma hash_table_ids: "ledger_ids_ok db \<Longrightarrow> k \<le> length (ledger db) \<Longrightarrow>
    map eh_entry_id (hash_table sha hex (ledger db) k) = map (\<lambda>i. int i + 1) [0..<k]"
  by (simp add: hash_table_def ledger_ids_nth)

lemma sorted_ids: "sorted (map (\<lambda>i. int i + 1) [a..<b])"
  by (simp add: sorted_iff_nth_mono)

lemma fetch_unhashed_hash_table:
  assumes "ledger_ids_ok db" "k \<le> length (ledger db)" "ledger_entry_hashes at = hash_table sha hex (ledger db) k"
  shows "fetch_unhashed_rows db at = drop k (ledger db)"
proof -
  let ?P = "\<lambda>l. \<not> has_row (\<lambda>h. eh_entry_id h = lg_id l) (ledger_entry_hashes at)"
  have ids: "eh_entry_id ` set (ledger_entry_hashes at) = (\<lambda>i. int i + 1) ` {0..<k}"
    using hash_table_ids [OF assms(1,2), of sha hex] assms(3) by (metis list.set_map set_upt)
  have P: "?P (ledger db ! i) \<longleftrightarrow> k \<le> i" if "i < length (ledger db)" for i
    using that ledger_ids_nth [OF assms(1) that] by (auto simp: has_row_key_iff ids)
  have "filter ?P (take k (ledger db)) = []"
  proof -
    have "\<not> ?P x" if x: "x \<in> set (take k (ledger db))" for x
    proof -
      obtain i where "i < k" "i < length (ledger db)" "x = ledger db ! i"
        using x by (auto simp: in_set_conv_nth)
      then show ?thesis using P [of i] by simp
    qed
    then show ?thesis unfolding filter_empty_conv by blast
  qed
  moreover have "filter ?P (drop k (ledger db)) = drop k (ledger db)"
  proof -
    have "?P x" if x: "x \<in> set (drop k (ledger db))" for x
    proof -
      obtain i where "i < length (ledger db) - k" "x = ledger db ! (k + i)"
        using x by (auto simp: in_set_conv_nth)
      then show ?thesis using P [of "k + i"] by simp
    qed
    then show ?thesis unfolding filter_id_conv by blast
  qed
  ultimately have "filter ?P (ledger db) = drop k (ledger db)"
    by (metis append_Nil append_take_drop_id filter_append)
  moreover have "sorted (map lg_id (drop k (ledger db)))"
    using assms(1) by (auto simp: sorted_iff_nth_mono ledger_ids_nth)
  ultimately show ?thesis by (simp add: fetch_unhashed_rows_def sort_key_id_if_sorted)
qed

lemma hash_or_zero_hex: "hex_codec hex unhex \<Longrightarrow> length b = 32 \<Longrightarrow> hash_or_zero unhex (hex b) = b"
  by (simp add: hash_or_zero_def decode_hash_def hex_codec_def)

lemma hash_table_Suc:
  "hash_table sha hex rows (Suc k) = hash_table sha hex rows k @ [\<lparr>eh_entry_id = lg_id (rows ! k),
     eh_entry_hash = hex (entry_hash sha (rows ! k)), eh_chain_hash = hex (chain_tip sha zero32 (take (Suc k) rows))\<rparr>]"
  by (simp add: hash_table_def)

lemma length_hash_table [simp]: "length (hash_table sha hex rows k) = k"
  by (simp add: hash_table_def)

lemma hash_table_append: "k \<le> length rows \<Longrightarrow> hash_table sha hex (rows @ new) k = hash_table sha hex rows k"
  by (simp add: hash_table_def nth_append)

lemma last_chain_hash_table:
  assumes "ledger_ids_ok db" "k \<le> length (ledger db)" "ledger_entry_hashes at = hash_table sha hex (ledger db) k"
    "digest32 sha" "hex_codec hex unhex"
  shows "last_chain_hash unhex at = chain_tip sha zero32 (take k (ledger db))"
proof (cases k)
  case 0
  then show ?thesis using assms(3) by (simp add: last_chain_hash_def hash_table_def)
next
  case (Suc j)
  have "sort_key eh_entry_id (ledger_entry_hashes at) = ledger_entry_hashes at"
    using hash_table_ids [OF assms(1,2), of sha hex] sorted_ids [of 0 k] assms(3)
    by (intro sort_key_id_if_sorted) simp
  moreover have "length (chain_tip sha zero32 (take k (ledger db))) = 32"
    by (rule chain_tip_32 [OF assms(4)]) (simp add: zero32_def)
  ultimately show ?thesis using Suc assms(3) hash_or_zero_hex [OF assms(5)]
    by (simp add: last_chain_hash_def hash_table_Suc)
qed

lemma fold_hash_rows:
  assumes "k \<le> length rows"
  shows "fold (hash_row sha hex) (drop k rows) (chain_tip sha zero32 (take k rows), hash_table sha hex rows k) =
    (chain_tip sha zero32 rows, hash_table sha hex rows (length rows))"
  using assms
proof (induction "length rows - k" arbitrary: k)
  case 0
  then show ?case by simp
next
  case (Suc n)
  then have k: "k < length rows" by simp
  have "hash_row sha hex (rows ! k) (chain_tip sha zero32 (take k rows), hash_table sha hex rows k) =
      (chain_tip sha zero32 (take (Suc k) rows), hash_table sha hex rows (Suc k))"
    using k by (simp add: hash_row_def Let_def hash_table_Suc take_Suc_conv_app_nth)
  then show ?case
    using Suc.hyps(1) [of "Suc k"] Suc.hyps(2) k by (simp add: Cons_nth_drop_Suc [symmetric])
qed

text \<open>The state in which the hash table is the closed form of some prefix of the ledger, and what a backfill
  makes of it.\<close>

definition hashes_ok :: "(bytes \<Rightarrow> bytes) \<Rightarrow> (bytes \<Rightarrow> string) \<Rightarrow> gateway_db \<Rightarrow> anchor_tables \<Rightarrow> bool" where
  "hashes_ok sha hex db at \<longleftrightarrow> ledger_ids_ok db \<and>
     length (ledger_entry_hashes at) \<le> length (ledger db) \<and>
     ledger_entry_hashes at = hash_table sha hex (ledger db) (length (ledger_entry_hashes at))"

definition hashed_up :: "(bytes \<Rightarrow> bytes) \<Rightarrow> (bytes \<Rightarrow> string) \<Rightarrow> gateway_db \<Rightarrow> anchor_tables \<Rightarrow> anchor_tables" where
  "hashed_up sha hex db at = at\<lparr>ledger_entry_hashes := hash_table sha hex (ledger db) (length (ledger db))\<rparr>"

lemma backfill_hashes_all:
  assumes "hashes_ok sha hex db at" "digest32 sha" "hex_codec hex unhex"
  shows "backfill_entry_hashes sha hex unhex db at =
    (hashed_up sha hex db at, length (ledger db) - length (ledger_entry_hashes at))"
proof -
  let ?k = "length (ledger_entry_hashes at)"
  have h: "ledger_ids_ok db" "?k \<le> length (ledger db)" "ledger_entry_hashes at = hash_table sha hex (ledger db) ?k"
    using assms(1) unfolding hashes_ok_def by blast+
  have "fold (hash_row sha hex) (drop ?k (ledger db)) (last_chain_hash unhex at, ledger_entry_hashes at) =
      (chain_tip sha zero32 (ledger db), hash_table sha hex (ledger db) (length (ledger db)))"
    unfolding last_chain_hash_table [OF h assms(2,3)] using fold_hash_rows [OF h(2), of sha hex] h(3) by metis
  then show ?thesis
    by (simp add: backfill_entry_hashes_def fetch_unhashed_hash_table [OF h] hashed_up_def Let_def)
qed

lemma hashed_up_ok: "ledger_ids_ok db \<Longrightarrow> hashes_ok sha hex db (hashed_up sha hex db at)"
  by (simp add: hashes_ok_def hashed_up_def)

lemma hashes_ok_insert:
  assumes "hashes_ok sha hex db at"
  shows "hashes_ok sha hex (insert_ledger d ty a ts req note db) at"
proof -
  let ?k = "length (ledger_entry_hashes at)" and ?db = "insert_ledger d ty a ts req note db"
  have "ledger_ids_ok ?db" using assms ledger_ids_insert unfolding hashes_ok_def by blast
  moreover have "hash_table sha hex (ledger ?db) ?k = hash_table sha hex (ledger db) ?k" "?k \<le> length (ledger ?db)"
    using assms hash_table_append [of ?k "ledger db"] by (simp_all add: hashes_ok_def insert_ledger_def)
  ultimately show ?thesis using assms unfolding hashes_ok_def by simp
qed

section \<open>Ranges of the hash table\<close>

definition row_range :: "ledger_row list \<Rightarrow> int \<Rightarrow> int \<Rightarrow> ledger_row list" where
  "row_range rows lo hi = take (nat (hi - lo + 1)) (drop (nat (lo - 1)) rows)"

definition table_range :: "(bytes \<Rightarrow> bytes) \<Rightarrow> (bytes \<Rightarrow> string) \<Rightarrow> ledger_row list \<Rightarrow> nat \<Rightarrow> nat \<Rightarrow> entry_hash_row list" where
  "table_range sha hex rows a b = drop a (hash_table sha hex rows b)"

lemma table_range_map:
  "table_range sha hex rows a b = map (\<lambda>i. \<lparr>eh_entry_id = lg_id (rows ! i), eh_entry_hash = hex (entry_hash sha (rows ! i)),
     eh_chain_hash = hex (chain_tip sha zero32 (take (Suc i) rows))\<rparr>) [a..<b]"
  by (simp add: table_range_def hash_table_def drop_map drop_upt)

lemma hash_table_filter:
  assumes "ledger_ids_ok db" "b \<le> length (ledger db)" "b \<le> k" "k \<le> length (ledger db)"
  shows "sort_key eh_entry_id (filter (\<lambda>h. int a < eh_entry_id h \<and> eh_entry_id h \<le> int b)
    (hash_table sha hex (ledger db) k)) = table_range sha hex (ledger db) a b"
proof -
  have "filter (\<lambda>i. a \<le> i \<and> i < b) [0..<k] = [a..<b]"
    by (rule sorted_distinct_set_unique) (use assms(3) in \<open>auto simp: sorted_wrt_filter\<close>)
  moreover have "filter (\<lambda>i. int a < lg_id (ledger db ! i) \<and> lg_id (ledger db ! i) \<le> int b) [0..<k] =
      filter (\<lambda>i. a \<le> i \<and> i < b) [0..<k]"
    using assms(4) by (intro filter_cong) (auto simp: ledger_ids_nth [OF assms(1)])
  ultimately have "filter (\<lambda>h. int a < eh_entry_id h \<and> eh_entry_id h \<le> int b) (hash_table sha hex (ledger db) k) =
      table_range sha hex (ledger db) a b"
    by (simp add: hash_table_def filter_map comp_def table_range_map)
  moreover have "map eh_entry_id (table_range sha hex (ledger db) a b) = map (\<lambda>i. int i + 1) [a..<b]"
    using assms(2) by (simp add: table_range_map ledger_ids_nth [OF assms(1)])
  ultimately show ?thesis using sorted_ids by (simp add: sort_key_id_if_sorted)
qed

lemma table_range_leaves:
  assumes "digest32 sha" "hex_codec hex unhex" "b \<le> length rows" "a \<le> b"
  shows "map (\<lambda>h. hash_or_zero unhex (eh_entry_hash h)) (table_range sha hex rows a b) =
    map (entry_hash sha) (row_range rows (int a + 1) (int b))"
proof -
  have "hash_or_zero unhex (hex (entry_hash sha r)) = entry_hash sha r" for r
    using hash_or_zero_hex [OF assms(2)] digest32_length [OF assms(1)] by (simp add: entry_hash_def)
  then show ?thesis using assms(3,4)
    by (auto simp: table_range_map row_range_def comp_def list_eq_iff_nth_eq nat_diff_distrib')
qed

end
