(* ===== verification/Anchoring_Laws.thy ===== *)
theory Anchoring_Laws
  imports Anchoring
begin

text \<open>
  Histories of the anchoring operations (\<open>gateway/src/anchoring.rs\<close>): rows are posted to the ledger, anchors are
  prepared, confirmed and abandoned, proofs are requested, in any order. The invariant of every such history is
  that the hash table is the closed form of a prefix of the ledger, that every anchor carries the root and the tip
  of its range, and that the confirmed ranges tile the ids from 1 on. The lemmas at the end leave
  these histories: rows are deleted under the side tables.
\<close>

section \<open>The invariant\<close>

definition anchor_ok :: "(bytes \<Rightarrow> bytes) \<Rightarrow> (bytes \<Rightarrow> string) \<Rightarrow> ledger_row list \<Rightarrow> AnchorRecord \<Rightarrow> bool" where
  "anchor_ok sha hex rows a \<longleftrightarrow>
     (let root = merkle_root sha (map (entry_hash sha) (row_range rows (an_first_entry_id a) (an_last_entry_id a)));
          tip = chain_tip sha zero32 (take (nat (an_last_entry_id a)) rows)
      in 1 \<le> an_first_entry_id a \<and> an_first_entry_id a \<le> an_last_entry_id a \<and>
         an_last_entry_id a \<le> int (length rows) \<and>
         an_entry_count a = an_last_entry_id a - an_first_entry_id a + 1 \<and>
         an_merkle_root a = hex root \<and> an_chain_tip a = hex tip \<and>
         an_memo a = anchor_memo hex (an_first_entry_id a) (an_last_entry_id a) (an_entry_count a) root tip)"

definition confirmed_anchors :: "anchor_tables \<Rightarrow> AnchorRecord list" where
  "confirmed_anchors at = filter (\<lambda>a. an_status a = ''confirmed'') (ledger_anchors at)"

text \<open>Consecutive ranges that start after \<open>p\<close> and end at \<open>q\<close>.\<close>

fun tiled_from :: "int \<Rightarrow> AnchorRecord list \<Rightarrow> int \<Rightarrow> bool" where
  "tiled_from p [] q \<longleftrightarrow> p = q"
| "tiled_from p (a # as) q \<longleftrightarrow> an_first_entry_id a = p + 1 \<and> p < an_last_entry_id a \<and>
     tiled_from (an_last_entry_id a) as q"

definition pending_next :: "anchor_tables \<Rightarrow> bool" where
  "pending_next at \<longleftrightarrow> list_all (\<lambda>a. an_status a \<noteq> ''pending'') (butlast (ledger_anchors at)) \<and>
     (ledger_anchors at = [] \<or> an_status (last (ledger_anchors at)) \<noteq> ''pending'' \<or>
      an_first_entry_id (last (ledger_anchors at)) = last_anchored at + 1)"

definition anchors_inv :: "(bytes \<Rightarrow> bytes) \<Rightarrow> (bytes \<Rightarrow> string) \<Rightarrow> gateway_db \<Rightarrow> anchor_tables \<Rightarrow> bool" where
  "anchors_inv sha hex db at \<longleftrightarrow> hashes_ok sha hex db at \<and>
     0 \<le> ledger_anchors_seq at \<and> map an_id (ledger_anchors at) = [1..ledger_anchors_seq at] \<and>
     list_all (anchor_ok sha hex (ledger db)) (ledger_anchors at) \<and>
     tiled_from 0 (confirmed_anchors at) (last_anchored at) \<and> pending_next at"

lemma tiled_max: "tiled_from p as q \<Longrightarrow> fold max (map an_last_entry_id as) p = q"
  by (induction as arbitrary: p) (auto simp: max_def)

lemma tiled_last_anchored: "tiled_from 0 (confirmed_anchors at) q \<Longrightarrow> last_anchored at = q"
  using tiled_max by (cases "confirmed_anchors at")
    (auto simp: last_anchored_def confirmed_anchors_def sql_max_or_zero_def)

lemma tiled_le: "tiled_from p as q \<Longrightarrow> p \<le> q"
  by (induction as arbitrary: p) force+

lemma tiled_snoc: "tiled_from p (as @ [a]) q \<longleftrightarrow>
    (\<exists>m. tiled_from p as m \<and> an_first_entry_id a = m + 1 \<and> m < an_last_entry_id a \<and> an_last_entry_id a = q)"
  by (induction as arbitrary: p) auto

lemma tiled_covers: "tiled_from p as q \<Longrightarrow> p < n \<Longrightarrow> n \<le> q \<Longrightarrow>
    \<exists>a\<in>set as. an_first_entry_id a \<le> n \<and> n \<le> an_last_entry_id a"
proof (induction as arbitrary: p)
  case (Cons a as)
  then show ?case by (cases "n \<le> an_last_entry_id a") (use Cons in fastforce)+
qed simp

lemma row_range_append: "hi \<le> int (length rows) \<Longrightarrow> 1 \<le> lo \<Longrightarrow> row_range (rows @ new) lo hi = row_range rows lo hi"
  by (cases "lo \<le> hi") (simp_all add: row_range_def)

lemma anchor_ok_append: "anchor_ok sha hex rows a \<Longrightarrow> anchor_ok sha hex (rows @ new) a"
proof -
  assume a: "anchor_ok sha hex rows a"
  then have "take (nat (an_last_entry_id a)) (rows @ new) = take (nat (an_last_entry_id a)) rows"
    by (auto simp: anchor_ok_def Let_def)
  then show ?thesis using a by (simp add: anchor_ok_def Let_def row_range_append del: take_append)
qed

lemma anchor_ok_status:
  "anchor_ok sha hex rows (a\<lparr>an_status := s\<rparr>) \<longleftrightarrow> anchor_ok sha hex rows a"
  "anchor_ok sha hex rows (a\<lparr>an_status := s, an_tx_signature := t, an_confirmed_at := c\<rparr>) \<longleftrightarrow> anchor_ok sha hex rows a"
  by (simp_all add: anchor_ok_def)

section \<open>The operations keep it\<close>

text \<open>A history that begins on an empty pair of side tables.\<close>

inductive anchor_step ::
  "(bytes \<Rightarrow> bytes) \<Rightarrow> (bytes \<Rightarrow> string) \<Rightarrow> (string \<Rightarrow> bytes option) \<Rightarrow> gateway_db \<times> anchor_tables \<Rightarrow>
   gateway_db \<times> anchor_tables \<Rightarrow> bool" for sha hex unhex where
  post_step: "anchor_step sha hex unhex (db, at) (insert_ledger d ty a ts req note db, at)"
| prepare_step: "prepare_anchor sha hex unhex now db at = (at', r) \<Longrightarrow> anchor_step sha hex unhex (db, at) (db, at')"
| confirm_step: "confirm_anchor now i sig at = Inr at' \<Longrightarrow> anchor_step sha hex unhex (db, at) (db, at')"
| abandon_step: "abandon_anchor i at = Inr at' \<Longrightarrow> anchor_step sha hex unhex (db, at) (db, at')"
| proof_step: "inclusion_proof sha hex unhex i db at = (at', r) \<Longrightarrow> anchor_step sha hex unhex (db, at) (db, at')"

lemma anchors_inv_insert:
  assumes "anchors_inv sha hex db at"
  shows "anchors_inv sha hex (insert_ledger d ty a ts req note db) at"
proof -
  have "list_all (anchor_ok sha hex (ledger (insert_ledger d ty a ts req note db))) (ledger_anchors at)"
    using assms anchor_ok_append by (simp add: anchors_inv_def insert_ledger_def list_all_iff)
  then show ?thesis using assms hashes_ok_insert unfolding anchors_inv_def by blast
qed

lemma anchors_inv_hashed_up:
  assumes "anchors_inv sha hex db at"
  shows "anchors_inv sha hex db (hashed_up sha hex db at)"
  using assms hashed_up_ok [of db sha hex at]
  by (simp add: anchors_inv_def hashes_ok_def hashed_up_def confirmed_anchors_def last_anchored_def pending_next_def)

lemma inclusion_proof_tables:
  assumes "anchors_inv sha hex db at" "digest32 sha" "hex_codec hex unhex"
  shows "fst (inclusion_proof sha hex unhex i db at) = hashed_up sha hex db at"
proof -
  have "hashes_ok sha hex db at" using assms(1) by (simp add: anchors_inv_def)
  from backfill_hashes_all [OF this assms(2,3)] show ?thesis
    by (simp add: inclusion_proof_def Let_def split: option.split)
qed

text \<open>The pending anchor, if there is one, is the newest row, so changing its status changes one place.\<close>

lemma pending_is_last:
  assumes "anchors_inv sha hex db at" "has_row (is_pending i) (ledger_anchors at)"
  obtains front a where "ledger_anchors at = front @ [a]" "is_pending i a" "list_all (\<lambda>x. an_status x \<noteq> ''pending'') front"
    "an_first_entry_id a = last_anchored at + 1"
proof -
  obtain x where x: "x \<in> set (ledger_anchors at)" "is_pending i x" using assms(2) by (auto simp: has_row_iff)
  then obtain front a where fa: "ledger_anchors at = front @ [a]"
    by (cases "ledger_anchors at" rule: rev_cases) auto
  have np: "list_all (\<lambda>x. an_status x \<noteq> ''pending'') front"
    using assms(1) fa by (simp add: anchors_inv_def pending_next_def)
  then have "x = a" using x fa by (auto simp: is_pending_def list_all_iff)
  moreover have "an_first_entry_id a = last_anchored at + 1"
    using assms(1) fa x(2) \<open>x = a\<close> by (simp add: anchors_inv_def pending_next_def is_pending_def)
  ultimately show thesis using that fa x(2) np by blast
qed

lemma sql_update_front: "list_all (\<lambda>x. an_status x \<noteq> ''pending'') front \<Longrightarrow> sql_update (is_pending i) f front = front"
  by (rule sql_update_no_match) (auto simp: is_pending_def list_all_iff)

lemma anchors_inv_confirm:
  assumes inv: "anchors_inv sha hex db at" and c: "confirm_anchor now i sig at = Inr at'"
  shows "anchors_inv sha hex db at' \<and> set (confirmed_anchors at) \<subseteq> set (confirmed_anchors at')"
proof -
  have "has_row (is_pending i) (ledger_anchors at)" using c by (auto simp: confirm_anchor_def split: if_splits)
  from pending_is_last [OF inv this] obtain front a where fa: "ledger_anchors at = front @ [a]" "is_pending i a"
    "list_all (\<lambda>x. an_status x \<noteq> ''pending'') front" "an_first_entry_id a = last_anchored at + 1" by blast
  let ?a = "a\<lparr>an_status := ''confirmed'', an_tx_signature := Some sig, an_confirmed_at := Some now\<rparr>"
  have at': "at' = at\<lparr>ledger_anchors := front @ [?a]\<rparr>"
    using c fa sql_update_front [OF fa(3)] by (auto simp: confirm_anchor_def split: if_splits)
  have conf: "confirmed_anchors at' = confirmed_anchors at @ [?a]"
    using fa by (simp add: confirmed_anchors_def at' is_pending_def)
  have ok: "anchor_ok sha hex (ledger db) a" using inv fa(1) by (simp add: anchors_inv_def)
  have "last_anchored at < an_last_entry_id a" using ok fa(4) by (simp add: anchor_ok_def Let_def)
  then have tiled: "tiled_from 0 (confirmed_anchors at') (an_last_entry_id a)"
    using inv fa(4) unfolding conf tiled_snoc by (auto simp: anchors_inv_def)
  then have "last_anchored at' = an_last_entry_id a" by (rule tiled_last_anchored)
  then have "anchors_inv sha hex db at'"
    using inv fa(1,3) ok tiled by (simp add: anchors_inv_def at' anchor_ok_status pending_next_def hashes_ok_def)
  then show ?thesis using conf by auto
qed

lemma anchors_inv_abandon:
  assumes inv: "anchors_inv sha hex db at" and c: "abandon_anchor i at = Inr at'"
  shows "anchors_inv sha hex db at' \<and> confirmed_anchors at' = confirmed_anchors at"
proof -
  have "has_row (is_pending i) (ledger_anchors at)" using c by (auto simp: abandon_anchor_def split: if_splits)
  from pending_is_last [OF inv this] obtain front a where fa: "ledger_anchors at = front @ [a]" "is_pending i a"
    "list_all (\<lambda>x. an_status x \<noteq> ''pending'') front" by blast
  have at': "at' = at\<lparr>ledger_anchors := front @ [a\<lparr>an_status := ''abandoned''\<rparr>]\<rparr>"
    using c fa sql_update_front [OF fa(3)] by (auto simp: abandon_anchor_def split: if_splits)
  have conf: "confirmed_anchors at' = confirmed_anchors at"
    using fa by (simp add: confirmed_anchors_def at' is_pending_def)
  then have "last_anchored at' = last_anchored at"
    by (simp add: last_anchored_def confirmed_anchors_def)
  then show ?thesis
    using inv fa(1,3) conf by (simp add: anchors_inv_def at' anchor_ok_status pending_next_def hashes_ok_def)
qed

lemma hashed_after_up:
  assumes "ledger_ids_ok db" "0 \<le> n"
  shows "hashed_after (hashed_up sha hex db at) n = table_range sha hex (ledger db) (nat n) (length (ledger db))"
proof -
  have "eh_entry_id h \<le> int (length (ledger db))" if "h \<in> set (hash_table sha hex (ledger db) (length (ledger db)))" for h
    using that ledger_ids_nth [OF assms(1)] by (auto simp: hash_table_def)
  then have "filter (\<lambda>h. eh_entry_id h > n) (hash_table sha hex (ledger db) (length (ledger db))) =
      filter (\<lambda>h. int (nat n) < eh_entry_id h \<and> eh_entry_id h \<le> int (length (ledger db)))
        (hash_table sha hex (ledger db) (length (ledger db)))"
    using assms(2) by (intro filter_cong) auto
  then show ?thesis
    using hash_table_filter [OF assms(1) order_refl order_refl order_refl, of "nat n" sha hex]
    by (simp add: hashed_after_def hashed_up_def)
qed

text \<open>The anchor a successful preparation adds.\<close>

definition next_anchor ::
  "(bytes \<Rightarrow> bytes) \<Rightarrow> (bytes \<Rightarrow> string) \<Rightarrow> int \<Rightarrow> gateway_db \<Rightarrow> anchor_tables \<Rightarrow> AnchorRecord" where
  "next_anchor sha hex now db at =
     (let lo = last_anchored at + 1; hi = int (length (ledger db));
          root = merkle_root sha (map (entry_hash sha) (row_range (ledger db) lo hi));
          tip = chain_tip sha zero32 (ledger db)
      in \<lparr>an_id = ledger_anchors_seq at + 1, an_created_at = now, an_first_entry_id = lo, an_last_entry_id = hi,
        an_entry_count = hi - lo + 1, an_merkle_root = hex root, an_chain_tip = hex tip,
        an_memo = anchor_memo hex lo hi (hi - lo + 1) root tip, an_status = ''pending'', an_tx_signature = None,
        an_confirmed_at = None\<rparr>)"

lemma last_anchored_bounds:
  assumes "anchors_inv sha hex db at"
  shows "0 \<le> last_anchored at \<and> last_anchored at \<le> int (length (ledger db))"
proof -
  have t: "tiled_from 0 (confirmed_anchors at) (last_anchored at)" using assms by (simp add: anchors_inv_def)
  have ok: "list_all (anchor_ok sha hex (ledger db)) (confirmed_anchors at)"
    using assms by (simp add: anchors_inv_def confirmed_anchors_def list_all_iff)
  have "last_anchored at \<le> int (length (ledger db))"
  proof (cases "confirmed_anchors at" rule: rev_cases)
    case Nil
    then show ?thesis using t by simp
  next
    case (snoc as a)
    then show ?thesis using t ok by (auto simp: tiled_snoc anchor_ok_def Let_def)
  qed
  then show ?thesis using tiled_le [OF t] by simp
qed

lemma prepare_anchor_cases:
  assumes inv: "anchors_inv sha hex db at" and "digest32 sha" "hex_codec hex unhex"
  shows "prepare_anchor sha hex unhex now db at =
    (let up = hashed_up sha hex db at; a = next_anchor sha hex now db at in
     if has_row (\<lambda>a. an_status a = ''pending'') (ledger_anchors at)
     then (up, Inl (Bail ''a pending anchor already exists; finalize or abandon it first''))
     else if last_anchored at = int (length (ledger db)) then (up, Inr None)
     else (up\<lparr>ledger_anchors := ledger_anchors at @ [a], ledger_anchors_seq := ledger_anchors_seq at + 1\<rparr>,
       Inr (Some \<lparr>pa_record = a, pa_sign_command = sign_command_for (an_memo a)\<rparr>)))"
proof -
  let ?up = "hashed_up sha hex db at" and ?n = "length (ledger db)" and ?L = "last_anchored at"
  let ?hs = "table_range sha hex (ledger db) (nat ?L) ?n"
  have h: "hashes_ok sha hex db at" and ids: "ledger_ids_ok db"
    using inv by (simp_all add: anchors_inv_def hashes_ok_def)
  have b: "0 \<le> ?L" "?L \<le> int ?n" using last_anchored_bounds [OF inv] by simp_all
  have up: "ledger_anchors ?up = ledger_anchors at" "ledger_anchors_seq ?up = ledger_anchors_seq at"
    "last_anchored ?up = ?L" by (simp_all add: hashed_up_def last_anchored_def)
  have hs: "hashed_after ?up ?L = ?hs" by (rule hashed_after_up [OF ids b(1)])
  have empty: "?hs = [] \<longleftrightarrow> ?L = int ?n" using b by (auto simp: table_range_map)
  have facts: "eh_entry_id (hd ?hs) = ?L + 1 \<and> eh_entry_id (last ?hs) = int ?n \<and> int (length ?hs) = int ?n - ?L \<and>
      hash_or_zero unhex (eh_chain_hash (last ?hs)) = chain_tip sha zero32 (ledger db)" if lt: "?L < int ?n"
  proof -
    have nl: "nat ?L < ?n" "[nat ?L..<?n] \<noteq> []" "last [nat ?L..<?n] = ?n - 1" "hd [nat ?L..<?n] = nat ?L"
      using lt b by (auto simp: last_upt)
    have "length (chain_tip sha zero32 (ledger db)) = 32" by (rule chain_tip_32 [OF assms(2)]) (simp add: zero32_def)
    then show ?thesis using nl b lt ledger_ids_nth [OF ids, of "nat ?L"] ledger_ids_nth [OF ids, of "?n - 1"]
      by (simp add: table_range_map hd_map last_map hash_or_zero_hex [OF assms(3)])
  qed
  have leaves: "map (\<lambda>h. hash_or_zero unhex (eh_entry_hash h)) ?hs =
      map (entry_hash sha) (row_range (ledger db) (?L + 1) (int ?n))"
    using table_range_leaves [OF assms(2,3) order_refl, of "nat ?L" "ledger db"] b by simp
  show ?thesis
    unfolding prepare_anchor_def backfill_hashes_all [OF h assms(2,3)] fst_conv Let_def up hs empty leaves
    using facts b by (auto simp: next_anchor_def Let_def)
qed

lemma anchors_inv_prepare:
  assumes inv: "anchors_inv sha hex db at" and "digest32 sha" "hex_codec hex unhex"
    and p: "prepare_anchor sha hex unhex now db at = (at', r)"
  shows "anchors_inv sha hex db at' \<and> confirmed_anchors at' = confirmed_anchors at"
proof -
  let ?up = "hashed_up sha hex db at" and ?a = "next_anchor sha hex now db at"
  have up: "anchors_inv sha hex db ?up" "confirmed_anchors ?up = confirmed_anchors at"
    using anchors_inv_hashed_up [OF inv] by (simp_all add: hashed_up_def confirmed_anchors_def)
  consider "at' = ?up" | (new) "\<not> has_row (\<lambda>a. an_status a = ''pending'') (ledger_anchors at)"
    "last_anchored at \<noteq> int (length (ledger db))"
    "at' = ?up\<lparr>ledger_anchors := ledger_anchors at @ [?a], ledger_anchors_seq := ledger_anchors_seq at + 1\<rparr>"
    using p unfolding prepare_anchor_cases [OF inv assms(2,3)] Let_def by (auto split: if_splits)
  then show ?thesis
  proof cases
    case 1
    then show ?thesis using up by simp
  next
    case new
    have b: "0 \<le> last_anchored at" "last_anchored at < int (length (ledger db))"
      using last_anchored_bounds [OF inv] new(2) by simp_all
    have a: "anchor_ok sha hex (ledger db) ?a" "an_status ?a = ''pending''" "an_first_entry_id ?a = last_anchored at + 1"
      "an_id ?a = ledger_anchors_seq at + 1"
      using b by (simp_all add: anchor_ok_def next_anchor_def Let_def)
    have conf: "confirmed_anchors at' = confirmed_anchors at"
      using a(2) new(3) by (simp add: confirmed_anchors_def)
    then have "last_anchored at' = last_anchored at" by (simp add: last_anchored_def confirmed_anchors_def)
    then have "anchors_inv sha hex db at'"
      using up(1) inv new a conf
      by (simp add: anchors_inv_def hashes_ok_def pending_next_def hashed_up_def upto_rec2 has_row_iff list_all_iff)
    then show ?thesis using conf by simp
  qed
qed

lemma anchor_step_inv:
  assumes "anchor_step sha hex unhex s s'" "digest32 sha" "hex_codec hex unhex" "anchors_inv sha hex (fst s) (snd s)"
  shows "anchors_inv sha hex (fst s') (snd s') \<and> set (confirmed_anchors (snd s)) \<subseteq> set (confirmed_anchors (snd s'))"
  using assms(1)
proof cases
  case (post_step db at)
  then show ?thesis using anchors_inv_insert assms(4) by simp
next
  case (prepare_step now db at at' r)
  then show ?thesis using anchors_inv_prepare [OF _ assms(2,3)] assms(4) by simp
next
  case (confirm_step now i sig at at' db)
  then show ?thesis using anchors_inv_confirm assms(4) by simp
next
  case (abandon_step i at at' db)
  then show ?thesis using anchors_inv_abandon assms(4) by fastforce
next
  case (proof_step i db at at' r)
  then have "at' = hashed_up sha hex db at"
    using inclusion_proof_tables [OF _ assms(2,3), of db at i] assms(4) by simp
  then show ?thesis
    using proof_step anchors_inv_hashed_up assms(4) by (simp add: hashed_up_def confirmed_anchors_def)
qed

lemma anchor_steps_inv:
  assumes "(anchor_step sha hex unhex)\<^sup>*\<^sup>* s s'" "digest32 sha" "hex_codec hex unhex" "anchors_inv sha hex (fst s) (snd s)"
  shows "anchors_inv sha hex (fst s') (snd s') \<and> set (confirmed_anchors (snd s)) \<subseteq> set (confirmed_anchors (snd s'))"
  using assms(1)
proof (induction rule: rtranclp_induct)
  case base
  then show ?case using assms(4) by simp
next
  case (step t u)
  then show ?case using anchor_step_inv [OF step(2) assms(2,3)] by blast
qed

lemma anchors_inv_start: "ledger_ids_ok db \<Longrightarrow> anchors_inv sha hex db no_anchors"
  by (simp add: anchors_inv_def hashes_ok_def no_anchors_def hash_table_def confirmed_anchors_def last_anchored_def
      sql_max_or_zero_def pending_next_def)

section \<open>Anchored rows are provable\<close>

lemma covering_anchor_found:
  assumes "a \<in> set (confirmed_anchors at)" "an_first_entry_id a \<le> n" "n \<le> an_last_entry_id a"
  shows "\<exists>b. covering_anchor at n = Some b \<and> b \<in> set (confirmed_anchors at) \<and> an_first_entry_id b \<le> n \<and>
    n \<le> an_last_entry_id b"
proof -
  let ?P = "\<lambda>a. an_status a = ''confirmed'' \<and> an_first_entry_id a \<le> n \<and> an_last_entry_id a \<ge> n"
  let ?s = "rev (sort_key an_id (filter ?P (ledger_anchors at)))"
  have set: "set ?s = {x \<in> set (ledger_anchors at). ?P x}" by simp
  then have "?s \<noteq> []" using assms by (force simp: confirmed_anchors_def)
  then obtain b rest where s: "?s = b # rest" by (meson neq_Nil_conv)
  then have "b \<in> set ?s" by simp
  then show ?thesis using s unfolding set by (simp add: covering_anchor_def confirmed_anchors_def)
qed

lemma hashed_between_up:
  assumes "ledger_ids_ok db" "1 \<le> lo" "hi \<le> int (length (ledger db))" "0 \<le> hi"
  shows "hashed_between (hashed_up sha hex db at) lo hi = table_range sha hex (ledger db) (nat (lo - 1)) (nat hi)"
proof -
  have P: "(\<lambda>h. lo \<le> eh_entry_id h \<and> eh_entry_id h \<le> hi) =
      (\<lambda>h. int (nat (lo - 1)) < eh_entry_id h \<and> eh_entry_id h \<le> int (nat hi))"
    using assms(2,4) by auto
  have "nat hi \<le> length (ledger db)" using assms(3) by simp
  from hash_table_filter [OF assms(1) this this order_refl, of "nat (lo - 1)" sha hex]
  show ?thesis unfolding hashed_between_def P by (simp add: hashed_up_def)
qed

lemma proof_from_anchor_accepted:
  assumes "digest32 sha" "hex_codec hex unhex" "ledger_ids_ok db" "anchor_ok sha hex (ledger db) a"
    "an_first_entry_id a \<le> n" "n \<le> an_last_entry_id a"
  shows "\<exists>ip root. proof_from_anchor sha hex unhex (hashed_up sha hex db at) n (ledger db ! nat (n - 1)) a =
      Inr (Some ip) \<and> ip_entry ip = ledger db ! nat (n - 1) \<and> ip_anchor ip = a \<and>
    unhex (an_merkle_root a) = Some root \<and>
    verify_proof sha unhex (entry_hash sha (ip_entry ip)) (ip_proof ip) root"
proof -
  let ?lo = "an_first_entry_id a" and ?hi = "an_last_entry_id a" and ?r = "ledger db ! nat (n - 1)"
  let ?p = "nat (n - ?lo)" and ?hs = "table_range sha hex (ledger db) (nat (?lo - 1)) (nat ?hi)"
  define leaves where "leaves = map (entry_hash sha) (row_range (ledger db) ?lo ?hi)"
  have a: "1 \<le> ?lo" "?lo \<le> ?hi" "?hi \<le> int (length (ledger db))" "an_merkle_root a = hex (merkle_root sha leaves)"
    using assms(4) by (simp_all add: anchor_ok_def Let_def leaves_def)
  have hs: "hashed_between (hashed_up sha hex db at) ?lo ?hi = ?hs" by (rule hashed_between_up [OF assms(3)]) (use a in simp_all)
  have lv: "map (\<lambda>h. hash_or_zero unhex (eh_entry_hash h)) ?hs = leaves"
    using table_range_leaves [OF assms(1,2), of "nat ?hi" "ledger db" "nat (?lo - 1)"] a by (simp add: leaves_def)
  have p: "?p < length ?hs" "?p < length leaves" "nat (?lo - 1) + ?p = nat (n - 1)"
    using a assms(5,6) by (simp_all add: table_range_map leaves_def row_range_def nat_less_iff nat_diff_distrib)
  have nth: "leaves ! ?p = entry_hash sha ?r" "eh_entry_hash (?hs ! ?p) = hex (entry_hash sha ?r)"
    using p a assms(5,6) by (simp_all add: leaves_def row_range_def table_range_map nat_less_iff)
  have "list_all (\<lambda>b. length b = 32) leaves"
    using digest32_length [OF assms(1)] by (simp add: leaves_def entry_hash_def list_all_iff)
  from proof_loop_folds [OF assms(1,2) this p(2)]
  have "verify_proof sha unhex (entry_hash sha ?r) (proof_loop sha hex leaves ?p) (merkle_root sha leaves)"
    using p(2) by (auto simp: verify_proof_def merkle_root_def nth(1))
  moreover have "unhex (an_merkle_root a) = Some (merkle_root sha leaves)"
    using assms(2) a(4) by (simp add: hex_codec_def)
  ultimately show ?thesis
    using p by (simp add: proof_from_anchor_def Let_def hs lv nth merkle_proof_def)
qed

section \<open>Properties\<close>

text \<open>C35. Every row up to the last confirmed anchor can be proved, at any time and to anyone: in every history of
  posted rows, prepared, confirmed and abandoned anchors and requested proofs, the gateway answers a request for
  such a row with the row itself and a proof that a verifier folds to the root of a confirmed anchor.\<close>

theorem anchored_rows_provable:
  assumes "digest32 sha" and "hex_codec hex unhex" and "ledger_ids_ok db0"
    and "(anchor_step sha hex unhex)\<^sup>*\<^sup>* (db0, no_anchors) (db, at)" and "1 \<le> n" and "n \<le> last_anchored at"
  shows "\<exists>at' ip root. inclusion_proof sha hex unhex n db at = (at', Inr (Some ip)) \<and>
    ip_entry ip \<in> set (ledger db) \<and> lg_id (ip_entry ip) = n \<and> ip_anchor ip \<in> set (confirmed_anchors at) \<and>
    unhex (an_merkle_root (ip_anchor ip)) = Some root \<and>
    verify_proof sha unhex (entry_hash sha (ip_entry ip)) (ip_proof ip) root"
proof -
  have inv: "anchors_inv sha hex db at"
    using anchor_steps_inv [OF assms(4,1,2)] anchors_inv_start [OF assms(3)] by simp
  then have h: "hashes_ok sha hex db at" and ids: "ledger_ids_ok db"
    and tiled: "tiled_from 0 (confirmed_anchors at) (last_anchored at)"
    and ok: "\<forall>a\<in>set (confirmed_anchors at). anchor_ok sha hex (ledger db) a"
    by (auto simp: anchors_inv_def hashes_ok_def confirmed_anchors_def list_all_iff)
  have n: "nat (n - 1) < length (ledger db)" using last_anchored_bounds [OF inv] assms(5,6) by simp
  have id: "lg_id (ledger db ! nat (n - 1)) = n" using ledger_ids_nth [OF ids n] assms(5) by simp
  have "distinct (map lg_id (ledger db))" using ids by (simp add: ledger_ids_ok_def)
  then have row: "find (\<lambda>l. lg_id l = n) (ledger db) = Some (ledger db ! nat (n - 1))"
    using find_key_unique [of lg_id "ledger db" "ledger db ! nat (n - 1)"] n id by simp
  have "0 < n" using assms(5) by simp
  then obtain b where "b \<in> set (confirmed_anchors at)" "an_first_entry_id b \<le> n" "n \<le> an_last_entry_id b"
    using tiled_covers [OF tiled _ assms(6)] by blast
  from covering_anchor_found [OF this] obtain a where "covering_anchor at n = Some a"
    and a: "a \<in> set (confirmed_anchors at)" "an_first_entry_id a \<le> n" "n \<le> an_last_entry_id a" by blast
  then have cov: "covering_anchor (hashed_up sha hex db at) n = Some a"
    by (simp add: covering_anchor_def hashed_up_def)
  have "inclusion_proof sha hex unhex n db at = (hashed_up sha hex db at,
      proof_from_anchor sha hex unhex (hashed_up sha hex db at) n (ledger db ! nat (n - 1)) a)"
    by (simp add: inclusion_proof_def backfill_hashes_all [OF h assms(1,2)] row cov Let_def)
  moreover obtain ip root where "proof_from_anchor sha hex unhex (hashed_up sha hex db at) n (ledger db ! nat (n - 1)) a =
      Inr (Some ip)" "ip_entry ip = ledger db ! nat (n - 1)" "ip_anchor ip = a" "unhex (an_merkle_root a) = Some root"
    "verify_proof sha unhex (entry_hash sha (ip_entry ip)) (ip_proof ip) root"
    using proof_from_anchor_accepted [OF assms(1,2) ids _ a(2,3), of at] ok a(1) by blast
  ultimately show ?thesis using a(1) n id by (intro exI [of _ "hashed_up sha hex db at"] exI [of _ ip] exI [of _ root]) simp
qed

definition posted_db :: gateway_db where
  "posted_db = insert_ledger ''d'' ''BONUS'' 5 10 None None (insert_ledger ''e'' ''BONUS'' 7 11 None None empty_db)"

definition prepared_at :: anchor_tables where
  "prepared_at = fst (prepare_anchor toy_sha toy_hex toy_unhex 20 posted_db no_anchors)"

definition confirmed_at :: anchor_tables where
  "confirmed_at = projr (confirm_anchor 30 1 ''sig'' prepared_at)"

lemma posted_ids: "ledger_ids_ok posted_db"
  by code_simp

lemma prepared_anchors: "ledger_anchors prepared_at = [next_anchor toy_sha toy_hex 20 posted_db no_anchors]"
proof -
  have "length (ledger posted_db) = 2" by code_simp
  then show ?thesis
    using prepare_anchor_cases [OF anchors_inv_start [OF posted_ids] toy_digest32 toy_hex_codec, of 20]
    by (simp add: prepared_at_def no_anchors_def last_anchored_def sql_max_or_zero_def Let_def has_row_def)
qed

lemma prepared_pending: "\<exists>a\<in>set (ledger_anchors prepared_at). is_pending 1 a"
  by (simp add: prepared_anchors is_pending_def next_anchor_def Let_def no_anchors_def)

lemma posted_run: "(anchor_step toy_sha toy_hex toy_unhex)\<^sup>*\<^sup>* (posted_db, no_anchors) (posted_db, confirmed_at)"
proof -
  have "anchor_step toy_sha toy_hex toy_unhex (posted_db, no_anchors) (posted_db, prepared_at)"
    unfolding prepared_at_def by (rule prepare_step [of _ _ _ 20]) (rule prod.collapse [symmetric])
  moreover have "confirm_anchor 30 1 ''sig'' prepared_at = Inr confirmed_at"
    using prepared_pending by (simp add: confirmed_at_def confirm_anchor_def has_row_iff)
  ultimately show ?thesis by (meson confirm_step rtranclp.rtrancl_refl rtranclp.rtrancl_into_rtrancl)
qed

lemma confirmed_anchors_posted: "map an_last_entry_id (confirmed_anchors confirmed_at) = [2]"
proof -
  have "length (ledger posted_db) = 2" by code_simp
  then show ?thesis using prepared_pending
    by (simp add: confirmed_at_def confirm_anchor_def has_row_iff confirmed_anchors_def prepared_anchors is_pending_def
        next_anchor_def Let_def)
qed

lemma posted_last: "last_anchored confirmed_at = 2"
  using confirmed_anchors_posted by (simp add: last_anchored_def confirmed_anchors_def sql_max_or_zero_def)

theorem anchored_rows_provable_witness:
  "\<exists>at' ip root. inclusion_proof toy_sha toy_hex toy_unhex 2 posted_db confirmed_at = (at', Inr (Some ip)) \<and>
    ip_entry ip \<in> set (ledger posted_db) \<and> lg_id (ip_entry ip) = 2 \<and>
    ip_anchor ip \<in> set (confirmed_anchors confirmed_at) \<and>
    toy_unhex (an_merkle_root (ip_anchor ip)) = Some root \<and>
    verify_proof toy_sha toy_unhex (entry_hash toy_sha (ip_entry ip)) (ip_proof ip) root"
  by (rule anchored_rows_provable [OF toy_digest32 toy_hex_codec posted_ids posted_run]) (simp_all add: posted_last)

text \<open>C36. Confirmed anchors are immutable and leave no gap: in every history their ranges, in the order of
  confirmation, run consecutively from row 1 to the last anchored row without gap or overlap, each publishes the
  root and chain tip of exactly the rows of its range, and a confirmed anchor is never changed or removed.\<close>

theorem confirmed_anchors_tile:
  assumes "digest32 sha" and "hex_codec hex unhex" and "ledger_ids_ok db0"
    and "(anchor_step sha hex unhex)\<^sup>*\<^sup>* (db0, no_anchors) (db1, at1)" and "(anchor_step sha hex unhex)\<^sup>*\<^sup>* (db1, at1) (db2, at2)"
  shows "tiled_from 0 (confirmed_anchors at2) (last_anchored at2) \<and>
    list_all (anchor_ok sha hex (ledger db2)) (confirmed_anchors at2) \<and>
    set (confirmed_anchors at1) \<subseteq> set (confirmed_anchors at2)"
proof -
  have inv1: "anchors_inv sha hex db1 at1"
    using anchor_steps_inv [OF assms(4,1,2)] anchors_inv_start [OF assms(3)] by simp
  have "anchors_inv sha hex db2 at2 \<and> set (confirmed_anchors at1) \<subseteq> set (confirmed_anchors at2)"
    using anchor_steps_inv [OF assms(5,1,2)] inv1 by simp
  then show ?thesis by (simp add: anchors_inv_def confirmed_anchors_def list_all_iff)
qed

theorem confirmed_anchors_tile_witness:
  "tiled_from 0 (confirmed_anchors confirmed_at) 2 \<and>
    list_all (anchor_ok toy_sha toy_hex (ledger posted_db)) (confirmed_anchors confirmed_at) \<and>
    set (confirmed_anchors no_anchors) \<subseteq> set (confirmed_anchors confirmed_at) \<and> confirmed_anchors confirmed_at \<noteq> []"
proof -
  have "confirmed_anchors confirmed_at \<noteq> []" using confirmed_anchors_posted by auto
  with confirmed_anchors_tile [OF toy_digest32 toy_hex_codec posted_ids rtranclp.rtrancl_refl posted_run] posted_last
  show ?thesis by simp
qed

section \<open>Deletions under the side tables\<close>

lemma no_unhashed_rows:
  assumes "lg_id ` set (ledger db) \<subseteq> eh_entry_id ` set (ledger_entry_hashes at)"
  shows "fetch_unhashed_rows db at = []"
proof -
  have "filter (\<lambda>l. \<not> has_row (\<lambda>h. eh_entry_id h = lg_id l) (ledger_entry_hashes at)) (ledger db) = []"
    using assms by (auto simp: filter_empty_conv has_row_key_iff)
  then show ?thesis by (simp add: fetch_unhashed_rows_def)
qed

lemma hashed_up_ids: "lg_id ` set (ledger db) \<subseteq> eh_entry_id ` set (ledger_entry_hashes (hashed_up sha hex db at))"
  by (auto simp: hashed_up_def hash_table_def in_set_conv_nth image_image intro: imageI)

text \<open>The gap check of a preparation reads the hash table, not the ledger: rows that are deleted after they were
  hashed and before they are anchored change nothing in what a preparation answers.\<close>

lemma deleted_rows_pass_gap_check:
  "prepare_anchor sha hex unhex now (db\<lparr>ledger := sql_delete P (ledger db)\<rparr>) (hashed_up sha hex db at) =
     prepare_anchor sha hex unhex now db (hashed_up sha hex db at)"
proof -
  have "lg_id ` set (ledger (db\<lparr>ledger := sql_delete P (ledger db)\<rparr>)) \<subseteq>
      eh_entry_id ` set (ledger_entry_hashes (hashed_up sha hex db at))"
    using hashed_up_ids [of db sha hex at] by (auto simp: sql_delete_def)
  from no_unhashed_rows [OF this] no_unhashed_rows [OF hashed_up_ids [of db sha hex at]]
  show ?thesis by (simp add: prepare_anchor_def backfill_entry_hashes_def)
qed

text \<open>A genesis reset empties the ledger and restarts its ids, but leaves the row hashes: once any row has been
  hashed, the first row posted after the reset is taken for hashed, and the table keeps the hash of the old first
  row under its id, so a proof of the new row is refused as if the row had been edited.\<close>

lemma reset_leaves_row_hashes:
  assumes "anchors_inv sha hex db at" and "ledger_entry_hashes at \<noteq> []" and "reset_genesis db = Inr (db', report)"
  shows "fetch_unhashed_rows (insert_ledger d ty a ts req note db') at = [] \<and>
    eh_entry_id (hd (ledger_entry_hashes at)) = 1 \<and>
    eh_entry_hash (hd (ledger_entry_hashes at)) = hex (entry_hash sha (hd (ledger db)))"
proof -
  let ?k = "length (ledger_entry_hashes at)"
  have h: "ledger_ids_ok db" "?k \<le> length (ledger db)" "ledger_entry_hashes at = hash_table sha hex (ledger db) ?k"
    using assms(1) unfolding anchors_inv_def hashes_ok_def by blast+
  obtain k where k: "?k = Suc k" using assms(2) by (cases ?k) auto
  have hd: "hd (ledger_entry_hashes at) = hash_table sha hex (ledger db) ?k ! 0"
    using h(3) assms(2) by (metis hd_conv_nth)
  have "ledger db \<noteq> []" using h(2) k by auto
  then have first: "eh_entry_id (hd (ledger_entry_hashes at)) = 1"
    "eh_entry_hash (hd (ledger_entry_hashes at)) = hex (entry_hash sha (hd (ledger db)))"
    using ledger_ids_nth [OF h(1), of 0] k unfolding hd by (simp_all add: hash_table_def hd_conv_nth del: upt_Suc)
  have "ledger (insert_ledger d ty a ts req note db') = [\<lparr>lg_id = 1, lg_device_id = d, lg_type = ty, lg_amount = a,
      lg_timestamp = ts, lg_ref_request_id = req, lg_note = note\<rparr>]"
    using assms(3) by (auto simp: reset_genesis_def Let_def insert_ledger_def split: if_splits)
  moreover have "1 \<in> eh_entry_id ` set (ledger_entry_hashes at)"
    using first(1) hd_in_set [OF assms(2)] by force
  ultimately have "fetch_unhashed_rows (insert_ledger d ty a ts req note db') at = []"
    by (intro no_unhashed_rows) simp
  then show ?thesis using first by simp
qed

end
