(* ===== verification/Limiters.thy ===== *)
theory Limiters
  imports Teale_Prelude
begin

text \<open>
  The rate limiters and the issuer allowlist of the shared application state (\<open>gateway/src/state.rs\<close>): knocks on
  private networks, challenges per client address counted by distinct devices, and the devices that may mint share
  keys. A limiter's map from keys to buckets is a function from keys to lists, an absent bucket being empty. The
  locale gives the contract of a sliding window and the bound that follows from it; both limiters interpret it.
\<close>

section \<open>Definitions\<close>

definition PIN_JOIN_MAX_PER_WINDOW :: nat where "PIN_JOIN_MAX_PER_WINDOW = 5"

definition PIN_JOIN_WINDOW_SECONDS :: int where "PIN_JOIN_WINDOW_SECONDS = 3600"

record PinJoinLimiter =
  pj_inner :: "string \<Rightarrow> int list"

definition pin_join_default :: PinJoinLimiter where
  "pin_join_default = \<lparr>pj_inner = (\<lambda>_. [])\<rparr>"

definition pin_join_allow :: "string \<Rightarrow> int \<Rightarrow> PinJoinLimiter \<Rightarrow> PinJoinLimiter \<times> bool" where
  "pin_join_allow key now_unix l =
     (let attempts = filter (\<lambda>t. now_unix - t < PIN_JOIN_WINDOW_SECONDS) (pj_inner l key) in
      if length attempts \<ge> PIN_JOIN_MAX_PER_WINDOW
      then (l\<lparr>pj_inner := (pj_inner l)(key := attempts)\<rparr>, False)
      else (l\<lparr>pj_inner := (pj_inner l)(key := attempts @ [now_unix])\<rparr>, True))"

datatype ChallengeLimitDecision = NewDevice | Retry | Denied

definition MAX_UNIQUE_PER_WINDOW :: nat where "MAX_UNIQUE_PER_WINDOW = 10"

definition CHALLENGE_WINDOW_SECONDS :: int where "CHALLENGE_WINDOW_SECONDS = 3600"

record ChallengeLimiter =
  cl_inner :: "string \<Rightarrow> (string \<times> int) list"

definition challenge_default :: ChallengeLimiter where
  "challenge_default = \<lparr>cl_inner = (\<lambda>_. [])\<rparr>"

definition challenge_allow ::
  "string \<Rightarrow> string \<Rightarrow> int \<Rightarrow> ChallengeLimiter \<Rightarrow> ChallengeLimiter \<times> ChallengeLimitDecision" where
  "challenge_allow key device_id now_unix l =
     (let devices = filter (\<lambda>d. now_unix - snd d < CHALLENGE_WINDOW_SECONDS) (cl_inner l key) in
      if device_id \<in> fst ` set devices then (l\<lparr>cl_inner := (cl_inner l)(key := devices)\<rparr>, Retry)
      else if length devices \<ge> MAX_UNIQUE_PER_WINDOW then (l\<lparr>cl_inner := (cl_inner l)(key := devices)\<rparr>, Denied)
      else (l\<lparr>cl_inner := (cl_inner l)(key := devices @ [(device_id, now_unix)])\<rparr>, NewDevice))"

fun split_at :: "char \<Rightarrow> string \<Rightarrow> string list" where
  "split_at c [] = [[]]"
| "split_at c (x # xs) = (if x = c then [] # split_at c xs
     else case split_at c xs of [] \<Rightarrow> [[x]] | p # ps \<Rightarrow> (x # p) # ps)"

definition issuers_from_env :: "string option \<Rightarrow> string list" where
  "issuers_from_env var = (let raw = (case var of Some v \<Rightarrow> v | None \<Rightarrow> [])
     in filter (\<lambda>s. s \<noteq> []) (map trim (split_at (CHR '','') raw)))"

definition is_allowed :: "string list \<Rightarrow> string \<Rightarrow> bool" where
  "is_allowed issuers device_id \<longleftrightarrow> device_id \<in> set issuers"

section \<open>Sliding windows\<close>

text \<open>Calls to a limiter for one key, with the argument and the time of each; the times of those it admits.\<close>

fun admitted_times :: "('a \<Rightarrow> int \<Rightarrow> 's \<Rightarrow> 's \<times> bool) \<Rightarrow> ('a \<times> int) list \<Rightarrow> 's \<Rightarrow> 's \<times> int list" where
  "admitted_times allow [] s = (s, [])"
| "admitted_times allow ((x, t) # calls) s = (case allow x t s of (s1, b) \<Rightarrow>
     (case admitted_times allow calls s1 of (s2, ts) \<Rightarrow> (s2, if b then t # ts else ts)))"

definition in_window :: "int \<Rightarrow> int \<Rightarrow> int list \<Rightarrow> int list" where
  "in_window from width ts = filter (\<lambda>t. from \<le> t \<and> t < from + width) ts"

lemma admitted_times_snoc:
  "admitted_times allow (calls @ [(x, t)]) s = (case admitted_times allow calls s of (s1, ts) \<Rightarrow>
     (case allow x t s1 of (s2, b) \<Rightarrow> (s2, if b then ts @ [t] else ts)))"
  by (induction calls arbitrary: s) (auto split: prod.splits)

locale sliding_window =
  fixes allow :: "'a \<Rightarrow> int \<Rightarrow> 's \<Rightarrow> 's \<times> bool" and stamps :: "'s \<Rightarrow> int list" and quota :: nat and width :: int
  assumes admits: "allow x t s = (s', True) \<Longrightarrow> length (filter (\<lambda>u. t - u < width) (stamps s)) < quota \<and>
      stamps s' = filter (\<lambda>u. t - u < width) (stamps s) @ [t]"
    and refuses: "allow x t s = (s', False) \<Longrightarrow> stamps s' = stamps s \<or> stamps s' = filter (\<lambda>u. t - u < width) (stamps s)"
begin

lemma stamps_track:
  assumes "stamps s = []" "sorted (map snd calls)" "list_all (\<lambda>c. snd c \<le> u) calls"
    "admitted_times allow calls s = (s', ts)"
  shows "filter (\<lambda>x. u - x < width) (stamps s') = filter (\<lambda>x. u - x < width) ts"
  using assms(2-)
proof (induction calls arbitrary: u s' ts rule: rev_induct)
  case Nil
  then show ?case using assms(1) by simp
next
  case (snoc c calls)
  obtain x t where c: "c = (x, t)" by (cases c)
  obtain s1 ts1 b where run: "admitted_times allow calls s = (s1, ts1)" "allow x t s1 = (s', b)"
    "ts = (if b then ts1 @ [t] else ts1)"
    using snoc.prems(3) by (auto simp: c admitted_times_snoc split: prod.splits)
  let ?W = "\<lambda>t y. t - y < width"
  have sorted: "sorted (map snd calls)" "list_all (\<lambda>c. snd c \<le> u) calls" "t \<le> u"
    using snoc.prems(1,2) by (auto simp: c sorted_append list_all_iff)
  have IH: "filter (?W u) (stamps s1) = filter (?W u) ts1" by (rule snoc.IH [OF sorted(1,2) run(1)])
  have sub: "filter (?W u) (filter (?W t) zs) = filter (?W u) zs" for zs
    using sorted(3) by (induction zs) auto
  show ?case
  proof (cases b)
    case True
    then have "stamps s' = filter (?W t) (stamps s1) @ [t]" using admits [of x t s1 s'] run(2) by simp
    then show ?thesis using IH sub True run(3) by (simp del: filter_filter)
  next
    case False
    then have "stamps s' = stamps s1 \<or> stamps s' = filter (?W t) (stamps s1)" using refuses [of x t s1 s'] run(2) by simp
    then show ?thesis using IH sub False run(3) by (auto simp del: filter_filter)
  qed
qed

lemma window_bound:
  assumes "stamps s = []" "sorted (map snd calls)" "admitted_times allow calls s = (s', ts)"
  shows "length (in_window from width ts) \<le> quota"
  using assms(2,3)
proof (induction calls arbitrary: s' ts rule: rev_induct)
  case Nil
  then show ?case by (simp add: in_window_def)
next
  case (snoc c calls)
  obtain x t where c: "c = (x, t)" by (cases c)
  obtain s1 ts1 b where run: "admitted_times allow calls s = (s1, ts1)" "allow x t s1 = (s', b)"
    "ts = (if b then ts1 @ [t] else ts1)"
    using snoc.prems(2) by (auto simp: c admitted_times_snoc split: prod.splits)
  have sorted: "sorted (map snd calls)" "list_all (\<lambda>c. snd c \<le> t) calls"
    using snoc.prems(1) by (auto simp: c sorted_append list_all_iff)
  have IH: "length (in_window from width ts1) \<le> quota" by (rule snoc.IH [OF sorted(1) run(1)])
  show ?case
  proof (cases "b \<and> from \<le> t \<and> t < from + width")
    case True
    then have "length (filter (\<lambda>u. t - u < width) ts1) < quota"
      using admits [of x t s1 s'] run(2) stamps_track [OF assms(1) sorted run(1)] by simp
    moreover have "length (in_window from width ts1) \<le> length (filter (\<lambda>u. t - u < width) ts1)"
      unfolding in_window_def using True by (induction ts1) auto
    ultimately show ?thesis using True run(3) by (simp add: in_window_def)
  qed (use IH run(3) in \<open>auto simp: in_window_def\<close>)
qed

end

text \<open>The calls to a limiter as one key sees them: an admission counts for it only when it is its own.\<close>

definition pin_join_for :: "string \<Rightarrow> string \<Rightarrow> int \<Rightarrow> PinJoinLimiter \<Rightarrow> PinJoinLimiter \<times> bool" where
  "pin_join_for key k t l = (case pin_join_allow k t l of (l', b) \<Rightarrow> (l', b \<and> k = key))"

interpretation pin_join: sliding_window "pin_join_for key" "\<lambda>l. pj_inner l key" PIN_JOIN_MAX_PER_WINDOW PIN_JOIN_WINDOW_SECONDS
  for key
  by unfold_locales (auto simp: pin_join_for_def pin_join_allow_def Let_def split: if_splits)

text \<open>For challenges the argument is the client address with the device, an admission a new device.\<close>

definition challenge_for :: "string \<Rightarrow> string \<times> string \<Rightarrow> int \<Rightarrow> ChallengeLimiter \<Rightarrow> ChallengeLimiter \<times> bool" where
  "challenge_for key x t l = (case challenge_allow (fst x) (snd x) t l of (l', r) \<Rightarrow> (l', r = NewDevice \<and> fst x = key))"

interpretation challenge: sliding_window "challenge_for key" "\<lambda>l. map snd (cl_inner l key)" MAX_UNIQUE_PER_WINDOW
  CHALLENGE_WINDOW_SECONDS for key
  by unfold_locales (auto simp: challenge_for_def challenge_allow_def Let_def filter_map comp_def split: if_splits)

section \<open>Properties\<close>

text \<open>C40. The welcome grant cannot be farmed from one address: however challenges from all addresses interleave,
  within any hour at most ten of the requests of an address are admitted as new devices.\<close>

theorem new_devices_bounded:
  assumes "sorted (map snd calls)" and "admitted_times (challenge_for ip) calls challenge_default = (l, ts)"
  shows "length (in_window from CHALLENGE_WINDOW_SECONDS ts) \<le> MAX_UNIQUE_PER_WINDOW"
  by (rule challenge.window_bound [OF _ assms]) (simp add: challenge_default_def)

theorem new_devices_bounded_witness:
  "case admitted_times (challenge_for ''ip'') (map (\<lambda>d. ((''ip'', [d]), 100)) ''abcdefghijkl'' @ [((''ip'', ''z''), 3700)])
      challenge_default of (l, ts) \<Rightarrow>
     length ts = 11 \<and> length (in_window 100 CHALLENGE_WINDOW_SECONDS ts) \<le> MAX_UNIQUE_PER_WINDOW"
proof -
  let ?calls = "map (\<lambda>d. ((''ip'', [d]), 100)) ''abcdefghijkl'' @ [((''ip'', ''z''), 3700 :: int)]"
  let ?run = "admitted_times (challenge_for ''ip'') ?calls challenge_default"
  have "length (snd ?run) = 11" by code_simp
  moreover have "sorted (map snd ?calls)" by simp
  from new_devices_bounded [OF this prod.collapse [symmetric]]
  have "length (in_window 100 CHALLENGE_WINDOW_SECONDS (snd ?run)) \<le> MAX_UNIQUE_PER_WINDOW" .
  ultimately show ?thesis by (simp only: case_prod_beta)
qed

text \<open>Knocks on private networks are bounded in the same way, and a device that was counted retries freely.\<close>

lemma knocks_bounded:
  assumes "sorted (map snd calls)" and "admitted_times (pin_join_for d) calls pin_join_default = (l, ts)"
  shows "length (in_window from PIN_JOIN_WINDOW_SECONDS ts) \<le> PIN_JOIN_MAX_PER_WINDOW"
  by (rule pin_join.window_bound [OF _ assms]) (simp add: pin_join_default_def)

lemma counted_device_retries:
  assumes "challenge_allow ip d t l = (l1, NewDevice)" and "t \<le> u" and "u - t < CHALLENGE_WINDOW_SECONDS"
  shows "snd (challenge_allow ip d u l1) = Retry"
proof -
  have "(d, t) \<in> set (cl_inner l1 ip)" using assms(1) by (auto simp: challenge_allow_def Let_def split: if_splits)
  then show ?thesis using assms(3) by (force simp: challenge_allow_def Let_def)
qed

lemma no_issuers_without_variable: "is_allowed (issuers_from_env None) d = False"
  by (simp add: issuers_from_env_def is_allowed_def trim_def trim_start_def)

end
