(* ===== verification/Gateway_Error.thy ===== *)
theory Gateway_Error
  imports Gateway_Db
begin

text \<open>
  The errors the handlers surface (\<open>gateway/src/error.rs\<close>) with their HTTP status and the code of the response
  body. \<open>Other\<close> carries the \<open>anyhow\<close> error of the operation that failed.
\<close>

datatype GatewayError =
    Unauthorized string
  | BadRequest string
  | NotFound string
  | Forbidden string
  | Conflict string
  | BudgetExhausted
  | RateLimited string
  | InsufficientCredits int int
  | ModelNotFound string
  | NoEligibleDevice string
  | HeavyContention string
  | PromptExceedsContext string int int
  | Upstream string
  | AllUpstreamsFailed string
  | UpstreamTimeout
  | AtCapacity string
  | RelayUnavailable string
  | Other anyhow

fun status :: "GatewayError \<Rightarrow> nat" where
  "status (Unauthorized _) = 401"
| "status (BadRequest _) = 400"
| "status (NotFound _) = 404"
| "status (Forbidden _) = 403"
| "status (Conflict _) = 409"
| "status BudgetExhausted = 402"
| "status (RateLimited _) = 429"
| "status (InsufficientCredits _ _) = 402"
| "status (ModelNotFound _) = 404"
| "status (NoEligibleDevice _) = 503"
| "status (HeavyContention _) = 503"
| "status (AtCapacity _) = 429"
| "status (PromptExceedsContext _ _ _) = 400"
| "status (Upstream _) = 502"
| "status (AllUpstreamsFailed _) = 502"
| "status UpstreamTimeout = 504"
| "status (RelayUnavailable _) = 503"
| "status (Other _) = 500"

fun code :: "GatewayError \<Rightarrow> string" where
  "code (Unauthorized _) = ''unauthorized''"
| "code (BadRequest _) = ''invalid_request''"
| "code (NotFound _) = ''not_found''"
| "code (Forbidden _) = ''forbidden''"
| "code (Conflict _) = ''conflict''"
| "code BudgetExhausted = ''budget_exhausted''"
| "code (RateLimited _) = ''rate_limited''"
| "code (InsufficientCredits _ _) = ''insufficient_credits''"
| "code (ModelNotFound _) = ''model_not_found''"
| "code (NoEligibleDevice _) = ''model_unavailable''"
| "code (HeavyContention _) = ''heavy_contention''"
| "code (AtCapacity _) = ''at_capacity''"
| "code (PromptExceedsContext _ _ _) = ''prompt_exceeds_context''"
| "code (Upstream _) = ''upstream_error''"
| "code (AllUpstreamsFailed _) = ''upstream_failed''"
| "code UpstreamTimeout = ''timeout''"
| "code (RelayUnavailable _) = ''relay_unavailable''"
| "code (Other _) = ''internal_error''"

text \<open>The \<open>Retry-After\<close> header, in seconds: only the capacity signal asks the client to come back.\<close>

fun retry_after :: "GatewayError \<Rightarrow> nat option" where
  "retry_after (AtCapacity _) = Some 2"
| "retry_after _ = None"

lemma status_is_error: "400 \<le> status e \<and> status e < 600"
  by (cases e) auto

lemma code_distinguishes: "code e = code e' \<Longrightarrow> status e = status e'"
  by (cases e; cases e') auto

end
