(* ===== verification/Api_Keys.thy ===== *)
theory Api_Keys
  imports Accounts Gateway_Error
begin

text \<open>
  Programmatic API keys (\<open>gateway/src/api_keys.rs\<close>): minting, listing, updating, revoking and resolving the
  bearer tokens of an account. A token is stored only as its SHA-256; \<open>sha\<close> stands for the hexadecimal digest of
  the bytes of a text. The random part of a token, the UUID of a key and the clock are arguments.
\<close>

section \<open>Definitions\<close>

definition LIVE_PREFIX :: string where "LIVE_PREFIX = ''tk_live_''"

definition PROVISIONING_PREFIX :: string where "PROVISIONING_PREFIX = ''tk_prov_''"

definition PREFIX_DISPLAY_LEN :: nat where "PREFIX_DISPLAY_LEN = 8"

datatype ApiKeyRole = Live | Provisioning

fun role_as_str :: "ApiKeyRole \<Rightarrow> string" where
  "role_as_str Live = ''live''"
| "role_as_str Provisioning = ''provisioning''"

definition role_parse :: "string \<Rightarrow> ApiKeyRole option" where
  "role_parse s = (if s = ''live'' then Some Live else if s = ''provisioning'' then Some Provisioning else None)"

fun token_prefix :: "ApiKeyRole \<Rightarrow> string" where
  "token_prefix Live = LIVE_PREFIX"
| "token_prefix Provisioning = PROVISIONING_PREFIX"

record ApiKeyPublic =
  kp_key_id :: string
  kp_account_user_id :: string
  kp_prefix :: string
  kp_name :: "string option"
  kp_role :: ApiKeyRole
  kp_credit_limit :: "int option"
  kp_usage_credits :: int
  kp_disabled :: bool
  kp_created_at :: int
  kp_last_used_at :: "int option"

record ApiKeyMinted =
  mk_public :: ApiKeyPublic
  mk_token :: string

record ResolvedApiKey =
  ra_key_id :: string
  ra_account_user_id :: string
  ra_role :: ApiKeyRole
  ra_credit_limit :: "int option"
  ra_usage_credits :: int
  ra_disabled :: bool

definition remaining_credit_limit :: "ResolvedApiKey \<Rightarrow> int option" where
  "remaining_credit_limit r = map_option (\<lambda>limit. max (limit - ra_usage_credits r) 0) (ra_credit_limit r)"

datatype ApiKeyError =
    KeyNotFound
  | InvalidName
  | InvalidCreditLimit
  | ProvisioningRequired
  | KeyDb anyhow

definition hash_token :: "(string \<Rightarrow> string) \<Rightarrow> string \<Rightarrow> string" where
  "hash_token sha token = sha token"

definition random_token :: "ApiKeyRole \<Rightarrow> string \<Rightarrow> string" where
  "random_token role secret = token_prefix role @ secret"

text \<open>Tokens are ASCII, so that byte and character positions agree.\<close>

definition display_prefix :: "string \<Rightarrow> string" where
  "display_prefix token =
     (let role_prefix_len = (if starts_with PROVISIONING_PREFIX token then length PROVISIONING_PREFIX
            else if starts_with LIVE_PREFIX token then length LIVE_PREFIX else 0);
          n = role_prefix_len + min PREFIX_DISPLAY_LEN (length token - role_prefix_len)
      in take (min n (length token)) token)"

definition looks_like_api_key :: "string \<Rightarrow> bool" where
  "looks_like_api_key token \<longleftrightarrow> starts_with LIVE_PREFIX token \<or> starts_with PROVISIONING_PREFIX token"

record CreateApiKeyParams =
  cp_name :: "string option"
  cp_role :: "ApiKeyRole option"
  cp_credit_limit :: "int option"

definition insert_api_key :: "api_key_row \<Rightarrow> gateway_db \<Rightarrow> anyhow + gateway_db" where
  "insert_api_key r db =
     (if has_row (\<lambda>x. ak_key_id x = ak_key_id r) (api_keys db)
       \<or> has_row (\<lambda>x. ak_key_hash x = ak_key_hash r) (api_keys db)
       \<or> \<not> account_exists db (ak_account_user_id r)
       \<or> ak_role r \<notin> {''live'', ''provisioning''}
      then Inl ConstraintViolation else Inr (db\<lparr>api_keys := api_keys db @ [r]\<rparr>))"

definition key_name :: "string option \<Rightarrow> string option" where
  "key_name name = (case map_option trim name of
      None \<Rightarrow> None | Some n \<Rightarrow> if n = [] then None else Some n)"

definition create_api_key ::
  "(string \<Rightarrow> string) \<Rightarrow> int \<Rightarrow> string \<Rightarrow> string \<Rightarrow> string \<Rightarrow> CreateApiKeyParams \<Rightarrow> gateway_db \<Rightarrow>
   ApiKeyError + gateway_db \<times> ApiKeyMinted" where
  "create_api_key sha now key_id secret account params db =
     (let role = (case cp_role params of None \<Rightarrow> Live | Some r \<Rightarrow> r) in
     rbind (ensure (\<not> (case cp_credit_limit params of None \<Rightarrow> False | Some limit \<Rightarrow> limit < 0)) InvalidCreditLimit) (\<lambda>_.
     let name = key_name (cp_name params) in
     rbind (ensure (\<not> (case name of None \<Rightarrow> False | Some n \<Rightarrow> utf8_len n > 128)) InvalidName) (\<lambda>_.
     let token = random_token role secret;
         prefix = display_prefix token in
     rbind (map_err KeyDb (insert_api_key \<lparr>ak_key_id = key_id, ak_account_user_id = account,
         ak_key_hash = hash_token sha token, ak_prefix = prefix, ak_name = name, ak_role = role_as_str role,
         ak_credit_limit = cp_credit_limit params, ak_usage_credits = 0, ak_disabled = 0,
         ak_created_at = now, ak_last_used_at = None\<rparr> db)) (\<lambda>db1.
     Inr (db1, \<lparr>mk_public = \<lparr>kp_key_id = key_id, kp_account_user_id = account, kp_prefix = prefix,
         kp_name = name, kp_role = role, kp_credit_limit = cp_credit_limit params, kp_usage_credits = 0,
         kp_disabled = False, kp_created_at = now, kp_last_used_at = None\<rparr>, mk_token = token\<rparr>)))))"

definition key_public :: "string \<Rightarrow> api_key_row \<Rightarrow> ApiKeyPublic" where
  "key_public account r = \<lparr>kp_key_id = ak_key_id r, kp_account_user_id = account, kp_prefix = ak_prefix r,
     kp_name = ak_name r, kp_role = (case role_parse (ak_role r) of None \<Rightarrow> Live | Some x \<Rightarrow> x),
     kp_credit_limit = ak_credit_limit r, kp_usage_credits = ak_usage_credits r,
     kp_disabled = (ak_disabled r \<noteq> 0), kp_created_at = ak_created_at r, kp_last_used_at = ak_last_used_at r\<rparr>"

definition list_api_keys :: "string \<Rightarrow> gateway_db \<Rightarrow> ApiKeyPublic list" where
  "list_api_keys account db = map (key_public account)
     (sort_key (\<lambda>r. (- ak_created_at r, ak_key_id r))
       (filter (\<lambda>r. ak_account_user_id r = account) (api_keys db)))"

definition get_api_key :: "string \<Rightarrow> string \<Rightarrow> gateway_db \<Rightarrow> ApiKeyError + ApiKeyPublic" where
  "get_api_key account key_id db =
     rbind (ok_or KeyNotFound (find (\<lambda>r. ak_key_id r = key_id \<and> ak_account_user_id r = account) (api_keys db)))
       (\<lambda>r. Inr (key_public account r))"

record UpdateApiKeyParams =
  up_name :: "string option option"
  up_credit_limit :: "int option option"
  up_disabled :: "bool option"

definition set_key :: "string \<Rightarrow> (api_key_row \<Rightarrow> api_key_row) \<Rightarrow> gateway_db \<Rightarrow> gateway_db" where
  "set_key key_id f db = db\<lparr>api_keys := sql_update (\<lambda>r. ak_key_id r = key_id) f (api_keys db)\<rparr>"

definition set_key_name :: "string option option \<Rightarrow> api_key_row \<Rightarrow> api_key_row" where
  "set_key_name change r = (case change of None \<Rightarrow> r | Some n \<Rightarrow> r\<lparr>ak_name := map_option trim n\<rparr>)"

definition set_key_limit :: "int option option \<Rightarrow> api_key_row \<Rightarrow> api_key_row" where
  "set_key_limit change r = (case change of None \<Rightarrow> r | Some l \<Rightarrow> r\<lparr>ak_credit_limit := l\<rparr>)"

definition set_key_disabled :: "bool option \<Rightarrow> api_key_row \<Rightarrow> api_key_row" where
  "set_key_disabled change r = (case change of None \<Rightarrow> r
     | Some b \<Rightarrow> r\<lparr>ak_disabled := if b then 1 else 0\<rparr>)"

definition update_api_key_by ::
  "string \<Rightarrow> string \<Rightarrow> UpdateApiKeyParams \<Rightarrow> gateway_db \<Rightarrow> ApiKeyError + gateway_db \<times> ApiKeyPublic" where
  "update_api_key_by account key_id params db =
     rbind (ensure (\<not> (case up_credit_limit params of Some (Some limit) \<Rightarrow> limit < 0 | _ \<Rightarrow> False)) InvalidCreditLimit) (\<lambda>_.
     rbind (ensure (\<not> (case up_name params of Some (Some n) \<Rightarrow> trim n = [] \<or> utf8_len n > 128 | _ \<Rightarrow> False)) InvalidName) (\<lambda>_.
     rbind (ensure (has_row (\<lambda>r. ak_key_id r = key_id \<and> ak_account_user_id r = account) (api_keys db)) KeyNotFound) (\<lambda>_.
     let db1 = set_key key_id (set_key_name (up_name params)) db;
         db2 = set_key key_id (set_key_limit (up_credit_limit params)) db1;
         db3 = set_key key_id (set_key_disabled (up_disabled params)) db2 in
     rbind (get_api_key account key_id db3) (\<lambda>k. Inr (db3, k)))))"

definition delete_api_key :: "string \<Rightarrow> string \<Rightarrow> gateway_db \<Rightarrow> ApiKeyError + gateway_db" where
  "delete_api_key account key_id db =
     (let P = (\<lambda>r. ak_key_id r = key_id \<and> ak_account_user_id r = account) in
      if \<not> has_row P (api_keys db) then Inl KeyNotFound
      else Inr (db\<lparr>api_keys := sql_update P (\<lambda>r. r\<lparr>ak_disabled := 1\<rparr>) (api_keys db)\<rparr>))"

definition resolve_api_key :: "(string \<Rightarrow> string) \<Rightarrow> string \<Rightarrow> gateway_db \<Rightarrow> ResolvedApiKey option" where
  "resolve_api_key sha token db =
     (if \<not> looks_like_api_key token then None
      else case find (\<lambda>r. ak_key_hash r = hash_token sha token) (api_keys db) of
        None \<Rightarrow> None
      | Some r \<Rightarrow> (case role_parse (ak_role r) of
          None \<Rightarrow> None
        | Some role \<Rightarrow> Some \<lparr>ra_key_id = ak_key_id r, ra_account_user_id = ak_account_user_id r, ra_role = role,
            ra_credit_limit = ak_credit_limit r, ra_usage_credits = ak_usage_credits r,
            ra_disabled = (ak_disabled r \<noteq> 0)\<rparr>))"

definition touch_last_used :: "int \<Rightarrow> string \<Rightarrow> gateway_db \<Rightarrow> gateway_db" where
  "touch_last_used now key_id db = set_key key_id (\<lambda>r. r\<lparr>ak_last_used_at := Some now\<rparr>) db"

section \<open>Key tables\<close>

text \<open>Key ids and hashes are unique, every key belongs to an account and has a known role.\<close>

definition api_keys_ok :: "gateway_db \<Rightarrow> bool" where
  "api_keys_ok db \<longleftrightarrow> distinct (map ak_key_id (api_keys db)) \<and> distinct (map ak_key_hash (api_keys db))
     \<and> list_all (\<lambda>r. account_exists db (ak_account_user_id r) \<and> role_parse (ak_role r) \<noteq> None) (api_keys db)"

text \<open>What an update of a key may change: neither its identity, its owner, its hash nor its role.\<close>

definition keeps_key_identity :: "(api_key_row \<Rightarrow> api_key_row) \<Rightarrow> bool" where
  "keeps_key_identity f \<longleftrightarrow> (\<forall>r. ak_key_id (f r) = ak_key_id r \<and> ak_key_hash (f r) = ak_key_hash r
     \<and> ak_account_user_id (f r) = ak_account_user_id r \<and> ak_role (f r) = ak_role r)"

lemma key_updates_keep_identity [simp]:
  "keeps_key_identity (set_key_name n)" "keeps_key_identity (set_key_limit l)"
  "keeps_key_identity (set_key_disabled b)" "keeps_key_identity (\<lambda>r. r\<lparr>ak_last_used_at := t\<rparr>)"
  "keeps_key_identity (\<lambda>r. r\<lparr>ak_disabled := i\<rparr>)"
  by (simp_all add: keeps_key_identity_def set_key_name_def set_key_limit_def set_key_disabled_def split: option.split)

lemma role_parse_as_str [simp]: "role_parse (role_as_str role) = Some role"
  by (cases role) (simp_all add: role_parse_def)

lemma role_as_str_known [simp]: "role_as_str role \<in> {''live'', ''provisioning''}"
  by (cases role) simp_all

lemma token_looks_like_key [simp]: "looks_like_api_key (random_token role secret)"
  by (cases role) (simp_all add: looks_like_api_key_def random_token_def starts_with_def)

lemma account_exists_api_keys [simp]: "account_exists (db\<lparr>api_keys := t\<rparr>) a = account_exists db a"
  by (simp add: account_exists_def)

lemma set_key_simps [simp]:
  "api_keys (set_key k f db) = sql_update (\<lambda>r. ak_key_id r = k) f (api_keys db)"
  "account_exists (set_key k f db) a = account_exists db a"
  "account_wallets (set_key k f db) = account_wallets db"
  by (simp_all add: set_key_def)

lemma api_keys_ok_update:
  assumes "api_keys_ok db" and "keeps_key_identity f"
  shows "api_keys_ok (db\<lparr>api_keys := sql_update P f (api_keys db)\<rparr>)"
  using assms
  by (auto simp: api_keys_ok_def keeps_key_identity_def sql_update_key_map list_all_iff set_sql_update)

lemma api_keys_ok_set_key: "api_keys_ok db \<Longrightarrow> keeps_key_identity f \<Longrightarrow> api_keys_ok (set_key k f db)"
  by (simp add: set_key_def api_keys_ok_update)

lemma role_parse_known: "s \<in> {''live'', ''provisioning''} \<longleftrightarrow> role_parse s \<noteq> None"
  by (simp add: role_parse_def)

lemma api_keys_ok_insert:
  assumes "api_keys_ok db" and "insert_api_key r db = Inr db'"
  shows "api_keys_ok db'"
proof -
  have "ak_key_id r \<notin> ak_key_id ` set (api_keys db)" "ak_key_hash r \<notin> ak_key_hash ` set (api_keys db)"
    "account_exists db (ak_account_user_id r)" "role_parse (ak_role r) \<noteq> None"
    "db' = db\<lparr>api_keys := api_keys db @ [r]\<rparr>"
    using assms(2) unfolding insert_api_key_def role_parse_known has_row_key_iff by (auto split: if_splits)
  with assms(1) show ?thesis by (auto simp: api_keys_ok_def)
qed

lemma create_api_key_ok:
  "api_keys_ok db \<Longrightarrow> create_api_key sha now k s a p db = Inr (db', m) \<Longrightarrow> api_keys_ok db'"
  by (auto simp: create_api_key_def Let_def intro: api_keys_ok_insert)

lemma update_api_key_by_ok:
  "api_keys_ok db \<Longrightarrow> update_api_key_by a k p db = Inr (db', m) \<Longrightarrow> api_keys_ok db'"
  by (auto simp: update_api_key_by_def Let_def intro!: api_keys_ok_set_key)

lemma delete_api_key_ok: "api_keys_ok db \<Longrightarrow> delete_api_key a k db = Inr db' \<Longrightarrow> api_keys_ok db'"
  by (auto simp: delete_api_key_def Let_def intro!: api_keys_ok_update split: if_splits)

lemma touch_last_used_ok: "api_keys_ok db \<Longrightarrow> api_keys_ok (touch_last_used now k db)"
  by (simp add: touch_last_used_def api_keys_ok_set_key)

section \<open>Minted, updated and revoked keys\<close>

lemma find_hash_append:
  "\<not> has_row (\<lambda>x. ak_key_hash x = ak_key_hash r) t \<Longrightarrow> find (\<lambda>x. ak_key_hash x = ak_key_hash r) (t @ [r]) = Some r"
  by (auto simp: find_append has_row_iff find_None_iff split: option.splits dest: find_key_SomeD)

lemma create_api_key_row:
  assumes "create_api_key sha now k s a p db = Inr (db', m)"
  obtains r where "insert_api_key r db = Inr db'" and "ak_key_hash r = hash_token sha (mk_token m)"
    and "ak_key_id r = k" and "ak_account_user_id r = a" and "ak_disabled r = 0" and "ak_usage_credits r = 0"
    and "ak_credit_limit r = cp_credit_limit p" and "looks_like_api_key (mk_token m)"
    and "role_parse (ak_role r) = Some (kp_role (mk_public m))"
  using assms by (fastforce simp: create_api_key_def Let_def)

lemma minted_key_resolves:
  assumes "create_api_key sha now k s a p db = Inr (db', m)"
  shows "resolve_api_key sha (mk_token m) db' = Some \<lparr>ra_key_id = k, ra_account_user_id = a,
    ra_role = kp_role (mk_public m), ra_credit_limit = cp_credit_limit p, ra_usage_credits = 0, ra_disabled = False\<rparr>"
proof -
  obtain r where r: "insert_api_key r db = Inr db'" "ak_key_hash r = hash_token sha (mk_token m)"
    "ak_key_id r = k" "ak_account_user_id r = a" "ak_disabled r = 0" "ak_usage_credits r = 0"
    "ak_credit_limit r = cp_credit_limit p" "looks_like_api_key (mk_token m)"
    "role_parse (ak_role r) = Some (kp_role (mk_public m))"
    using create_api_key_row [OF assms] by blast
  have "find (\<lambda>x. ak_key_hash x = ak_key_hash r) (api_keys db') = Some r"
    using r(1) by (auto simp: insert_api_key_def find_hash_append split: if_splits)
  then show ?thesis using r by (simp add: resolve_api_key_def)
qed

text \<open>Operations of one account leave the keys of every other account as they are.\<close>

definition keys_of_others :: "string \<Rightarrow> gateway_db \<Rightarrow> api_key_row list" where
  "keys_of_others account db = filter (\<lambda>r. ak_account_user_id r \<noteq> account) (api_keys db)"

lemma keys_of_others_set_key:
  assumes "api_keys_ok db" and "keeps_key_identity f"
    and "has_row (\<lambda>r. ak_key_id r = k \<and> ak_account_user_id r = a) (api_keys db)"
  shows "keys_of_others a (set_key k f db) = keys_of_others a db"
proof -
  have own: "ak_account_user_id r = a" if "r \<in> set (api_keys db)" "ak_key_id r = k" for r
    using assms(1,3) that by (auto simp: api_keys_ok_def has_row_iff inj_on_def distinct_map)
  have "filter (\<lambda>r. ak_account_user_id r \<noteq> a) (sql_update (\<lambda>r. ak_key_id r = k) f t)
      = filter (\<lambda>r. ak_account_user_id r \<noteq> a) t" if "set t \<subseteq> set (api_keys db)" for t
    using that own assms(2) by (induction t) (auto simp: keeps_key_identity_def)
  then show ?thesis by (simp add: keys_of_others_def)
qed

lemma has_row_set_key:
  assumes "keeps_key_identity f"
  shows "has_row (\<lambda>r. ak_key_id r = k \<and> ak_account_user_id r = a) (api_keys (set_key k' f db)) \<longleftrightarrow>
    has_row (\<lambda>r. ak_key_id r = k \<and> ak_account_user_id r = a) (api_keys db)"
  using assms by (auto simp: has_row_iff set_sql_update keeps_key_identity_def)

lemma update_api_key_by_others:
  "api_keys_ok db \<Longrightarrow> update_api_key_by a k p db = Inr (db', m) \<Longrightarrow> keys_of_others a db' = keys_of_others a db"
  by (auto simp: update_api_key_by_def Let_def keys_of_others_set_key api_keys_ok_set_key has_row_set_key
      simp del: set_key_simps(1))

lemma delete_api_key_others:
  "delete_api_key a k db = Inr db' \<Longrightarrow> keys_of_others a db' = keys_of_others a db"
proof -
  have "filter (\<lambda>r. ak_account_user_id r \<noteq> a) (sql_update (\<lambda>r. ak_key_id r = k \<and> ak_account_user_id r = a) f t)
      = filter (\<lambda>r. ak_account_user_id r \<noteq> a) t" if "\<And>r. ak_account_user_id (f r) = ak_account_user_id r"
    for t and f :: "api_key_row \<Rightarrow> api_key_row"
    using that by (induction t) auto
  then show "delete_api_key a k db = Inr db' \<Longrightarrow> keys_of_others a db' = keys_of_others a db"
    by (auto simp: delete_api_key_def Let_def keys_of_others_def split: if_splits)
qed

lemma create_api_key_others:
  "create_api_key sha now k s a p db = Inr (db', m) \<Longrightarrow> keys_of_others a db' = keys_of_others a db"
  by (auto simp: create_api_key_def insert_api_key_def Let_def keys_of_others_def split: if_splits)

text \<open>A deleted key keeps its row, disabled, so the ledger rows that name it stay valid. A later update may
  enable it again, and the old bearer resolves as before.\<close>

lemma deleted_key_disabled:
  assumes "api_keys_ok db" and "delete_api_key a k db = Inr db'"
    and "find (\<lambda>r. ak_key_hash r = hash_token sha token) (api_keys db) = Some r"
    and "ak_key_id r = k" and "ak_account_user_id r = a" and "looks_like_api_key token"
  shows "\<exists>x. resolve_api_key sha token db' = Some x \<and> ra_disabled x \<and> ra_key_id x = k"
proof -
  let ?P = "\<lambda>r. ak_key_id r = k \<and> ak_account_user_id r = a"
  have mem: "r \<in> set (api_keys db)" and h: "ak_key_hash r = hash_token sha token"
    using assms(3) by (auto dest: find_key_SomeD)
  let ?r = "r\<lparr>ak_disabled := 1\<rparr>"
  have "api_keys db' = sql_update ?P (\<lambda>r. r\<lparr>ak_disabled := 1\<rparr>) (api_keys db)"
    using assms(2) by (auto simp: delete_api_key_def Let_def split: if_splits)
  moreover have "?r \<in> set (sql_update ?P (\<lambda>r. r\<lparr>ak_disabled := 1\<rparr>) (api_keys db))"
    using mem assms(4,5) by (force simp: set_sql_update)
  ultimately have "?r \<in> set (api_keys db')" by simp
  moreover have "distinct (map ak_key_hash (api_keys db'))"
    using delete_api_key_ok [OF assms(1,2)] by (simp add: api_keys_ok_def)
  ultimately have "find (\<lambda>x. ak_key_hash x = ak_key_hash ?r) (api_keys db') = Some ?r"
    by (rule find_key_unique [rotated])
  moreover obtain role where "role_parse (ak_role r) = Some role"
    using assms(1) mem by (auto simp: api_keys_ok_def list_all_iff)
  ultimately show ?thesis using h assms(4,6) by (simp add: resolve_api_key_def)
qed

end
