(* ===== verification/Gateway_Auth.thy ===== *)
theory Gateway_Auth
  imports Api_Keys Account_Auth Share_Keys Limiters "HOL-Library.AList"
begin

text \<open>
  Bearer authentication (\<open>gateway/src/auth.rs\<close>): the table of static tokens, the token of a request's headers, and
  the middleware that turns it into the principal the handlers see, trying static tokens, device tokens, API keys,
  account sessions and share keys in this order. The database may be absent, as in the source.
\<close>

section \<open>Definitions\<close>

text \<open>The map of the static tokens is an association list without duplicate keys.\<close>

record TokenTable =
  tt_tokens :: "(string \<times> string) list"

datatype PrincipalKind =
    KStatic string
  | KDevice string
  | KShare string string int
  | KApiKey string string ApiKeyRole "int option" int
  | KAccountSession string string

fun principal_device_id :: "PrincipalKind \<Rightarrow> string option" where
  "principal_device_id (KDevice d) = Some d"
| "principal_device_id _ = None"

fun principal_share_key :: "PrincipalKind \<Rightarrow> (string \<times> string) option" where
  "principal_share_key (KShare issuer key _) = Some (issuer, key)"
| "principal_share_key _ = None"

fun principal_account_session :: "PrincipalKind \<Rightarrow> (string \<times> string) option" where
  "principal_account_session (KAccountSession account session) = Some (account, session)"
| "principal_account_session _ = None"

fun principal_api_key :: "PrincipalKind \<Rightarrow> (string \<times> string \<times> ApiKeyRole) option" where
  "principal_api_key (KApiKey key account role _ _) = Some (key, account, role)"
| "principal_api_key _ = None"

text \<open>\<open>str::split_once\<close> on one character.\<close>

definition split_once :: "char \<Rightarrow> string \<Rightarrow> (string \<times> string) option" where
  "split_once c s = (case dropWhile (\<lambda>x. x \<noteq> c) s of [] \<Rightarrow> None
     | _ # rest \<Rightarrow> Some (takeWhile (\<lambda>x. x \<noteq> c) s, rest))"

definition insert_static :: "string \<Rightarrow> (string \<times> string) list \<Rightarrow> (string \<times> string) list" where
  "insert_static entry m = (case split_once (CHR '':'') entry of
      Some (tok, scope) \<Rightarrow> AList.update (trim tok) (trim scope) m
    | None \<Rightarrow> AList.update entry ''default'' m)"

definition tokens_from_env :: "string option \<Rightarrow> TokenTable" where
  "tokens_from_env var = (let raw = (case var of Some v \<Rightarrow> v | None \<Rightarrow> []) in
     \<lparr>tt_tokens = fold insert_static (filter (\<lambda>s. s \<noteq> []) (map trim (split_at (CHR '','') raw))) []\<rparr>)"

definition lookup_static :: "TokenTable \<Rightarrow> string \<Rightarrow> string option" where
  "lookup_static t token = map_of (tt_tokens t) token"

definition tokens_is_empty :: "TokenTable \<Rightarrow> bool" where
  "tokens_is_empty t \<longleftrightarrow> tt_tokens t = []"

definition token_from_headers :: "string option \<Rightarrow> string option \<Rightarrow> string" where
  "token_from_headers authorization x_api_key =
     (let header_val = (case authorization of Some h \<Rightarrow> h | None \<Rightarrow> []);
          bearer_token = trim (case strip_prefix ''Bearer '' header_val of Some t \<Rightarrow> t | None \<Rightarrow> [])
      in if bearer_token \<noteq> [] then bearer_token
         else trim (case x_api_key of Some k \<Rightarrow> k | None \<Rightarrow> []))"

definition share_key_principal ::
  "int \<Rightarrow> string \<Rightarrow> gateway_db \<Rightarrow> gateway_db \<times> (nat + PrincipalKind)" where
  "share_key_principal now token db = (case resolve_share_key now token db of
      Inr (Some r) \<Rightarrow> (db, Inr (KShare (rk_issuer_device_id r) (rk_key_id r) (resolved_remaining r)))
    | Inr None \<Rightarrow> (db, Inl 401)
    | Inl Exhausted \<Rightarrow> (db, Inl 402)
    | Inl _ \<Rightarrow> (db, Inl 401))"

definition account_principal ::
  "(string \<Rightarrow> string) \<Rightarrow> int \<Rightarrow> string \<Rightarrow> gateway_db \<Rightarrow> gateway_db \<times> (nat + PrincipalKind)" where
  "account_principal sha now token db =
     (if starts_with ''tsess_'' token then
        (case resolve_account_session sha now token db of
           (db1, Some s) \<Rightarrow> (db1, Inr (KAccountSession (ses_account_user_id s) (ses_session_id s)))
         | (db1, None) \<Rightarrow> (db1, Inl 401))
      else share_key_principal now token db)"

definition database_principal ::
  "(string \<Rightarrow> string) \<Rightarrow> int \<Rightarrow> string \<Rightarrow> gateway_db \<Rightarrow> gateway_db \<times> (nat + PrincipalKind)" where
  "database_principal sha now token db = (case resolve_token now token db of
      Some d \<Rightarrow> (db, Inr (KDevice d))
    | None \<Rightarrow> (case resolve_api_key sha token db of
        Some r \<Rightarrow>
          if ra_disabled r then (db, Inl 401)
          else (touch_last_used now (ra_key_id r) db,
            Inr (KApiKey (ra_key_id r) (ra_account_user_id r) (ra_role r) (ra_credit_limit r) (ra_usage_credits r)))
      | None \<Rightarrow> account_principal sha now token db))"

definition require_bearer ::
  "(string \<Rightarrow> string) \<Rightarrow> int \<Rightarrow> TokenTable \<Rightarrow> string option \<Rightarrow> string option \<Rightarrow> gateway_db option \<Rightarrow>
   gateway_db option \<times> (nat + PrincipalKind)" where
  "require_bearer sha now table authorization x_api_key db =
     (let token = token_from_headers authorization x_api_key in
      if token = [] then (db, Inl 401)
      else case lookup_static table token of
        Some scope \<Rightarrow> (db, Inr (KStatic scope))
      | None \<Rightarrow> (case db of
          Some d \<Rightarrow> map_prod Some id (database_principal sha now token d)
        | None \<Rightarrow> if tokens_is_empty table then (None, Inr (KStatic ''dev-open'')) else (None, Inl 401)))"

section \<open>What stands behind a principal\<close>

definition token_backs :: "int \<Rightarrow> string \<Rightarrow> string \<Rightarrow> gateway_db \<Rightarrow> bool" where
  "token_backs now token d db \<longleftrightarrow>
     has_row (\<lambda>r. tok_token r = token \<and> tok_device_id r = d \<and> now < tok_expires_at r) (tokens db)"

definition api_key_backs :: "(string \<Rightarrow> string) \<Rightarrow> string \<Rightarrow> string \<Rightarrow> string \<Rightarrow> gateway_db \<Rightarrow> bool" where
  "api_key_backs sha token key account db \<longleftrightarrow>
     has_row (\<lambda>r. ak_key_hash r = sha token \<and> ak_key_id r = key \<and> ak_account_user_id r = account
       \<and> ak_disabled r = 0) (api_keys db)"

definition session_backs :: "(string \<Rightarrow> string) \<Rightarrow> int \<Rightarrow> string \<Rightarrow> string \<Rightarrow> string \<Rightarrow> gateway_db \<Rightarrow> bool" where
  "session_backs sha now token account session db \<longleftrightarrow>
     has_row (\<lambda>r. se_token_hash r = hash_account_session_token sha token \<and> se_id r = session
       \<and> se_account_user_id r = account \<and> se_revoked_at r = None \<and> now \<le> se_expires_at r) (account_sessions db)"

definition share_key_backs :: "int \<Rightarrow> string \<Rightarrow> string \<Rightarrow> string \<Rightarrow> int \<Rightarrow> gateway_db \<Rightarrow> bool" where
  "share_key_backs now token issuer key budget db \<longleftrightarrow>
     has_row (\<lambda>r. sk_token r = token \<and> sk_key_id r = key \<and> sk_issuer_device_id r = issuer \<and> sk_revoked_at r = None
       \<and> now < sk_expires_at r \<and> 0 < budget \<and> budget = sk_budget_credits r - sk_consumed_credits r) (share_keys db)"

fun bearer_backs ::
  "(string \<Rightarrow> string) \<Rightarrow> int \<Rightarrow> TokenTable \<Rightarrow> string \<Rightarrow> gateway_db \<Rightarrow> PrincipalKind \<Rightarrow> bool" where
  "bearer_backs sha now table token db (KStatic scope) \<longleftrightarrow> lookup_static table token = Some scope"
| "bearer_backs sha now table token db (KDevice d) \<longleftrightarrow> token_backs now token d db"
| "bearer_backs sha now table token db (KShare issuer key budget) \<longleftrightarrow> share_key_backs now token issuer key budget db"
| "bearer_backs sha now table token db (KApiKey key account role limit usage) \<longleftrightarrow> api_key_backs sha token key account db"
| "bearer_backs sha now table token db (KAccountSession account session) \<longleftrightarrow> session_backs sha now token account session db"

text \<open>Authentication writes at most the last use of a key and the expiry of a session.\<close>

definition only_auth_tables :: "gateway_db \<Rightarrow> gateway_db \<Rightarrow> bool" where
  "only_auth_tables db db' \<longleftrightarrow> db' = db\<lparr>api_keys := api_keys db', account_sessions := account_sessions db'\<rparr>"

lemma only_auth_tables_refl [simp]: "only_auth_tables db db"
  by (simp add: only_auth_tables_def)

lemma touch_only_auth: "only_auth_tables db (touch_last_used now k db)"
  by (simp add: only_auth_tables_def touch_last_used_def set_key_def)

lemma session_only_auth: "only_auth_tables db (fst (resolve_account_session sha now token db))"
  by (simp add: only_auth_tables_def resolve_account_session_def update_session_def Let_def split: option.split)

lemma resolve_token_backs: "resolve_token now token db = Some d \<Longrightarrow> token_backs now token d db"
  by (fastforce simp: resolve_token_def token_backs_def has_row_iff find_Some_iff)

lemma resolve_api_key_backs:
  assumes "resolve_api_key sha token db = Some r" and "\<not> ra_disabled r"
  shows "api_key_backs sha token (ra_key_id r) (ra_account_user_id r) db"
proof -
  obtain x where x: "find (\<lambda>r. ak_key_hash r = hash_token sha token) (api_keys db) = Some x"
    "ra_key_id r = ak_key_id x" "ra_account_user_id r = ak_account_user_id x" "ak_disabled x = 0"
    using assms by (auto simp: resolve_api_key_def split: if_splits option.splits)
  then have "x \<in> set (api_keys db)" "ak_key_hash x = sha token"
    using find_key_SomeD [OF x(1)] by (auto simp: hash_token_def)
  with x show ?thesis by (auto simp: api_key_backs_def has_row_iff)
qed

lemma resolve_session_backs:
  assumes "resolve_account_session sha now token db = (db', Some s)"
  shows "session_backs sha now token (ses_account_user_id s) (ses_session_id s) db"
proof -
  obtain x where x: "live_session sha db token = Some x" "\<not> se_expires_at x < now"
    "ses_account_user_id s = se_account_user_id x" "ses_session_id s = se_id x"
    using assms by (auto simp: resolve_account_session_def Let_def split: if_splits option.splits)
  then have "x \<in> set (account_sessions db)" "se_token_hash x = hash_account_session_token sha token"
    "se_revoked_at x = None"
    by (auto simp: live_session_def find_Some_iff)
  with x show ?thesis unfolding session_backs_def has_row_iff by (intro bexI [of _ x]) auto
qed

lemma resolve_share_key_backs:
  assumes "resolve_share_key now token db = Inr (Some r)"
  shows "share_key_backs now token (rk_issuer_device_id r) (rk_key_id r) (resolved_remaining r) db"
proof -
  obtain x where x: "find (\<lambda>r. sk_token r = token) (share_keys db) = Some x"
    "sk_revoked_at x = None" "\<not> sk_expires_at x \<le> now" "\<not> sk_consumed_credits x \<ge> sk_budget_credits x"
    "rk_issuer_device_id r = sk_issuer_device_id x" "rk_key_id r = sk_key_id x"
    "rk_budget_credits r = sk_budget_credits x" "rk_consumed_credits r = sk_consumed_credits x"
    using assms by (auto simp: resolve_share_key_def split: if_splits option.splits)
  with find_key_SomeD [OF x(1)] show ?thesis
    unfolding share_key_backs_def has_row_iff by (intro bexI [of _ x]) (auto simp: resolved_remaining_def)
qed

section \<open>The middleware\<close>

lemma share_key_principal_backs:
  "share_key_principal now token db = (db', Inr p) \<Longrightarrow>
     only_auth_tables db db' \<and> bearer_backs sha now table token db p"
  by (auto simp: share_key_principal_def resolve_share_key_backs
      split: sum.splits option.splits ShareKeyRejection.splits)

lemma account_principal_backs:
  assumes "account_principal sha now token db = (db', Inr p)"
  shows "only_auth_tables db db' \<and> bearer_backs sha now table token db p"
proof (cases "starts_with ''tsess_'' token")
  case True
  then obtain s where "resolve_account_session sha now token db = (db', Some s)"
    "p = KAccountSession (ses_account_user_id s) (ses_session_id s)"
    using assms by (auto simp: account_principal_def split: prod.splits option.splits)
  then show ?thesis using resolve_session_backs session_only_auth [of db sha now token] by simp
next
  case False
  then show ?thesis using assms share_key_principal_backs by (simp add: account_principal_def)
qed

lemma database_principal_backs:
  assumes "database_principal sha now token db = (db', Inr p)"
  shows "only_auth_tables db db' \<and> bearer_backs sha now table token db p"
proof (cases "resolve_token now token db")
  case (Some d)
  then show ?thesis using assms resolve_token_backs by (auto simp: database_principal_def)
next
  case no_token: None
  show ?thesis
  proof (cases "resolve_api_key sha token db")
    case (Some r)
    then show ?thesis using assms no_token resolve_api_key_backs [OF Some]
      by (auto simp: database_principal_def touch_only_auth split: if_splits)
  next
    case None
    then show ?thesis using assms no_token account_principal_backs by (simp add: database_principal_def)
  qed
qed


definition keyed_db :: gateway_db where
  "keyed_db = empty_db\<lparr>api_keys := [\<lparr>ak_key_id = ''k1'', ak_account_user_id = ''acct'', ak_key_hash = ''_evil_kt'',
     ak_prefix = ''tk_live_'', ak_name = None, ak_role = ''live'', ak_credit_limit = None, ak_usage_credits = 0,
     ak_disabled = 0, ak_created_at = 1, ak_last_used_at = None\<rparr>]\<rparr>"


end
