(* ===== verification/Key_Handlers.thy ===== *)
theory Key_Handlers
  imports Gateway_Auth
begin

text \<open>
  The key-management endpoints (\<open>gateway/src/handlers/keys.rs\<close>): who may manage the keys of which account, and the
  handlers over \<open>Api_Keys\<close>. A handler returns the database with its answer, or the error it surfaces; a database that
  is not initialised (\<open>None\<close>) is the first error of each.
\<close>

section \<open>Definitions\<close>

record Caller =
  ca_account_user_id :: string
  ca_can_manage :: bool
  ca_self_key_id :: "string option"

definition require_db :: "gateway_db option \<Rightarrow> GatewayError + gateway_db" where
  "require_db db = ok_or (Other (Bail ''db not initialized'')) db"

fun resolve_caller :: "gateway_db \<Rightarrow> PrincipalKind \<Rightarrow> GatewayError + Caller" where
  "resolve_caller db (KDevice d) =
     rbind (ok_or (NotFound ''device is not linked to an account'') (account_user_id_for_device db d)) (\<lambda>account.
     Inr \<lparr>ca_account_user_id = account, ca_can_manage = True, ca_self_key_id = None\<rparr>)"
| "resolve_caller db (KApiKey key account role _ _) =
     Inr \<lparr>ca_account_user_id = account, ca_can_manage = (role = Provisioning), ca_self_key_id = Some key\<rparr>"
| "resolve_caller db (KAccountSession account _) =
     Inr \<lparr>ca_account_user_id = account, ca_can_manage = True, ca_self_key_id = None\<rparr>"
| "resolve_caller db (KStatic _) = Inl (Forbidden ''not authorized to manage api keys'')"
| "resolve_caller db (KShare _ _ _) = Inl (Forbidden ''not authorized to manage api keys'')"

definition require_manage :: "Caller \<Rightarrow> GatewayError + unit" where
  "require_manage caller = ensure (ca_can_manage caller)
     (Forbidden ''live api keys cannot manage other keys; use a provisioning key or device bearer'')"

fun map_api_key_error :: "ApiKeyError \<Rightarrow> GatewayError" where
  "map_api_key_error KeyNotFound = NotFound ''api key not found''"
| "map_api_key_error InvalidName = BadRequest ''invalid name''"
| "map_api_key_error InvalidCreditLimit = BadRequest ''invalid creditLimit''"
| "map_api_key_error ProvisioningRequired = Forbidden ''provisioning role required''"
| "map_api_key_error (KeyDb e) = Other e"

definition managing_account :: "gateway_db option \<Rightarrow> PrincipalKind \<Rightarrow> GatewayError + gateway_db \<times> string" where
  "managing_account state p =
     rbind (require_db state) (\<lambda>db.
     rbind (resolve_caller db p) (\<lambda>caller.
     rbind (require_manage caller) (\<lambda>_.
     Inr (db, ca_account_user_id caller))))"

definition keys_create ::
  "(string \<Rightarrow> string) \<Rightarrow> int \<Rightarrow> string \<Rightarrow> string \<Rightarrow> PrincipalKind \<Rightarrow> CreateApiKeyParams \<Rightarrow> gateway_db option \<Rightarrow>
   GatewayError + gateway_db \<times> nat \<times> ApiKeyMinted" where
  "keys_create sha now key_id secret p req state =
     rbind (managing_account state p) (\<lambda>(db, account).
     rbind (map_err map_api_key_error (create_api_key sha now key_id secret account req db)) (\<lambda>(db1, minted).
     Inr (db1, 201, minted)))"

definition keys_list :: "PrincipalKind \<Rightarrow> gateway_db option \<Rightarrow> GatewayError + ApiKeyPublic list" where
  "keys_list p state =
     rbind (managing_account state p) (\<lambda>(db, account). Inr (list_api_keys account db))"

definition keys_get :: "PrincipalKind \<Rightarrow> string \<Rightarrow> gateway_db option \<Rightarrow> GatewayError + ApiKeyPublic" where
  "keys_get p key_id state =
     rbind (managing_account state p) (\<lambda>(db, account).
     map_err map_api_key_error (get_api_key account key_id db))"

definition keys_update ::
  "PrincipalKind \<Rightarrow> string \<Rightarrow> UpdateApiKeyParams \<Rightarrow> gateway_db option \<Rightarrow> GatewayError + gateway_db \<times> ApiKeyPublic" where
  "keys_update p key_id req state =
     rbind (managing_account state p) (\<lambda>(db, account).
     map_err map_api_key_error (update_api_key_by account key_id req db))"

definition keys_delete :: "PrincipalKind \<Rightarrow> string \<Rightarrow> gateway_db option \<Rightarrow> GatewayError + gateway_db \<times> nat" where
  "keys_delete p key_id state =
     rbind (managing_account state p) (\<lambda>(db, account).
     rbind (map_err map_api_key_error (delete_api_key account key_id db)) (\<lambda>db1. Inr (db1, 204)))"

text \<open>\<open>GET /v1/key\<close> answers with the key of the caller, or with the account behind another bearer.\<close>

definition keys_current :: "PrincipalKind \<Rightarrow> gateway_db option \<Rightarrow> GatewayError + ApiKeyPublic option \<times> string" where
  "keys_current p state =
     rbind (require_db state) (\<lambda>db.
     rbind (resolve_caller db p) (\<lambda>caller.
     case ca_self_key_id caller of
       Some k \<Rightarrow> rbind (map_err map_api_key_error (get_api_key (ca_account_user_id caller) k db))
         (\<lambda>key. Inr (Some key, ca_account_user_id caller))
     | None \<Rightarrow> Inr (None, ca_account_user_id caller)))"

definition keys_credits :: "PrincipalKind \<Rightarrow> gateway_db option \<Rightarrow> GatewayError + CreditsSnapshot" where
  "keys_credits p state =
     rbind (require_db state) (\<lambda>db.
     rbind (resolve_caller db p) (\<lambda>caller.
     map_err Other (credits_snapshot db (ca_account_user_id caller))))"

section \<open>Accounts manage their own keys only\<close>

text \<open>The account a principal stands for, when it may manage keys at all.\<close>

fun manages :: "gateway_db \<Rightarrow> PrincipalKind \<Rightarrow> string \<Rightarrow> bool" where
  "manages db (KDevice d) account \<longleftrightarrow> account_user_id_for_device db d = Some account"
| "manages db (KApiKey key a role _ _) account \<longleftrightarrow> a = account \<and> role = Provisioning"
| "manages db (KAccountSession a _) account \<longleftrightarrow> a = account"
| "manages db (KStatic _) account \<longleftrightarrow> False"
| "manages db (KShare _ _ _) account \<longleftrightarrow> False"

lemma managing_account_iff:
  "managing_account state p = Inr (db, a) \<longleftrightarrow> state = Some db \<and> manages db p a"
  by (cases p) (auto simp: managing_account_def require_db_def require_manage_def)

inductive key_step :: "(string \<Rightarrow> string) \<Rightarrow> PrincipalKind \<Rightarrow> gateway_db \<Rightarrow> gateway_db \<Rightarrow> bool" for sha where
  create: "keys_create sha now k s p req (Some db) = Inr (db', c, m) \<Longrightarrow> key_step sha p db db'"
| update: "keys_update p k req' (Some db) = Inr (db', m') \<Longrightarrow> key_step sha p db db'"
| delete: "keys_delete p k (Some db) = Inr (db', c) \<Longrightarrow> key_step sha p db db'"

text \<open>
  C14. Key management is confined to the account of the caller. When any of the three mutating endpoints succeeds, the caller
  stands for exactly one account (a device by its link, a session, or a provisioning key by its owner; never a live
  key, a share key or a static token), the keys of every other account are the same rows in the same order, and the
  table stays well-formed: unique ids and hashes, existing owners, known roles.
\<close>

theorem key_management_confined:
  assumes "key_step sha p db db'" and "api_keys_ok db"
  shows "api_keys_ok db' \<and> (\<exists>a. manages db p a \<and> keys_of_others a db' = keys_of_others a db)"
  using assms
proof (cases rule: key_step.cases)
  case (create now k s req c m)
  then obtain a where "manages db p a" "create_api_key sha now k s a req db = Inr (db', m)"
    by (auto simp: keys_create_def managing_account_iff)
  then show ?thesis using create_api_key_ok [OF assms(2)] create_api_key_others by blast
next
  case (update k req m)
  then obtain a where "manages db p a" "update_api_key_by a k req db = Inr (db', m)"
    by (auto simp: keys_update_def managing_account_iff)
  then show ?thesis using update_api_key_by_ok [OF assms(2)] update_api_key_by_others [OF assms(2)] by blast
next
  case (delete k c)
  then obtain a where "manages db p a" "delete_api_key a k db = Inr db'"
    by (auto simp: keys_delete_def managing_account_iff)
  then show ?thesis using delete_api_key_ok [OF assms(2)] delete_api_key_others by blast
qed

definition two_owner_db :: gateway_db where
  "two_owner_db = keyed_db\<lparr>account_wallets := map (\<lambda>a. new_account_wallet 1 a
     \<lparr>lm_device_name = None, lm_platform = None, lm_display_name = None, lm_phone = None, lm_email = None,
      lm_github_username = None\<rparr>) [''acct'', ''other'']\<rparr>"

theorem key_management_confined_witness:
  "api_keys_ok (fst (projr (keys_delete (KAccountSession ''acct'' ''s'') ''k1'' (Some two_owner_db)))) \<and>
   (\<exists>a. manages two_owner_db (KAccountSession ''acct'' ''s'') a \<and>
     keys_of_others a (fst (projr (keys_delete (KAccountSession ''acct'' ''s'') ''k1'' (Some two_owner_db))))
       = keys_of_others a two_owner_db)"
proof -
  let ?r = "keys_delete (KAccountSession ''acct'' ''s'') ''k1'' (Some two_owner_db)"
  have "?r = Inr (fst (projr ?r), 204)" by code_simp
  then have "key_step rev (KAccountSession ''acct'' ''s'') two_owner_db (fst (projr ?r))" by (rule delete)
  moreover have "api_keys_ok two_owner_db" by code_simp
  ultimately show ?thesis by (rule key_management_confined)
qed

text \<open>Deleting a key only disables it: the same endpoint that renames a key enables a deleted one again, and its
  old bearer is accepted as before.\<close>

lemma deleted_key_reenabled:
  "\<exists>db1 db2 k. keys_delete (KAccountSession ''acct'' ''s'') ''k1'' (Some two_owner_db) = Inr (db1, 204)
     \<and> snd (require_bearer rev 6 \<lparr>tt_tokens = []\<rparr> (Some ''Bearer tk_live_'') None (Some db1)) = Inl 401
     \<and> keys_update (KAccountSession ''acct'' ''s'') ''k1''
          \<lparr>up_name = None, up_credit_limit = None, up_disabled = Some False\<rparr> (Some db1) = Inr (db2, k)
     \<and> snd (require_bearer rev 7 \<lparr>tt_tokens = []\<rparr> (Some ''Bearer tk_live_'') None (Some db2))
        = Inr (KApiKey ''k1'' ''acct'' Live None 0)"
proof -
  let ?d = "keys_delete (KAccountSession ''acct'' ''s'') ''k1'' (Some two_owner_db)"
  let ?u = "keys_update (KAccountSession ''acct'' ''s'') ''k1''
    \<lparr>up_name = None, up_credit_limit = None, up_disabled = Some False\<rparr> (Some (fst (projr ?d)))"
  have "?d = Inr (fst (projr ?d), 204)"
    "snd (require_bearer rev 6 \<lparr>tt_tokens = []\<rparr> (Some ''Bearer tk_live_'') None (Some (fst (projr ?d)))) = Inl 401"
    "?u = Inr (fst (projr ?u), snd (projr ?u))"
    "snd (require_bearer rev 7 \<lparr>tt_tokens = []\<rparr> (Some ''Bearer tk_live_'') None (Some (fst (projr ?u))))
      = Inr (KApiKey ''k1'' ''acct'' Live None 0)"
    by code_simp+
  then show ?thesis by blast
qed

end
