(* ===== verification/Registry.thy ===== *)
theory Registry
  imports Teale_Prelude
begin

text \<open>
  The in-memory device registry (\<open>gateway/src/registry.rs\<close>): what the gateway knows of each supply node, the reverse index
  from models to nodes, the live in-flight counters with the heavy-request hold, and the affinity of conversations to
  nodes. Instants are integers in nanoseconds of the monotonic clock; counters are naturals (the source's \<open>u32\<close> never
  approaches its width, and the one subtraction that could wrap is reset to zero in place). \<open>f64\<close> measurements are
  values of an arbitrary ordered type \<open>'f\<close>: the registry only stores and compares them.
\<close>

section \<open>Devices\<close>

datatype ThermalLevel = Nominal | Fair | Serious | Critical

record 'f NodeCapabilities =
  nc_memory_bandwidth_gbs :: 'f
  nc_loaded_models :: "string list"
  nc_max_model_size_gb :: 'f
  nc_is_available :: bool
  nc_ptn_ids :: "string list option"
  nc_swappable_models :: "string list"
  nc_max_concurrent_requests :: "nat option"
  nc_effective_context :: "nat option"
  nc_on_ac_power :: "bool option"
  nc_backend_slots_busy :: "nat option"
  nc_backend_slots_total :: "nat option"

record LiveStats =
  lv_queue_depth :: nat
  lv_is_generating :: bool
  lv_throttle_level :: nat
  lv_thermal_level :: ThermalLevel

definition live_fresh :: LiveStats where
  "live_fresh = \<lparr>lv_queue_depth = 0, lv_is_generating = False, lv_throttle_level = 100, lv_thermal_level = Nominal\<rparr>"

record 'f DeviceState =
  ds_node_id :: string
  ds_display_name :: string
  ds_capabilities :: "'f NodeCapabilities"
  ds_last_heartbeat :: int
  ds_last_seen :: int
  ds_quarantined_until :: "int option"
  ds_departed_at :: "int option"
  ds_ewma_tokens_per_second :: 'f
  ds_live :: LiveStats
  ds_busy_excess_since :: "int option"
  ds_employee :: bool
  ds_probation :: bool

record 'f HeartbeatPayload =
  hb_thermal_level :: ThermalLevel
  hb_throttle_level :: nat
  hb_loaded_models :: "string list"
  hb_is_generating :: bool
  hb_queue_depth :: nat
  hb_ewma_tokens_per_second :: "'f option"

datatype Eligibility = Loaded | Swappable | Unsupported | QueueFull | Quarantined | Throttled | EligibilityUnavailable

definition nanos :: "nat \<Rightarrow> int" where "nanos s = int s * 1000000000"

definition elapsed :: "int \<Rightarrow> int \<Rightarrow> int" where "elapsed now t = max 0 (now - t)"

definition as_secs :: "int \<Rightarrow> int" where "as_secs d = d div 1000000000"

text \<open>\<open>str::contains\<close> on a text.\<close>

fun contains :: "string \<Rightarrow> string \<Rightarrow> bool" where
  "contains pat [] \<longleftrightarrow> pat = []"
| "contains pat (c # cs) \<longleftrightarrow> starts_with pat (c # cs) \<or> contains pat cs"

definition last_segment :: "string \<Rightarrow> string" where
  "last_segment s = rev (takeWhile (\<lambda>c. c \<noteq> CHR ''/'') (rev s))"

definition normalize_model_id :: "string \<Rightarrow> string" where
  "normalize_model_id i = to_lowercase (trim (last_segment i))"

definition model_matches_any :: "string \<Rightarrow> string list \<Rightarrow> bool" where
  "model_matches_any requested loaded = (let req_norm = normalize_model_id requested in
     list_ex (\<lambda>m. normalize_model_id m = req_norm \<or> contains requested m \<or> contains m requested) loaded)"

definition is_quarantined :: "int \<Rightarrow> 'f DeviceState \<Rightarrow> bool" where
  "is_quarantined now d = (case ds_quarantined_until d of None \<Rightarrow> False | Some t \<Rightarrow> t > now)"

definition is_departed :: "'f DeviceState \<Rightarrow> bool" where
  "is_departed d \<longleftrightarrow> ds_departed_at d \<noteq> None"

definition heartbeat_is_stale :: "int \<Rightarrow> nat \<Rightarrow> 'f DeviceState \<Rightarrow> bool" where
  "heartbeat_is_stale now stale_after d \<longleftrightarrow> as_secs (elapsed now (ds_last_heartbeat d)) > int stale_after"

definition is_eligible_for :: "int \<Rightarrow> string \<Rightarrow> nat \<Rightarrow> 'f DeviceState \<Rightarrow> Eligibility" where
  "is_eligible_for now model max_queue d =
     (if is_quarantined now d then Quarantined
      else if lv_thermal_level (ds_live d) = Critical then Throttled
      else if lv_queue_depth (ds_live d) \<ge> max_queue then QueueFull
      else if \<not> nc_is_available (ds_capabilities d) then EligibilityUnavailable
      else if model_matches_any model (nc_loaded_models (ds_capabilities d)) then Loaded
      else if model_matches_any model (nc_swappable_models (ds_capabilities d)) then Swappable
      else Unsupported)"

definition catalog_visible :: "int \<Rightarrow> nat \<Rightarrow> 'f DeviceState \<Rightarrow> bool" where
  "catalog_visible now stale_after d \<longleftrightarrow> \<not> ds_employee d \<and> \<not> ds_probation d
     \<and> nc_is_available (ds_capabilities d) \<and> \<not> heartbeat_is_stale now stale_after d"

definition device_heartbeat :: "int \<Rightarrow> 'f HeartbeatPayload \<Rightarrow> 'f DeviceState \<Rightarrow> 'f DeviceState" where
  "device_heartbeat now hb d =
     d\<lparr>ds_last_heartbeat := now, ds_last_seen := now, ds_departed_at := None,
       ds_live := \<lparr>lv_queue_depth = hb_queue_depth hb, lv_is_generating = hb_is_generating hb,
         lv_throttle_level = hb_throttle_level hb, lv_thermal_level = hb_thermal_level hb\<rparr>,
       ds_capabilities := (if hb_loaded_models hb = [] then ds_capabilities d
         else (ds_capabilities d)\<lparr>nc_loaded_models := hb_loaded_models hb\<rparr>),
       ds_ewma_tokens_per_second := (case hb_ewma_tokens_per_second hb of
         None \<Rightarrow> ds_ewma_tokens_per_second d | Some tps \<Rightarrow> tps)\<rparr>"

section \<open>The registry\<close>

record ReliabilityConfig =
  rc_heartbeat_stale_seconds :: nat
  rc_quarantine_seconds :: nat
  rc_busy_excess_grace_seconds :: nat
  rc_departed_grace_seconds :: nat
  rc_convo_stickiness_ttl_seconds :: nat
  rc_heavy_hold_ttl_seconds :: nat

record InFlight =
  fl_total :: nat
  fl_heavy :: nat
  fl_heavy_since :: "int option"
  fl_heavy_owner :: "string option"
  fl_models :: "string \<Rightarrow> nat"

definition in_flight_default :: InFlight where
  "in_flight_default = \<lparr>fl_total = 0, fl_heavy = 0, fl_heavy_since = None, fl_heavy_owner = None, fl_models = (\<lambda>_. 0)\<rparr>"

record HeavyEvent =
  he_ts_unix :: int
  he_kind :: string
  he_device :: string
  he_req_owner :: string
  he_incumbent_owner :: string

text \<open>The device map is a list of states with distinct node ids; the other maps are functions, except for the affinity
  cache, whose size the code reads.\<close>

record 'f Registry =
  rg_devices :: "'f DeviceState list"
  rg_model_to_devices :: "string \<Rightarrow> string list"
  rg_in_flight :: "string \<Rightarrow> InFlight option"
  rg_convo_affinity :: "(string \<times> string \<times> int) list"
  rg_reliability :: ReliabilityConfig
  rg_heavy_events :: "HeavyEvent list"

text \<open>What a call reads from outside: the monotonic clock, the wall clock in seconds, and the short tag of an owner
  (the first bytes of its SHA-256).\<close>

record reg_env =
  re_now :: int
  re_unix :: int
  re_tag :: "string \<Rightarrow> string"

definition owner_tag :: "reg_env \<Rightarrow> string option \<Rightarrow> string" where
  "owner_tag env owner = (case owner of Some o' \<Rightarrow> re_tag env o' | None \<Rightarrow> ''none'')"

definition registry_new :: "ReliabilityConfig \<Rightarrow> 'f Registry" where
  "registry_new cfg = \<lparr>rg_devices = [], rg_model_to_devices = (\<lambda>_. []), rg_in_flight = (\<lambda>_. None),
     rg_convo_affinity = [], rg_reliability = cfg, rg_heavy_events = []\<rparr>"

definition record_heavy ::
  "reg_env \<Rightarrow> string \<Rightarrow> string \<Rightarrow> string option \<Rightarrow> string option \<Rightarrow> 'f Registry \<Rightarrow> 'f Registry" where
  "record_heavy env kind device req incumbent r =
     (let q = (if length (rg_heavy_events r) \<ge> 200 then tl (rg_heavy_events r) else rg_heavy_events r)
      in r\<lparr>rg_heavy_events := q @ [\<lparr>he_ts_unix = re_unix env, he_kind = kind, he_device = device,
        he_req_owner = owner_tag env req, he_incumbent_owner = owner_tag env incumbent\<rparr>]\<rparr>)"

definition CONVO_AFFINITY_CAP :: nat where "CONVO_AFFINITY_CAP = 4096"

definition convo_node :: "reg_env \<Rightarrow> string \<Rightarrow> 'f Registry \<Rightarrow> 'f Registry \<times> string option" where
  "convo_node env key r =
     (let ttl = rc_convo_stickiness_ttl_seconds (rg_reliability r) in
      if ttl = 0 then (r, None)
      else let fresh = (case map_of (rg_convo_affinity r) key of
             None \<Rightarrow> None
           | Some (node, t) \<Rightarrow> if elapsed (re_now env) t \<le> nanos ttl then Some node else None)
      in if fresh = None
         then (r\<lparr>rg_convo_affinity := filter (\<lambda>e. fst e \<noteq> key) (rg_convo_affinity r)\<rparr>, None)
         else (r, fresh))"

definition note_convo :: "reg_env \<Rightarrow> string \<Rightarrow> string \<Rightarrow> 'f Registry \<Rightarrow> 'f Registry" where
  "note_convo env key node r =
     (if rc_convo_stickiness_ttl_seconds (rg_reliability r) = 0 then r
      else let ttl = nanos (rc_convo_stickiness_ttl_seconds (rg_reliability r));
             m0 = rg_convo_affinity r;
             m1 = (if length m0 \<ge> CONVO_AFFINITY_CAP
                   then (let kept = filter (\<lambda>e. elapsed (re_now env) (snd (snd e)) \<le> ttl) m0
                         in if length kept \<ge> CONVO_AFFINITY_CAP then [] else kept)
                   else m0)
           in r\<lparr>rg_convo_affinity := filter (\<lambda>e. fst e \<noteq> key) m1 @ [(key, node, re_now env)]\<rparr>)"

definition device_count :: "'f Registry \<Rightarrow> nat" where
  "device_count r = length (rg_devices r)"

definition snapshot_devices :: "'f Registry \<Rightarrow> 'f DeviceState list" where
  "snapshot_devices r = rg_devices r"

definition get_device :: "'f Registry \<Rightarrow> string \<Rightarrow> 'f DeviceState option" where
  "get_device r node = find (\<lambda>d. ds_node_id d = node) (rg_devices r)"

definition modify_device ::
  "string \<Rightarrow> ('f DeviceState \<Rightarrow> 'f DeviceState) \<Rightarrow> 'f Registry \<Rightarrow> 'f Registry" where
  "modify_device node f r = r\<lparr>rg_devices := sql_update (\<lambda>d. ds_node_id d = node) f (rg_devices r)\<rparr>"

definition set_in_flight :: "string \<Rightarrow> InFlight \<Rightarrow> 'f Registry \<Rightarrow> 'f Registry" where
  "set_in_flight node e r = r\<lparr>rg_in_flight := (rg_in_flight r)(node \<mapsto> e)\<rparr>"

definition in_flight_entry :: "'f Registry \<Rightarrow> string \<Rightarrow> InFlight" where
  "in_flight_entry r node = (case rg_in_flight r node of None \<Rightarrow> in_flight_default | Some e \<Rightarrow> e)"

section \<open>Admission and the heavy hold\<close>

definition slot_cap :: "'f Registry \<Rightarrow> string \<Rightarrow> nat" where
  "slot_cap r node = max 1 (case Option.bind (get_device r node) (\<lambda>d. nc_backend_slots_total (ds_capabilities d)) of
     None \<Rightarrow> 2 | Some n \<Rightarrow> n)"

definition hold_is_stale :: "reg_env \<Rightarrow> 'f Registry \<Rightarrow> InFlight \<Rightarrow> bool" where
  "hold_is_stale env r e = (case fl_heavy_since e of None \<Rightarrow> False
     | Some t \<Rightarrow> as_secs (elapsed (re_now env) t) > int (rc_heavy_hold_ttl_seconds (rg_reliability r)))"

text \<open>The first check of a heavy request: a live hold of another owner, or the owner's own slots being full, refuse it;
  a hold past its time to live is expired, both counters with it.\<close>

definition hold_check ::
  "reg_env \<Rightarrow> string \<Rightarrow> string option \<Rightarrow> InFlight \<Rightarrow> 'f Registry \<Rightarrow> 'f Registry \<times> InFlight option" where
  "hold_check env node owner e r =
     (if fl_heavy e = 0 then (r, Some e)
      else if \<not> hold_is_stale env r e then
        (if \<not> (owner \<noteq> None \<and> fl_heavy_owner e = owner)
         then (record_heavy env ''refuse_different_owner'' node owner (fl_heavy_owner e) r, None)
         else if fl_heavy e \<ge> slot_cap r node
         then (record_heavy env ''refuse_slots_full'' node owner owner r, None)
         else (r, Some e))
      else (record_heavy env ''expire'' node None (fl_heavy_owner e) r,
        Some (e\<lparr>fl_heavy := 0, fl_heavy_since := None, fl_heavy_owner := None, fl_total := 0\<rparr>)))"

definition slots_exceed :: "nat \<Rightarrow> 'f DeviceState \<Rightarrow> bool" where
  "slots_exceed accounted d = (case nc_backend_slots_busy (ds_capabilities d) of
     None \<Rightarrow> False | Some busy \<Rightarrow> busy > accounted)"

text \<open>The second check: slot occupancy the gateway cannot account for refuses once it has lasted a reporting cycle.\<close>

definition excess_check ::
  "reg_env \<Rightarrow> string \<Rightarrow> string option \<Rightarrow> nat \<Rightarrow> 'f Registry \<Rightarrow> 'f Registry \<times> bool" where
  "excess_check env node owner accounted r = (case get_device r node of
      None \<Rightarrow> (r, True)
    | Some d \<Rightarrow>
        if slots_exceed accounted d then
          (case ds_busy_excess_since d of
             Some since \<Rightarrow>
               if elapsed (re_now env) since \<ge> nanos (rc_busy_excess_grace_seconds (rg_reliability r))
               then (record_heavy env ''refuse_external_resident'' node owner None r, False)
               else (record_heavy env ''admit_grace_excess'' node owner None r, True)
           | None \<Rightarrow> (record_heavy env ''observe_external_excess'' node owner None
               (modify_device node (\<lambda>d. d\<lparr>ds_busy_excess_since := Some (re_now env)\<rparr>) r), True))
        else if ds_busy_excess_since d \<noteq> None
        then (record_heavy env ''clear_external_excess'' node owner None
          (modify_device node (\<lambda>d. d\<lparr>ds_busy_excess_since := None\<rparr>) r), True)
        else (r, True))"

definition take_hold :: "reg_env \<Rightarrow> string \<Rightarrow> string option \<Rightarrow> InFlight \<Rightarrow> 'f Registry \<Rightarrow> 'f Registry" where
  "take_hold env node owner e r =
     (let e1 = e\<lparr>fl_total := fl_total e + 1, fl_heavy := fl_heavy e + 1, fl_heavy_since := Some (re_now env),
            fl_heavy_owner := (if fl_heavy e = 0 then owner else fl_heavy_owner e)\<rparr>
      in set_in_flight node e1
        (if fl_heavy e = 0 then record_heavy env ''acquire'' node owner None r
         else record_heavy env ''share'' node owner owner r))"

definition admit ::
  "reg_env \<Rightarrow> string \<Rightarrow> bool \<Rightarrow> string option \<Rightarrow> 'f Registry \<Rightarrow> 'f Registry \<times> bool" where
  "admit env node heavy owner r =
     (let e = in_flight_entry r node; r0 = set_in_flight node e r in
      if \<not> heavy then (set_in_flight node (e\<lparr>fl_total := fl_total e + 1\<rparr>) r0, True)
      else case hold_check env node owner e r0 of
        (r1, None) \<Rightarrow> (r1, False)
      | (r1, Some e1) \<Rightarrow>
          (case excess_check env node owner (fl_total e1) (set_in_flight node e1 r1) of
             (r2, False) \<Rightarrow> (r2, False)
           | (r2, True) \<Rightarrow> (take_hold env node owner e1 r2, True)))"

definition release_echo_reanchor :: "reg_env \<Rightarrow> string \<Rightarrow> nat \<Rightarrow> 'f Registry \<Rightarrow> 'f Registry \<times> bool" where
  "release_echo_reanchor env node accounted r = (case get_device r node of
      None \<Rightarrow> (r, False)
    | Some d \<Rightarrow>
        if slots_exceed accounted d then
          (if ds_busy_excess_since d \<noteq> None
           then (modify_device node (\<lambda>d. d\<lparr>ds_busy_excess_since := Some (re_now env)\<rparr>) r, True)
           else (r, False))
        else if ds_busy_excess_since d \<noteq> None
        then (record_heavy env ''clear_external_excess'' node None None
          (modify_device node (\<lambda>d. d\<lparr>ds_busy_excess_since := None\<rparr>) r), False)
        else (r, False))"

definition release_hold :: "reg_env \<Rightarrow> string \<Rightarrow> nat \<Rightarrow> InFlight \<Rightarrow> 'f Registry \<Rightarrow> 'f Registry" where
  "release_hold env node accounted e r =
     (let gone = fl_heavy_owner e;
          r1 = set_in_flight node (e\<lparr>fl_heavy_owner := None, fl_heavy := 0, fl_heavy_since := None\<rparr>) r;
          (r2, rearmed) = release_echo_reanchor env node accounted r1;
          r3 = (if rearmed then record_heavy env ''rearm_release_echo'' node None None r2 else r2)
      in record_heavy env ''release'' node gone None r3)"

definition dec_in_flight :: "reg_env \<Rightarrow> string \<Rightarrow> bool \<Rightarrow> 'f Registry \<Rightarrow> 'f Registry \<times> nat" where
  "dec_in_flight env node heavy r = (case rg_in_flight r node of
      None \<Rightarrow> (r, 0)
    | Some e \<Rightarrow>
        let prev = fl_total e; e1 = e\<lparr>fl_total := prev - 1\<rparr> in
        if \<not> heavy then (set_in_flight node e1 r, prev - 1)
        else if fl_heavy e \<le> 1 then (release_hold env node (prev - 1) e1 r, prev - 1)
        else (set_in_flight node (e1\<lparr>fl_heavy := fl_heavy e - 1\<rparr>) r, prev - 1))"

definition in_flight :: "'f Registry \<Rightarrow> string \<Rightarrow> nat" where
  "in_flight r node = (case rg_in_flight r node of None \<Rightarrow> 0 | Some e \<Rightarrow> fl_total e)"

definition heavy_in_flight :: "'f Registry \<Rightarrow> string \<Rightarrow> nat" where
  "heavy_in_flight r node = (case rg_in_flight r node of None \<Rightarrow> 0 | Some e \<Rightarrow> fl_heavy e)"

text \<open>The per-model counters; a count of zero is an absent entry.\<close>

definition note_model_in_flight :: "string \<Rightarrow> string \<Rightarrow> 'f Registry \<Rightarrow> 'f Registry" where
  "note_model_in_flight node model r = (case rg_in_flight r node of
      None \<Rightarrow> r
    | Some e \<Rightarrow> set_in_flight node (e\<lparr>fl_models := (fl_models e)(model := fl_models e model + 1)\<rparr>) r)"

definition release_model_in_flight :: "string \<Rightarrow> string \<Rightarrow> 'f Registry \<Rightarrow> 'f Registry" where
  "release_model_in_flight node model r = (case rg_in_flight r node of
      None \<Rightarrow> r
    | Some e \<Rightarrow> set_in_flight node (e\<lparr>fl_models := (fl_models e)(model := fl_models e model - 1)\<rparr>) r)"

definition occupancy_at_first_token :: "'f Registry \<Rightarrow> string \<Rightarrow> string \<Rightarrow> nat \<times> nat \<times> nat option" where
  "occupancy_at_first_token r node model =
     (let total = in_flight r node;
          same = (case rg_in_flight r node of None \<Rightarrow> 0 | Some e \<Rightarrow> fl_models e model)
      in (same - 1, total - same,
        Option.bind (get_device r node) (\<lambda>d. nc_backend_slots_busy (ds_capabilities d))))"

section \<open>Membership of the fleet\<close>

definition index_without :: "string \<Rightarrow> (string \<Rightarrow> string list) \<Rightarrow> string \<Rightarrow> string list" where
  "index_without node idx = (\<lambda>k. removeAll node (idx k))"

definition index_insert :: "string \<Rightarrow> string \<Rightarrow> (string \<Rightarrow> string list) \<Rightarrow> string \<Rightarrow> string list" where
  "index_insert node model idx =
     (let key = normalize_model_id model in idx(key := List.insert node (idx key)))"

definition rebuild_model_index_for :: "string \<Rightarrow> 'f Registry \<Rightarrow> 'f Registry" where
  "rebuild_model_index_for node r =
     (let idx = index_without node (rg_model_to_devices r) in
      case get_device r node of
        None \<Rightarrow> r\<lparr>rg_model_to_devices := idx\<rparr>
      | Some d \<Rightarrow>
          if ds_probation d \<or> ds_employee d then r\<lparr>rg_model_to_devices := idx\<rparr>
          else r\<lparr>rg_model_to_devices := fold (index_insert node)
            (nc_loaded_models (ds_capabilities d) @ nc_swappable_models (ds_capabilities d)) idx\<rparr>)"

definition new_device :: "int \<Rightarrow> 'f \<Rightarrow> string \<Rightarrow> string \<Rightarrow> 'f NodeCapabilities \<Rightarrow> 'f DeviceState" where
  "new_device now tps_prior node display_name caps =
     \<lparr>ds_node_id = node, ds_display_name = display_name, ds_capabilities = caps, ds_last_heartbeat = now,
      ds_last_seen = now, ds_quarantined_until = None, ds_departed_at = None, ds_ewma_tokens_per_second = tps_prior,
      ds_live = live_fresh, ds_busy_excess_since = None, ds_employee = False, ds_probation = False\<rparr>"

text \<open>\<open>prior\<close> is the speed estimate from the memory bandwidth (\<open>hardware_tps_prior\<close>, floating point).\<close>

definition upsert_device_with_tier ::
  "int \<Rightarrow> ('f NodeCapabilities \<Rightarrow> 'f) \<Rightarrow> string \<Rightarrow> string \<Rightarrow> 'f NodeCapabilities \<Rightarrow> bool \<Rightarrow> bool \<Rightarrow> 'f Registry \<Rightarrow> 'f Registry" where
  "upsert_device_with_tier now prior node display_name caps employee probation r =
     (let r1 = r\<lparr>rg_devices := insert_or_ignore ds_node_id (new_device now (prior caps) node display_name caps)
            (rg_devices r)\<rparr>;
          r2 = modify_device node (\<lambda>d. d\<lparr>ds_display_name := display_name, ds_capabilities := caps,
            ds_employee := employee, ds_probation := probation, ds_last_seen := now, ds_departed_at := None,
            ds_last_heartbeat := now\<rparr>) r1
      in rebuild_model_index_for node r2)"

definition upsert_device_with_class ::
  "int \<Rightarrow> ('f NodeCapabilities \<Rightarrow> 'f) \<Rightarrow> string \<Rightarrow> string \<Rightarrow> 'f NodeCapabilities \<Rightarrow> bool \<Rightarrow> 'f Registry \<Rightarrow> 'f Registry" where
  "upsert_device_with_class now prior node display_name caps employee r =
     upsert_device_with_tier now prior node display_name caps employee False r"

definition apply_heartbeat :: "int \<Rightarrow> string \<Rightarrow> 'f HeartbeatPayload \<Rightarrow> 'f Registry \<Rightarrow> 'f Registry" where
  "apply_heartbeat now node hb r = (case get_device r node of
      None \<Rightarrow> r
    | Some _ \<Rightarrow> rebuild_model_index_for node (modify_device node (device_heartbeat now hb) r))"

definition mark_departed :: "int \<Rightarrow> string \<Rightarrow> 'f Registry \<Rightarrow> 'f Registry" where
  "mark_departed now node r = modify_device node
     (\<lambda>d. if ds_departed_at d = None then d\<lparr>ds_departed_at := Some now\<rparr> else d) r"

definition remove_device :: "string \<Rightarrow> 'f Registry \<Rightarrow> 'f Registry" where
  "remove_device node r =
     r\<lparr>rg_devices := filter (\<lambda>d. ds_node_id d \<noteq> node) (rg_devices r),
       rg_model_to_devices := index_without node (rg_model_to_devices r)\<rparr>"

definition quarantine :: "int \<Rightarrow> string \<Rightarrow> nat \<Rightarrow> 'f Registry \<Rightarrow> 'f Registry" where
  "quarantine now node duration r =
     modify_device node (\<lambda>d. d\<lparr>ds_quarantined_until := Some (now + nanos duration)\<rparr>) r"

definition departed_expired :: "int \<Rightarrow> 'f Registry \<Rightarrow> string list" where
  "departed_expired now r = map ds_node_id (filter (\<lambda>d. case ds_departed_at d of None \<Rightarrow> False
     | Some t \<Rightarrow> elapsed now t \<ge> nanos (rc_departed_grace_seconds (rg_reliability r))) (rg_devices r))"

definition sweep_device :: "int \<Rightarrow> nat \<Rightarrow> 'f DeviceState \<Rightarrow> 'f DeviceState" where
  "sweep_device now stale d =
     (let d1 = (if heartbeat_is_stale now stale d
            then d\<lparr>ds_capabilities := (ds_capabilities d)\<lparr>nc_is_available := False\<rparr>\<rparr> else d)
      in case ds_quarantined_until d1 of None \<Rightarrow> d1
         | Some t \<Rightarrow> if t \<le> now then d1\<lparr>ds_quarantined_until := None\<rparr> else d1)"

definition sweep :: "int \<Rightarrow> 'f Registry \<Rightarrow> 'f Registry" where
  "sweep now r =
     (let r1 = fold remove_device (departed_expired now r) r
      in r1\<lparr>rg_devices := map (sweep_device now (rc_heartbeat_stale_seconds (rg_reliability r1))) (rg_devices r1)\<rparr>)"

section \<open>Questions about the supply\<close>

definition supply_filter :: "int \<Rightarrow> ReliabilityConfig \<Rightarrow> string \<Rightarrow> bool \<Rightarrow> 'f DeviceState \<Rightarrow> bool" where
  "supply_filter now cfg model include_employee d \<longleftrightarrow>
     \<not> (ds_employee d \<and> \<not> include_employee) \<and> \<not> ds_probation d
     \<and> \<not> heartbeat_is_stale now (rc_heartbeat_stale_seconds cfg) d
     \<and> is_eligible_for now model (rc_quarantine_seconds cfg * 100) d \<in> {Loaded, Swappable}"

definition eligible_supply :: "int \<Rightarrow> string \<Rightarrow> bool \<Rightarrow> 'f Registry \<Rightarrow> 'f DeviceState list" where
  "eligible_supply now model include_employee r =
     filter (supply_filter now (rg_reliability r) model include_employee) (rg_devices r)"

definition eligible_devices :: "int \<Rightarrow> string \<Rightarrow> 'f Registry \<Rightarrow> 'f DeviceState list" where
  "eligible_devices now model r = eligible_supply now model False r"

datatype ModelAvailability = Ready | Warm | Cold | Unavailable

definition healthy :: "int \<Rightarrow> ReliabilityConfig \<Rightarrow> 'f DeviceState \<Rightarrow> bool" where
  "healthy now cfg d \<longleftrightarrow> \<not> ds_probation d \<and> \<not> ds_employee d \<and> \<not> is_quarantined now d
     \<and> nc_is_available (ds_capabilities d) \<and> \<not> heartbeat_is_stale now (rc_heartbeat_stale_seconds cfg) d"

fun availability_loop ::
  "int \<Rightarrow> ReliabilityConfig \<Rightarrow> string \<Rightarrow> 'f::linorder \<Rightarrow> bool \<Rightarrow> bool \<Rightarrow> 'f DeviceState list \<Rightarrow> ModelAvailability" where
  "availability_loop now cfg model size_gb any_swappable any_fits [] =
     (if any_swappable then Warm else if any_fits then Cold else Unavailable)"
| "availability_loop now cfg model size_gb any_swappable any_fits (d # ds) =
     (if \<not> healthy now cfg d then availability_loop now cfg model size_gb any_swappable any_fits ds
      else if model_matches_any model (nc_loaded_models (ds_capabilities d)) then Ready
      else availability_loop now cfg model size_gb
        (any_swappable \<or> model_matches_any model (nc_swappable_models (ds_capabilities d)))
        (any_fits \<or> size_gb \<le> nc_max_model_size_gb (ds_capabilities d)) ds)"

definition model_availability :: "int \<Rightarrow> string \<Rightarrow> 'f::linorder \<Rightarrow> 'f Registry \<Rightarrow> ModelAvailability" where
  "model_availability now model size_gb r =
     availability_loop now (rg_reliability r) model size_gb False False (rg_devices r)"

definition supports :: "string \<Rightarrow> 'f DeviceState \<Rightarrow> bool" where
  "supports model d \<longleftrightarrow> model_matches_any model (nc_loaded_models (ds_capabilities d))
     \<or> model_matches_any model (nc_swappable_models (ds_capabilities d))"

text \<open>The loop of \<open>deny_reason\<close> with its four flags.\<close>

fun deny_loop ::
  "int \<Rightarrow> ReliabilityConfig \<Rightarrow> string \<Rightarrow> bool \<times> bool \<times> bool \<times> bool \<Rightarrow> 'f DeviceState list \<Rightarrow> bool \<times> bool \<times> bool \<times> bool" where
  "deny_loop now cfg model flags [] = flags"
| "deny_loop now cfg model (supported, fresh, available, unquarantined) (d # ds) =
     deny_loop now cfg model
       (if ds_probation d \<or> ds_employee d \<or> \<not> supports model d then (supported, fresh, available, unquarantined)
        else if heartbeat_is_stale now (rc_heartbeat_stale_seconds cfg) d then (True, fresh, available, unquarantined)
        else if \<not> nc_is_available (ds_capabilities d) then (True, True, available, unquarantined)
        else if is_quarantined now d then (True, True, True, unquarantined)
        else (True, True, True, True)) ds"

definition deny_reason :: "int \<Rightarrow> string \<Rightarrow> 'f Registry \<Rightarrow> string" where
  "deny_reason now model r =
     (if rg_devices r = [] then ''empty_registry''
      else case deny_loop now (rg_reliability r) model (False, False, False, False) (rg_devices r) of
        (supported, fresh, available, unquarantined) \<Rightarrow>
          if \<not> supported then ''unsupported'' else if \<not> fresh then ''stale''
          else if \<not> available then ''unavailable'' else if \<not> unquarantined then ''quarantined''
          else ''floor_or_other'')"

definition loaded_count :: "int \<Rightarrow> string \<Rightarrow> 'f Registry \<Rightarrow> nat" where
  "loaded_count now model r = length (filter (\<lambda>d. healthy now (rg_reliability r) d
     \<and> model_matches_any model (nc_loaded_models (ds_capabilities d))) (rg_devices r))"

definition supplying_device_count :: "int \<Rightarrow> 'f Registry \<Rightarrow> nat" where
  "supplying_device_count now r = length (filter (\<lambda>d. healthy now (rg_reliability r) d
     \<and> nc_loaded_models (ds_capabilities d) \<noteq> []) (rg_devices r))"

end
