(* ===== verification/Registry_Laws.thy ===== *)
theory Registry_Laws
  imports Registry
begin

text \<open>
  What the registry promises: the model index lists exactly the fleet devices that advertise a model, through every
  operation; the in-flight counters count the open sessions, and at most one owner holds heavy sessions on a node; the
  loops that explain a missing supply agree with their specification.
\<close>

section \<open>The model index\<close>

text \<open>The keys a device is listed under: none outside the default tier.\<close>

definition listed_keys :: "'f DeviceState \<Rightarrow> string set" where
  "listed_keys d = (if ds_probation d \<or> ds_employee d then {}
     else normalize_model_id ` (set (nc_loaded_models (ds_capabilities d)) \<union> set (nc_swappable_models (ds_capabilities d))))"

definition index_exact :: "'f DeviceState list \<Rightarrow> (string \<Rightarrow> string list) \<Rightarrow> string \<Rightarrow> bool" where
  "index_exact devs idx node \<longleftrightarrow>
     (\<forall>k. node \<in> set (idx k) \<longleftrightarrow> (\<exists>d\<in>set devs. ds_node_id d = node \<and> k \<in> listed_keys d))"

definition index_sync :: "'f Registry \<Rightarrow> bool" where
  "index_sync r \<longleftrightarrow> distinct (map ds_node_id (rg_devices r))
     \<and> (\<forall>node. index_exact (rg_devices r) (rg_model_to_devices r) node)"

lemma set_index_without [simp]: "set (index_without n idx k) = set (idx k) - {n}"
  by (simp add: index_without_def)

lemma set_index_insert: "set (index_insert n m idx k) = (if k = normalize_model_id m then insert n (set (idx k)) else set (idx k))"
  by (simp add: index_insert_def Let_def)

lemma set_fold_index_insert:
  "set (fold (index_insert n) ms idx k) =
     (if k \<in> normalize_model_id ` set ms then insert n (set (idx k)) else set (idx k))"
  by (induction ms arbitrary: idx) (auto simp: set_index_insert)

lemma get_device_id: "get_device r node = Some d \<Longrightarrow> d \<in> set (rg_devices r) \<and> ds_node_id d = node"
  unfolding get_device_def by (drule find_key_SomeD) simp

lemma get_device_None: "get_device r node = None \<Longrightarrow> d \<in> set (rg_devices r) \<Longrightarrow> ds_node_id d \<noteq> node"
  by (auto simp: get_device_def find_None_iff)

lemma rebuild_devices [simp]: "rg_devices (rebuild_model_index_for node r) = rg_devices r"
  by (simp add: rebuild_model_index_for_def Let_def split: option.split)

lemma unique_device:
  "distinct (map ds_node_id devs) \<Longrightarrow> d \<in> set devs \<Longrightarrow> d' \<in> set devs \<Longrightarrow> ds_node_id d = ds_node_id d' \<Longrightarrow> d = d'"
  by (auto simp: distinct_map inj_on_def)

lemma rebuild_index_set:
  assumes "distinct (map ds_node_id (rg_devices r))"
  shows "set (rg_model_to_devices (rebuild_model_index_for node r) k) =
    (if \<exists>d\<in>set (rg_devices r). ds_node_id d = node \<and> k \<in> listed_keys d
     then insert node (set (rg_model_to_devices r k)) else set (rg_model_to_devices r k) - {node})"
proof (cases "get_device r node")
  case None
  then show ?thesis using get_device_None [OF None] by (auto simp: rebuild_model_index_for_def Let_def)
next
  case (Some d)
  have only: "(\<exists>d'\<in>set (rg_devices r). ds_node_id d' = node \<and> k \<in> listed_keys d') \<longleftrightarrow> k \<in> listed_keys d"
    using get_device_id [OF Some] unique_device [OF assms] by blast
  show ?thesis using Some unfolding only
    by (auto simp: rebuild_model_index_for_def Let_def listed_keys_def set_fold_index_insert)
qed

lemma rebuild_sync:
  assumes "distinct (map ds_node_id (rg_devices r))"
    and "\<And>n. n \<noteq> node \<Longrightarrow> index_exact (rg_devices r) (rg_model_to_devices r) n"
  shows "index_sync (rebuild_model_index_for node r)"
  unfolding index_sync_def
proof (intro conjI allI)
  show "distinct (map ds_node_id (rg_devices (rebuild_model_index_for node r)))" using assms(1) by simp
  fix n
  show "index_exact (rg_devices (rebuild_model_index_for node r)) (rg_model_to_devices (rebuild_model_index_for node r)) n"
    unfolding index_exact_def rebuild_devices rebuild_index_set [OF assms(1)]
    using assms(2) [of n] by (cases "n = node") (auto simp: index_exact_def)
qed

lemma modify_device_simps [simp]:
  "rg_model_to_devices (modify_device node f r) = rg_model_to_devices r"
  "rg_reliability (modify_device node f r) = rg_reliability r"
  "rg_in_flight (modify_device node f r) = rg_in_flight r"
  "rg_devices (modify_device node f r) = sql_update (\<lambda>d. ds_node_id d = node) f (rg_devices r)"
  by (simp_all add: modify_device_def)

lemma index_exact_other:
  assumes "\<And>d. ds_node_id (f d) = ds_node_id d" and "n \<noteq> node"
  shows "index_exact (sql_update (\<lambda>d. ds_node_id d = node) f devs) idx n = index_exact devs idx n"
  using assms by (auto simp: index_exact_def set_sql_update)

lemma index_exact_map:
  assumes "\<And>d. ds_node_id (f d) = ds_node_id d" and "\<And>d. listed_keys (f d) = listed_keys d"
  shows "index_exact (map f devs) = index_exact devs"
  using assms by (intro ext) (auto simp: index_exact_def)

text \<open>A change of a device that keeps its id and what it lists keeps the index.\<close>

lemma index_sync_map:
  assumes "index_sync r" and "\<And>d. ds_node_id (f d) = ds_node_id d" and "\<And>d. listed_keys (f d) = listed_keys d"
    and "rg_devices r' = map f (rg_devices r)" and "rg_model_to_devices r' = rg_model_to_devices r"
  shows "index_sync r'"
proof -
  have "map ds_node_id (map f devs) = map ds_node_id devs" for devs using assms(2) by simp
  then show ?thesis using assms(1) by (simp only: index_sync_def assms(4,5) index_exact_map [OF assms(2,3)] simp_thms)
qed

lemma index_sync_modify:
  assumes "index_sync r" and "\<And>d. ds_node_id (f d) = ds_node_id d" and "\<And>d. listed_keys (f d) = listed_keys d"
  shows "index_sync (modify_device node f r)"
  by (rule index_sync_map [OF assms(1), where f = "\<lambda>d. if ds_node_id d = node then f d else d"])
    (simp_all add: assms(2,3) sql_update_def)

lemma index_sync_cong:
  "rg_devices r' = rg_devices r \<Longrightarrow> rg_model_to_devices r' = rg_model_to_devices r \<Longrightarrow> index_sync r' = index_sync r"
  by (simp add: index_sync_def)

lemma rebuild_after_modify:
  assumes "index_sync r" and "\<And>d. ds_node_id (f d) = ds_node_id d"
  shows "index_sync (rebuild_model_index_for node (modify_device node f r))"
proof (rule rebuild_sync)
  show "distinct (map ds_node_id (rg_devices (modify_device node f r)))"
    using assms by (simp add: index_sync_def sql_update_key_map)
  show "index_exact (rg_devices (modify_device node f r)) (rg_model_to_devices (modify_device node f r)) n"
    if "n \<noteq> node" for n
    using assms that by (simp add: index_sync_def index_exact_other)
qed

lemma upsert_index_sync:
  assumes "index_sync r"
  shows "index_sync (upsert_device_with_tier now prior node name caps employee probation r)"
proof -
  let ?new = "new_device now (prior caps) node name caps"
  let ?r1 = "r\<lparr>rg_devices := insert_or_ignore ds_node_id ?new (rg_devices r)\<rparr>"
  let ?f = "\<lambda>d. d\<lparr>ds_display_name := name, ds_capabilities := caps, ds_employee := employee,
    ds_probation := probation, ds_last_seen := now, ds_departed_at := None, ds_last_heartbeat := now\<rparr>"
  have "ds_node_id ?new = node" by (simp add: new_device_def)
  then have "index_exact (rg_devices ?r1) (rg_model_to_devices r) n" if "n \<noteq> node" for n
    using assms that by (auto simp: index_sync_def index_exact_def insert_or_ignore_def)
  then have "index_exact (rg_devices (modify_device node ?f ?r1)) (rg_model_to_devices (modify_device node ?f ?r1)) n"
    if "n \<noteq> node" for n
    using that by (simp add: index_exact_other)
  moreover have "distinct (map ds_node_id (rg_devices (modify_device node ?f ?r1)))"
    using assms by (simp add: index_sync_def sql_update_key_map)
  ultimately show ?thesis
    unfolding upsert_device_with_tier_def Let_def by (intro rebuild_sync)
qed

lemma heartbeat_index_sync: "index_sync r \<Longrightarrow> index_sync (apply_heartbeat now node hb r)"
  by (auto simp: apply_heartbeat_def device_heartbeat_def intro!: rebuild_after_modify split: option.split)

lemma remove_index_sync: "index_sync r \<Longrightarrow> index_sync (remove_device node r)"
  unfolding index_sync_def index_exact_def remove_device_def
  by (auto simp: distinct_map_filter)

lemma remove_all_index_sync: "index_sync r \<Longrightarrow> index_sync (fold remove_device ns r)"
  by (induction ns arbitrary: r) (simp_all add: remove_index_sync)

lemma sweep_device_keeps [simp]:
  "ds_node_id (sweep_device now s d) = ds_node_id d" "listed_keys (sweep_device now s d) = listed_keys d"
  by (simp_all add: sweep_device_def listed_keys_def Let_def split: option.split)

lemma sweep_index_sync:
  assumes "index_sync r" shows "index_sync (sweep now r)"
  unfolding sweep_def Let_def
  by (rule index_sync_map [OF remove_all_index_sync [OF assms], where f = "sweep_device now s" for s]) auto

section \<open>Frames of the admission\<close>

lemma record_heavy_simps [simp]:
  "rg_devices (record_heavy env k d q i r) = rg_devices r"
  "rg_model_to_devices (record_heavy env k d q i r) = rg_model_to_devices r"
  "rg_in_flight (record_heavy env k d q i r) = rg_in_flight r"
  "rg_reliability (record_heavy env k d q i r) = rg_reliability r"
  by (simp_all add: record_heavy_def Let_def)

lemma set_in_flight_simps [simp]:
  "rg_devices (set_in_flight n e r) = rg_devices r"
  "rg_model_to_devices (set_in_flight n e r) = rg_model_to_devices r"
  "rg_in_flight (set_in_flight n e r) = (rg_in_flight r)(n \<mapsto> e)"
  "rg_reliability (set_in_flight n e r) = rg_reliability r"
  by (simp_all add: set_in_flight_def)

lemma index_sync_frames [simp]:
  "index_sync (record_heavy env k d q i r) = index_sync r"
  "index_sync (set_in_flight n e r) = index_sync r"
  by (rule index_sync_cong; simp)+

lemma busy_excess_sync [simp]:
  "index_sync r \<Longrightarrow> index_sync (modify_device node (\<lambda>d. d\<lparr>ds_busy_excess_since := x\<rparr>) r)"
  by (rule index_sync_modify) (simp_all add: listed_keys_def)

lemma hold_check_frame:
  "hold_check env node owner e r = (r', res) \<Longrightarrow> rg_devices r' = rg_devices r
     \<and> rg_model_to_devices r' = rg_model_to_devices r \<and> rg_in_flight r' = rg_in_flight r"
  by (auto simp: hold_check_def split: if_splits)

lemma excess_check_in_flight [simp]: "rg_in_flight (fst (excess_check env node owner a r)) = rg_in_flight r"
  by (simp add: excess_check_def split: option.split)

lemma excess_check_sync: "index_sync r \<Longrightarrow> index_sync (fst (excess_check env node owner a r))"
  by (simp add: excess_check_def split: option.split)

lemma take_hold_sync: "index_sync r \<Longrightarrow> index_sync (take_hold env node owner e r)"
  by (simp add: take_hold_def Let_def)

lemma admit_sync:
  assumes "index_sync r" shows "index_sync (fst (admit env node heavy owner r))"
proof -
  obtain r1 res where h: "hold_check env node owner (in_flight_entry r node)
      (set_in_flight node (in_flight_entry r node) r) = (r1, res)"
    by (cases "hold_check env node owner (in_flight_entry r node)
      (set_in_flight node (in_flight_entry r node) r)")
  have "index_sync r1" using hold_check_frame [OF h] assms index_sync_cong [of r1 r] by simp
  then show ?thesis using assms h
    by (auto simp: admit_def Let_def take_hold_sync split: option.split prod.split bool.split)
      (metis excess_check_sync fst_conv index_sync_frames(2) take_hold_sync)+
qed

lemma release_echo_in_flight [simp]:
  "rg_in_flight (fst (release_echo_reanchor env node a r)) = rg_in_flight r"
  by (simp add: release_echo_reanchor_def split: option.split)

lemma release_echo_sync: "index_sync r \<Longrightarrow> index_sync (fst (release_echo_reanchor env node a r))"
  by (simp add: release_echo_reanchor_def split: option.split)

lemma release_hold_in_flight [simp]:
  "rg_in_flight (release_hold env node a e r) =
     (rg_in_flight r)(node \<mapsto> e\<lparr>fl_heavy_owner := None, fl_heavy := 0, fl_heavy_since := None\<rparr>)"
  by (simp add: release_hold_def Let_def split: prod.split)
    (metis fst_conv release_echo_in_flight set_in_flight_simps(3))

lemma release_hold_sync: "index_sync r \<Longrightarrow> index_sync (release_hold env node a e r)"
  by (simp add: release_hold_def Let_def split: prod.split) (metis fst_conv index_sync_frames(2) release_echo_sync)

lemma dec_sync: "index_sync r \<Longrightarrow> index_sync (fst (dec_in_flight env node heavy r))"
  by (simp add: dec_in_flight_def Let_def release_hold_sync split: option.split)

section \<open>Open sessions and the heavy hold\<close>

text \<open>A session is the node it runs on, whether it is heavy, and its owner. The counters of the registry are right for a
  list of open sessions when they count them, and the holder of the heavy hold owns every heavy one.\<close>

type_synonym session = "string \<times> bool \<times> string option"

definition sessions_on :: "string \<Rightarrow> session list \<Rightarrow> session list" where
  "sessions_on node ss = filter (\<lambda>s. fst s = node) ss"

definition heavies_on :: "string \<Rightarrow> session list \<Rightarrow> session list" where
  "heavies_on node ss = filter (\<lambda>s. fst s = node \<and> fst (snd s)) ss"

definition flight_ok :: "'f Registry \<Rightarrow> session list \<Rightarrow> bool" where
  "flight_ok r ss \<longleftrightarrow> (\<forall>node. fl_total (in_flight_entry r node) = length (sessions_on node ss)
     \<and> fl_heavy (in_flight_entry r node) = length (heavies_on node ss)
     \<and> (\<forall>s\<in>set (heavies_on node ss). snd (snd s) = fl_heavy_owner (in_flight_entry r node))
     \<and> (fl_heavy (in_flight_entry r node) \<ge> 2 \<longrightarrow> fl_heavy_owner (in_flight_entry r node) \<noteq> None))"

text \<open>No hold outlives its time to live unnoticed: the expiry branch of the admission is not taken.\<close>

definition hold_live :: "reg_env \<Rightarrow> 'f Registry \<Rightarrow> string \<Rightarrow> bool" where
  "hold_live env r node \<longleftrightarrow> fl_heavy (in_flight_entry r node) = 0 \<or> \<not> hold_is_stale env r (in_flight_entry r node)"

inductive fleet_step :: "'f Registry \<times> session list \<Rightarrow> 'f Registry \<times> session list \<Rightarrow> bool" where
  dispatch: "admit env node heavy owner r = (r', True) \<Longrightarrow> (heavy \<Longrightarrow> hold_live env r node) \<Longrightarrow>
     fleet_step (r, ss) (r', ss @ [(node, heavy, owner)])"
| refuse: "admit env node heavy owner r = (r', False) \<Longrightarrow> (heavy \<Longrightarrow> hold_live env r node) \<Longrightarrow> fleet_step (r, ss) (r', ss)"
| close_session: "dec_in_flight env node heavy r = (r', n) \<Longrightarrow>
     fleet_step (r, xs @ (node, heavy, owner) # ys) (r', xs @ ys)"
| announce: "fleet_step (r, ss) (upsert_device_with_tier now prior node name caps employee probation r, ss)"
| heartbeat: "fleet_step (r, ss) (apply_heartbeat now node hb r, ss)"
| depart: "fleet_step (r, ss) (mark_departed now node r, ss)"
| quarantined: "fleet_step (r, ss) (quarantine now node secs r, ss)"
| swept: "fleet_step (r, ss) (sweep now r, ss)"

lemma in_flight_entry_cong: "rg_in_flight r' = rg_in_flight r \<Longrightarrow> in_flight_entry r' = in_flight_entry r"
  by (rule ext) (simp add: in_flight_entry_def)

lemma in_flight_entry_set:
  "rg_in_flight r' = (rg_in_flight r)(node \<mapsto> e) \<Longrightarrow>
     in_flight_entry r' n = (if n = node then e else in_flight_entry r n)"
  by (simp add: in_flight_entry_def)

lemma hold_check_live:
  assumes "hold_check env node owner e r = (r', Some e1)" and "fl_heavy e = 0 \<or> \<not> hold_is_stale env r e"
  shows "e1 = e \<and> (fl_heavy e = 0 \<or> owner \<noteq> None \<and> fl_heavy_owner e = owner)"
  using assms by (auto simp: hold_check_def split: if_splits)

lemma hold_is_stale_set [simp]: "hold_is_stale env (set_in_flight n e r) = hold_is_stale env r"
  by (rule ext) (simp add: hold_is_stale_def split: option.split)

lemma admit_light: "admit env node False owner r = (r', b) \<Longrightarrow>
    b \<and> rg_in_flight r' = (rg_in_flight r)(node \<mapsto> (in_flight_entry r node)\<lparr>fl_total := fl_total (in_flight_entry r node) + 1\<rparr>)"
  by (auto simp: admit_def Let_def)

lemma admit_heavy:
  assumes "admit env node True owner r = (r', b)" and "hold_live env r node"
  defines "e \<equiv> in_flight_entry r node"
  shows "if b then (fl_heavy e = 0 \<or> owner \<noteq> None \<and> fl_heavy_owner e = owner) \<and>
      rg_in_flight r' = (rg_in_flight r)(node \<mapsto> e\<lparr>fl_total := fl_total e + 1, fl_heavy := fl_heavy e + 1,
        fl_heavy_since := Some (re_now env), fl_heavy_owner := (if fl_heavy e = 0 then owner else fl_heavy_owner e)\<rparr>)
    else rg_in_flight r' = (rg_in_flight r)(node \<mapsto> e)"
proof -
  let ?r0 = "set_in_flight node e r"
  obtain r1 res where h: "hold_check env node owner e ?r0 = (r1, res)"
    by (cases "hold_check env node owner e ?r0")
  note hf = hold_check_frame [OF h]
  show ?thesis
  proof (cases res)
    case None
    then show ?thesis using assms(1) h hf by (simp add: admit_def Let_def e_def split: if_splits)
  next
    case (Some e1)
    have live: "e1 = e \<and> (fl_heavy e = 0 \<or> owner \<noteq> None \<and> fl_heavy_owner e = owner)"
      using hold_check_live [of env node owner e ?r0 r1 e1] h Some assms(2) by (simp add: hold_live_def e_def)
    obtain r2 ok where x: "excess_check env node owner (fl_total e1) (set_in_flight node e1 r1) = (r2, ok)"
      by (cases "excess_check env node owner (fl_total e1) (set_in_flight node e1 r1)")
    have "rg_in_flight r2 = (rg_in_flight r)(node \<mapsto> e)"
      using excess_check_in_flight [of env node owner "fl_total e1" "set_in_flight node e1 r1"] x hf live
      by (simp del: excess_check_in_flight)
    then show ?thesis using assms(1) h Some x live
      by (cases ok) (auto simp: admit_def Let_def e_def take_hold_def split: if_splits)
  qed
qed

lemma dec_entry:
  assumes "dec_in_flight env node heavy r = (r', n)" and "rg_in_flight r node \<noteq> None"
  defines "e \<equiv> in_flight_entry r node"
  shows "rg_in_flight r' = (rg_in_flight r)(node \<mapsto>
    (if \<not> heavy then e\<lparr>fl_total := fl_total e - 1\<rparr>
     else if fl_heavy e \<le> 1
       then e\<lparr>fl_total := fl_total e - 1, fl_heavy_owner := None, fl_heavy := 0, fl_heavy_since := None\<rparr>
     else e\<lparr>fl_total := fl_total e - 1, fl_heavy := fl_heavy e - 1\<rparr>))"
  using assms by (auto simp: dec_in_flight_def Let_def in_flight_entry_def split: if_splits)

lemma sessions_on_simps [simp]:
  "sessions_on n [] = []" "sessions_on n (xs @ ys) = sessions_on n xs @ sessions_on n ys"
  "sessions_on n (s # xs) = (if fst s = n then s # sessions_on n xs else sessions_on n xs)"
  by (simp_all add: sessions_on_def)

lemma heavies_on_simps [simp]:
  "heavies_on n [] = []" "heavies_on n (xs @ ys) = heavies_on n xs @ heavies_on n ys"
  "heavies_on n (s # xs) = (if fst s = n \<and> fst (snd s) then s # heavies_on n xs else heavies_on n xs)"
  by (simp_all add: heavies_on_def)

lemma flight_ok_set:
  assumes "flight_ok r ss" and "rg_in_flight r' = (rg_in_flight r)(node \<mapsto> e)"
    and "\<And>n. n \<noteq> node \<Longrightarrow> sessions_on n ss' = sessions_on n ss \<and> heavies_on n ss' = heavies_on n ss"
    and "fl_total e = length (sessions_on node ss')" and "fl_heavy e = length (heavies_on node ss')"
    and "\<forall>s\<in>set (heavies_on node ss'). snd (snd s) = fl_heavy_owner e"
    and "fl_heavy e \<ge> 2 \<longrightarrow> fl_heavy_owner e \<noteq> None"
  shows "flight_ok r' ss'"
  unfolding flight_ok_def
proof
  fix n
  show "fl_total (in_flight_entry r' n) = length (sessions_on n ss')
     \<and> fl_heavy (in_flight_entry r' n) = length (heavies_on n ss')
     \<and> (\<forall>s\<in>set (heavies_on n ss'). snd (snd s) = fl_heavy_owner (in_flight_entry r' n))
     \<and> (fl_heavy (in_flight_entry r' n) \<ge> 2 \<longrightarrow> fl_heavy_owner (in_flight_entry r' n) \<noteq> None)"
    using assms by (cases "n = node") (auto simp: flight_ok_def in_flight_entry_set [OF assms(2)])
qed

lemma flight_okD:
  assumes "flight_ok r ss"
  shows "fl_total (in_flight_entry r node) = length (sessions_on node ss)"
    and "fl_heavy (in_flight_entry r node) = length (heavies_on node ss)"
    and "\<forall>s\<in>set (heavies_on node ss). snd (snd s) = fl_heavy_owner (in_flight_entry r node)"
    and "fl_heavy (in_flight_entry r node) \<ge> 2 \<longrightarrow> fl_heavy_owner (in_flight_entry r node) \<noteq> None"
  using assms by (auto simp: flight_ok_def)

lemma flight_ok_dispatch:
  assumes "flight_ok r ss" and "admit env node heavy owner r = (r', True)" and "heavy \<Longrightarrow> hold_live env r node"
  shows "flight_ok r' (ss @ [(node, heavy, owner)])"
proof (cases heavy)
  case True
  note a = admit_heavy [of env node owner r r' True, simplified]
  show ?thesis
    by (rule flight_ok_set [OF assms(1) a [THEN conjunct2]])
      (use a flight_okD [OF assms(1), of node] assms True in \<open>auto split: if_splits\<close>)
next
  case False
  note a = admit_light [of env node owner r r' True, simplified]
  show ?thesis
    by (rule flight_ok_set [OF assms(1) a]) (use flight_okD [OF assms(1), of node] assms False in auto)
qed

lemma flight_ok_refuse:
  assumes "flight_ok r ss" and "admit env node heavy owner r = (r', False)" and "heavy \<Longrightarrow> hold_live env r node"
  shows "flight_ok r' ss"
proof (cases heavy)
  case True
  note a = admit_heavy [of env node owner r r' False, simplified]
  show ?thesis
    by (rule flight_ok_set [OF assms(1) a]) (use flight_okD [OF assms(1), of node] assms True in auto)
next
  case False
  then show ?thesis using admit_light [of env node owner r r' False] assms by simp
qed

lemma flight_ok_close:
  assumes "flight_ok r (xs @ (node, heavy, owner) # ys)" and "dec_in_flight env node heavy r = (r', n)"
  shows "flight_ok r' (xs @ ys)"
proof -
  note ok = flight_okD [OF assms(1), of node]
  have "rg_in_flight r node \<noteq> None"
    using ok(1) by (auto simp: in_flight_entry_def in_flight_default_def split: option.splits)
  note d = dec_entry [OF assms(2) this]
  show ?thesis
    by (rule flight_ok_set [OF assms(1) d]) (use ok in \<open>auto split: if_splits\<close>)
qed
lemma rebuild_in_flight [simp]: "rg_in_flight (rebuild_model_index_for node r) = rg_in_flight r"
  by (simp add: rebuild_model_index_for_def Let_def split: option.split)

lemma supply_ops_in_flight [simp]:
  "rg_in_flight (upsert_device_with_tier now prior node name caps employee probation r) = rg_in_flight r"
  "rg_in_flight (apply_heartbeat now node hb r) = rg_in_flight r"
  "rg_in_flight (mark_departed now node r) = rg_in_flight r"
  "rg_in_flight (quarantine now node secs r) = rg_in_flight r"
  by (simp_all add: upsert_device_with_tier_def apply_heartbeat_def mark_departed_def quarantine_def Let_def
      split: option.split)

lemma remove_all_in_flight [simp]: "rg_in_flight (fold remove_device ns r) = rg_in_flight r"
  by (induction ns arbitrary: r) (simp_all add: remove_device_def)

lemma sweep_in_flight [simp]: "rg_in_flight (sweep now r) = rg_in_flight r"
  by (simp add: sweep_def Let_def)

lemma flight_ok_frame: "flight_ok r ss \<Longrightarrow> rg_in_flight r' = rg_in_flight r \<Longrightarrow> flight_ok r' ss"
  using in_flight_entry_cong [of r' r] by (simp add: flight_ok_def)

lemma flight_ok_step: "fleet_step st st' \<Longrightarrow> flight_ok (fst st) (snd st) \<Longrightarrow> flight_ok (fst st') (snd st')"
proof (induction rule: fleet_step.induct)
  case (dispatch env node heavy owner r r' ss)
  show ?case unfolding fst_conv snd_conv by (rule flight_ok_dispatch [of r ss env node heavy owner r']) (use dispatch in auto)
next
  case (refuse env node heavy owner r r' ss)
  show ?case unfolding fst_conv snd_conv by (rule flight_ok_refuse [of r ss env node heavy owner r']) (use refuse in auto)
next
  case (close_session env node heavy r r' n xs owner ys)
  then show ?case using flight_ok_close [OF _ close_session(1)] by simp
qed (auto elim: flight_ok_frame)

lemma index_sync_step: "fleet_step st st' \<Longrightarrow> index_sync (fst st) \<Longrightarrow> index_sync (fst st')"
proof (induction rule: fleet_step.induct)
  case (dispatch env node heavy owner r r' ss)
  then show ?case using admit_sync [of r env node heavy owner] by simp
next
  case (refuse env node heavy owner r r' ss)
  then show ?case using admit_sync [of r env node heavy owner] by simp
next
  case (close_session env node heavy r r' n xs owner ys)
  then show ?case using dec_sync [of r env node heavy] by simp
next
  case (depart r ss now node)
  then show ?case unfolding mark_departed_def fst_conv
    by (intro index_sync_modify) (simp_all add: listed_keys_def)
next
  case (quarantined r ss now node secs)
  then show ?case unfolding quarantine_def fst_conv
    by (intro index_sync_modify) (simp_all add: listed_keys_def)
qed (simp_all add: upsert_index_sync heartbeat_index_sync sweep_index_sync)

lemma flight_ok_new: "flight_ok (registry_new cfg) []"
  by (simp add: flight_ok_def registry_new_def in_flight_entry_def in_flight_default_def)

lemma index_sync_new: "index_sync (registry_new cfg)"
  by (simp add: index_sync_def index_exact_def registry_new_def)

lemma reachable_ok:
  "fleet_step\<^sup>*\<^sup>* (registry_new cfg, []) st \<Longrightarrow> flight_ok (fst st) (snd st) \<and> index_sync (fst st)"
  by (induction rule: rtranclp_induct) (auto simp: flight_ok_new index_sync_new dest: flight_ok_step index_sync_step)

text \<open>
  C15. Through every history of discover answers, heartbeats, departures, quarantines, sweeps, dispatches and session
  ends, the reverse index from model ids to nodes is exact: a node stands under a normalized model id exactly when the
  registry has that device, in the default tier, advertising the model as loaded or swappable. Devices on probation and
  employee devices are never listed, and node ids stay unique.
\<close>

theorem model_index_exact:
  assumes "fleet_step\<^sup>*\<^sup>* (registry_new cfg, []) (r, ss)"
  shows "distinct (map ds_node_id (rg_devices r)) \<and>
    (node \<in> set (rg_model_to_devices r k) \<longleftrightarrow> (\<exists>d\<in>set (rg_devices r). ds_node_id d = node \<and> k \<in> listed_keys d))"
  using reachable_ok [OF assms] by (simp add: index_sync_def index_exact_def)


definition small_fleet :: ReliabilityConfig where
  "small_fleet = \<lparr>rc_heartbeat_stale_seconds = 6, rc_quarantine_seconds = 3, rc_busy_excess_grace_seconds = 9,
     rc_departed_grace_seconds = 10, rc_convo_stickiness_ttl_seconds = 0, rc_heavy_hold_ttl_seconds = 20\<rparr>"

definition at_second :: "nat \<Rightarrow> reg_env" where
  "at_second s = \<lparr>re_now = nanos s, re_unix = int s, re_tag = take 1\<rparr>"

definition one_node :: "int Registry" where
  "one_node = upsert_device_with_tier 0 nc_memory_bandwidth_gbs ''n1'' ''Studio''
     \<lparr>nc_memory_bandwidth_gbs = 100, nc_loaded_models = [''org/Llama-3''], nc_max_model_size_gb = 40, nc_is_available = True,
      nc_ptn_ids = None, nc_swappable_models = [''qwen''], nc_max_concurrent_requests = None, nc_effective_context = None,
      nc_on_ac_power = None, nc_backend_slots_busy = None, nc_backend_slots_total = Some 2\<rparr> False False
     (registry_new small_fleet)"

lemma one_node_reached: "fleet_step\<^sup>*\<^sup>* (registry_new small_fleet, []) (one_node, [])"
  unfolding one_node_def by (rule r_into_rtranclp) (rule fleet_step.announce)

definition after_admit :: "nat \<Rightarrow> string option \<Rightarrow> int Registry \<Rightarrow> int Registry" where
  "after_admit s owner r = fst (admit (at_second s) ''n1'' True owner r)"

lemma admitted: "snd (admit (at_second s) ''n1'' True owner r) \<Longrightarrow> hold_live (at_second s) r ''n1'' \<Longrightarrow>
   fleet_step (r, ss) (after_admit s owner r, ss @ [(''n1'', True, owner)])"
  unfolding after_admit_def
  by (rule fleet_step.dispatch [of "at_second s" _ _ _ r]) (auto simp: prod_eq_iff)

theorem model_index_exact_witness:
  "distinct (map ds_node_id (rg_devices one_node)) \<and>
    (''n1'' \<in> set (rg_model_to_devices one_node ''llama-3'') \<longleftrightarrow>
      (\<exists>d\<in>set (rg_devices one_node). ds_node_id d = ''n1'' \<and> ''llama-3'' \<in> listed_keys d))"
  by (rule model_index_exact [OF one_node_reached])

definition alice_holds :: "int Registry" where
  "alice_holds = (registry_new small_fleet)\<lparr>
     rg_in_flight := [''n1'' \<mapsto> \<lparr>fl_total = 1, fl_heavy = 1, fl_heavy_since = Some (nanos 1),
       fl_heavy_owner = Some ''alice'', fl_models = (\<lambda>_. 0)\<rparr>],
     rg_heavy_events := [\<lparr>he_ts_unix = 1, he_kind = ''acquire'', he_device = ''n1'', he_req_owner = ''a'',
       he_incumbent_owner = ''none''\<rparr>]\<rparr>"

lemma alice_holds_after: "after_admit 1 (Some ''alice'') (registry_new small_fleet) = alice_holds"
  by (simp add: after_admit_def alice_holds_def admit_def hold_check_def excess_check_def take_hold_def get_device_def
      registry_new_def in_flight_entry_def in_flight_default_def set_in_flight_def record_heavy_def owner_tag_def
      at_second_def Let_def)

lemma alice_may_share:
  "snd (admit (at_second 2) ''n1'' True (Some ''alice'') alice_holds) \<and> hold_live (at_second 2) alice_holds ''n1''"
  by code_simp


section \<open>A hold that is closed late\<close>

text \<open>When a heavy session does outlive the hold, the next heavy expires the hold and takes it over. The close of the first
  session then releases the hold of the second, and a third consumer is admitted beside it.\<close>

definition bob_takes_over :: "int Registry" where
  "bob_takes_over = fst (admit (at_second 40) ''n1'' True (Some ''bob'') alice_holds)"

definition alice_closes_late :: "int Registry" where
  "alice_closes_late = (registry_new small_fleet)\<lparr>
     rg_in_flight := [''n1'' \<mapsto> \<lparr>fl_total = 0, fl_heavy = 0, fl_heavy_since = None, fl_heavy_owner = None,
       fl_models = (\<lambda>_. 0)\<rparr>]\<rparr>"

lemma late_close_frees_newer_hold:
  "snd (admit (at_second 40) ''n1'' True (Some ''bob'') alice_holds)
   \<and> heavy_in_flight bob_takes_over ''n1'' = 1
   \<and> heavy_in_flight (fst (dec_in_flight (at_second 41) ''n1'' True bob_takes_over)) ''n1'' = 0
   \<and> in_flight_entry (fst (dec_in_flight (at_second 41) ''n1'' True bob_takes_over)) ''n1''
      = in_flight_entry alice_closes_late ''n1''
   \<and> snd (admit (at_second 42) ''n1'' True (Some ''carol'') alice_closes_late)"
proof -
  have bob: "rg_in_flight bob_takes_over = [''n1'' \<mapsto> \<lparr>fl_total = 1, fl_heavy = 1, fl_heavy_since = Some (nanos 40),
      fl_heavy_owner = Some ''bob'', fl_models = (\<lambda>_. 0)\<rparr>]"
    by (simp add: bob_takes_over_def alice_holds_def admit_def hold_check_def hold_is_stale_def excess_check_def take_hold_def
      get_device_def registry_new_def in_flight_entry_def set_in_flight_def record_heavy_def owner_tag_def
      small_fleet_def at_second_def nanos_def elapsed_def as_secs_def Let_def)
  then have dec: "rg_in_flight (fst (dec_in_flight (at_second 41) ''n1'' True bob_takes_over)) =
      [''n1'' \<mapsto> \<lparr>fl_total = 0, fl_heavy = 0, fl_heavy_since = None, fl_heavy_owner = None, fl_models = (\<lambda>_. 0)\<rparr>]"
    by (simp add: dec_in_flight_def Let_def)
  have "snd (admit (at_second 40) ''n1'' True (Some ''bob'') alice_holds)"
    "snd (admit (at_second 42) ''n1'' True (Some ''carol'') alice_closes_late)"
    by code_simp+
  then show ?thesis
    using bob dec by (simp add: heavy_in_flight_def in_flight_entry_def alice_closes_late_def)
qed

section \<open>Why there is no supply\<close>

text \<open>The devices that survive each stage of the exclusion, as filters.\<close>

definition fleet_for :: "string \<Rightarrow> 'f DeviceState list \<Rightarrow> 'f DeviceState list" where
  "fleet_for model ds = filter (\<lambda>d. \<not> ds_probation d \<and> \<not> ds_employee d \<and> supports model d) ds"

definition fresh_for :: "int \<Rightarrow> ReliabilityConfig \<Rightarrow> string \<Rightarrow> 'f DeviceState list \<Rightarrow> 'f DeviceState list" where
  "fresh_for now cfg model ds = filter (\<lambda>d. \<not> heartbeat_is_stale now (rc_heartbeat_stale_seconds cfg) d) (fleet_for model ds)"

definition available_for :: "int \<Rightarrow> ReliabilityConfig \<Rightarrow> string \<Rightarrow> 'f DeviceState list \<Rightarrow> 'f DeviceState list" where
  "available_for now cfg model ds = filter (\<lambda>d. nc_is_available (ds_capabilities d)) (fresh_for now cfg model ds)"

definition free_for :: "int \<Rightarrow> ReliabilityConfig \<Rightarrow> string \<Rightarrow> 'f DeviceState list \<Rightarrow> 'f DeviceState list" where
  "free_for now cfg model ds = filter (\<lambda>d. \<not> is_quarantined now d) (available_for now cfg model ds)"

lemma stage_Nil [simp]:
  "fleet_for model [] = []" "fresh_for now cfg model [] = []" "available_for now cfg model [] = []" "free_for now cfg model [] = []"
  by (simp_all add: fleet_for_def fresh_for_def available_for_def free_for_def)

lemma fleet_for_Cons: "fleet_for model (d # ds) =
    (if ds_probation d \<or> ds_employee d \<or> \<not> supports model d then fleet_for model ds else d # fleet_for model ds)"
  by (simp add: fleet_for_def)

lemma stage_Cons:
  "fresh_for now cfg model (d # ds) = (if ds_probation d \<or> ds_employee d \<or> \<not> supports model d
     \<or> heartbeat_is_stale now (rc_heartbeat_stale_seconds cfg) d then fresh_for now cfg model ds
     else d # fresh_for now cfg model ds)"
  "available_for now cfg model (d # ds) = (if ds_probation d \<or> ds_employee d \<or> \<not> supports model d
     \<or> heartbeat_is_stale now (rc_heartbeat_stale_seconds cfg) d \<or> \<not> nc_is_available (ds_capabilities d)
     then available_for now cfg model ds else d # available_for now cfg model ds)"
  "free_for now cfg model (d # ds) = (if ds_probation d \<or> ds_employee d \<or> \<not> supports model d
     \<or> heartbeat_is_stale now (rc_heartbeat_stale_seconds cfg) d \<or> \<not> nc_is_available (ds_capabilities d)
     \<or> is_quarantined now d then free_for now cfg model ds else d # free_for now cfg model ds)"
  by (simp_all add: fresh_for_def available_for_def free_for_def fleet_for_Cons del: filter_filter)

lemma deny_loop_stages:
  "deny_loop now cfg model (s, f, a, u) ds =
    (s \<or> fleet_for model ds \<noteq> [], f \<or> fresh_for now cfg model ds \<noteq> [],
     a \<or> available_for now cfg model ds \<noteq> [], u \<or> free_for now cfg model ds \<noteq> [])"
  by (induction ds arbitrary: s f a u) (simp_all add: fleet_for_Cons stage_Cons)

lemma availability_loop_tiers:
  "availability_loop now cfg model size_gb s f ds =
     (if list_ex (\<lambda>d. model_matches_any model (nc_loaded_models (ds_capabilities d))) (filter (healthy now cfg) ds) then Ready
      else if s \<or> list_ex (\<lambda>d. model_matches_any model (nc_swappable_models (ds_capabilities d)))
        (filter (healthy now cfg) ds) then Warm
      else if f \<or> list_ex (\<lambda>d. size_gb \<le> nc_max_model_size_gb (ds_capabilities d)) (filter (healthy now cfg) ds) then Cold
      else Unavailable)"
  by (induction ds arbitrary: s f) simp_all


section \<open>Devices that flap\<close>

text \<open>A device that left and comes back within the grace is never removed: the sweep keeps it and its models listed.\<close>

lemma departed_kept_in_grace:
  assumes "get_device r node = Some d" and "ds_departed_at d = Some t"
    and "elapsed now t < nanos (rc_departed_grace_seconds (rg_reliability r))"
    and "distinct (map ds_node_id (rg_devices r))"
  shows "node \<notin> set (departed_expired now r)"
proof
  assume "node \<in> set (departed_expired now r)"
  then obtain d' t' where d': "d' \<in> set (rg_devices r)" "ds_node_id d' = node" "ds_departed_at d' = Some t'"
    "elapsed now t' \<ge> nanos (rc_departed_grace_seconds (rg_reliability r))"
    by (auto simp: departed_expired_def split: option.splits)
  moreover have "d' = d" using unique_device [OF assms(4) d'(1)] get_device_id [OF assms(1)] d'(2) by simp
  ultimately show False using assms(2,3) by simp
qed

lemma rejoin_clears_departure:
  assumes "get_device (upsert_device_with_tier now prior node name caps employee probation r) node = Some d"
  shows "ds_departed_at d = None \<and> ds_capabilities d = caps"
proof -
  have "d \<in> set (rg_devices (upsert_device_with_tier now prior node name caps employee probation r))"
    and id: "ds_node_id d = node"
    using get_device_id [OF assms] by blast+
  then obtain x where "d = (if ds_node_id x = node then x\<lparr>ds_display_name := name, ds_capabilities := caps,
      ds_employee := employee, ds_probation := probation, ds_last_seen := now, ds_departed_at := None,
      ds_last_heartbeat := now\<rparr> else x)"
    unfolding upsert_device_with_tier_def Let_def rebuild_devices modify_device_simps set_sql_update by blast
  with id show ?thesis by (cases "ds_node_id x = node") simp_all
qed

end
