(* ===== verification/Pins.thy ===== *)
theory Pins
  imports Gateway_Db
begin

text \<open>
  Storage of private inference networks (\<open>gateway/src/pins.rs\<close> and its tables in \<open>gateway/src/db.rs\<close>): networks with join
  codes, roles, members, signed netmaps, desired model loadouts and usage counts. The state extends the gateway database by
  the five tables of the feature. JSON (de)serialization, the text of an error and the random draws of a join code come
  from outside the repository and are arguments.
\<close>

section \<open>Data\<close>

definition JOIN_CODE_ALPHABET :: string where "JOIN_CODE_ALPHABET = ''ABCDEFGHJKMNPQRSTVWXYZ23456789''"

definition ROLE_ADMIN :: string where "ROLE_ADMIN = ''admin''"

definition ROLE_MODELRATOR :: string where "ROLE_MODELRATOR = ''modelrator''"

record PinSettings =
  st_din_contribution_default :: bool
  st_priority_policy :: string

definition default_settings :: PinSettings where
  "default_settings = \<lparr>st_din_contribution_default = True, st_priority_policy = ''pin_first''\<rparr>"

record Pin =
  p_pin_id :: string
  p_name :: string
  p_join_code :: string
  p_join_code_generation :: int
  p_owner_account_user_id :: string
  p_netmap_generation :: int
  p_settings :: PinSettings
  p_created_at :: int

record PinMember =
  pm_pin_id :: string
  pm_device_id :: string
  pm_node_pubkey :: string
  pm_wg_pubkey :: string
  pm_display_name :: "string option"
  pm_status :: string
  pm_serves_models :: bool
  pm_allow_remote_models :: bool
  pm_offers_exit :: bool
  pm_endpoints :: string
  pm_loaded_models :: string
  pm_requested_at :: int
  pm_approved_by :: "string option"
  pm_joined_at :: "int option"
  pm_last_seen :: "int option"

record member_row = PinMember +
  pm_removed_at :: "int option"
  pm_removed_by :: "string option"

record PinSummary =
  su_pin_id :: string
  su_name :: string
  su_role :: string
  su_active_count :: int
  su_pending_count :: int
  su_netmap_generation :: int
  su_created_at :: int

record PinMembershipSummary =
  ms_pin_id :: string
  ms_name :: string
  ms_status :: string

record role_row =
  ro_pin_id :: string
  ro_account_user_id :: string
  ro_role :: string
  ro_granted_by :: "string option"
  ro_granted_at :: int

record ModelPolicyEntry =
  mp_device_id :: string
  mp_model_id :: string
  mp_desired_state :: string
  mp_applied_state :: "string option"
  mp_last_error :: "string option"
  mp_set_at :: int
  mp_applied_at :: "int option"

record policy_row = ModelPolicyEntry +
  mp_pin_id :: string
  mp_set_by :: string

record UsageEntry =
  ue_day :: string
  ue_consumer_device_id :: string
  ue_model_id :: string
  ue_requests :: int
  ue_tokens_in :: int
  ue_tokens_out :: int

record UsageRow =
  us_day :: string
  us_provider_device_id :: string
  us_consumer_device_id :: string
  us_model_id :: string
  us_requests :: int
  us_tokens_in :: int
  us_tokens_out :: int

record usage_row = UsageRow +
  us_pin_id :: string

record batch_row =
  ba_pin_id :: string
  ba_provider_device_id :: string
  ba_batch_id :: string
  ba_received_at :: int

record pin_db =
  pd_core :: gateway_db
  pin_roles :: "role_row list"
  pin_members :: "member_row list"
  pin_usage :: "usage_row list"
  pin_model_policy :: "policy_row list"
  pin_usage_batches :: "batch_row list"

text \<open>Endpoints and netmaps of the wire protocol (\<open>protocol/src/pin.rs\<close>).\<close>

record PinEndpoint =
  ep_kind :: string
  ep_addr :: string

record PinNetmapMember =
  nm_device_id :: string
  nm_node_pubkey :: string
  nm_wg_pubkey :: string
  nm_display_name :: "string option"
  nm_serves_models :: bool
  nm_offers_exit :: bool
  nm_disabled :: bool
  nm_endpoints :: "PinEndpoint list"
  nm_loaded_models :: "string list"
  nm_last_seen :: "int option"

record PinNetmap =
  nt_pin_id :: string
  nt_name :: string
  nt_generation :: int
  nt_issued_at :: int
  nt_members :: "PinNetmapMember list"

record SignedPinNetmap =
  sn_netmap :: PinNetmap
  sn_gateway_pubkey :: string
  sn_signature :: string

text \<open>What serde, the signature library and the error display provide.\<close>

record pin_ext =
  settings_json :: "PinSettings \<Rightarrow> string"
  settings_from :: "string \<Rightarrow> PinSettings option"
  endpoints_json :: "PinEndpoint list \<Rightarrow> string"
  endpoints_from :: "string \<Rightarrow> PinEndpoint list option"
  models_json :: "string list \<Rightarrow> string"
  models_from :: "string \<Rightarrow> string list option"
  is_json :: "string \<Rightarrow> bool"
  json_error :: "string \<Rightarrow> string"
  error_text :: "anyhow \<Rightarrow> string"
  sign_netmap_hex :: "PinNetmap \<Rightarrow> string"
  gateway_public_key :: string

section \<open>Statements\<close>

abbreviation pins_of :: "pin_db \<Rightarrow> pin_row list" where
  "pins_of s \<equiv> pins (pd_core s)"

definition pin_exists :: "pin_db \<Rightarrow> string \<Rightarrow> bool" where
  "pin_exists s pin = has_row (\<lambda>p. pin_pin_id p = pin) (pins_of s)"

definition update_pins :: "(pin_row \<Rightarrow> bool) \<Rightarrow> (pin_row \<Rightarrow> pin_row) \<Rightarrow> pin_db \<Rightarrow> pin_db" where
  "update_pins P f s = s\<lparr>pd_core := (pd_core s)\<lparr>pins := sql_update P f (pins_of s)\<rparr>\<rparr>"

definition bump_generation :: "string \<Rightarrow> pin_db \<Rightarrow> pin_db" where
  "bump_generation pin s = update_pins (\<lambda>p. pin_pin_id p = pin)
     (\<lambda>p. p\<lparr>pin_netmap_generation := pin_netmap_generation p + 1\<rparr>) s"

definition is_member :: "string \<Rightarrow> string \<Rightarrow> ('a PinMember_scheme) \<Rightarrow> bool" where
  "is_member pin device m \<longleftrightarrow> pm_pin_id m = pin \<and> pm_device_id m = device"

definition update_members :: "(member_row \<Rightarrow> bool) \<Rightarrow> (member_row \<Rightarrow> member_row) \<Rightarrow> pin_db \<Rightarrow> pin_db" where
  "update_members P f s = s\<lparr>pin_members := sql_update P f (pin_members s)\<rparr>"

definition changed :: "('r \<Rightarrow> bool) \<Rightarrow> 'r list \<Rightarrow> nat" where
  "changed P t = length (filter P t)"

section \<open>Join codes\<close>

text \<open>The ten draws of \<open>gen_range(0..30)\<close>, in the order they are made.\<close>

definition pick_letters :: "nat list \<Rightarrow> string" where
  "pick_letters draws = map (\<lambda>i. JOIN_CODE_ALPHABET ! i) draws"

definition generate_join_code :: "nat list \<Rightarrow> string" where
  "generate_join_code draws = pick_letters (take 4 draws) @ ''-'' @ pick_letters (take 4 (drop 4 draws)) @ ''-''
     @ pick_letters (take 2 (drop 8 draws))"

definition normalize_join_code :: "string \<Rightarrow> string" where
  "normalize_join_code code = List.map_filter (\<lambda>c. let up = ascii_upper_char c in
     if up \<in> set JOIN_CODE_ALPHABET then Some up else None) code"

section \<open>Networks\<close>

definition row_to_pin :: "pin_ext \<Rightarrow> pin_row \<Rightarrow> Pin" where
  "row_to_pin x p = \<lparr>p_pin_id = pin_pin_id p, p_name = pin_name p, p_join_code = pin_join_code p,
     p_join_code_generation = pin_join_code_generation p, p_owner_account_user_id = pin_owner_account_user_id p,
     p_netmap_generation = pin_netmap_generation p,
     p_settings = (case settings_from x (pin_settings p) of None \<Rightarrow> default_settings | Some v \<Rightarrow> v),
     p_created_at = pin_created_at p\<rparr>"

definition live_pin_row :: "pin_db \<Rightarrow> string \<Rightarrow> pin_row option" where
  "live_pin_row s pin = find (\<lambda>p. pin_pin_id p = pin \<and> pin_deleted_at p = None) (pins_of s)"

definition get_pin :: "pin_ext \<Rightarrow> string \<Rightarrow> pin_db \<Rightarrow> Pin option" where
  "get_pin x pin s = map_option (row_to_pin x) (live_pin_row s pin)"

definition insert_pin :: "pin_row \<Rightarrow> pin_db \<Rightarrow> anyhow + pin_db" where
  "insert_pin p s =
     (if pin_exists s (pin_pin_id p) \<or> \<not> account_exists (pd_core s) (pin_owner_account_user_id p)
      then Inl ConstraintViolation
      else Inr (s\<lparr>pd_core := (pd_core s)\<lparr>pins := pins_of s @ [p]\<rparr>\<rparr>))"

definition role_key :: "role_row \<Rightarrow> string \<times> string" where
  "role_key r = (ro_pin_id r, ro_account_user_id r)"

definition role_ok :: "pin_db \<Rightarrow> role_row \<Rightarrow> bool" where
  "role_ok s r \<longleftrightarrow> pin_exists s (ro_pin_id r) \<and> ro_role r \<in> {''admin'', ''modelrator''}"

definition insert_role :: "role_row \<Rightarrow> pin_db \<Rightarrow> anyhow + pin_db" where
  "insert_role r s =
     (if has_row (\<lambda>x. role_key x = role_key r) (pin_roles s) \<or> \<not> role_ok s r then Inl ConstraintViolation
      else Inr (s\<lparr>pin_roles := pin_roles s @ [r]\<rparr>))"

definition create_pin ::
  "pin_ext \<Rightarrow> int \<Rightarrow> string \<Rightarrow> nat list \<Rightarrow> string \<Rightarrow> string \<Rightarrow> pin_db \<Rightarrow> anyhow + pin_db \<times> Pin" where
  "create_pin x now pin draws name owner s =
     (let name = trim name in
     rbind (ensure (name \<noteq> []) (Bail ''network name is required'')) (\<lambda>_.
     rbind (insert_pin \<lparr>pin_pin_id = pin, pin_name = name, pin_join_code = generate_join_code draws,
         pin_join_code_generation = 1, pin_owner_account_user_id = owner, pin_netmap_generation = 1,
         pin_settings = settings_json x default_settings, pin_created_at = now, pin_deleted_at = None\<rparr> s) (\<lambda>s1.
     rbind (insert_role \<lparr>ro_pin_id = pin, ro_account_user_id = owner, ro_role = ''admin'', ro_granted_by = Some owner,
         ro_granted_at = now\<rparr> s1) (\<lambda>s2.
     rbind (ok_or (Bail ''pin vanished after create'') (get_pin x pin s2)) (\<lambda>p. Inr (s2, p))))))"

definition find_by_join_code :: "pin_ext \<Rightarrow> string \<Rightarrow> pin_db \<Rightarrow> Pin option" where
  "find_by_join_code x code s =
     (let normalized = normalize_join_code code in
      if normalized = [] then None
      else find (\<lambda>p. normalize_join_code (p_join_code p) = normalized)
        (map (row_to_pin x) (filter (\<lambda>p. pin_deleted_at p = None) (pins_of s))))"

definition rotate_join_code :: "nat list \<Rightarrow> string \<Rightarrow> pin_db \<Rightarrow> anyhow + pin_db \<times> string" where
  "rotate_join_code draws pin s =
     (let code = generate_join_code draws;
          P = (\<lambda>p. pin_pin_id p = pin \<and> pin_deleted_at p = None) in
     rbind (ensure (changed P (pins_of s) = 1) (Bail ''unknown network'')) (\<lambda>_.
     Inr (update_pins P (\<lambda>p. p\<lparr>pin_join_code := code,
       pin_join_code_generation := pin_join_code_generation p + 1\<rparr>) s, code)))"

definition delete_pin :: "int \<Rightarrow> string \<Rightarrow> pin_db \<Rightarrow> anyhow + pin_db" where
  "delete_pin now pin s =
     (let P = (\<lambda>p. pin_pin_id p = pin \<and> pin_deleted_at p = None) in
     rbind (ensure (changed P (pins_of s) = 1) (Bail ''unknown network'')) (\<lambda>_.
     Inr (update_pins P (\<lambda>p. p\<lparr>pin_deleted_at := Some now\<rparr>) s)))"

definition set_settings :: "pin_ext \<Rightarrow> string \<Rightarrow> PinSettings \<Rightarrow> pin_db \<Rightarrow> anyhow + pin_db" where
  "set_settings x pin settings s =
     (let P = (\<lambda>p. pin_pin_id p = pin \<and> pin_deleted_at p = None) in
     rbind (ensure (changed P (pins_of s) = 1) (Bail ''unknown network'')) (\<lambda>_.
     Inr (update_pins P (\<lambda>p. p\<lparr>pin_settings := settings_json x settings\<rparr>) s)))"

definition netmap_generation :: "string \<Rightarrow> pin_db \<Rightarrow> anyhow + int" where
  "netmap_generation pin s =
     ok_or QueryReturnedNoRows (map_option pin_netmap_generation (find (\<lambda>p. pin_pin_id p = pin) (pins_of s)))"

definition bump_netmap_generation :: "string \<Rightarrow> pin_db \<Rightarrow> pin_db \<times> (anyhow + int)" where
  "bump_netmap_generation pin s = (let s1 = bump_generation pin s in (s1, netmap_generation pin s1))"

section \<open>Membership\<close>

definition member_status :: "string \<Rightarrow> string \<Rightarrow> pin_db \<Rightarrow> string option" where
  "member_status pin device s = map_option pm_status (find (is_member pin device) (pin_members s))"

definition new_member :: "int \<Rightarrow> string \<Rightarrow> string \<Rightarrow> string \<Rightarrow> string option \<Rightarrow> member_row" where
  "new_member now pin device pubkey name =
     \<lparr>pm_pin_id = pin, pm_device_id = device, pm_node_pubkey = pubkey, pm_wg_pubkey = [], pm_display_name = name,
      pm_status = ''pending'', pm_serves_models = True, pm_allow_remote_models = True, pm_offers_exit = False,
      pm_endpoints = ''[]'', pm_loaded_models = ''[]'', pm_requested_at = now, pm_approved_by = None,
      pm_joined_at = None, pm_last_seen = None, pm_removed_at = None, pm_removed_by = None\<rparr>"

definition reknock :: "int \<Rightarrow> string \<Rightarrow> string option \<Rightarrow> member_row \<Rightarrow> member_row" where
  "reknock now pubkey name m = m\<lparr>pm_status := ''pending'', pm_node_pubkey := pubkey,
     pm_display_name := (case name of None \<Rightarrow> pm_display_name m | Some n \<Rightarrow> Some n), pm_requested_at := now,
     pm_approved_by := None, pm_joined_at := None, pm_removed_at := None, pm_removed_by := None\<rparr>"

definition submit_join ::
  "int \<Rightarrow> string \<Rightarrow> string \<Rightarrow> string \<Rightarrow> string option \<Rightarrow> pin_db \<Rightarrow> anyhow + pin_db" where
  "submit_join now pin device pubkey name s = (case member_status pin device s of
      None \<Rightarrow>
        if \<not> pin_exists s pin then Inl ConstraintViolation
        else Inr (s\<lparr>pin_members := pin_members s @ [new_member now pin device pubkey name]\<rparr>)
    | Some st \<Rightarrow>
        if st = ''pending'' \<or> st = ''removed''
        then Inr (update_members (is_member pin device) (reknock now pubkey name) s)
        else Inr s)"

definition role_of :: "string \<Rightarrow> string \<Rightarrow> pin_db \<Rightarrow> string option" where
  "role_of pin account s =
     (if map_option pin_owner_account_user_id (live_pin_row s pin) = Some account then Some ROLE_ADMIN
      else map_option ro_role (find (\<lambda>r. ro_pin_id r = pin \<and> ro_account_user_id r = account) (pin_roles s)))"

definition require_admin :: "string \<Rightarrow> string \<Rightarrow> pin_db \<Rightarrow> anyhow + unit" where
  "require_admin pin account s = ensure (role_of pin account s = Some ROLE_ADMIN)
     (Bail (''account '' @ account @ '' is not an admin of this network''))"

definition approve_member :: "int \<Rightarrow> string \<Rightarrow> string \<Rightarrow> string \<Rightarrow> pin_db \<Rightarrow> anyhow + pin_db" where
  "approve_member now pin device approver s =
     rbind (require_admin pin approver s) (\<lambda>_.
     let P = (\<lambda>m. is_member pin device m \<and> pm_status m = ''pending'') in
     rbind (ensure (changed P (pin_members s) = 1) (Bail ''no pending join request for this device'')) (\<lambda>_.
     Inr (bump_generation pin (update_members P (\<lambda>m. m\<lparr>pm_status := ''active'', pm_approved_by := Some approver,
       pm_joined_at := Some now\<rparr>) s))))"

definition deny_member :: "string \<Rightarrow> string \<Rightarrow> pin_db \<Rightarrow> anyhow + pin_db" where
  "deny_member pin device s =
     (let P = (\<lambda>m. is_member pin device m \<and> pm_status m = ''pending'') in
     rbind (ensure (changed P (pin_members s) = 1) (Bail ''no pending join request for this device'')) (\<lambda>_.
     Inr (s\<lparr>pin_members := sql_delete P (pin_members s)\<rparr>)))"

definition remove_member :: "int \<Rightarrow> string \<Rightarrow> string \<Rightarrow> string \<Rightarrow> pin_db \<Rightarrow> anyhow + pin_db" where
  "remove_member now pin device remover s =
     (let P = (\<lambda>m. is_member pin device m \<and> pm_status m \<in> {''active'', ''disabled''}) in
     rbind (ensure (changed P (pin_members s) = 1) (Bail ''device is not a member of this network'')) (\<lambda>_.
     Inr (bump_generation pin (update_members P (\<lambda>m. m\<lparr>pm_status := ''removed'', pm_removed_at := Some now,
       pm_removed_by := Some remover\<rparr>) s))))"

definition set_member_disabled :: "string \<Rightarrow> string \<Rightarrow> bool \<Rightarrow> pin_db \<Rightarrow> anyhow + pin_db" where
  "set_member_disabled pin device disabled s =
     (let (old, new) = (if disabled then (''active'', ''disabled'') else (''disabled'', ''active''));
          P = (\<lambda>m. is_member pin device m \<and> pm_status m = old) in
     rbind (ensure (changed P (pin_members s) = 1) (Bail (''device is not '' @ old @ '' in this network''))) (\<lambda>_.
     Inr (bump_generation pin (update_members P (\<lambda>m. m\<lparr>pm_status := new\<rparr>) s))))"

definition update_member ::
  "string \<Rightarrow> string \<Rightarrow> string option \<Rightarrow> bool option \<Rightarrow> pin_db \<Rightarrow> anyhow + pin_db" where
  "update_member pin device display_name serves_models s =
     rbind (case display_name of
         None \<Rightarrow> Inr s
       | Some name \<Rightarrow> rbind (ensure (changed (is_member pin device) (pin_members s) = 1)
           (Bail ''device is not a member of this network'')) (\<lambda>_.
           Inr (update_members (is_member pin device) (\<lambda>m. m\<lparr>pm_display_name := Some name\<rparr>) s))) (\<lambda>s1.
     case serves_models of
       None \<Rightarrow> Inr s1
     | Some serves \<Rightarrow>
         let P = (\<lambda>m. is_member pin device m \<and> pm_serves_models m \<noteq> serves);
             s2 = update_members P (\<lambda>m. m\<lparr>pm_serves_models := serves\<rparr>) s1
         in Inr (if changed P (pin_members s1) = 1 then bump_generation pin s2 else s2))"

definition touch_member_last_seen :: "int \<Rightarrow> string \<Rightarrow> string \<Rightarrow> pin_db \<Rightarrow> pin_db" where
  "touch_member_last_seen now pin device s =
     update_members (is_member pin device) (\<lambda>m. m\<lparr>pm_last_seen := Some now\<rparr>) s"

definition set_member_offers_exit :: "string \<Rightarrow> string \<Rightarrow> bool \<Rightarrow> pin_db \<Rightarrow> pin_db" where
  "set_member_offers_exit pin device offers s =
     (let P = (\<lambda>m. is_member pin device m \<and> pm_offers_exit m \<noteq> offers);
          s1 = update_members P (\<lambda>m. m\<lparr>pm_offers_exit := offers\<rparr>) s
      in if changed P (pin_members s) > 0 then bump_generation pin s1 else s1)"

definition update_member_endpoints ::
  "pin_ext \<Rightarrow> int \<Rightarrow> string \<Rightarrow> string \<Rightarrow> string \<Rightarrow> string \<Rightarrow> string \<Rightarrow> pin_db \<Rightarrow> anyhow + pin_db" where
  "update_member_endpoints x now pin device endpoints loaded wg_pubkey s =
     rbind (ensure (is_json x endpoints) (Bail (json_error x endpoints))) (\<lambda>_.
     rbind (ensure (is_json x loaded) (Bail (json_error x loaded))) (\<lambda>_.
     Inr (update_members (is_member pin device) (\<lambda>m. m\<lparr>pm_endpoints := endpoints, pm_loaded_models := loaded,
       pm_wg_pubkey := wg_pubkey, pm_last_seen := Some now\<rparr>) s)))"

definition set_allow_remote_models :: "string \<Rightarrow> string \<Rightarrow> bool \<Rightarrow> pin_db \<Rightarrow> pin_db" where
  "set_allow_remote_models pin device allow s =
     update_members (is_member pin device) (\<lambda>m. m\<lparr>pm_allow_remote_models := allow\<rparr>) s"

definition members :: "string \<Rightarrow> pin_db \<Rightarrow> PinMember list" where
  "members pin s = map PinMember.truncate (sort_key pm_requested_at
     (filter (\<lambda>m. pm_pin_id m = pin \<and> pm_status m \<noteq> ''removed'') (pin_members s)))"

section \<open>Roles\<close>

definition grant_role :: "int \<Rightarrow> string \<Rightarrow> string \<Rightarrow> string \<Rightarrow> string \<Rightarrow> pin_db \<Rightarrow> anyhow + pin_db" where
  "grant_role now pin account role granted_by s =
     rbind (ensure (role = ROLE_ADMIN \<or> role = ROLE_MODELRATOR) (Bail (''unknown role '' @ role))) (\<lambda>_.
     let r = \<lparr>ro_pin_id = pin, ro_account_user_id = account, ro_role = role, ro_granted_by = Some granted_by,
           ro_granted_at = now\<rparr> in
     rbind (ensure (role_ok s r) ConstraintViolation) (\<lambda>_.
     Inr (s\<lparr>pin_roles := sql_upsert role_key r (\<lambda>x. x\<lparr>ro_role := role, ro_granted_by := Some granted_by,
       ro_granted_at := now\<rparr>) (pin_roles s)\<rparr>)))"

definition revoke_role :: "string \<Rightarrow> string \<Rightarrow> pin_db \<Rightarrow> anyhow + pin_db" where
  "revoke_role pin account s =
     (let owner = map_option pin_owner_account_user_id (find (\<lambda>p. pin_pin_id p = pin) (pins_of s));
          P = (\<lambda>r. ro_pin_id r = pin \<and> ro_account_user_id r = account) in
     rbind (ensure (owner \<noteq> None) (Bail ''unknown network'')) (\<lambda>_.
     rbind (ensure (owner \<noteq> Some account) (Bail ''cannot revoke the owner's role; transfer ownership first'')) (\<lambda>_.
     rbind (ensure (map_option ro_role (find P (pin_roles s)) \<noteq> Some ROLE_ADMIN
         \<or> changed (\<lambda>r. ro_pin_id r = pin \<and> ro_role r = ''admin'') (pin_roles s) > 1)
       (Bail ''cannot remove the last admin'')) (\<lambda>_.
     Inr (s\<lparr>pin_roles := sql_delete P (pin_roles s)\<rparr>)))))"

section \<open>Lists for a caller\<close>

definition live_pins_by_age :: "pin_db \<Rightarrow> pin_row list" where
  "live_pins_by_age s = sort_key pin_created_at (filter (\<lambda>p. pin_deleted_at p = None) (pins_of s))"

definition count_members :: "string \<Rightarrow> string list \<Rightarrow> pin_db \<Rightarrow> int" where
  "count_members pin statuses s = int (changed (\<lambda>m. pm_pin_id m = pin \<and> pm_status m \<in> set statuses) (pin_members s))"

definition pins_for_account :: "string \<Rightarrow> pin_db \<Rightarrow> PinSummary list" where
  "pins_for_account account s = concat (map (\<lambda>p. map (\<lambda>r.
       \<lparr>su_pin_id = pin_pin_id p, su_name = pin_name p, su_role = ro_role r,
        su_active_count = count_members (pin_pin_id p) [''active'', ''disabled''] s,
        su_pending_count = count_members (pin_pin_id p) [''pending''] s,
        su_netmap_generation = pin_netmap_generation p, su_created_at = pin_created_at p\<rparr>)
     (filter (\<lambda>r. ro_pin_id r = pin_pin_id p \<and> ro_account_user_id r = account) (pin_roles s))) (live_pins_by_age s))"

definition pins_for_device :: "string \<Rightarrow> pin_db \<Rightarrow> PinMembershipSummary list" where
  "pins_for_device device s = concat (map (\<lambda>p. map (\<lambda>m.
       \<lparr>ms_pin_id = pin_pin_id p, ms_name = pin_name p, ms_status = pm_status m\<rparr>)
     (filter (\<lambda>m. is_member (pin_pin_id p) device m \<and> pm_status m \<noteq> ''removed'') (pin_members s))) (live_pins_by_age s))"

section \<open>Netmaps\<close>

definition netmap_member :: "pin_ext \<Rightarrow> (string \<Rightarrow> string list option) \<Rightarrow> PinMember \<Rightarrow> PinNetmapMember" where
  "netmap_member x live m =
     (let disabled = (pm_status m = ''disabled'') in
      \<lparr>nm_device_id = pm_device_id m, nm_node_pubkey = pm_node_pubkey m, nm_wg_pubkey = pm_wg_pubkey m,
       nm_display_name = pm_display_name m, nm_serves_models = pm_serves_models m, nm_offers_exit = pm_offers_exit m,
       nm_disabled = disabled,
       nm_endpoints = (if disabled then []
         else (case endpoints_from x (pm_endpoints m) of None \<Rightarrow> [] | Some es \<Rightarrow> es)),
       nm_loaded_models = (case live (pm_node_pubkey m) of
           Some models \<Rightarrow> models
         | None \<Rightarrow> (case models_from x (pm_loaded_models m) of None \<Rightarrow> [] | Some ms \<Rightarrow> ms)),
       nm_last_seen = pm_last_seen m\<rparr>)"

definition build_netmap ::
  "pin_ext \<Rightarrow> int \<Rightarrow> string \<Rightarrow> (string \<Rightarrow> string list option) \<Rightarrow> pin_db \<Rightarrow> anyhow + PinNetmap" where
  "build_netmap x now pin live s =
     rbind (ok_or (Bail ''unknown network'') (get_pin x pin s)) (\<lambda>p.
     Inr \<lparr>nt_pin_id = p_pin_id p, nt_name = p_name p, nt_generation = p_netmap_generation p, nt_issued_at = now,
       nt_members = map (netmap_member x live)
         (filter (\<lambda>m. pm_status m = ''active'' \<or> pm_status m = ''disabled'') (members pin s))\<rparr>)"

definition sign_netmap :: "pin_ext \<Rightarrow> PinNetmap \<Rightarrow> SignedPinNetmap" where
  "sign_netmap x netmap = \<lparr>sn_netmap = netmap, sn_gateway_pubkey = gateway_public_key x,
     sn_signature = sign_netmap_hex x netmap\<rparr>"

section \<open>Model loadouts\<close>

definition is_policy :: "string \<Rightarrow> string \<Rightarrow> policy_row \<Rightarrow> bool" where
  "is_policy pin device r \<longleftrightarrow> mp_pin_id r = pin \<and> mp_device_id r = device"

definition insert_policy :: "policy_row \<Rightarrow> pin_db \<Rightarrow> anyhow + pin_db" where
  "insert_policy r s =
     (if has_row (\<lambda>y. is_policy (mp_pin_id r) (mp_device_id r) y \<and> mp_model_id y = mp_model_id r) (pin_model_policy s)
        \<or> \<not> pin_exists s (mp_pin_id r) \<or> mp_desired_state r \<notin> {''loaded'', ''downloaded'', ''none''}
      then Inl ConstraintViolation
      else Inr (s\<lparr>pin_model_policy := pin_model_policy s @ [r]\<rparr>))"

definition new_policy :: "int \<Rightarrow> string \<Rightarrow> string \<Rightarrow> string \<Rightarrow> string \<times> string \<Rightarrow> policy_row" where
  "new_policy now pin device set_by ms = \<lparr>mp_device_id = device, mp_model_id = fst ms, mp_desired_state = snd ms,
     mp_applied_state = None, mp_last_error = None, mp_set_at = now, mp_applied_at = None, mp_pin_id = pin,
     mp_set_by = set_by\<rparr>"

fun check_states :: "(string \<times> string) list \<Rightarrow> anyhow + unit" where
  "check_states [] = Inr ()"
| "check_states ((_, state) # ms) =
     rbind (ensure (state \<in> {''loaded'', ''downloaded'', ''none''}) (Bail (''invalid desired state '' @ state)))
       (\<lambda>_. check_states ms)"

definition set_model_policy ::
  "int \<Rightarrow> string \<Rightarrow> string \<Rightarrow> (string \<times> string) list \<Rightarrow> string \<Rightarrow> pin_db \<Rightarrow> anyhow + pin_db" where
  "set_model_policy now pin device models set_by s =
     rbind (check_states models) (\<lambda>_.
     rfold (\<lambda>ms. insert_policy (new_policy now pin device set_by ms)) models
       (s\<lparr>pin_model_policy := sql_delete (is_policy pin device) (pin_model_policy s)\<rparr>))"

definition model_policy :: "string \<Rightarrow> string option \<Rightarrow> pin_db \<Rightarrow> ModelPolicyEntry list" where
  "model_policy pin device s = map ModelPolicyEntry.truncate (case device of
      Some dev \<Rightarrow> sort_key mp_model_id (filter (is_policy pin dev) (pin_model_policy s))
    | None \<Rightarrow> sort_key (\<lambda>r. (mp_device_id r, mp_model_id r)) (filter (\<lambda>r. mp_pin_id r = pin) (pin_model_policy s)))"

definition report_model_policy_status ::
  "int \<Rightarrow> string \<Rightarrow> string \<Rightarrow> (string \<times> string \<times> string option) list \<Rightarrow> pin_db \<Rightarrow> pin_db" where
  "report_model_policy_status now pin device statuses s =
     fold (\<lambda>(model, applied, error) t. t\<lparr>pin_model_policy := sql_update
       (\<lambda>r. is_policy pin device r \<and> mp_model_id r = model)
       (\<lambda>r. r\<lparr>mp_applied_state := Some applied, mp_applied_at := Some now, mp_last_error := error\<rparr>)
       (pin_model_policy t)\<rparr>) statuses s"

section \<open>Usage\<close>

definition usage_key :: "usage_row \<Rightarrow> string \<times> string \<times> string \<times> string \<times> string" where
  "usage_key r = (us_pin_id r, us_day r, us_provider_device_id r, us_consumer_device_id r, us_model_id r)"

definition entry_row :: "string \<Rightarrow> string \<Rightarrow> UsageEntry \<Rightarrow> usage_row" where
  "entry_row pin provider e = \<lparr>us_day = ue_day e, us_provider_device_id = provider,
     us_consumer_device_id = ue_consumer_device_id e, us_model_id = ue_model_id e, us_requests = ue_requests e,
     us_tokens_in = ue_tokens_in e, us_tokens_out = ue_tokens_out e, us_pin_id = pin\<rparr>"

definition add_usage :: "UsageEntry \<Rightarrow> usage_row \<Rightarrow> usage_row" where
  "add_usage e r = r\<lparr>us_requests := us_requests r + ue_requests e, us_tokens_in := us_tokens_in r + ue_tokens_in e,
     us_tokens_out := us_tokens_out r + ue_tokens_out e\<rparr>"

definition apply_entry :: "string \<Rightarrow> string \<Rightarrow> UsageEntry \<Rightarrow> pin_db \<Rightarrow> anyhow + pin_db" where
  "apply_entry pin provider e s =
     rbind (ensure (ue_requests e \<ge> 0 \<and> ue_tokens_in e \<ge> 0 \<and> ue_tokens_out e \<ge> 0)
       (Bail ''usage counts must be non-negative'')) (\<lambda>_.
     Inr (s\<lparr>pin_usage := sql_upsert usage_key (entry_row pin provider e) (add_usage e) (pin_usage s)\<rparr>))"

definition batch_key :: "batch_row \<Rightarrow> string \<times> string \<times> string" where
  "batch_key b = (ba_pin_id b, ba_provider_device_id b, ba_batch_id b)"

definition record_usage_batch ::
  "int \<Rightarrow> string \<Rightarrow> string \<Rightarrow> string \<Rightarrow> UsageEntry list \<Rightarrow> pin_db \<Rightarrow> anyhow + pin_db \<times> bool" where
  "record_usage_batch now pin provider batch entries s =
     (let b = \<lparr>ba_pin_id = pin, ba_provider_device_id = provider, ba_batch_id = batch, ba_received_at = now\<rparr> in
      if has_row (\<lambda>y. batch_key y = batch_key b) (pin_usage_batches s) then Inr (s, False)
      else rbind (ensure (pin_exists s pin) ConstraintViolation) (\<lambda>_.
        rbind (rfold (apply_entry pin provider) entries (s\<lparr>pin_usage_batches := pin_usage_batches s @ [b]\<rparr>)) (\<lambda>s1.
        Inr (s1, True))))"

definition usage_rows :: "string \<Rightarrow> string option \<Rightarrow> string option \<Rightarrow> string option \<Rightarrow> pin_db \<Rightarrow> UsageRow list" where
  "usage_rows pin from to consumer s =
     map UsageRow.truncate (sort_key (\<lambda>r. (us_day r, us_provider_device_id r, us_consumer_device_id r, us_model_id r))
       (filter (\<lambda>r. us_pin_id r = pin \<and> (case from of None \<Rightarrow> True | Some d \<Rightarrow> d \<le> us_day r)
         \<and> (case to of None \<Rightarrow> True | Some d \<Rightarrow> us_day r \<le> d)
         \<and> (case consumer of None \<Rightarrow> True | Some c \<Rightarrow> us_consumer_device_id r = c)) (pin_usage s)))"

end
