(* ===== verification/Scheduler.thy ===== *)
theory Scheduler
  imports Registry
begin

text \<open>
  Device selection (\<open>gateway/src/scheduler.rs\<close>). The score of a device is a product of floating-point factors; the
  model takes it and the fast-lane cutoff (\<open>best_score * 0.8\<close>) as parameters with values in an ordered type, and the
  facts about the arithmetic that a theorem needs are its hypotheses. The random choice inside the fast lane is an argument.
\<close>

section \<open>Definitions\<close>

record ('f, 's) Scheduler =
  sc_max_queue_depth :: nat
  sc_score_with_queue :: "'f DeviceState \<Rightarrow> bool \<Rightarrow> nat \<Rightarrow> 's"
  sc_cutoff :: "'s \<Rightarrow> 's"

definition U32_MAX :: nat where "U32_MAX = 4294967295"

definition score :: "('f, 's) Scheduler \<Rightarrow> 'f DeviceState \<Rightarrow> bool \<Rightarrow> nat \<Rightarrow> 's" where
  "score sc d loaded n = sc_score_with_queue sc d loaded (max (lv_queue_depth (ds_live d)) n)"

definition context_fits :: "nat option \<Rightarrow> 'f DeviceState \<Rightarrow> bool" where
  "context_fits min_context d = (case min_context of None \<Rightarrow> True
     | Some need \<Rightarrow> (case nc_effective_context (ds_capabilities d) of None \<Rightarrow> True | Some have' \<Rightarrow> \<not> have' < need))"

definition on_battery :: "'f DeviceState \<Rightarrow> bool" where
  "on_battery d \<longleftrightarrow> nc_on_ac_power (ds_capabilities d) = Some False"

fun loaded_of :: "Eligibility \<Rightarrow> bool option" where
  "loaded_of Loaded = Some True"
| "loaded_of Swappable = Some False"
| "loaded_of _ = None"

text \<open>One round of the loop of \<open>saturated\<close>: \<open>None\<close> skips the device, otherwise whether it is at its queue cap.\<close>

definition saturation_of ::
  "('f, 's::{linorder, zero}) Scheduler \<Rightarrow> int \<Rightarrow> string \<Rightarrow> string list \<Rightarrow> 'f Registry \<Rightarrow> nat option \<Rightarrow> 'f DeviceState \<Rightarrow> bool option" where
  "saturation_of sc now model exclude r min_context d =
     (if ds_node_id d \<in> set exclude then None
      else case loaded_of (is_eligible_for now model U32_MAX d) of
        None \<Rightarrow> None
      | Some loaded \<Rightarrow>
          if \<not> context_fits min_context d then None
          else if on_battery d then None
          else if sc_score_with_queue sc d loaded 0 \<le> 0 then None
          else Some (lv_queue_depth (ds_live d) \<ge> sc_max_queue_depth sc
            \<or> in_flight r (ds_node_id d) \<ge> sc_max_queue_depth sc))"

fun saturated_loop ::
  "('f, 's::{linorder, zero}) Scheduler \<Rightarrow> int \<Rightarrow> string \<Rightarrow> string list \<Rightarrow> 'f Registry \<Rightarrow> nat option \<Rightarrow> nat \<Rightarrow> 'f DeviceState list \<Rightarrow> bool" where
  "saturated_loop sc now model exclude r min_context blocked [] = (blocked > 0)"
| "saturated_loop sc now model exclude r min_context blocked (d # ds) =
     (case saturation_of sc now model exclude r min_context d of
        None \<Rightarrow> saturated_loop sc now model exclude r min_context blocked ds
      | Some True \<Rightarrow> saturated_loop sc now model exclude r min_context (blocked + 1) ds
      | Some False \<Rightarrow> False)"

definition saturated ::
  "('f, 's::{linorder, zero}) Scheduler \<Rightarrow> int \<Rightarrow> 'f DeviceState list \<Rightarrow> string \<Rightarrow> string list \<Rightarrow> 'f Registry \<Rightarrow> nat option \<Rightarrow> bool" where
  "saturated sc now candidates model exclude r min_context =
     saturated_loop sc now model exclude r min_context 0 candidates"

text \<open>One round of the first loop of \<open>pick\<close>.\<close>

definition viable_of ::
  "('f, 's::{linorder, zero}) Scheduler \<Rightarrow> int \<Rightarrow> string \<Rightarrow> string list \<Rightarrow> 'f Registry \<Rightarrow> nat option \<Rightarrow> 'f DeviceState \<Rightarrow>
   (nat \<times> bool \<times> 's \<times> 'f DeviceState) option" where
  "viable_of sc now model exclude r min_context d =
     (if ds_node_id d \<in> set exclude then None
      else case loaded_of (is_eligible_for now model (sc_max_queue_depth sc) d) of
        None \<Rightarrow> None
      | Some loaded \<Rightarrow>
          if \<not> context_fits min_context d then None
          else if on_battery d then None
          else let n = in_flight r (ds_node_id d) in
            if n \<ge> sc_max_queue_depth sc then None
            else let s = score sc d loaded n in
              if s \<le> 0 then None else Some (n, loaded, s, d))"

definition tied_best :: "(nat \<times> bool \<times> 's \<times> 'd) list \<Rightarrow> (nat \<times> bool \<times> 's \<times> 'd) list" where
  "tied_best viable =
     (let min_inflight = Min (set (map fst viable));
          any_loaded = list_ex (\<lambda>(n, loaded, _, _). n = min_inflight \<and> loaded) viable
      in filter (\<lambda>(n, loaded, _, _). n = min_inflight \<and> (\<not> any_loaded \<or> loaded)) viable)"

definition fast_lane ::
  "('f, 's::{linorder, zero}) Scheduler \<Rightarrow> (nat \<times> bool \<times> 's \<times> 'd) list \<Rightarrow> (nat \<times> bool \<times> 's \<times> 'd) list" where
  "fast_lane sc tied = (let best_score = fold max (map (\<lambda>(_, _, s, _). s) tied) 0
     in filter (\<lambda>(_, _, s, _). s \<ge> sc_cutoff sc best_score) tied)"

definition choose_one :: "nat \<Rightarrow> 'a list \<Rightarrow> 'a option" where
  "choose_one draw xs = (if xs = [] then None else Some (xs ! (draw mod length xs)))"

definition pick ::
  "('f, 's::{linorder, zero}) Scheduler \<Rightarrow> int \<Rightarrow> nat \<Rightarrow> 'f DeviceState list \<Rightarrow> string \<Rightarrow> string list \<Rightarrow> 'f Registry \<Rightarrow> nat option \<Rightarrow>
   'f DeviceState option" where
  "pick sc now draw candidates model exclude r min_context =
     (let viable = List.map_filter (viable_of sc now model exclude r min_context) candidates in
      if viable = [] then None
      else let tied = tied_best viable in
        if length tied = 1 then Some (snd (snd (snd (hd tied))))
        else map_option (\<lambda>(_, _, _, d). d) (choose_one draw (fast_lane sc tied)))"

section \<open>The device picked\<close>

text \<open>What a request needs of a device: the conditions of the loop, read as one predicate.\<close>

definition can_take ::
  "('f, 's::{linorder, zero}) Scheduler \<Rightarrow> int \<Rightarrow> string \<Rightarrow> string list \<Rightarrow> 'f Registry \<Rightarrow> nat option \<Rightarrow> 'f DeviceState \<Rightarrow> bool" where
  "can_take sc now model exclude r min_context d \<longleftrightarrow>
     ds_node_id d \<notin> set exclude \<and> is_eligible_for now model (sc_max_queue_depth sc) d \<in> {Loaded, Swappable}
     \<and> context_fits min_context d \<and> \<not> on_battery d \<and> in_flight r (ds_node_id d) < sc_max_queue_depth sc
     \<and> 0 < score sc d (is_eligible_for now model (sc_max_queue_depth sc) d = Loaded) (in_flight r (ds_node_id d))"

lemma loaded_of_Some: "loaded_of e = Some b \<longleftrightarrow> (e = Loaded \<and> b) \<or> (e = Swappable \<and> \<not> b)"
  by (cases e) auto

lemma loaded_of_None: "loaded_of e = None \<longleftrightarrow> e \<notin> {Loaded, Swappable}"
  by (cases e) auto

lemma viable_of_iff:
  "viable_of sc now model exclude r mc d = Some v \<longleftrightarrow> can_take sc now model exclude r mc d \<and>
     v = (in_flight r (ds_node_id d), is_eligible_for now model (sc_max_queue_depth sc) d = Loaded,
       score sc d (is_eligible_for now model (sc_max_queue_depth sc) d = Loaded) (in_flight r (ds_node_id d)), d)"
  by (cases "is_eligible_for now model (sc_max_queue_depth sc) d")
    (auto simp: viable_of_def can_take_def Let_def not_le)

lemma set_map_filter: "set (List.map_filter g xs) = {v. \<exists>x\<in>set xs. g x = Some v}"
  by (induction xs) (auto simp: List.map_filter_simps split: option.splits)

lemma set_viable:
  "set (List.map_filter (viable_of sc now model exclude r mc) ds) =
     (\<lambda>d. (in_flight r (ds_node_id d), is_eligible_for now model (sc_max_queue_depth sc) d = Loaded,
       score sc d (is_eligible_for now model (sc_max_queue_depth sc) d = Loaded) (in_flight r (ds_node_id d)), d))
     ` {d \<in> set ds. can_take sc now model exclude r mc d}"
  by (auto simp: set_map_filter viable_of_iff)

lemma tied_best_subset: "set (tied_best v) \<subseteq> set v"
  by (auto simp: tied_best_def Let_def)

lemma tied_best_nonempty:
  assumes "v \<noteq> []" shows "tied_best v \<noteq> []"
proof -
  let ?m = "Min (set (map fst v))"
  have "?m \<in> set (map fst v)" using assms by (intro Min_in) auto
  then obtain x where x: "x \<in> set v" "fst x = ?m" by auto
  show ?thesis
  proof (cases "list_ex (\<lambda>(n, loaded, _, _). n = ?m \<and> loaded) v")
    case True
    then show ?thesis by (fastforce simp: tied_best_def Let_def list_ex_iff filter_empty_conv)
  next
    case False
    with x show ?thesis by (fastforce simp: tied_best_def Let_def filter_empty_conv)
  qed
qed

lemma tied_best_least:
  assumes "(n, l, s, d) \<in> set (tied_best v)" and "(n', l', s', d') \<in> set v"
  shows "n \<le> n' \<and> (n' = n \<and> l' \<longrightarrow> l)"
proof -
  let ?m = "Min (set (map fst v))"
  have "?m \<le> n'" using assms(2) by (intro Min_le) force+
  moreover have "n = ?m" "(list_ex (\<lambda>(n, loaded, _, _). n = ?m \<and> loaded) v) \<longrightarrow> l"
    using assms(1) by (auto simp: tied_best_def Let_def)
  ultimately show ?thesis using assms(2) by (fastforce simp: list_ex_iff)
qed

lemma fold_max_ge: "(s::'s::linorder) \<le> fold max xs s \<and> (\<forall>x\<in>set xs. x \<le> fold max xs s)"
proof (induction xs arbitrary: s)
  case (Cons a xs)
  show ?case using Cons.IH [of "max a s"] by auto
qed simp

lemma fold_max_in: "fold max xs (s::'s::linorder) = s \<or> fold max xs s \<in> set xs"
  by (induction xs arbitrary: s) (auto simp: max_def split: if_splits)

lemma fast_lane_nonempty:
  assumes "tied \<noteq> []" and "\<forall>x\<in>set tied. 0 < fst (snd (snd x))" and "\<And>b. 0 < b \<Longrightarrow> sc_cutoff sc b \<le> b"
  shows "fast_lane sc tied \<noteq> []"
proof -
  have scores: "map (\<lambda>(_, _, s, _). s) tied = map (fst \<circ> snd \<circ> snd) tied" by auto
  let ?scores = "map (fst \<circ> snd \<circ> snd) tied"
  let ?best = "fold max ?scores 0"
  obtain x where x: "x \<in> set tied" using assms(1) by (cases tied) auto
  have pos: "0 < ?best" using fold_max_ge [where xs = ?scores and s = 0] assms(2) x
    by (auto intro: order_less_le_trans)
  then have "?best \<in> set ?scores" using fold_max_in [where xs = ?scores and s = 0] by auto
  then obtain y where "y \<in> set tied" "fst (snd (snd y)) = ?best" by auto
  then have "y \<in> set (fast_lane sc tied)" using assms(3) [OF pos] by (simp add: fast_lane_def Let_def scores) (simp add: case_prod_beta)
  then show ?thesis by auto
qed

lemma choose_one_in: "choose_one draw xs = Some x \<Longrightarrow> x \<in> set xs"
  by (auto simp: choose_one_def split: if_splits)

lemma fast_lane_subset: "set (fast_lane sc t) \<subseteq> set t"
  by (auto simp: fast_lane_def Let_def)

lemma pick_from_tied:
  assumes "pick sc now draw ds model exclude r mc = Some d"
  shows "\<exists>n l s. (n, l, s, d) \<in> set (tied_best (List.map_filter (viable_of sc now model exclude r mc) ds))"
proof -
  define t where "t = tied_best (List.map_filter (viable_of sc now model exclude r mc) ds)"
  have "\<exists>x\<in>set t. d = snd (snd (snd x))"
  proof (cases "length t = 1")
    case True
    then have "hd t \<in> set t" by (cases t) auto
    moreover have "d = snd (snd (snd (hd t)))"
      using assms True unfolding pick_def Let_def t_def [symmetric] by (simp split: if_splits)
    ultimately show ?thesis by blast
  next
    case False
    then obtain x where "choose_one draw (fast_lane sc t) = Some x" "d = snd (snd (snd x))"
      using assms unfolding pick_def Let_def t_def [symmetric] by (auto simp: case_prod_beta split: if_splits)
    then show ?thesis using choose_one_in fast_lane_subset by fast
  qed
  then show ?thesis unfolding t_def by (metis prod.collapse)
qed

lemma pick_none_iff:
  assumes "\<And>b. 0 < b \<Longrightarrow> sc_cutoff sc b \<le> b"
  shows "pick sc now draw ds model exclude r mc = None \<longleftrightarrow> list_all (\<lambda>d. \<not> can_take sc now model exclude r mc d) ds"
proof -
  let ?v = "List.map_filter (viable_of sc now model exclude r mc) ds"
  have "fast_lane sc (tied_best ?v) \<noteq> []" if v: "?v \<noteq> []"
  proof -
    have pos: "\<forall>x\<in>set (tied_best ?v). 0 < fst (snd (snd x))"
      using tied_best_subset [of ?v] unfolding set_viable by (auto simp: can_take_def)
    show ?thesis using fast_lane_nonempty [OF tied_best_nonempty [OF v] pos] assms by blast
  qed
  then have "pick sc now draw ds model exclude r mc = None \<longleftrightarrow> ?v = []"
    unfolding pick_def Let_def by (simp add: choose_one_def)
  also have "\<dots> \<longleftrightarrow> set ?v = {}" by simp
  finally show ?thesis unfolding set_viable by (auto simp: list_all_iff)
qed

lemma pick_least:
  assumes "pick sc now draw ds model exclude r mc = Some d"
  shows "d \<in> set ds \<and> can_take sc now model exclude r mc d"
    and "d' \<in> set ds \<Longrightarrow> can_take sc now model exclude r mc d' \<Longrightarrow>
      in_flight r (ds_node_id d) \<le> in_flight r (ds_node_id d') \<and>
      (in_flight r (ds_node_id d') = in_flight r (ds_node_id d) \<and> is_eligible_for now model (sc_max_queue_depth sc) d' = Loaded
        \<longrightarrow> is_eligible_for now model (sc_max_queue_depth sc) d = Loaded)"
proof -
  let ?v = "List.map_filter (viable_of sc now model exclude r mc) ds"
  obtain n l s where t: "(n, l, s, d) \<in> set (tied_best ?v)" using pick_from_tied [OF assms] by blast
  then have "(n, l, s, d) \<in> set ?v" using tied_best_subset by blast
  then have d: "d \<in> set ds" "can_take sc now model exclude r mc d" "n = in_flight r (ds_node_id d)"
    "l = (is_eligible_for now model (sc_max_queue_depth sc) d = Loaded)"
    unfolding set_viable by auto
  then show "d \<in> set ds \<and> can_take sc now model exclude r mc d" by blast
  assume "d' \<in> set ds" "can_take sc now model exclude r mc d'"
  then have "(in_flight r (ds_node_id d'), is_eligible_for now model (sc_max_queue_depth sc) d' = Loaded,
      score sc d' (is_eligible_for now model (sc_max_queue_depth sc) d' = Loaded) (in_flight r (ds_node_id d')), d') \<in> set ?v"
    unfolding set_viable by blast
  from tied_best_least [OF t this] show "in_flight r (ds_node_id d) \<le> in_flight r (ds_node_id d') \<and>
      (in_flight r (ds_node_id d') = in_flight r (ds_node_id d) \<and> is_eligible_for now model (sc_max_queue_depth sc) d' = Loaded
        \<longrightarrow> is_eligible_for now model (sc_max_queue_depth sc) d = Loaded)"
    using d by blast
qed

text \<open>
  C16. The scheduler picks a device exactly when some candidate can take the request, and then one that can: not
  excluded, eligible for the model under the queue cap, with enough context, not on battery, below the in-flight cap and
  with a positive score. No candidate that could take the request has fewer requests in flight, and none that is as little
  loaded has the model in memory while the chosen one has not. Only that the fast-lane cutoff is
  at most the best score is assumed of the arithmetic.
\<close>

theorem pick_is_best:
  assumes "\<And>b. 0 < b \<Longrightarrow> sc_cutoff sc b \<le> b"
  shows "case pick sc now draw ds model exclude r mc of
      None \<Rightarrow> list_all (\<lambda>d. \<not> can_take sc now model exclude r mc d) ds
    | Some d \<Rightarrow> d \<in> set ds \<and> can_take sc now model exclude r mc d
        \<and> list_all (\<lambda>d'. can_take sc now model exclude r mc d' \<longrightarrow>
            in_flight r (ds_node_id d) \<le> in_flight r (ds_node_id d')
            \<and> (in_flight r (ds_node_id d') = in_flight r (ds_node_id d)
                \<and> is_eligible_for now model (sc_max_queue_depth sc) d' = Loaded \<longrightarrow>
               is_eligible_for now model (sc_max_queue_depth sc) d = Loaded)) ds"
proof (cases "pick sc now draw ds model exclude r mc")
  case None
  then show ?thesis using pick_none_iff [of sc now draw ds model exclude r mc] assms by simp
next
  case (Some d)
  then show ?thesis using pick_least [OF Some] by (simp add: list_all_iff)
qed

section \<open>Saturation\<close>

definition would_take ::
  "('f, 's::{linorder, zero}) Scheduler \<Rightarrow> int \<Rightarrow> string \<Rightarrow> string list \<Rightarrow> nat option \<Rightarrow> 'f DeviceState \<Rightarrow> bool" where
  "would_take sc now model exclude min_context d \<longleftrightarrow>
     ds_node_id d \<notin> set exclude \<and> is_eligible_for now model U32_MAX d \<in> {Loaded, Swappable}
     \<and> context_fits min_context d \<and> \<not> on_battery d
     \<and> 0 < sc_score_with_queue sc d (is_eligible_for now model U32_MAX d = Loaded) 0"

definition at_cap :: "('f, 's) Scheduler \<Rightarrow> 'f Registry \<Rightarrow> 'f DeviceState \<Rightarrow> bool" where
  "at_cap sc r d \<longleftrightarrow> lv_queue_depth (ds_live d) \<ge> sc_max_queue_depth sc \<or> in_flight r (ds_node_id d) \<ge> sc_max_queue_depth sc"

lemma saturation_of_iff:
  "saturation_of sc now model exclude r mc d =
     (if would_take sc now model exclude mc d then Some (at_cap sc r d) else None)"
  by (cases "is_eligible_for now model U32_MAX d") (auto simp: saturation_of_def would_take_def at_cap_def not_le)

lemma saturated_loop_iff:
  "saturated_loop sc now model exclude r mc n ds \<longleftrightarrow>
     (n > 0 \<or> list_ex (would_take sc now model exclude mc) ds)
     \<and> list_all (\<lambda>d. would_take sc now model exclude mc d \<longrightarrow> at_cap sc r d) ds"
proof (induction ds arbitrary: n)
  case (Cons d ds)
  then show ?case
    by (cases "would_take sc now model exclude mc d"; cases "at_cap sc r d") (simp_all add: saturation_of_iff)
qed simp

lemma eligible_under_cap:
  assumes "lv_queue_depth (ds_live d) < q" and "lv_queue_depth (ds_live d) < q'"
  shows "is_eligible_for now model q d = is_eligible_for now model q' d"
  using assms by (simp add: is_eligible_for_def)

lemma eligible_within_cap: "is_eligible_for now model q d \<in> {Loaded, Swappable} \<Longrightarrow> lv_queue_depth (ds_live d) < q"
  by (auto simp: is_eligible_for_def split: if_splits)


section \<open>A small fleet\<close>

definition toy_scheduler :: "(int, int) Scheduler" where
  "toy_scheduler = \<lparr>sc_max_queue_depth = 2, sc_score_with_queue = (\<lambda>d l q. if q < 2 then 10 - int q else 0),
     sc_cutoff = (\<lambda>b. b * 8 div 10)\<rparr>"

definition toy_device :: "string \<Rightarrow> nat \<Rightarrow> int DeviceState" where
  "toy_device node depth = (new_device 0 50 node ''toy'' \<lparr>nc_memory_bandwidth_gbs = 100, nc_loaded_models = [''llama''],
     nc_max_model_size_gb = 40, nc_is_available = True, nc_ptn_ids = None, nc_swappable_models = [],
     nc_max_concurrent_requests = None, nc_effective_context = Some 4, nc_on_ac_power = None,
     nc_backend_slots_busy = None, nc_backend_slots_total = None\<rparr>)\<lparr>ds_live := live_fresh\<lparr>lv_queue_depth := depth\<rparr>\<rparr>"

definition idle_fleet :: "int Registry" where
  "idle_fleet = registry_new \<lparr>rc_heartbeat_stale_seconds = 6, rc_quarantine_seconds = 3, rc_busy_excess_grace_seconds = 9,
     rc_departed_grace_seconds = 10, rc_convo_stickiness_ttl_seconds = 0, rc_heavy_hold_ttl_seconds = 20\<rparr>"

lemma toy_cutoff: "0 < b \<Longrightarrow> sc_cutoff toy_scheduler b \<le> b"
  by (simp add: toy_scheduler_def)

theorem pick_is_best_witness:
  "\<exists>d. pick toy_scheduler 0 7 [toy_device ''a'' 2, toy_device ''b'' 0] ''llama'' [] idle_fleet (Some 4) = Some d
     \<and> can_take toy_scheduler 0 ''llama'' [] idle_fleet (Some 4) d"
proof -
  have "can_take toy_scheduler 0 ''llama'' [] idle_fleet (Some 4) (toy_device ''b'' 0)" by code_simp
  then show ?thesis
    using pick_is_best [where sc = toy_scheduler and now = 0 and draw = 7
      and ds = "[toy_device ''a'' 2, toy_device ''b'' 0]" and model = "''llama''" and exclude = "[]" and r = idle_fleet
      and mc = "Some 4", OF toy_cutoff]
    by (simp split: option.splits)
qed


section \<open>Client traffic\<close>

text \<open>Picking from the eligible devices of the default lane, the gateway sends client traffic to live fleet devices only.\<close>

lemma client_pick_is_fleet:
  assumes "pick sc now draw (eligible_devices now model r) model exclude r mc = Some d"
  shows "d \<in> set (rg_devices r) \<and> \<not> ds_probation d \<and> \<not> ds_employee d \<and> \<not> is_quarantined now d
    \<and> nc_is_available (ds_capabilities d) \<and> \<not> heartbeat_is_stale now (rc_heartbeat_stale_seconds (rg_reliability r)) d
    \<and> supports model d"
proof -
  have "d \<in> set (eligible_devices now model r)" using pick_least(1) [OF assms] by blast
  then have mem: "d \<in> set (rg_devices r)" and f: "supply_filter now (rg_reliability r) model False d"
    by (auto simp: eligible_devices_def eligible_supply_def)
  have "\<not> is_quarantined now d \<and> nc_is_available (ds_capabilities d) \<and> supports model d"
    using f by (auto simp: supply_filter_def is_eligible_for_def supports_def split: if_splits)
  with mem f show ?thesis by (simp add: supply_filter_def)
qed

end
