(* ===== verification/Pin_Handlers.thy ===== *)
theory Pin_Handlers
  imports Pins Gateway_Auth Limiters Scheduler
begin

text \<open>
  The endpoints of private inference networks (\<open>gateway/src/handlers/pins.rs\<close>): who has which standing in a network, and
  every handler with its guards, over the storage of \<open>Pins\<close>, the join limiter, the device registry and the scheduler. A
  handler returns the state it leaves, also when it fails after it wrote, together with the error or the answer.
\<close>

section \<open>Standing\<close>

definition require_device :: "PrincipalKind \<Rightarrow> GatewayError + string" where
  "require_device p = ok_or (Unauthorized ''PIN endpoints require a device token'') (principal_device_id p)"

definition account_of :: "pin_db \<Rightarrow> PrincipalKind \<Rightarrow> string option" where
  "account_of s p = (case principal_device_id p of
      Some d \<Rightarrow> account_user_id_for_device (pd_core s) d
    | None \<Rightarrow> (case p of KApiKey _ account _ _ _ \<Rightarrow> Some account | _ \<Rightarrow> None))"

datatype PinActor = Staff string string | Member string

fun is_staff :: "PinActor \<Rightarrow> bool" where
  "is_staff (Staff _ _) = True"
| "is_staff (Member _) = False"

definition member_actor :: "pin_db \<Rightarrow> PrincipalKind \<Rightarrow> string \<Rightarrow> GatewayError + PinActor" where
  "member_actor s p pin = (case principal_device_id p of
      Some d \<Rightarrow> if member_status pin d s = Some ''active'' then Inr (Member d) else Inl (NotFound ''unknown network'')
    | None \<Rightarrow> Inl (NotFound ''unknown network''))"

definition resolve_actor :: "pin_db \<Rightarrow> PrincipalKind \<Rightarrow> string \<Rightarrow> GatewayError + PinActor" where
  "resolve_actor s p pin = (case account_of s p of
      Some account \<Rightarrow> (case role_of pin account s of
          Some role \<Rightarrow> Inr (Staff account role)
        | None \<Rightarrow> member_actor s p pin)
    | None \<Rightarrow> member_actor s p pin)"

definition require_admin_actor :: "pin_db \<Rightarrow> PrincipalKind \<Rightarrow> string \<Rightarrow> GatewayError + string" where
  "require_admin_actor s p pin = rbind (resolve_actor s p pin) (\<lambda>actor. case actor of
      Staff account role \<Rightarrow> if role = ROLE_ADMIN then Inr account else Inl (Forbidden ''requires the admin role'')
    | Member _ \<Rightarrow> Inl (Forbidden ''requires the admin role''))"

definition require_staff_actor :: "pin_db \<Rightarrow> PrincipalKind \<Rightarrow> string \<Rightarrow> GatewayError + string" where
  "require_staff_actor s p pin = rbind (resolve_actor s p pin) (\<lambda>actor. case actor of
      Staff account _ \<Rightarrow> Inr account
    | Member _ \<Rightarrow> Inl (Forbidden ''requires the admin or modelrator role''))"

section \<open>Requests and answers\<close>

record PatchMemberReq =
  pq_display_name :: "string option"
  pq_serves_models :: "bool option"
  pq_disabled :: "bool option"

record SettingsReq =
  sq_din_contribution_default :: "bool option"
  sq_priority_policy :: "string option"

record SyncReq =
  sy_endpoints :: "PinEndpoint list"
  sy_wg_pubkey :: string
  sy_loaded_models :: "string list"
  sy_known_generation :: "int option"
  sy_offers_exit :: "bool option"
  sy_model_policy_status :: "(string \<times> string \<times> string option) list"

record SyncResponse =
  sr_membership :: string
  sr_netmap :: "SignedPinNetmap option"
  sr_model_policy :: "ModelPolicyEntry list"
  sr_settings :: "PinSettings option"

record ScheduleResponse =
  sh_device_id :: string
  sh_node_pubkey :: string
  sh_display_name :: "string option"
  sh_endpoints :: "PinEndpoint list"

record PinDetail =
  dt_pin_id :: string
  dt_name :: string
  dt_settings :: PinSettings
  dt_netmap_generation :: int
  dt_created_at :: int
  dt_your_role :: string
  dt_pending_count :: "int option"

record UsageTotal =
  ut_key :: string
  ut_requests :: int
  ut_tokens_in :: int
  ut_tokens_out :: int

datatype PinResponse =
    RPin Pin
  | RMine "PinSummary list" "PinMembershipSummary list"
  | RStatus string
  | RAccepted
  | RDetail PinDetail
  | RMembers "PinMember list"
  | RJoinCode string
  | RSettings PinSettings
  | RSync SyncResponse
  | RSchedule ScheduleResponse
  | RPolicy "ModelPolicyEntry list"
  | RUsage "UsageRow list" "UsageTotal list"

text \<open>What one request reads besides its arguments: the clocks, the fresh identifiers and draws, the registry and the
  scheduler, and whether the gateway identity is loaded.\<close>

record ('f, 's) pin_env =
  pe_ext :: pin_ext
  pe_now :: int
  pe_instant :: int
  pe_pin_id :: string
  pe_draws :: "nat list"
  pe_draw :: nat
  pe_registry :: "'f Registry"
  pe_scheduler :: "('f, 's) Scheduler"
  pe_identity :: bool

type_synonym pin_result = "pin_db \<times> (GatewayError + PinResponse)"

text \<open>A guard that fails leaves the state; an operation that fails is rolled back and mapped to an error.\<close>

definition guarded :: "GatewayError + 'a \<Rightarrow> pin_db \<Rightarrow> ('a \<Rightarrow> pin_result) \<Rightarrow> pin_result" where
  "guarded m s k = (case m of Inl e \<Rightarrow> (s, Inl e) | Inr a \<Rightarrow> k a)"

definition run_op :: "(anyhow \<Rightarrow> GatewayError) \<Rightarrow> anyhow + pin_db \<Rightarrow> pin_db \<Rightarrow> (pin_db \<Rightarrow> pin_result) \<Rightarrow> pin_result" where
  "run_op f m s k = (case m of Inl e \<Rightarrow> (s, Inl (f e)) | Inr s1 \<Rightarrow> k s1)"

definition conflict :: "('f, 's) pin_env \<Rightarrow> anyhow \<Rightarrow> GatewayError" where
  "conflict env e = Conflict (error_text (pe_ext env) e)"

definition bad_request :: "('f, 's) pin_env \<Rightarrow> anyhow \<Rightarrow> GatewayError" where
  "bad_request env e = BadRequest (error_text (pe_ext env) e)"

section \<open>Networks\<close>

definition handle_create :: "('f, 's) pin_env \<Rightarrow> PrincipalKind \<Rightarrow> string \<Rightarrow> pin_db \<Rightarrow> pin_result" where
  "handle_create env p name s =
     guarded (ok_or (Forbidden ''creating a network requires a device linked to a Teale account'') (account_of s p)) s
       (\<lambda>account. case create_pin (pe_ext env) (pe_now env) (pe_pin_id env) (pe_draws env) name account s of
          Inl e \<Rightarrow> (s, Inl (Other e))
        | Inr (s1, pin) \<Rightarrow> (s1, Inr (RPin pin)))"

definition handle_list :: "PrincipalKind \<Rightarrow> pin_db \<Rightarrow> pin_result" where
  "handle_list p s =
     (s, Inr (RMine (case account_of s p of Some account \<Rightarrow> pins_for_account account s | None \<Rightarrow> [])
       (case principal_device_id p of Some d \<Rightarrow> pins_for_device d s | None \<Rightarrow> [])))"

definition handle_get :: "('f, 's) pin_env \<Rightarrow> PrincipalKind \<Rightarrow> string \<Rightarrow> pin_db \<Rightarrow> pin_result" where
  "handle_get env p pin s =
     guarded (resolve_actor s p pin) s (\<lambda>actor.
     guarded (ok_or (NotFound ''unknown network'') (get_pin (pe_ext env) pin s)) s (\<lambda>n.
     (s, Inr (RDetail \<lparr>dt_pin_id = p_pin_id n, dt_name = p_name n, dt_settings = p_settings n,
       dt_netmap_generation = p_netmap_generation n, dt_created_at = p_created_at n,
       dt_your_role = (case actor of Staff _ role \<Rightarrow> role | Member _ \<Rightarrow> ''member''),
       dt_pending_count = (if is_staff actor
         then Some (int (length (filter (\<lambda>m. pm_status m = ''pending'') (members pin s)))) else None)\<rparr>))))"

definition handle_delete :: "('f, 's) pin_env \<Rightarrow> PrincipalKind \<Rightarrow> string \<Rightarrow> pin_db \<Rightarrow> pin_result" where
  "handle_delete env p pin s =
     guarded (require_admin_actor s p pin) s (\<lambda>account.
     guarded (ok_or (NotFound ''unknown network'') (get_pin (pe_ext env) pin s)) s (\<lambda>n.
     if p_owner_account_user_id n \<noteq> account then (s, Inl (Forbidden ''only the owner can delete a network''))
     else run_op Other (delete_pin (pe_now env) pin s) s (\<lambda>s1. (s1, Inr (RStatus ''deleted'')))))"

definition handle_rotate_code :: "('f, 's) pin_env \<Rightarrow> PrincipalKind \<Rightarrow> string \<Rightarrow> pin_db \<Rightarrow> pin_result" where
  "handle_rotate_code env p pin s =
     guarded (require_admin_actor s p pin) s (\<lambda>_.
     case rotate_join_code (pe_draws env) pin s of
       Inl e \<Rightarrow> (s, Inl (Other e)) | Inr (s1, c) \<Rightarrow> (s1, Inr (RJoinCode c)))"

definition handle_join_code :: "('f, 's) pin_env \<Rightarrow> PrincipalKind \<Rightarrow> string \<Rightarrow> pin_db \<Rightarrow> pin_result" where
  "handle_join_code env p pin s =
     guarded (require_admin_actor s p pin) s (\<lambda>_.
     guarded (ok_or (NotFound ''unknown network'') (get_pin (pe_ext env) pin s)) s (\<lambda>n.
     (s, Inr (RJoinCode (p_join_code n)))))"

definition handle_set_role ::
  "('f, 's) pin_env \<Rightarrow> PrincipalKind \<Rightarrow> string \<Rightarrow> string \<Rightarrow> string option \<Rightarrow> pin_db \<Rightarrow> pin_result" where
  "handle_set_role env p pin account role s =
     guarded (require_admin_actor s p pin) s (\<lambda>granter. case role of
       Some r \<Rightarrow> run_op (bad_request env) (grant_role (pe_now env) pin account r granter s) s (\<lambda>s1. (s1, Inr (RStatus ''ok'')))
     | None \<Rightarrow> run_op (conflict env) (revoke_role pin account s) s (\<lambda>s1. (s1, Inr (RStatus ''ok''))))"

definition merged_settings :: "SettingsReq \<Rightarrow> PinSettings \<Rightarrow> GatewayError + PinSettings" where
  "merged_settings req v =
     (let v1 = (case sq_din_contribution_default req of None \<Rightarrow> v | Some b \<Rightarrow> v\<lparr>st_din_contribution_default := b\<rparr>) in
      case sq_priority_policy req of
        None \<Rightarrow> Inr v1
      | Some q \<Rightarrow> if q \<noteq> ''pin_first'' \<and> q \<noteq> ''equal'' then Inl (BadRequest ''priorityPolicy must be pin_first or equal'')
          else Inr (v1\<lparr>st_priority_policy := q\<rparr>))"

definition handle_settings ::
  "('f, 's) pin_env \<Rightarrow> PrincipalKind \<Rightarrow> string \<Rightarrow> SettingsReq \<Rightarrow> pin_db \<Rightarrow> pin_result" where
  "handle_settings env p pin req s =
     guarded (require_staff_actor s p pin) s (\<lambda>_.
     guarded (ok_or (NotFound ''unknown network'') (get_pin (pe_ext env) pin s)) s (\<lambda>n.
     guarded (merged_settings req (p_settings n)) s (\<lambda>v.
     run_op Other (set_settings (pe_ext env) pin v s) s (\<lambda>s1. (s1, Inr (RSettings v))))))"

section \<open>Members\<close>

definition handle_members :: "PrincipalKind \<Rightarrow> string \<Rightarrow> pin_db \<Rightarrow> pin_result" where
  "handle_members p pin s =
     guarded (resolve_actor s p pin) s (\<lambda>actor.
     (s, Inr (RMembers (if is_staff actor then members pin s
       else filter (\<lambda>m. pm_status m \<noteq> ''pending'') (members pin s)))))"

definition handle_approve :: "('f, 's) pin_env \<Rightarrow> PrincipalKind \<Rightarrow> string \<Rightarrow> string \<Rightarrow> pin_db \<Rightarrow> pin_result" where
  "handle_approve env p pin device s =
     guarded (require_admin_actor s p pin) s (\<lambda>account.
     run_op (conflict env) (approve_member (pe_now env) pin device account s) s (\<lambda>s1. (s1, Inr (RStatus ''active''))))"

definition handle_deny :: "('f, 's) pin_env \<Rightarrow> PrincipalKind \<Rightarrow> string \<Rightarrow> string \<Rightarrow> pin_db \<Rightarrow> pin_result" where
  "handle_deny env p pin device s =
     guarded (require_admin_actor s p pin) s (\<lambda>_.
     run_op (conflict env) (deny_member pin device s) s (\<lambda>s1. (s1, Inr (RStatus ''denied''))))"

definition handle_patch ::
  "('f, 's) pin_env \<Rightarrow> PrincipalKind \<Rightarrow> string \<Rightarrow> string \<Rightarrow> PatchMemberReq \<Rightarrow> pin_db \<Rightarrow> pin_result" where
  "handle_patch env p pin device req s =
     guarded (if pq_disabled req \<noteq> None then require_admin_actor s p pin else require_staff_actor s p pin) s (\<lambda>_.
     run_op (conflict env)
       (if pq_display_name req \<noteq> None \<or> pq_serves_models req \<noteq> None
        then update_member pin device (pq_display_name req) (pq_serves_models req) s else Inr s) s (\<lambda>s1.
     case pq_disabled req of
       None \<Rightarrow> (s1, Inr (RStatus ''ok''))
     | Some disabled \<Rightarrow> run_op (conflict env) (set_member_disabled pin device disabled s1) s1
         (\<lambda>s2. (s2, Inr (RStatus ''ok'')))))"

definition handle_remove :: "('f, 's) pin_env \<Rightarrow> PrincipalKind \<Rightarrow> string \<Rightarrow> string \<Rightarrow> pin_db \<Rightarrow> pin_result" where
  "handle_remove env p pin device s =
     guarded (require_admin_actor s p pin) s (\<lambda>account.
     run_op (conflict env) (remove_member (pe_now env) pin device account s) s (\<lambda>s1. (s1, Inr (RStatus ''removed''))))"

definition handle_leave :: "('f, 's) pin_env \<Rightarrow> string \<Rightarrow> string \<Rightarrow> pin_db \<Rightarrow> pin_result" where
  "handle_leave env device pin s =
     run_op (conflict env) (remove_member (pe_now env) pin device device s) s (\<lambda>s1. (s1, Inr (RStatus ''left'')))"

section \<open>Knocks, syncs and schedules\<close>

definition handle_knock ::
  "('f, 's) pin_env \<Rightarrow> string \<Rightarrow> string \<Rightarrow> string option \<Rightarrow> string \<Rightarrow> pin_db \<Rightarrow> pin_result" where
  "handle_knock env device join_code name pubkey s = (case find_by_join_code (pe_ext env) join_code s of
      None \<Rightarrow> (s, Inr RAccepted)
    | Some n \<Rightarrow> run_op Other (submit_join (pe_now env) (p_pin_id n) device pubkey name s) s (\<lambda>s1. (s1, Inr RAccepted)))"

definition live_models :: "'f Registry \<Rightarrow> string \<Rightarrow> string list option" where
  "live_models r pubkey = map_of (rev (map (\<lambda>d. (ds_node_id d, nc_loaded_models (ds_capabilities d))) (snapshot_devices r))) pubkey"

definition sync_answer :: "('f, 's) pin_env \<Rightarrow> string \<Rightarrow> string \<Rightarrow> pin_db \<Rightarrow> pin_result" where
  "sync_answer env device pin s =
     guarded (ok_or (NotFound ''unknown network'') (get_pin (pe_ext env) pin s)) s (\<lambda>n.
     guarded (ensure (pe_identity env) (Other (Bail ''gateway identity unavailable''))) s (\<lambda>_.
     guarded (map_err Other (build_netmap (pe_ext env) (pe_now env) pin (live_models (pe_registry env)) s)) s (\<lambda>netmap.
     (s, Inr (RSync \<lparr>sr_membership = ''active'', sr_netmap = Some (sign_netmap (pe_ext env) netmap),
       sr_model_policy = model_policy pin (Some device) s, sr_settings = Some (p_settings n)\<rparr>)))))"

definition handle_sync :: "('f, 's) pin_env \<Rightarrow> string \<Rightarrow> string \<Rightarrow> SyncReq \<Rightarrow> pin_db \<Rightarrow> pin_result" where
  "handle_sync env device pin req s =
     (let status = (case member_status pin device s of None \<Rightarrow> ''none'' | Some st \<Rightarrow> st) in
      if status \<noteq> ''active''
      then (s, Inr (RSync \<lparr>sr_membership = (if status = ''removed'' then ''none'' else status), sr_netmap = None,
        sr_model_policy = [], sr_settings = None\<rparr>))
      else run_op Other (update_member_endpoints (pe_ext env) (pe_now env) pin device
          (endpoints_json (pe_ext env) (sy_endpoints req)) (models_json (pe_ext env) (sy_loaded_models req))
          (sy_wg_pubkey req) s) s (\<lambda>s1.
        let s2 = (case sy_offers_exit req of None \<Rightarrow> s1 | Some b \<Rightarrow> set_member_offers_exit pin device b s1);
            s3 = (if sy_model_policy_status req = [] then s2
              else report_model_policy_status (pe_now env) pin device (sy_model_policy_status req) s2)
        in sync_answer env device pin s3))"

text \<open>The serving members by node key; of two members with one key the later entry wins, as in the source's map.\<close>

definition serving_members :: "string \<Rightarrow> pin_db \<Rightarrow> string \<Rightarrow> PinMember option" where
  "serving_members pin s = map_of (rev (map (\<lambda>m. (pm_node_pubkey m, m))
     (filter (\<lambda>m. pm_status m = ''active'' \<and> pm_serves_models m) (members pin s))))"

definition handle_schedule ::
  "('f, 's::{linorder, zero}) pin_env \<Rightarrow> PrincipalKind \<Rightarrow> string \<Rightarrow> string \<Rightarrow> nat option \<Rightarrow> string list \<Rightarrow> pin_db \<Rightarrow> pin_result" where
  "handle_schedule env p pin model ctx exclude s =
     guarded (resolve_actor s p pin) s (\<lambda>_.
     let serving = serving_members pin s;
         candidates = filter (\<lambda>d. serving (ds_node_id d) \<noteq> None) (snapshot_devices (pe_registry env)) in
     case pick (pe_scheduler env) (pe_instant env) (pe_draw env) candidates model exclude (pe_registry env) ctx of
       None \<Rightarrow> (s, Inl (NoEligibleDevice model))
     | Some picked \<Rightarrow> (case serving (ds_node_id picked) of
         None \<Rightarrow> (s, Inl (Other (Panicked ''picked device is a serving member'')))
       | Some m \<Rightarrow> (s, Inr (RSchedule \<lparr>sh_device_id = pm_device_id m, sh_node_pubkey = pm_node_pubkey m,
           sh_display_name = pm_display_name m,
           sh_endpoints = (case endpoints_from (pe_ext env) (pm_endpoints m) of None \<Rightarrow> [] | Some es \<Rightarrow> es)\<rparr>))))"

section \<open>Loadouts and usage\<close>

definition handle_set_models ::
  "('f, 's) pin_env \<Rightarrow> PrincipalKind \<Rightarrow> string \<Rightarrow> string \<Rightarrow> (string \<times> string) list \<Rightarrow> pin_db \<Rightarrow> pin_result" where
  "handle_set_models env p pin device models s =
     guarded (require_staff_actor s p pin) s (\<lambda>account.
     if member_status pin device s \<notin> {Some ''active'', Some ''disabled''} then (s, Inl (NotFound ''unknown device''))
     else run_op (bad_request env) (set_model_policy (pe_now env) pin device models account s) s (\<lambda>s1.
       (s1, Inr (RPolicy (model_policy pin (Some device) s1)))))"

definition handle_models :: "PrincipalKind \<Rightarrow> string \<Rightarrow> pin_db \<Rightarrow> pin_result" where
  "handle_models p pin s = guarded (resolve_actor s p pin) s (\<lambda>_. (s, Inr (RPolicy (model_policy pin None s))))"

definition handle_usage_report ::
  "('f, 's) pin_env \<Rightarrow> string \<Rightarrow> string \<Rightarrow> string \<Rightarrow> UsageEntry list \<Rightarrow> pin_db \<Rightarrow> pin_result" where
  "handle_usage_report env device pin batch entries s =
     (if member_status pin device s \<noteq> Some ''active'' then (s, Inl (NotFound ''unknown network''))
      else if trim batch = [] then (s, Inl (BadRequest ''batchId is required''))
      else case record_usage_batch (pe_now env) pin device batch entries s of
        Inl e \<Rightarrow> (s, Inl (bad_request env e))
      | Inr (s1, applied) \<Rightarrow> (s1, Inr (RStatus (if applied then ''applied'' else ''duplicate''))))"

definition usage_group :: "string \<Rightarrow> UsageRow \<Rightarrow> string" where
  "usage_group by row = (if by = ''device'' then us_provider_device_id row else if by = ''model'' then us_model_id row
     else if by = ''consumer'' then us_consumer_device_id row else us_day row)"

text \<open>The map of totals, as an association list kept without duplicates, and its rows in key order.\<close>

definition add_total :: "string \<Rightarrow> UsageRow \<Rightarrow> (string \<times> int \<times> int \<times> int) list \<Rightarrow> (string \<times> int \<times> int \<times> int) list" where
  "add_total by row m =
     (let key = usage_group by row;
          (a, b, c) = (case map_of m key of None \<Rightarrow> (0, 0, 0) | Some t \<Rightarrow> t)
      in AList.update key (a + us_requests row, b + us_tokens_in row, c + us_tokens_out row) m)"

definition usage_totals :: "string \<Rightarrow> UsageRow list \<Rightarrow> UsageTotal list" where
  "usage_totals by rows = map (\<lambda>(k, a, b, c). \<lparr>ut_key = k, ut_requests = a, ut_tokens_in = b, ut_tokens_out = c\<rparr>)
     (sort_key fst (fold (add_total by) rows []))"

definition handle_usage ::
  "PrincipalKind \<Rightarrow> string \<Rightarrow> string option \<Rightarrow> string option \<Rightarrow> string option \<Rightarrow> pin_db \<Rightarrow> pin_result" where
  "handle_usage p pin from to by s =
     guarded (resolve_actor s p pin) s (\<lambda>actor.
     let rows = usage_rows pin from to (case actor of Staff _ _ \<Rightarrow> None | Member d \<Rightarrow> Some d) s
     in (s, Inr (RUsage rows (usage_totals (case by of None \<Rightarrow> ''day'' | Some b \<Rightarrow> b) rows))))"

section \<open>The endpoints together\<close>

text \<open>The requests of the router, and the part of the application state they change.\<close>

datatype PinRequest =
    Create string
  | ListMine
  | Join string "string option" string
  | Get string
  | Delete string
  | Members string
  | Patch string string PatchMemberReq
  | Remove string string
  | Approve string string
  | Deny string string
  | Leave string
  | RotateCode string
  | JoinCode string
  | SetRole string string "string option"
  | PutSettings string SettingsReq
  | Sync string SyncReq
  | Schedule string string "nat option" "string list"
  | Models string
  | SetModels string string "(string \<times> string) list"
  | UsageReport string string "UsageEntry list"
  | Usage string "string option" "string option" "string option"

record pin_app =
  pa_db :: "pin_db option"
  pa_join_limiter :: PinJoinLimiter

definition with_pool :: "(pin_db \<Rightarrow> pin_result) \<Rightarrow> pin_app \<Rightarrow> pin_app \<times> (GatewayError + PinResponse)" where
  "with_pool k a = (case pa_db a of
      None \<Rightarrow> (a, Inl (Other (Bail ''db not initialized'')))
    | Some s \<Rightarrow> let (s1, r) = k s in (a\<lparr>pa_db := Some s1\<rparr>, r))"

definition with_device ::
  "PrincipalKind \<Rightarrow> (string \<Rightarrow> pin_app \<Rightarrow> pin_app \<times> (GatewayError + PinResponse)) \<Rightarrow> pin_app
     \<Rightarrow> pin_app \<times> (GatewayError + PinResponse)" where
  "with_device p k a = (case require_device p of Inl e \<Rightarrow> (a, Inl e) | Inr d \<Rightarrow> k d a)"

definition limited_knock ::
  "('f, 's) pin_env \<Rightarrow> string \<Rightarrow> string option \<Rightarrow> string \<Rightarrow> string \<Rightarrow> pin_app \<Rightarrow> pin_app \<times> (GatewayError + PinResponse)" where
  "limited_knock env join_code name pubkey d a =
     (if pa_db a = None then with_pool (\<lambda>s. (s, Inr RAccepted)) a
      else let (l, allowed) = pin_join_allow d (pe_now env) (pa_join_limiter a); a1 = a\<lparr>pa_join_limiter := l\<rparr>
        in if allowed then with_pool (handle_knock env d join_code name pubkey) a1 else (a1, Inr RAccepted))"

fun serve_pin ::
  "('f, 's::{linorder, zero}) pin_env \<Rightarrow> PrincipalKind \<Rightarrow> PinRequest \<Rightarrow> pin_app
     \<Rightarrow> pin_app \<times> (GatewayError + PinResponse)" where
  "serve_pin env p (Create name) = with_pool (handle_create env p name)"
| "serve_pin env p ListMine = with_pool (handle_list p)"
| "serve_pin env p (Join join_code name pubkey) = with_device p (limited_knock env join_code name pubkey)"
| "serve_pin env p (Get pin) = with_pool (handle_get env p pin)"
| "serve_pin env p (Delete pin) = with_pool (handle_delete env p pin)"
| "serve_pin env p (Members pin) = with_pool (handle_members p pin)"
| "serve_pin env p (Patch pin d req) = with_pool (handle_patch env p pin d req)"
| "serve_pin env p (Remove pin d) = with_pool (handle_remove env p pin d)"
| "serve_pin env p (Approve pin d) = with_pool (handle_approve env p pin d)"
| "serve_pin env p (Deny pin d) = with_pool (handle_deny env p pin d)"
| "serve_pin env p (Leave pin) = with_device p (\<lambda>d. with_pool (handle_leave env d pin))"
| "serve_pin env p (RotateCode pin) = with_pool (handle_rotate_code env p pin)"
| "serve_pin env p (JoinCode pin) = with_pool (handle_join_code env p pin)"
| "serve_pin env p (SetRole pin account role) = with_pool (handle_set_role env p pin account role)"
| "serve_pin env p (PutSettings pin req) = with_pool (handle_settings env p pin req)"
| "serve_pin env p (Sync pin req) = with_device p (\<lambda>d. with_pool (handle_sync env d pin req))"
| "serve_pin env p (Schedule pin model ctx exclude) = with_pool (handle_schedule env p pin model ctx exclude)"
| "serve_pin env p (Models pin) = with_pool (handle_models p pin)"
| "serve_pin env p (SetModels pin d models) = with_pool (handle_set_models env p pin d models)"
| "serve_pin env p (UsageReport pin batch entries) =
     with_device p (\<lambda>d. with_pool (handle_usage_report env d pin batch entries))"
| "serve_pin env p (Usage pin from to by) = with_pool (handle_usage p pin from to by)"

section \<open>A small network\<close>

definition toy_ext :: pin_ext where
  "toy_ext = \<lparr>settings_json = (\<lambda>v. st_priority_policy v),
     settings_from = (\<lambda>t. Some \<lparr>st_din_contribution_default = True, st_priority_policy = t\<rparr>),
     endpoints_json = concat \<circ> map ep_addr, endpoints_from = (\<lambda>t. Some [\<lparr>ep_kind = ''lan'', ep_addr = t\<rparr>]),
     models_json = concat, models_from = (\<lambda>t. Some [t]), is_json = (\<lambda>_. True), json_error = (\<lambda>t. t),
     error_text = (\<lambda>e. case e of Bail t \<Rightarrow> t | _ \<Rightarrow> ''database error''), sign_netmap_hex = nt_name, gateway_public_key = ''gw''\<rparr>"

definition toy_env :: "(unit, int) pin_env" where
  "toy_env = \<lparr>pe_ext = toy_ext, pe_now = 100, pe_instant = 100, pe_pin_id = ''net2'', pe_draws = [0, 1, 2, 3, 4, 5, 6, 7, 8, 9],
     pe_draw = 0, pe_registry = registry_new \<lparr>rc_heartbeat_stale_seconds = 30, rc_quarantine_seconds = 60,
       rc_busy_excess_grace_seconds = 30, rc_departed_grace_seconds = 30, rc_convo_stickiness_ttl_seconds = 60,
       rc_heavy_hold_ttl_seconds = 300\<rparr>,
     pe_scheduler = \<lparr>sc_max_queue_depth = 4, sc_score_with_queue = (\<lambda>_ _ _. 1), sc_cutoff = (\<lambda>x. x)\<rparr>,
     pe_identity = True\<rparr>"

definition owner_key :: PrincipalKind where "owner_key = KApiKey ''k1'' ''acct'' Live None 0"

definition network_db :: pin_db where
  "network_db = \<lparr>pd_core = empty_db\<lparr>account_wallets := [new_account_wallet 1 ''acct''
       \<lparr>lm_device_name = None, lm_platform = None, lm_display_name = None, lm_phone = None, lm_email = None,
        lm_github_username = None\<rparr>],
       pins := [\<lparr>pin_pin_id = ''net'', pin_name = ''Home'', pin_join_code = ''ABCD-EFGH-JK'', pin_join_code_generation = 1,
         pin_owner_account_user_id = ''acct'', pin_netmap_generation = 1, pin_settings = ''pin_first'', pin_created_at = 1,
         pin_deleted_at = None\<rparr>]\<rparr>,
     pin_roles = [\<lparr>ro_pin_id = ''net'', ro_account_user_id = ''acct'', ro_role = ''admin'', ro_granted_by = Some ''acct'',
       ro_granted_at = 1\<rparr>],
     pin_members = [new_member 2 ''net'' ''phone'' ''pk'' None], pin_usage = [], pin_model_policy = [], pin_usage_batches = []\<rparr>"

definition network_app :: pin_app where
  "network_app = \<lparr>pa_db = Some network_db, pa_join_limiter = pin_join_default\<rparr>"

end
