(* ===== verification/Pin_Privacy.thy ===== *)
theory Pin_Privacy
  imports Pin_Handlers
begin

text \<open>
  Networks cannot be enumerated. A caller who has neither a role in a network nor a membership receives, to every request,
  the answer of a gateway in which that network does not exist. The proof removes the network from the database: queries and
  operations about other networks commute with the removal, and requests about the network itself fail alike.
\<close>

section \<open>A database without a network\<close>

definition without_network :: "string \<Rightarrow> pin_db \<Rightarrow> pin_db" where
  "without_network pin s = s\<lparr>pd_core := (pd_core s)\<lparr>pins := filter (\<lambda>p. pin_pin_id p \<noteq> pin) (pins_of s)\<rparr>,
     pin_roles := filter (\<lambda>r. ro_pin_id r \<noteq> pin) (pin_roles s),
     pin_members := filter (\<lambda>m. pm_pin_id m \<noteq> pin) (pin_members s),
     pin_usage := filter (\<lambda>r. us_pin_id r \<noteq> pin) (pin_usage s),
     pin_model_policy := filter (\<lambda>r. mp_pin_id r \<noteq> pin) (pin_model_policy s),
     pin_usage_batches := filter (\<lambda>b. ba_pin_id b \<noteq> pin) (pin_usage_batches s)\<rparr>"

definition outsider :: "string \<Rightarrow> PrincipalKind \<Rightarrow> pin_db \<Rightarrow> bool" where
  "outsider pin p s \<longleftrightarrow>
     (case account_of s p of None \<Rightarrow> True | Some account \<Rightarrow> role_of pin account s = None)
   \<and> (case principal_device_id p of None \<Rightarrow> True
      | Some d \<Rightarrow> \<not> has_row (\<lambda>m. is_member pin d m \<and> pm_status m \<noteq> ''removed'') (pin_members s))"

lemma without_network_tables [simp]:
  "pins_of (without_network pin s) = filter (\<lambda>p. pin_pin_id p \<noteq> pin) (pins_of s)"
  "pin_roles (without_network pin s) = filter (\<lambda>r. ro_pin_id r \<noteq> pin) (pin_roles s)"
  "pin_members (without_network pin s) = filter (\<lambda>m. pm_pin_id m \<noteq> pin) (pin_members s)"
  "pin_usage (without_network pin s) = filter (\<lambda>r. us_pin_id r \<noteq> pin) (pin_usage s)"
  "pin_model_policy (without_network pin s) = filter (\<lambda>r. mp_pin_id r \<noteq> pin) (pin_model_policy s)"
  "pin_usage_batches (without_network pin s) = filter (\<lambda>b. ba_pin_id b \<noteq> pin) (pin_usage_batches s)"
  by (simp_all add: without_network_def)

lemma find_filter: "(\<And>r. P r \<Longrightarrow> Q r) \<Longrightarrow> find P (filter Q t) = find P t"
  by (induction t) auto

lemma has_row_filter: "(\<And>r. P r \<Longrightarrow> Q r) \<Longrightarrow> has_row P (filter Q t) = has_row P t"
  by (auto simp: has_row_iff)

lemma changed_filter: "(\<And>r. P r \<Longrightarrow> Q r) \<Longrightarrow> changed P (filter Q t) = changed P t"
  by (auto simp: changed_def intro!: arg_cong [where f = length] filter_cong)

lemma filter_filter_weaker: "(\<And>r. P r \<Longrightarrow> Q r) \<Longrightarrow> filter P (filter Q t) = filter P t"
  by (auto intro: filter_cong)

lemma scoped_reads:
  assumes "q \<noteq> pin"
  shows "find (\<lambda>r. g r = q \<and> R r) (filter (\<lambda>r. g r \<noteq> pin) t) = find (\<lambda>r. g r = q \<and> R r) t"
    and "has_row (\<lambda>r. g r = q \<and> R r) (filter (\<lambda>r. g r \<noteq> pin) t) = has_row (\<lambda>r. g r = q \<and> R r) t"
    and "changed (\<lambda>r. g r = q \<and> R r) (filter (\<lambda>r. g r \<noteq> pin) t) = changed (\<lambda>r. g r = q \<and> R r) t"
    and "filter (\<lambda>r. g r = q \<and> R r) (filter (\<lambda>r. g r \<noteq> pin) t) = filter (\<lambda>r. g r = q \<and> R r) t"
  using assms by (auto intro!: find_filter has_row_filter changed_filter filter_filter_weaker simp del: filter_filter)

lemmas filter_reads = scoped_reads scoped_reads [where R = "\<lambda>_. True", unfolded simp_thms]

lemma filter_updated: "(\<And>r. Q (f r) = Q r) \<Longrightarrow> filter Q (sql_update P f t) = sql_update P f (filter Q t)"
  by (induction t) auto

lemma filter_sql_upsert:
  assumes "\<And>x. Q (f x) = Q x" and "\<And>x. key x = key r \<Longrightarrow> Q x = Q r" and "Q r"
  shows "filter Q (sql_upsert key r f t) = sql_upsert key r f (filter Q t)"
  using assms by (simp add: sql_upsert_def filter_updated has_row_filter)

section \<open>Queries about other networks\<close>

lemma without_core [simp]:
  "account_user_id_for_device (pd_core (without_network pin s)) d = account_user_id_for_device (pd_core s) d"
  "account_exists (pd_core (without_network pin s)) a = account_exists (pd_core s) a"
  by (simp_all add: without_network_def account_user_id_for_device_def account_exists_def)

lemma account_of_without [simp]: "account_of (without_network pin s) p = account_of s p"
  by (simp add: account_of_def split: option.split)

lemma without_queries:
  assumes "q \<noteq> pin"
  shows "pin_exists (without_network pin s) q = pin_exists s q"
    and "live_pin_row (without_network pin s) q = live_pin_row s q"
    and "get_pin x q (without_network pin s) = get_pin x q s"
    and "role_of q a (without_network pin s) = role_of q a s"
    and "member_status q d (without_network pin s) = member_status q d s"
    and "members q (without_network pin s) = members q s"
    and "model_policy q dev (without_network pin s) = model_policy q dev s"
    and "usage_rows q from to c (without_network pin s) = usage_rows q from to c s"
    and "count_members q sts (without_network pin s) = count_members q sts s"
proof -
  show ex: "pin_exists (without_network pin s) q = pin_exists s q"
    using assms by (simp add: pin_exists_def filter_reads)
  show live: "live_pin_row (without_network pin s) q = live_pin_row s q"
    using assms by (simp add: live_pin_row_def filter_reads)
  then show "get_pin x q (without_network pin s) = get_pin x q s" by (simp add: get_pin_def)
  show "role_of q a (without_network pin s) = role_of q a s"
    using assms unfolding role_of_def live by (simp add: filter_reads cong: if_cong)
  show "member_status q d (without_network pin s) = member_status q d s"
    using assms by (simp add: member_status_def is_member_def [abs_def] filter_reads)
  show "members q (without_network pin s) = members q s"
    using assms by (simp add: members_def filter_reads del: filter_filter)
  show "model_policy q dev (without_network pin s) = model_policy q dev s"
    using assms by (simp add: model_policy_def is_policy_def [abs_def] filter_reads del: filter_filter split: option.split)
  show "usage_rows q from to c (without_network pin s) = usage_rows q from to c s"
    using assms by (simp add: usage_rows_def filter_reads del: filter_filter)
  show "count_members q sts (without_network pin s) = count_members q sts s"
    using assms by (simp add: count_members_def filter_reads)
qed

lemma resolve_actor_without: "q \<noteq> pin \<Longrightarrow> resolve_actor (without_network pin s) p q = resolve_actor s p q"
  by (simp add: resolve_actor_def member_actor_def without_queries split: option.split)

lemma guards_without:
  "q \<noteq> pin \<Longrightarrow> require_admin_actor (without_network pin s) p q = require_admin_actor s p q"
  "q \<noteq> pin \<Longrightarrow> require_staff_actor (without_network pin s) p q = require_staff_actor s p q"
  by (simp_all add: require_admin_actor_def require_staff_actor_def resolve_actor_without)

section \<open>Operations on other networks\<close>

abbreviation without_result :: "string \<Rightarrow> 'e + pin_db \<Rightarrow> 'e + pin_db" where
  "without_result pin \<equiv> map_sum id (without_network pin)"

lemma without_update_members:
  assumes "\<And>m. pm_pin_id (f m) = pm_pin_id m"
  shows "without_network pin (update_members P f s) = update_members P f (without_network pin s)"
  by (rule pin_db.equality) (simp_all add: without_network_def update_members_def filter_updated assms)

lemma without_update_pins:
  assumes "\<And>p. pin_pin_id (f p) = pin_pin_id p"
  shows "without_network pin (update_pins P f s) = update_pins P f (without_network pin s)"
  by (rule pin_db.equality) (simp_all add: without_network_def update_pins_def filter_updated assms)

lemma without_bump: "without_network pin (bump_generation q s) = bump_generation q (without_network pin s)"
  unfolding bump_generation_def by (rule without_update_pins) simp

lemmas without_updates = without_update_members without_update_pins without_bump

lemma map_sum_rbind: "map_sum id f (rbind m k) = rbind m (\<lambda>x. map_sum id f (k x))"
  by (cases m) simp_all

lemma rfold_map_sum:
  "(\<And>x s. f x (w s) = map_sum id w (f x s)) \<Longrightarrow> rfold f xs (w s) = map_sum id w (rfold f xs s)"
proof (induction xs arbitrary: s)
  case (Cons x xs)
  then show ?case by (cases "f x s") simp_all
qed simp

lemma without_member_ops:
  assumes q: "q \<noteq> pin"
  shows "approve_member now q d a (without_network pin s) = without_result pin (approve_member now q d a s)"
    and "deny_member q d (without_network pin s) = without_result pin (deny_member q d s)"
    and "remove_member now q d a (without_network pin s) = without_result pin (remove_member now q d a s)"
    and "set_member_disabled q d b (without_network pin s) = without_result pin (set_member_disabled q d b s)"
    and "update_member_endpoints x now q d es ms w (without_network pin s) = without_result pin (update_member_endpoints x now q d es ms w s)"
    and "set_member_offers_exit q d b (without_network pin s) = without_network pin (set_member_offers_exit q d b s)"
proof -
  have ch: "changed (\<lambda>m. is_member q d m \<and> R m) (filter (\<lambda>m. pm_pin_id m \<noteq> pin) t) = changed (\<lambda>m. is_member q d m \<and> R m) t" for R t
    unfolding is_member_def conj_assoc using q by (rule scoped_reads)
  show "approve_member now q d a (without_network pin s) = without_result pin (approve_member now q d a s)"
    "remove_member now q d a (without_network pin s) = without_result pin (remove_member now q d a s)"
    "set_member_disabled q d b (without_network pin s) = without_result pin (set_member_disabled q d b s)"
    "update_member_endpoints x now q d es ms w (without_network pin s) = without_result pin (update_member_endpoints x now q d es ms w s)"
    "set_member_offers_exit q d b (without_network pin s) = without_network pin (set_member_offers_exit q d b s)"
    by (simp_all add: approve_member_def remove_member_def set_member_disabled_def update_member_endpoints_def
        set_member_offers_exit_def require_admin_def without_queries [OF q] Let_def map_sum_rbind without_updates ch split: prod.split)
  show "deny_member q d (without_network pin s) = without_result pin (deny_member q d s)"
  proof -
    have "without_network pin (s\<lparr>pin_members := sql_delete P (pin_members s)\<rparr>)
        = (without_network pin s)\<lparr>pin_members := sql_delete P (filter (\<lambda>m. pm_pin_id m \<noteq> pin) (pin_members s))\<rparr>" for P
      by (rule pin_db.equality) (simp_all add: without_network_def sql_delete_def conj_commute)
    then show ?thesis by (simp add: deny_member_def Let_def map_sum_rbind ch)
  qed
qed

lemma without_update_member:
  assumes q: "q \<noteq> pin"
  shows "update_member q d display serves (without_network pin s) = without_result pin (update_member q d display serves s)"
proof -
  have ch: "changed (\<lambda>m. is_member q d m \<and> R m) (filter (\<lambda>m. pm_pin_id m \<noteq> pin) t) = changed (\<lambda>m. is_member q d m \<and> R m) t"
    "changed (is_member q d) (filter (\<lambda>m. pm_pin_id m \<noteq> pin) t) = changed (is_member q d) t" for R t
    unfolding is_member_def [abs_def] conj_assoc using q by (rule scoped_reads)+
  have ms: "filter (\<lambda>m. pm_pin_id m \<noteq> pin) (pin_members (update_members P (\<lambda>m. m\<lparr>pm_display_name := nm\<rparr>) s))
      = pin_members (update_members P (\<lambda>m. m\<lparr>pm_display_name := nm\<rparr>) (without_network pin s))" for P nm
    by (simp add: update_members_def filter_updated)
  show ?thesis
    by (cases display; cases serves; cases "changed (is_member q d) (pin_members s) = 1")
      (simp_all add: update_member_def Let_def map_sum_rbind ch without_updates ms [symmetric] if_distrib [of Inr]
        if_distrib [of "without_network pin"] cong: if_cong)
qed

lemma without_pin_ops:
  assumes q: "q \<noteq> pin"
  shows "delete_pin now q (without_network pin s) = without_result pin (delete_pin now q s)"
    and "set_settings x q v (without_network pin s) = without_result pin (set_settings x q v s)"
    and "rotate_join_code draws q (without_network pin s) = map_sum id (map_prod (without_network pin) id) (rotate_join_code draws q s)"
  by (simp_all add: delete_pin_def set_settings_def rotate_join_code_def Let_def filter_reads [OF q] map_sum_rbind without_updates)

lemma without_role_ops:
  assumes q: "q \<noteq> pin"
  shows "grant_role now q a role g (without_network pin s) = without_result pin (grant_role now q a role g s)"
    and "revoke_role q a (without_network pin s) = without_result pin (revoke_role q a s)"
proof -
  have up: "(without_network pin s)\<lparr>pin_roles := sql_upsert role_key r f (filter (\<lambda>r. ro_pin_id r \<noteq> pin) (pin_roles s))\<rparr>
      = without_network pin (s\<lparr>pin_roles := sql_upsert role_key r f (pin_roles s)\<rparr>)"
    if "ro_pin_id r = q" "\<And>x. ro_pin_id (f x) = ro_pin_id x" for r f
    using q that
    by (intro pin_db.equality) (auto simp: without_network_def role_key_def intro!: filter_sql_upsert [symmetric])
  show "grant_role now q a role g (without_network pin s) = without_result pin (grant_role now q a role g s)"
    by (simp add: grant_role_def Let_def role_ok_def without_queries [OF q] map_sum_rbind up)
  have del: "(without_network pin s)\<lparr>pin_roles := sql_delete P (filter (\<lambda>r. ro_pin_id r \<noteq> pin) (pin_roles s))\<rparr>
      = without_network pin (s\<lparr>pin_roles := sql_delete P (pin_roles s)\<rparr>)" for P
    by (intro pin_db.equality) (auto simp: without_network_def sql_delete_def conj_commute)
  show "revoke_role q a (without_network pin s) = without_result pin (revoke_role q a s)"
    by (simp add: revoke_role_def Let_def filter_reads [OF q] map_sum_rbind del)
qed

lemma without_policy_ops:
  assumes q: "q \<noteq> pin"
  shows "set_model_policy now q d models a (without_network pin s) = without_result pin (set_model_policy now q d models a s)"
    and "report_model_policy_status now q d sts (without_network pin s) = without_network pin (report_model_policy_status now q d sts s)"
proof -
  have ins: "insert_policy r (without_network pin t) = without_result pin (insert_policy r t)" if "mp_pin_id r = q" for r t
  proof -
    have "(without_network pin t)\<lparr>pin_model_policy := filter (\<lambda>r. mp_pin_id r \<noteq> pin) (pin_model_policy t) @ [r]\<rparr>
        = without_network pin (t\<lparr>pin_model_policy := pin_model_policy t @ [r]\<rparr>)"
      using q that by (intro pin_db.equality) (simp_all add: without_network_def)
    with that show ?thesis
      by (simp add: insert_policy_def is_policy_def conj_assoc filter_reads [OF q] without_queries [OF q])
  qed
  have "(without_network pin s)\<lparr>pin_model_policy := sql_delete P (filter (\<lambda>r. mp_pin_id r \<noteq> pin) (pin_model_policy s))\<rparr>
      = without_network pin (s\<lparr>pin_model_policy := sql_delete P (pin_model_policy s)\<rparr>)" for P
    by (intro pin_db.equality) (auto simp: without_network_def sql_delete_def conj_commute)
  then show "set_model_policy now q d models a (without_network pin s) = without_result pin (set_model_policy now q d models a s)"
    by (simp add: set_model_policy_def map_sum_rbind rfold_map_sum ins new_policy_def)
  have "(without_network pin t)\<lparr>pin_model_policy := sql_update P f (filter (\<lambda>r. mp_pin_id r \<noteq> pin) (pin_model_policy t))\<rparr>
      = without_network pin (t\<lparr>pin_model_policy := sql_update P f (pin_model_policy t)\<rparr>)"
    if "\<And>r. mp_pin_id (f r) = mp_pin_id r" for P f t
    using that by (intro pin_db.equality) (simp_all add: without_network_def filter_updated)
  then show "report_model_policy_status now q d sts (without_network pin s) = without_network pin (report_model_policy_status now q d sts s)"
    by (induction sts arbitrary: s) (auto simp: report_model_policy_status_def)
qed

lemma without_record_usage:
  assumes q: "q \<noteq> pin"
  shows "record_usage_batch now q d batch entries (without_network pin s)
    = map_sum id (map_prod (without_network pin) id) (record_usage_batch now q d batch entries s)"
proof -
  let ?b = "\<lparr>ba_pin_id = q, ba_provider_device_id = d, ba_batch_id = batch, ba_received_at = now\<rparr>"
  have entry: "apply_entry q d e (without_network pin t) = without_result pin (apply_entry q d e t)" for e t
  proof -
    have "(without_network pin t)\<lparr>pin_usage := sql_upsert usage_key (entry_row q d e) (add_usage e)
          (filter (\<lambda>r. us_pin_id r \<noteq> pin) (pin_usage t))\<rparr>
        = without_network pin (t\<lparr>pin_usage := sql_upsert usage_key (entry_row q d e) (add_usage e) (pin_usage t)\<rparr>)"
      using q by (intro pin_db.equality)
        (auto simp: without_network_def usage_key_def add_usage_def entry_row_def intro!: filter_sql_upsert [symmetric])
    then show ?thesis by (simp add: apply_entry_def map_sum_rbind)
  qed
  have rows: "has_row (\<lambda>y. batch_key y = batch_key ?b) (filter (\<lambda>b. ba_pin_id b \<noteq> pin) t)
      = has_row (\<lambda>y. batch_key y = batch_key ?b) t" for t
    using q by (auto simp: batch_key_def intro!: has_row_filter)
  have start: "(without_network pin s)\<lparr>pin_usage_batches := filter (\<lambda>b. ba_pin_id b \<noteq> pin) (pin_usage_batches s) @ [?b]\<rparr>
      = without_network pin (s\<lparr>pin_usage_batches := pin_usage_batches s @ [?b]\<rparr>)"
    using q by (intro pin_db.equality) (simp_all add: without_network_def)
  have fold: "rfold (apply_entry q d) entries (without_network pin t) = without_result pin (rfold (apply_entry q d) entries t)" for t
    by (rule rfold_map_sum) (rule entry)
  show ?thesis
    by (cases "rfold (apply_entry q d) entries (s\<lparr>pin_usage_batches := pin_usage_batches s @ [?b]\<rparr>)")
      (simp_all add: record_usage_batch_def Let_def rows start fold without_queries [OF q] map_sum_rbind)
qed

lemma without_create:
  assumes q: "q \<noteq> pin"
  shows "create_pin x now q draws name owner (without_network pin s)
    = map_sum id (map_prod (without_network pin) id) (create_pin x now q draws name owner s)"
proof -
  have pin: "insert_pin r (without_network pin t) = without_result pin (insert_pin r t)" if "pin_pin_id r = q" for r t
  proof -
    have "(without_network pin t)\<lparr>pd_core := (pd_core (without_network pin t))\<lparr>pins := filter (\<lambda>p. pin_pin_id p \<noteq> pin) (pins_of t) @ [r]\<rparr>\<rparr>
        = without_network pin (t\<lparr>pd_core := (pd_core t)\<lparr>pins := pins_of t @ [r]\<rparr>\<rparr>)"
      using q that by (intro pin_db.equality) (simp_all add: without_network_def)
    with that show ?thesis by (simp add: insert_pin_def without_queries [OF q])
  qed
  have role: "insert_role r (without_network pin t) = without_result pin (insert_role r t)" if "ro_pin_id r = q" for r t
  proof -
    have "(without_network pin t)\<lparr>pin_roles := filter (\<lambda>r. ro_pin_id r \<noteq> pin) (pin_roles t) @ [r]\<rparr>
        = without_network pin (t\<lparr>pin_roles := pin_roles t @ [r]\<rparr>)"
      using q that by (intro pin_db.equality) (simp_all add: without_network_def)
    moreover have "has_row (\<lambda>x. role_key x = role_key r) (filter (\<lambda>r. ro_pin_id r \<noteq> pin) (pin_roles t))
        = has_row (\<lambda>x. role_key x = role_key r) (pin_roles t)"
      using q that by (auto simp: role_key_def intro!: has_row_filter)
    ultimately show ?thesis using that by (simp add: insert_role_def role_ok_def without_queries [OF q])
  qed
  have bind: "rbind (without_result pin m) k = rbind m (\<lambda>t. k (without_network pin t))" for m :: "anyhow + pin_db" and k
    by (cases m) simp_all
  show ?thesis
    by (simp add: create_pin_def Let_def pin role map_sum_rbind without_queries [OF q] bind)
qed

section \<open>Answers about other networks\<close>

lemma case_map_sum: "(case map_sum f g m of Inl a \<Rightarrow> h a | Inr b \<Rightarrow> k b) = (case m of Inl a \<Rightarrow> h (f a) | Inr b \<Rightarrow> k (g b))"
  by (cases m) simp_all

lemma case_map_prod: "(case map_prod f g x of (a, b) \<Rightarrow> k a b) = (case x of (a, b) \<Rightarrow> k (f a) (g b))"
  by (cases x) simp

lemmas answer_simps = guarded_def run_op_def case_map_sum case_map_prod

lemma build_netmap_without:
  "q \<noteq> pin \<Longrightarrow> build_netmap x now q live (without_network pin s) = build_netmap x now q live s"
  by (simp add: build_netmap_def without_queries)

lemma sync_answer_without:
  "q \<noteq> pin \<Longrightarrow> snd (sync_answer env d q (without_network pin s)) = snd (sync_answer env d q s)"
  by (auto simp: sync_answer_def without_queries build_netmap_without answer_simps split: sum.split)

lemma sync_without:
  assumes q: "q \<noteq> pin"
  shows "snd (handle_sync env d q req (without_network pin s)) = snd (handle_sync env d q req s)"
proof -
  have "(case e of None \<Rightarrow> without_network pin t | Some b \<Rightarrow> set_member_offers_exit q d b (without_network pin t))
      = without_network pin (case e of None \<Rightarrow> t | Some b \<Rightarrow> set_member_offers_exit q d b t)" for e t
    by (simp add: without_member_ops [OF q] split: option.split)
  then show ?thesis
    by (auto simp: handle_sync_def Let_def without_queries [OF q] without_member_ops [OF q] without_policy_ops [OF q]
        answer_simps sync_answer_without [OF q] split: sum.split)
qed

lemma patch_without:
  assumes q: "q \<noteq> pin"
  shows "snd (handle_patch env p q d req (without_network pin s)) = snd (handle_patch env p q d req s)"
proof -
  let ?m = "\<lambda>t. if pq_display_name req \<noteq> None \<or> pq_serves_models req \<noteq> None
    then update_member q d (pq_display_name req) (pq_serves_models req) t else Inr t"
  have m: "?m (without_network pin s) = without_result pin (?m s)" by (simp add: without_update_member [OF q])
  show ?thesis unfolding handle_patch_def m
    by (auto simp: guards_without [OF q] without_member_ops [OF q] answer_simps simp del: if_split split: sum.split option.split)
qed

lemma schedule_without:
  "q \<noteq> pin \<Longrightarrow> snd (handle_schedule env p q model ctx ex (without_network pin s)) = snd (handle_schedule env p q model ctx ex s)"
  by (auto simp: handle_schedule_def serving_members_def resolve_actor_without without_queries answer_simps Let_def
      split: sum.split option.split)

lemma handlers_without:
  assumes q: "q \<noteq> pin"
  shows "snd (handle_get env p q (without_network pin s)) = snd (handle_get env p q s)"
    and "snd (handle_delete env p q (without_network pin s)) = snd (handle_delete env p q s)"
    and "snd (handle_rotate_code env p q (without_network pin s)) = snd (handle_rotate_code env p q s)"
    and "snd (handle_join_code env p q (without_network pin s)) = snd (handle_join_code env p q s)"
    and "snd (handle_set_role env p q account role (without_network pin s)) = snd (handle_set_role env p q account role s)"
    and "snd (handle_settings env p q sreq (without_network pin s)) = snd (handle_settings env p q sreq s)"
    and "snd (handle_members p q (without_network pin s)) = snd (handle_members p q s)"
    and "snd (handle_approve env p q d (without_network pin s)) = snd (handle_approve env p q d s)"
    and "snd (handle_deny env p q d (without_network pin s)) = snd (handle_deny env p q d s)"
    and "snd (handle_remove env p q d (without_network pin s)) = snd (handle_remove env p q d s)"
    and "snd (handle_leave env d q (without_network pin s)) = snd (handle_leave env d q s)"
    and "snd (handle_models p q (without_network pin s)) = snd (handle_models p q s)"
    and "snd (handle_usage p q from to by (without_network pin s)) = snd (handle_usage p q from to by s)"
    and "snd (handle_set_models env p q d models (without_network pin s)) = snd (handle_set_models env p q d models s)"
    and "snd (handle_usage_report env d q batch entries (without_network pin s)) = snd (handle_usage_report env d q batch entries s)"
  by (auto simp: handle_get_def handle_delete_def handle_rotate_code_def handle_join_code_def handle_set_role_def
      handle_settings_def handle_members_def handle_approve_def handle_deny_def handle_remove_def handle_leave_def
      handle_models_def handle_usage_def handle_set_models_def handle_usage_report_def answer_simps Let_def
      resolve_actor_without [OF q] guards_without [OF q] without_queries [OF q] without_pin_ops [OF q] without_role_ops [OF q]
      without_member_ops [OF q] without_policy_ops [OF q] without_record_usage [OF q] split: sum.split option.split)

section \<open>Answers about the network itself\<close>

lemma outsider_without: "outsider pin p (without_network pin s)"
proof -
  have "live_pin_row (without_network pin s) pin = None" by (auto simp: live_pin_row_def find_None_iff)
  then show ?thesis
    by (auto simp: outsider_def role_of_def has_row_iff is_member_def find_None_iff split: option.split)
qed

lemma outsider_status:
  assumes "outsider pin p s" and "principal_device_id p = Some d"
  shows "member_status pin d s \<in> {None, Some ''removed''}"
proof (cases "find (is_member pin d) (pin_members s)")
  case (Some m)
  then have "m \<in> set (pin_members s)" "is_member pin d m" by (auto simp: find_Some_iff dest: nth_mem)
  with assms Some show ?thesis by (auto simp: outsider_def has_row_iff member_status_def)
qed (simp add: member_status_def)

lemma outsider_refused:
  assumes "outsider pin p s"
  shows "resolve_actor s p pin = Inl (NotFound ''unknown network'')"
    and "require_admin_actor s p pin = Inl (NotFound ''unknown network'')"
    and "require_staff_actor s p pin = Inl (NotFound ''unknown network'')"
proof -
  have "member_actor s p pin = Inl (NotFound ''unknown network'')"
    using outsider_status [OF assms] by (auto simp: member_actor_def split: option.split)
  then show "resolve_actor s p pin = Inl (NotFound ''unknown network'')"
    using assms by (auto simp: resolve_actor_def outsider_def split: option.split)
  then show "require_admin_actor s p pin = Inl (NotFound ''unknown network'')"
    "require_staff_actor s p pin = Inl (NotFound ''unknown network'')"
    by (simp_all add: require_admin_actor_def require_staff_actor_def)
qed

lemma outsider_leave:
  assumes "outsider pin p s" and "principal_device_id p = Some d"
  shows "snd (handle_leave env d pin s) = Inl (conflict env (Bail ''device is not a member of this network''))"
proof -
  have "changed (\<lambda>m. is_member pin d m \<and> pm_status m \<in> {''active'', ''disabled''}) (pin_members s) = 0"
    using assms by (auto simp: outsider_def changed_def has_row_iff filter_empty_conv)
  then show ?thesis by (simp add: handle_leave_def remove_member_def run_op_def)
qed

lemma outsider_sync:
  assumes "outsider pin p s" and "principal_device_id p = Some d"
  shows "snd (handle_sync env d pin req s) = Inr (RSync \<lparr>sr_membership = ''none'', sr_netmap = None, sr_model_policy = [], sr_settings = None\<rparr>)"
  using outsider_status [OF assms] by (auto simp: handle_sync_def Let_def)

lemma outsider_usage_report:
  assumes "outsider pin p s" and "principal_device_id p = Some d"
  shows "snd (handle_usage_report env d pin batch entries s) = Inl (NotFound ''unknown network'')"
  using outsider_status [OF assms] by (auto simp: handle_usage_report_def)

lemmas outsider_answers = outsider_refused outsider_leave outsider_sync outsider_usage_report

lemma knock_accepted: "snd (handle_knock env d jc name pubkey s) = Inr RAccepted"
proof (cases "find_by_join_code (pe_ext env) jc s")
  case (Some n)
  then have "n \<in> row_to_pin (pe_ext env) ` set (pins_of s)"
    by (auto simp: find_by_join_code_def Let_def split: if_splits dest!: find_SomeD)
  then have "pin_exists s (p_pin_id n)" by (auto simp: pin_exists_def has_row_iff row_to_pin_def)
  then have "\<exists>s'. submit_join now (p_pin_id n) d pubkey name s = Inr s'" for now
    by (auto simp: submit_join_def split: option.split)
  then obtain s' where "submit_join (pe_now env) (p_pin_id n) d pubkey name s = Inr s'" by blast
  with Some show ?thesis by (simp add: handle_knock_def run_op_def)
qed (simp add: handle_knock_def)

lemma outsider_handlers:
  assumes "outsider pin p s"
  shows "snd (handle_get env p q (without_network pin s)) = snd (handle_get env p q s)"
    and "snd (handle_delete env p q (without_network pin s)) = snd (handle_delete env p q s)"
    and "snd (handle_rotate_code env p q (without_network pin s)) = snd (handle_rotate_code env p q s)"
    and "snd (handle_join_code env p q (without_network pin s)) = snd (handle_join_code env p q s)"
    and "snd (handle_set_role env p q account role (without_network pin s)) = snd (handle_set_role env p q account role s)"
    and "snd (handle_settings env p q sreq (without_network pin s)) = snd (handle_settings env p q sreq s)"
    and "snd (handle_members p q (without_network pin s)) = snd (handle_members p q s)"
    and "snd (handle_patch env p q d req (without_network pin s)) = snd (handle_patch env p q d req s)"
    and "snd (handle_approve env p q d (without_network pin s)) = snd (handle_approve env p q d s)"
    and "snd (handle_deny env p q d (without_network pin s)) = snd (handle_deny env p q d s)"
    and "snd (handle_remove env p q d (without_network pin s)) = snd (handle_remove env p q d s)"
    and "snd (handle_models p q (without_network pin s)) = snd (handle_models p q s)"
    and "snd (handle_usage p q from to by (without_network pin s)) = snd (handle_usage p q from to by s)"
    and "snd (handle_set_models env p q d models (without_network pin s)) = snd (handle_set_models env p q d models s)"
  using outsider_refused [OF assms] outsider_refused [OF outsider_without [of pin p s]]
  by (cases "q = pin"; simp add: handlers_without patch_without; simp add: handle_get_def handle_delete_def
      handle_rotate_code_def handle_join_code_def handle_set_role_def handle_settings_def handle_members_def handle_patch_def
      handle_approve_def handle_deny_def handle_remove_def handle_models_def handle_usage_def handle_set_models_def guarded_def)+

lemma outsider_schedule:
  "outsider pin p s \<Longrightarrow>
     snd (handle_schedule env p q model ctx ex (without_network pin s)) = snd (handle_schedule env p q model ctx ex s)"
  using outsider_refused(1) [of pin p s] outsider_refused(1) [OF outsider_without [of pin p s]]
  by (cases "q = pin") (simp_all add: schedule_without, simp add: handle_schedule_def guarded_def)

section \<open>The networks of a caller\<close>

lemma concat_map_drop:
  "(\<And>x. Q x \<Longrightarrow> h x = g x) \<Longrightarrow> (\<And>x. \<not> Q x \<Longrightarrow> g x = []) \<Longrightarrow> concat (map h (filter Q xs)) = concat (map g xs)"
  by (induction xs) auto

lemma live_pins_without: "live_pins_by_age (without_network pin s) = filter (\<lambda>p. pin_pin_id p \<noteq> pin) (live_pins_by_age s)"
  by (simp add: live_pins_by_age_def filter_sort conj_commute)

lemma outsider_list:
  assumes "outsider pin p s"
  shows "snd (handle_list p (without_network pin s)) = snd (handle_list p s)"
proof -
  have "pins_for_account a (without_network pin s) = pins_for_account a s" if "account_of s p = Some a" for a
  proof -
    have none: "filter (\<lambda>r. ro_pin_id r = pin \<and> ro_account_user_id r = a) (pin_roles s) = []"
      using assms that by (auto simp: outsider_def role_of_def find_None_iff filter_empty_conv split: if_splits)
    show ?thesis unfolding pins_for_account_def live_pins_without
      by (rule concat_map_drop) (simp_all add: none without_queries filter_reads del: filter_filter)
  qed
  moreover have "pins_for_device d (without_network pin s) = pins_for_device d s" if "principal_device_id p = Some d" for d
  proof -
    have none: "filter (\<lambda>m. is_member pin d m \<and> pm_status m \<noteq> ''removed'') (pin_members s) = []"
      using assms that by (auto simp: outsider_def has_row_iff filter_empty_conv)
    show ?thesis unfolding pins_for_device_def live_pins_without
      by (rule concat_map_drop) (simp_all add: none [unfolded is_member_def conj_assoc] is_member_def conj_assoc filter_reads
          del: filter_filter)
  qed
  ultimately show ?thesis by (auto simp: handle_list_def split: option.split)
qed

section \<open>Properties\<close>

lemma with_pool_answer:
  "pa_db a = Some s \<Longrightarrow> pa_db b = Some t \<Longrightarrow> snd (k t) = snd (k s) \<Longrightarrow> snd (with_pool k b) = snd (with_pool k a)"
  by (simp add: with_pool_def split: prod.split) (metis snd_conv)

text \<open>C6. Networks cannot be enumerated: a caller with no role and no membership in a network receives, to every request,
  exactly the answer that a gateway without this network gives; a knock is accepted alike whether or not its code exists.\<close>

theorem networks_not_enumerable:
  assumes "pa_db a = Some s" and "outsider pin p s" and "\<And>name. req = Create name \<Longrightarrow> pe_pin_id env \<noteq> pin"
  shows "snd (serve_pin env p req (a\<lparr>pa_db := Some (without_network pin s)\<rparr>)) = snd (serve_pin env p req a)"
proof -
  let ?w = "without_network pin s"
  let ?b = "a\<lparr>pa_db := Some ?w\<rparr>"
  note pool = with_pool_answer [OF assms(1), of ?b ?w, simplified]
  note out = outsider_answers [OF assms(2)] outsider_answers [OF outsider_without]
  show ?thesis
  proof (cases req)
    case (Create name)
    then have "pe_pin_id env \<noteq> pin" using assms(3) by blast
    then have "snd (handle_create env p name ?w) = snd (handle_create env p name s)"
      by (auto simp: handle_create_def without_create answer_simps split: sum.split)
    then show ?thesis using pool Create by simp
  next
    case ListMine
    then show ?thesis using pool outsider_list [OF assms(2)] by simp
  next
    case (Join jc name pubkey)
    have "snd (with_pool (handle_knock env d jc name pubkey) c) = Inr RAccepted" if "pa_db c \<noteq> None" for d c
      using that knock_accepted [of env d jc name pubkey] by (auto simp: with_pool_def split_beta)
    then show ?thesis using Join assms(1)
      by (simp add: with_device_def limited_knock_def Let_def split: sum.split prod.split)
  next
    case (Leave q)
    then show ?thesis
      by (cases "q = pin"; cases "principal_device_id p")
        (auto simp: with_device_def require_device_def out handlers_without intro!: pool)
  next
    case (Sync q r)
    then show ?thesis
      by (cases "q = pin"; cases "principal_device_id p")
        (auto simp: with_device_def require_device_def out sync_without intro!: pool)
  next
    case (UsageReport q batch entries)
    then show ?thesis
      by (cases "q = pin"; cases "principal_device_id p")
        (auto simp: with_device_def require_device_def out handlers_without intro!: pool)
  qed (auto intro!: pool outsider_handlers [OF assms(2)] outsider_schedule [OF assms(2)])
qed

theorem networks_not_enumerable_witness:
  "outsider ''net'' (KDevice ''stranger'') network_db \<and>
   snd (serve_pin toy_env (KDevice ''stranger'') (Get ''net'') (network_app\<lparr>pa_db := Some (without_network ''net'' network_db)\<rparr>))
     = snd (serve_pin toy_env (KDevice ''stranger'') (Get ''net'') network_app)"
proof -
  have "outsider ''net'' (KDevice ''stranger'') network_db" by code_simp
  moreover have "pa_db network_app = Some network_db" by (simp add: network_app_def)
  ultimately show ?thesis using networks_not_enumerable [of network_app network_db] by blast
qed

end
