(* ===== verification/Pin_Laws.thy ===== *)
theory Pin_Laws
  imports Pin_Handlers
begin

text \<open>
  What the endpoints of private inference networks guarantee. Every request changes the database by operations of
  \<open>pins.rs\<close> only, so an invariant of the operations is one of the requests; the tables stay well formed and the wallets
  are out of reach. A device becomes active by an administrator only; a caller without standing cannot tell a network from
  one that does not exist; equal netmap generations mean equal membership; a usage report counts once however often it is
  delivered; and a device that knocks with the join code and is approved is on the netmap of its next sync.
\<close>

section \<open>Requests change the database by operations\<close>

text \<open>The draws of a join code are ten positions of the alphabet.\<close>

definition draws_ok :: "nat list \<Rightarrow> bool" where
  "draws_ok draws \<longleftrightarrow> length draws = 10 \<and> list_all (\<lambda>i. i < length JOIN_CODE_ALPHABET) draws"

inductive pin_op :: "pin_db \<Rightarrow> pin_db \<Rightarrow> bool" where
  op_create: "draws_ok draws \<Longrightarrow> create_pin x now pin draws name owner s = Inr (s', n) \<Longrightarrow> pin_op s s'"
| op_delete: "delete_pin now pin s = Inr s' \<Longrightarrow> pin_op s s'"
| op_rotate: "draws_ok draws \<Longrightarrow> rotate_join_code draws pin s = Inr (s', c) \<Longrightarrow> pin_op s s'"
| op_settings: "set_settings x pin v s = Inr s' \<Longrightarrow> pin_op s s'"
| op_join: "submit_join now pin d pubkey name s = Inr s' \<Longrightarrow> pin_op s s'"
| op_approve: "approve_member now pin d a s = Inr s' \<Longrightarrow> pin_op s s'"
| op_deny: "deny_member pin d s = Inr s' \<Longrightarrow> pin_op s s'"
| op_remove: "remove_member now pin d a s = Inr s' \<Longrightarrow> pin_op s s'"
| op_disable: "set_member_disabled pin d b s = Inr s' \<Longrightarrow> pin_op s s'"
| op_update: "update_member pin d display serves s = Inr s' \<Longrightarrow> pin_op s s'"
| op_grant: "grant_role now pin a role g s = Inr s' \<Longrightarrow> pin_op s s'"
| op_revoke: "revoke_role pin a s = Inr s' \<Longrightarrow> pin_op s s'"
| op_endpoints: "update_member_endpoints x now pin d es ms w s = Inr s' \<Longrightarrow> pin_op s s'"
| op_exit: "pin_op s (set_member_offers_exit pin d b s)"
| op_status: "pin_op s (report_model_policy_status now pin d sts s)"
| op_policy: "set_model_policy now pin d models a s = Inr s' \<Longrightarrow> pin_op s s'"
| op_usage: "record_usage_batch now pin d batch entries s = Inr (s', b) \<Longrightarrow> pin_op s s'"

lemmas op_steps = r_into_rtranclp [of pin_op, OF op_create] r_into_rtranclp [of pin_op, OF op_delete]
  r_into_rtranclp [of pin_op, OF op_rotate] r_into_rtranclp [of pin_op, OF op_settings]
  r_into_rtranclp [of pin_op, OF op_join] r_into_rtranclp [of pin_op, OF op_approve]
  r_into_rtranclp [of pin_op, OF op_deny] r_into_rtranclp [of pin_op, OF op_remove]
  r_into_rtranclp [of pin_op, OF op_disable] r_into_rtranclp [of pin_op, OF op_update]
  r_into_rtranclp [of pin_op, OF op_grant] r_into_rtranclp [of pin_op, OF op_revoke]
  r_into_rtranclp [of pin_op, OF op_endpoints] r_into_rtranclp [of pin_op, OF op_policy]
  r_into_rtranclp [of pin_op, OF op_usage]

lemmas result_splits = sum.split option.split prod.split

lemma sync_answer_same [simp]: "fst (sync_answer env d pin s) = s"
  by (auto simp: sync_answer_def guarded_def split: sum.split)

lemma sync_reports_ops:
  assumes "pin_op\<^sup>*\<^sup>* s t"
  shows "pin_op\<^sup>*\<^sup>* s (case e of None \<Rightarrow> t | Some b \<Rightarrow> set_member_offers_exit pin d b t)"
    "pin_op\<^sup>*\<^sup>* s (report_model_policy_status now pin d sts t)"
  using assms by (auto split: option.split intro: rtranclp.rtrancl_into_rtrancl op_exit op_status)

lemma handle_sync_ops: "pin_op\<^sup>*\<^sup>* s (fst (handle_sync env d pin req s))"
  by (auto simp: handle_sync_def Let_def run_op_def split: sum.split intro!: sync_reports_ops intro: op_steps)

lemma handle_patch_ops: "pin_op\<^sup>*\<^sup>* s (fst (handle_patch env p pin d req s))"
proof -
  let ?m = "if pq_display_name req \<noteq> None \<or> pq_serves_models req \<noteq> None
    then update_member pin d (pq_display_name req) (pq_serves_models req) s else Inr s"
  have "pin_op\<^sup>*\<^sup>* s s1" if "?m = Inr s1" for s1 using that by (auto split: if_splits intro: op_steps)
  then show ?thesis unfolding handle_patch_def
    by (auto simp: guarded_def run_op_def simp del: if_split split: sum.split option.split
        intro: rtranclp.rtrancl_into_rtrancl op_disable)
qed

lemma handle_ops:
  "draws_ok (pe_draws env) \<Longrightarrow> pin_op\<^sup>*\<^sup>* s (fst (handle_create env p name s))"
  "pin_op\<^sup>*\<^sup>* s (fst (handle_delete env p pin s))"
  "draws_ok (pe_draws env) \<Longrightarrow> pin_op\<^sup>*\<^sup>* s (fst (handle_rotate_code env p pin s))"
  "pin_op\<^sup>*\<^sup>* s (fst (handle_set_role env p pin account role s))"
  "pin_op\<^sup>*\<^sup>* s (fst (handle_settings env p pin sreq s))"
  "pin_op\<^sup>*\<^sup>* s (fst (handle_approve env p pin d s))"
  "pin_op\<^sup>*\<^sup>* s (fst (handle_deny env p pin d s))"
  "pin_op\<^sup>*\<^sup>* s (fst (handle_remove env p pin d s))"
  "pin_op\<^sup>*\<^sup>* s (fst (handle_leave env d pin s))"
  "pin_op\<^sup>*\<^sup>* s (fst (handle_knock env d jc dn pubkey s))"
  "pin_op\<^sup>*\<^sup>* s (fst (handle_set_models env p pin d models s))"
  "pin_op\<^sup>*\<^sup>* s (fst (handle_usage_report env d pin batch entries s))"
  unfolding handle_create_def handle_delete_def handle_rotate_code_def handle_set_role_def handle_settings_def
    handle_approve_def handle_deny_def handle_remove_def handle_leave_def handle_knock_def handle_set_models_def
    handle_usage_report_def
  by (auto simp: guarded_def run_op_def split: result_splits intro: op_steps)

lemma handle_reads [simp]:
  "fst (handle_list p s) = s" "fst (handle_get env p pin s) = s" "fst (handle_join_code env p pin s) = s"
  "fst (handle_members p pin s) = s" "fst (handle_models p pin s) = s" "fst (handle_usage p pin from to by s) = s"
  by (auto simp: handle_list_def handle_get_def handle_join_code_def handle_members_def handle_models_def
      handle_usage_def guarded_def Let_def split: sum.split)

lemma handle_schedule_reads [simp]: "fst (handle_schedule env p pin model ctx ex s) = s"
  by (auto simp: handle_schedule_def guarded_def Let_def split: sum.split option.split)

lemma with_pool_rel:
  assumes "pa_db a = Some s" and "R s (fst (k s))"
  shows "\<exists>s'. pa_db (fst (with_pool k a)) = Some s' \<and> R s s'"
  using assms by (auto simp: with_pool_def split: prod.split)

text \<open>A request leaves the database in a state that operations reach.\<close>

lemma serve_pin_ops:
  assumes "draws_ok (pe_draws env)" and "pa_db a = Some s"
  shows "\<exists>s'. pa_db (fst (serve_pin env p req a)) = Some s' \<and> pin_op\<^sup>*\<^sup>* s s'"
  using assms
  by (cases req; auto simp: with_device_def limited_knock_def Let_def split: sum.split prod.split
      intro!: with_pool_rel handle_ops handle_sync_ops handle_patch_ops)

section \<open>Well-formed tables\<close>

text \<open>The states of a membership: a knock has no approval, a member has one, and a removal keeps it.\<close>

definition member_ok :: "member_row \<Rightarrow> bool" where
  "member_ok m \<longleftrightarrow>
     (pm_status m = ''pending'' \<and> pm_approved_by m = None \<and> pm_joined_at m = None \<and> pm_removed_at m = None \<and> pm_removed_by m = None)
   \<or> (pm_status m \<in> {''active'', ''disabled''} \<and> pm_approved_by m \<noteq> None \<and> pm_joined_at m \<noteq> None \<and> pm_removed_at m = None
      \<and> pm_removed_by m = None)
   \<or> (pm_status m = ''removed'' \<and> pm_approved_by m \<noteq> None \<and> pm_joined_at m \<noteq> None \<and> pm_removed_at m \<noteq> None
      \<and> pm_removed_by m \<noteq> None)"

definition code_ok :: "string \<Rightarrow> bool" where
  "code_ok c \<longleftrightarrow> length c = 12 \<and> length (normalize_join_code c) = 10"

definition pin_row_ok :: "gateway_db \<Rightarrow> pin_row \<Rightarrow> bool" where
  "pin_row_ok core p \<longleftrightarrow> account_exists core (pin_owner_account_user_id p) \<and> pin_netmap_generation p \<ge> 1
     \<and> pin_join_code_generation p \<ge> 1 \<and> code_ok (pin_join_code p) \<and> pin_name p \<noteq> []"

definition member_key :: "member_row \<Rightarrow> string \<times> string" where
  "member_key m = (pm_pin_id m, pm_device_id m)"

definition policy_key :: "policy_row \<Rightarrow> string \<times> string \<times> string" where
  "policy_key r = (mp_pin_id r, mp_device_id r, mp_model_id r)"

definition usage_ok :: "usage_row \<Rightarrow> bool" where
  "usage_ok r \<longleftrightarrow> us_requests r \<ge> 0 \<and> us_tokens_in r \<ge> 0 \<and> us_tokens_out r \<ge> 0"

text \<open>A table whose primary key is unique, whose rows name an existing network, and satisfy a check.\<close>

definition table_ok :: "('r \<Rightarrow> 'k) \<Rightarrow> ('r \<Rightarrow> string) \<Rightarrow> ('r \<Rightarrow> bool) \<Rightarrow> pin_db \<Rightarrow> 'r list \<Rightarrow> bool" where
  "table_ok key pin P s t \<longleftrightarrow> distinct (map key t) \<and> list_all (\<lambda>r. pin_exists s (pin r) \<and> P r) t"

definition pin_tables_ok :: "pin_db \<Rightarrow> bool" where
  "pin_tables_ok s \<longleftrightarrow> distinct (map pin_pin_id (pins_of s)) \<and> list_all (pin_row_ok (pd_core s)) (pins_of s)
     \<and> table_ok role_key ro_pin_id (\<lambda>r. ro_role r \<in> {''admin'', ''modelrator''}) s (pin_roles s)
     \<and> table_ok member_key pm_pin_id member_ok s (pin_members s)
     \<and> table_ok policy_key mp_pin_id (\<lambda>r. mp_desired_state r \<in> {''loaded'', ''downloaded'', ''none''}) s (pin_model_policy s)
     \<and> table_ok usage_key us_pin_id usage_ok s (pin_usage s)
     \<and> table_ok batch_key ba_pin_id (\<lambda>_. True) s (pin_usage_batches s)"

lemma table_ok_update:
  assumes "table_ok key pin P s t" and "\<And>r. key (f r) = key r" and "\<And>r. pin (f r) = pin r"
    and "\<And>r. Q r \<Longrightarrow> P r \<Longrightarrow> P (f r)"
  shows "table_ok key pin P s (sql_update Q f t)"
  using assms by (auto simp: table_ok_def sql_update_key_map list_all_iff set_sql_update)

lemma table_ok_delete: "table_ok key pin P s t \<Longrightarrow> table_ok key pin P s (sql_delete Q t)"
  by (auto simp: table_ok_def sql_delete_def list_all_iff distinct_map inj_on_def)

lemma table_ok_insert:
  "table_ok key pin P s t \<Longrightarrow> \<not> has_row (\<lambda>x. key x = key r) t \<Longrightarrow> pin_exists s (pin r) \<Longrightarrow> P r \<Longrightarrow>
     table_ok key pin P s (t @ [r])"
  by (auto simp: table_ok_def list_all_iff has_row_key_iff)

lemma table_ok_upsert:
  assumes "table_ok key pin P s t" and "\<And>x. key (f x) = key x" and "\<And>x. pin (f x) = pin x"
    and "\<And>x. P x \<Longrightarrow> P (f x)" and "pin_exists s (pin r)" and "P r"
  shows "table_ok key pin P s (sql_upsert key r f t)"
  using assms by (auto simp: sql_upsert_def intro: table_ok_update table_ok_insert)

text \<open>The checks depend on the networks only.\<close>

lemma table_ok_mono:
  "(\<And>q. pin_exists s q \<Longrightarrow> pin_exists s' q) \<Longrightarrow> table_ok key pin P s t \<Longrightarrow> table_ok key pin P s' t"
  by (auto simp: table_ok_def list_all_iff)

lemma pin_exists_cong: "pins_of s' = pins_of s \<Longrightarrow> pin_exists s' q = pin_exists s q"
  by (simp add: pin_exists_def)

lemma pin_exists_tables [simp]:
  "pin_exists (s\<lparr>pin_roles := ro\<rparr>) = pin_exists s" "pin_exists (s\<lparr>pin_members := me\<rparr>) = pin_exists s"
  "pin_exists (s\<lparr>pin_model_policy := mo\<rparr>) = pin_exists s" "pin_exists (s\<lparr>pin_usage := us\<rparr>) = pin_exists s"
  "pin_exists (s\<lparr>pin_usage_batches := ba\<rparr>) = pin_exists s"
  by (auto simp: pin_exists_def)

lemma table_ok_tables [simp]:
  "table_ok key pin P (s\<lparr>pin_roles := ro\<rparr>) = table_ok key pin P s"
  "table_ok key pin P (s\<lparr>pin_members := me\<rparr>) = table_ok key pin P s"
  "table_ok key pin P (s\<lparr>pin_model_policy := mo\<rparr>) = table_ok key pin P s"
  "table_ok key pin P (s\<lparr>pin_usage := us\<rparr>) = table_ok key pin P s"
  "table_ok key pin P (s\<lparr>pin_usage_batches := ba\<rparr>) = table_ok key pin P s"
  by (auto simp: table_ok_def fun_eq_iff)

lemma update_pins_exists:
  "(\<And>p. pin_pin_id (f p) = pin_pin_id p) \<Longrightarrow> pin_exists (update_pins P f s) q = pin_exists s q"
  using sql_update_key_set [of pin_pin_id f P "pins_of s"]
  by (simp add: pin_exists_def update_pins_def has_row_key_iff)

lemma update_pins_table_ok:
  "(\<And>p. pin_pin_id (f p) = pin_pin_id p) \<Longrightarrow> table_ok key pin Q (update_pins P f s) t = table_ok key pin Q s t"
  by (simp add: table_ok_def update_pins_exists)

lemma pin_row_ok_core [simp]: "pin_row_ok (core\<lparr>pins := ps\<rparr>) = pin_row_ok core"
  by (auto simp: pin_row_ok_def account_exists_def)

lemma update_pins_tables [simp]:
  "pin_roles (update_pins P f s) = pin_roles s" "pin_members (update_pins P f s) = pin_members s"
  "pin_model_policy (update_pins P f s) = pin_model_policy s" "pin_usage (update_pins P f s) = pin_usage s"
  "pin_usage_batches (update_pins P f s) = pin_usage_batches s"
  "pins_of (update_pins P f s) = sql_update P f (pins_of s)"
  "(pd_core (update_pins P f s))\<lparr>pins := ps\<rparr> = (pd_core s)\<lparr>pins := ps\<rparr>"
  by (simp_all add: update_pins_def)

lemma update_pins_ok:
  assumes ok: "pin_tables_ok s"
    and f: "\<And>p. pin_pin_id (f p) = pin_pin_id p" "\<And>p. pin_row_ok (pd_core s) p \<Longrightarrow> pin_row_ok (pd_core s) (f p)"
  shows "pin_tables_ok (update_pins P f s)"
proof -
  have "list_all (pin_row_ok (pd_core s)) (sql_update P f (pins_of s))"
    using ok f(2) by (auto simp: pin_tables_ok_def list_all_iff set_sql_update)
  moreover have "pin_row_ok (pd_core (update_pins P f s)) = pin_row_ok (pd_core s)"
    by (simp add: update_pins_def)
  ultimately show ?thesis
    using ok by (simp add: pin_tables_ok_def update_pins_table_ok f(1) sql_update_key_map)
qed

lemma update_members_ok:
  assumes ok: "pin_tables_ok s" and f: "\<And>m. member_key (f m) = member_key m" "\<And>m. P m \<Longrightarrow> member_ok m \<Longrightarrow> member_ok (f m)"
  shows "pin_tables_ok (update_members P f s)"
proof -
  have "pm_pin_id (f m) = pm_pin_id m" for m using f(1) [of m] by (simp add: member_key_def)
  then have "table_ok member_key pm_pin_id member_ok s (sql_update P f (pin_members s))"
    using ok f by (auto simp: pin_tables_ok_def intro!: table_ok_update)
  with ok show ?thesis by (simp add: pin_tables_ok_def update_members_def)
qed

lemma bump_generation_ok: "pin_tables_ok s \<Longrightarrow> pin_tables_ok (bump_generation pin s)"
  unfolding bump_generation_def by (rule update_pins_ok) (auto simp: pin_row_ok_def)

lemma generate_join_code_ok: "draws_ok draws \<Longrightarrow> code_ok (generate_join_code draws)"
proof -
  assume d: "draws_ok draws"
  have letter: "JOIN_CODE_ALPHABET ! i \<in> set JOIN_CODE_ALPHABET" if "i \<in> set draws" for i
    using d that by (auto simp: draws_ok_def list_all_iff)
  have keep: "ascii_upper_char c = c" if "c \<in> set JOIN_CODE_ALPHABET" for c
    using that by (auto simp: JOIN_CODE_ALPHABET_def ascii_upper_char_def)
  have norm: "normalize_join_code (pick_letters ds) = pick_letters ds" if "set ds \<subseteq> set draws" for ds
    using that letter keep
    by (induction ds) (auto simp: pick_letters_def normalize_join_code_def map_filter_simps Let_def)
  have app: "normalize_join_code (u @ v) = normalize_join_code u @ normalize_join_code v" for u v
    by (induction u) (auto simp: normalize_join_code_def map_filter_simps Let_def)
  have dash: "normalize_join_code (CHR ''-'' # v) = normalize_join_code v" for v
    using app [of "''-''" v] by (simp add: normalize_join_code_def map_filter_simps Let_def JOIN_CODE_ALPHABET_def
        ascii_upper_char_def)
  have "set (take 4 draws) \<subseteq> set draws" "set (take 4 (drop 4 draws)) \<subseteq> set draws" "set (take 2 (drop 8 draws)) \<subseteq> set draws"
    by (auto dest: in_set_takeD in_set_dropD)
  then have "normalize_join_code (generate_join_code draws)
      = pick_letters (take 4 draws) @ pick_letters (take 4 (drop 4 draws)) @ pick_letters (take 2 (drop 8 draws))"
    by (simp add: generate_join_code_def app norm dash)
  with d show ?thesis by (simp add: code_ok_def generate_join_code_def pick_letters_def draws_ok_def)
qed

lemma create_pin_ok:
  assumes ok: "pin_tables_ok s" and d: "draws_ok draws" and c: "create_pin x now pin draws name owner s = Inr (s', n)"
  shows "pin_tables_ok s'"
proof -
  obtain p r where name: "trim name \<noteq> []"
    and p: "p = \<lparr>pin_pin_id = pin, pin_name = trim name, pin_join_code = generate_join_code draws,
      pin_join_code_generation = 1, pin_owner_account_user_id = owner, pin_netmap_generation = 1,
      pin_settings = settings_json x default_settings, pin_created_at = now, pin_deleted_at = None\<rparr>"
    and r: "r = \<lparr>ro_pin_id = pin, ro_account_user_id = owner, ro_role = ''admin'', ro_granted_by = Some owner, ro_granted_at = now\<rparr>"
    and new: "\<not> pin_exists s pin" "account_exists (pd_core s) owner"
    and s': "s' = s\<lparr>pd_core := (pd_core s)\<lparr>pins := pins_of s @ [p]\<rparr>, pin_roles := pin_roles s @ [r]\<rparr>"
    and free: "\<not> has_row (\<lambda>x. role_key x = role_key r) (pin_roles s)"
    using c by (auto simp: create_pin_def insert_pin_def insert_role_def Let_def split: if_splits)
  let ?t = "s\<lparr>pd_core := (pd_core s)\<lparr>pins := pins_of s @ [p]\<rparr>\<rparr>"
  have mono: "pin_exists s q \<Longrightarrow> pin_exists ?t q" and ex: "pin_exists ?t pin" for q
    by (auto simp: pin_exists_def has_row_def p)
  have pid: "pin_pin_id p = pin" by (simp add: p)
  have row: "pin_row_ok (pd_core s) p" using name new(2) generate_join_code_ok [OF d] by (simp add: pin_row_ok_def p)
  have "pin_tables_ok ?t"
    using ok row new(1) pid by (auto simp: pin_tables_ok_def pin_exists_def has_row_key_iff intro: table_ok_mono [OF mono])
  with free ex show ?thesis unfolding s'
    by (auto simp: pin_tables_ok_def r intro!: table_ok_insert)
qed

lemmas member_keeps = member_key_def is_member_def member_ok_def

lemma member_op_ok:
  assumes ok: "pin_tables_ok s"
  shows "submit_join now pin d pubkey name s = Inr s' \<Longrightarrow> pin_tables_ok s'"
    and "approve_member now pin d a s = Inr s' \<Longrightarrow> pin_tables_ok s'"
    and "deny_member pin d s = Inr s' \<Longrightarrow> pin_tables_ok s'"
    and "remove_member now pin d a s = Inr s' \<Longrightarrow> pin_tables_ok s'"
    and "set_member_disabled pin d b s = Inr s' \<Longrightarrow> pin_tables_ok s'"
    and "update_member pin d display serves s = Inr s' \<Longrightarrow> pin_tables_ok s'"
    and "update_member_endpoints x now pin d es ms w s = Inr s' \<Longrightarrow> pin_tables_ok s'"
    and "pin_tables_ok (set_member_offers_exit pin d b s)"
proof -
  note up = update_members_ok [OF ok] bump_generation_ok
  show "submit_join now pin d pubkey name s = Inr s' \<Longrightarrow> pin_tables_ok s'"
  proof (cases "member_status pin d s")
    case None
    then have "\<not> has_row (\<lambda>x. member_key x = (pin, d)) (pin_members s)"
      by (auto simp: member_status_def find_None_iff is_member_def member_key_def has_row_iff)
    moreover assume "submit_join now pin d pubkey name s = Inr s'"
    ultimately show ?thesis using ok None
      by (auto simp: submit_join_def pin_tables_ok_def new_member_def member_keeps split: if_splits intro!: table_ok_insert)
  next
    case (Some st)
    moreover assume "submit_join now pin d pubkey name s = Inr s'"
    moreover have "pin_tables_ok (update_members (is_member pin d) (reknock now pubkey name) s)"
      by (rule up(1)) (auto simp: reknock_def member_keeps)
    ultimately show ?thesis using ok by (auto simp: submit_join_def split: if_splits)
  qed
  show "deny_member pin d s = Inr s' \<Longrightarrow> pin_tables_ok s'"
    using ok by (auto simp: deny_member_def Let_def pin_tables_ok_def intro: table_ok_delete)
  show "approve_member now pin d a s = Inr s' \<Longrightarrow> pin_tables_ok s'" "remove_member now pin d a s = Inr s' \<Longrightarrow> pin_tables_ok s'"
    "set_member_disabled pin d b s = Inr s' \<Longrightarrow> pin_tables_ok s'" "pin_tables_ok (set_member_offers_exit pin d b s)"
    "update_member_endpoints x now pin d es ms w s = Inr s' \<Longrightarrow> pin_tables_ok s'"
    by (auto simp: approve_member_def remove_member_def set_member_disabled_def set_member_offers_exit_def
        update_member_endpoints_def Let_def split: if_splits intro!: up, auto simp: member_keeps)
  have "pin_tables_ok t" if "t = update_members (is_member pin d) (\<lambda>m. m\<lparr>pm_display_name := nm\<rparr>) s" for t nm
    unfolding that by (rule up(1)) (auto simp: member_keeps)
  then show "update_member pin d display serves s = Inr s' \<Longrightarrow> pin_tables_ok s'"
    using ok by (auto simp: update_member_def Let_def split: if_splits option.splits
        intro!: bump_generation_ok update_members_ok, auto simp: member_keeps)
qed

lemma policy_op_ok:
  assumes ok: "pin_tables_ok s"
  shows "set_model_policy now pin d models a s = Inr s' \<Longrightarrow> pin_tables_ok s'"
    and "pin_tables_ok (report_model_policy_status now pin d sts s)"
proof -
  have insert: "pin_tables_ok t'" if "insert_policy r t = Inr t'" "pin_tables_ok t" for r t t'
    using that by (auto simp: insert_policy_def pin_tables_ok_def is_policy_def policy_key_def split: if_splits
        intro!: table_ok_insert elim!: contrapos_nn)
  have "pin_tables_ok (s\<lparr>pin_model_policy := sql_delete (is_policy pin d) (pin_model_policy s)\<rparr>)"
    using ok by (auto simp: pin_tables_ok_def intro: table_ok_delete)
  then show "set_model_policy now pin d models a s = Inr s' \<Longrightarrow> pin_tables_ok s'"
    by (auto simp: set_model_policy_def dest!: rfold_inv [where P = pin_tables_ok] intro: insert)
  show "pin_tables_ok (report_model_policy_status now pin d sts s)"
    unfolding report_model_policy_status_def
  proof (rule fold_invariant [where P = pin_tables_ok and Q = "\<lambda>_. True"], simp, rule ok)
    fix e t assume "pin_tables_ok t"
    then show "pin_tables_ok ((\<lambda>(model, applied, error) t. t\<lparr>pin_model_policy := sql_update
       (\<lambda>r. is_policy pin d r \<and> mp_model_id r = model)
       (\<lambda>r. r\<lparr>mp_applied_state := Some applied, mp_applied_at := Some now, mp_last_error := error\<rparr>)
       (pin_model_policy t)\<rparr>) e t)"
      by (cases e) (auto simp: pin_tables_ok_def policy_key_def intro!: table_ok_update)
  qed
qed

lemma record_usage_batch_ok:
  assumes ok: "pin_tables_ok s" and r: "record_usage_batch now pin d batch entries s = Inr (s', b)"
  shows "pin_tables_ok s'"
proof -
  let ?b = "\<lparr>ba_pin_id = pin, ba_provider_device_id = d, ba_batch_id = batch, ba_received_at = now\<rparr>"
  let ?t = "s\<lparr>pin_usage_batches := pin_usage_batches s @ [?b]\<rparr>"
  let ?I = "\<lambda>t. pin_tables_ok t \<and> pin_exists t pin"
  have step: "?I t'" if "?I t" "apply_entry pin d e t = Inr t'" for e t t'
    using that by (auto simp: apply_entry_def pin_tables_ok_def usage_key_def add_usage_def entry_row_def usage_ok_def
        intro!: table_ok_upsert)
  consider "s' = s" | "\<not> has_row (\<lambda>y. batch_key y = batch_key ?b) (pin_usage_batches s)" "pin_exists s pin"
      "rfold (apply_entry pin d) entries ?t = Inr s'"
    using r by (auto simp: record_usage_batch_def Let_def split: if_splits)
  then show ?thesis
  proof cases
    case 2
    then have "?I ?t" using ok by (auto simp: pin_tables_ok_def intro!: table_ok_insert)
    then have "?I s'" by (rule rfold_inv [where P = ?I, OF 2(3)]) (rule step)
    then show ?thesis by simp
  qed (use ok in simp)
qed

lemma role_op_ok:
  assumes ok: "pin_tables_ok s"
  shows "grant_role now pin a role g s = Inr s' \<Longrightarrow> pin_tables_ok s'" and "revoke_role pin a s = Inr s' \<Longrightarrow> pin_tables_ok s'"
  using ok by (auto simp: grant_role_def revoke_role_def Let_def pin_tables_ok_def role_ok_def role_key_def
      intro!: table_ok_upsert table_ok_delete)

lemma pin_row_op_ok:
  assumes ok: "pin_tables_ok s"
  shows "delete_pin now pin s = Inr s' \<Longrightarrow> pin_tables_ok s'" and "set_settings x pin v s = Inr s' \<Longrightarrow> pin_tables_ok s'"
    and "draws_ok draws \<Longrightarrow> rotate_join_code draws pin s = Inr (s', c) \<Longrightarrow> pin_tables_ok s'"
  using ok by (auto simp: delete_pin_def set_settings_def rotate_join_code_def Let_def intro!: update_pins_ok)
    (auto simp: pin_row_ok_def generate_join_code_ok)

lemma pin_op_ok: "pin_op s s' \<Longrightarrow> pin_tables_ok s \<Longrightarrow> pin_tables_ok s'"
  by (induction rule: pin_op.induct)
    (blast intro: create_pin_ok member_op_ok policy_op_ok record_usage_batch_ok role_op_ok pin_row_op_ok)+

lemma pin_ops_ok: "pin_op\<^sup>*\<^sup>* s s' \<Longrightarrow> pin_tables_ok s \<Longrightarrow> pin_tables_ok s'"
  by (induction rule: rtranclp_induct) (auto intro: pin_op_ok)

section \<open>Who becomes active\<close>

lemma find_sql_update_mapped:
  "(\<And>r. Q (f r) = Q r) \<Longrightarrow> find Q (sql_update P f t) = map_option (\<lambda>r. if P r then f r else r) (find Q t)"
  by (induction t) auto

definition no_new_active :: "pin_db \<Rightarrow> pin_db \<Rightarrow> bool" where
  "no_new_active s s' \<longleftrightarrow>
     (\<forall>pin d. member_status pin d s' = Some ''active'' \<longrightarrow> member_status pin d s = Some ''active'')"

lemma no_new_active_members: "pin_members s' = pin_members s \<Longrightarrow> no_new_active s s'"
  by (simp add: no_new_active_def member_status_def)

lemma member_status_update:
  assumes "\<And>m. member_key (f m) = member_key m"
  shows "member_status pin d (update_members P f s) =
    map_option (\<lambda>m. pm_status (if P m then f m else m)) (find (is_member pin d) (pin_members s))"
proof -
  have "is_member pin d (f m) = is_member pin d m" for m using assms [of m] by (auto simp: is_member_def member_key_def)
  then show ?thesis
    by (simp add: member_status_def update_members_def find_sql_update_mapped option.map_comp comp_def)
qed

lemma member_status_bump [simp]: "member_status pin d (bump_generation q s) = member_status pin d s"
  by (simp add: member_status_def bump_generation_def)

lemma update_no_new_active:
  assumes "\<And>m. member_key (f m) = member_key m" and "\<And>m. P m \<Longrightarrow> pm_status (f m) = ''active'' \<Longrightarrow> pm_status m = ''active''"
  shows "no_new_active s (update_members P f s)"
  using assms by (auto simp: no_new_active_def member_status_update) (auto simp: member_status_def split: if_splits)

lemma update_bumped_no_new_active:
  "no_new_active s (update_members P f s) \<Longrightarrow> no_new_active s (bump_generation q (update_members P f s))"
  by (simp add: no_new_active_def)

lemma no_new_active_trans: "no_new_active s t \<Longrightarrow> no_new_active t u \<Longrightarrow> no_new_active s u"
  by (auto simp: no_new_active_def)

lemma no_new_active_refl [simp]: "no_new_active s s"
  by (simp add: no_new_active_def)

lemma member_op_no_new_active:
  shows "submit_join now pin d pubkey name s = Inr s' \<Longrightarrow> no_new_active s s'"
    and "remove_member now pin d a s = Inr s' \<Longrightarrow> no_new_active s s'"
    and "update_member pin d display serves s = Inr s' \<Longrightarrow> no_new_active s s'"
    and "update_member_endpoints x now pin d es ms w s = Inr s' \<Longrightarrow> no_new_active s s'"
    and "no_new_active s (set_member_offers_exit pin d b s)"
    and "set_member_disabled pin d True s = Inr s' \<Longrightarrow> no_new_active s s'"
proof -
  note up = update_bumped_no_new_active update_no_new_active
  have "no_new_active s (s\<lparr>pin_members := pin_members s @ [new_member now pin d pubkey name]\<rparr>)"
    by (auto simp: no_new_active_def member_status_def find_append new_member_def split: option.splits if_splits)
  moreover have "no_new_active s (update_members (is_member pin d) (reknock now pubkey name) s)"
    by (rule up(2)) (auto simp: reknock_def member_key_def)
  ultimately show "submit_join now pin d pubkey name s = Inr s' \<Longrightarrow> no_new_active s s'"
    by (auto simp: submit_join_def split: option.splits if_splits)
  show "remove_member now pin d a s = Inr s' \<Longrightarrow> no_new_active s s'"
    "update_member_endpoints x now pin d es ms w s = Inr s' \<Longrightarrow> no_new_active s s'"
    "no_new_active s (set_member_offers_exit pin d b s)"
    "set_member_disabled pin d True s = Inr s' \<Longrightarrow> no_new_active s s'"
    by (auto simp: remove_member_def update_member_endpoints_def set_member_offers_exit_def set_member_disabled_def
        Let_def intro!: up, auto simp: member_key_def)
  have name: "no_new_active s (update_members (is_member pin d) (\<lambda>m. m\<lparr>pm_display_name := nm\<rparr>) s)" for nm
    by (rule up(2)) (auto simp: member_key_def)
  have serves: "no_new_active t (update_members P (\<lambda>m. m\<lparr>pm_serves_models := sv\<rparr>) t)"
    "no_new_active t (bump_generation pin (update_members P (\<lambda>m. m\<lparr>pm_serves_models := sv\<rparr>) t))" for t P sv
    by (auto intro!: up simp: member_key_def)
  show "update_member pin d display serves s = Inr s' \<Longrightarrow> no_new_active s s'"
    by (auto simp: update_member_def Let_def split: option.splits if_splits
        intro: name serves no_new_active_trans [OF name])
qed

lemma deny_no_new_active:
  assumes ok: "pin_tables_ok s" and d: "deny_member pin d s = Inr s'"
  shows "no_new_active s s'"
proof -
  have ms: "pin_members s' = filter (\<lambda>m. \<not> (is_member pin d m \<and> pm_status m = ''pending'')) (pin_members s)"
    using d by (auto simp: deny_member_def sql_delete_def Let_def)
  have dist: "distinct (map member_key (pin_members s))" using ok by (simp add: pin_tables_ok_def table_ok_def)
  have "member_status q e s = Some ''active''" if st: "member_status q e s' = Some ''active''" for q e
  proof -
    obtain m where "find (is_member q e) (pin_members s') = Some m" "pm_status m = ''active''"
      using st by (auto simp: member_status_def)
    then have "m \<in> set (pin_members s)" "is_member q e m" by (auto simp: ms find_Some_iff dest: nth_mem)
    moreover have "find (is_member q e) (pin_members s) = find (\<lambda>x. member_key x = member_key m) (pin_members s)"
      using \<open>is_member q e m\<close> by (auto intro!: arg_cong2 [where f = find] simp: is_member_def member_key_def)
    ultimately show ?thesis
      using find_key_unique [OF dist] \<open>pm_status m = ''active''\<close> by (auto simp: member_status_def)
  qed
  then show ?thesis by (simp add: no_new_active_def)
qed

lemma approve_active:
  assumes "approve_member now q e a s = Inr s'" and "member_status pin d s' = Some ''active''"
  shows "member_status pin d s = Some ''active'' \<or> (pin = q \<and> d = e \<and> member_status pin d s = Some ''pending'')"
  using assms by (auto simp: approve_member_def Let_def member_status_update member_key_def split: if_splits)
    (auto simp: member_status_def find_Some_iff is_member_def split: if_splits)

lemma enable_active:
  assumes "set_member_disabled q e False s = Inr s'" and "member_status pin d s' = Some ''active''"
  shows "member_status pin d s = Some ''active'' \<or> (pin = q \<and> d = e \<and> member_status pin d s = Some ''disabled'')"
  using assms by (auto simp: set_member_disabled_def Let_def member_status_update member_key_def split: if_splits)
    (auto simp: member_status_def find_Some_iff is_member_def split: if_splits)

lemmas handle_defs = handle_create_def handle_delete_def handle_rotate_code_def handle_set_role_def handle_settings_def
  handle_approve_def handle_deny_def handle_remove_def handle_leave_def handle_knock_def handle_set_models_def
  handle_usage_report_def

lemma other_tables_no_new_active:
  "create_pin x now pin draws name owner s = Inr (s', n) \<Longrightarrow> no_new_active s s'"
  "delete_pin now pin s = Inr s' \<Longrightarrow> no_new_active s s'"
  "rotate_join_code draws pin s = Inr (s', c) \<Longrightarrow> no_new_active s s'"
  "set_settings x pin v s = Inr s' \<Longrightarrow> no_new_active s s'"
  "grant_role now pin a role g s = Inr s' \<Longrightarrow> no_new_active s s'"
  "revoke_role pin a s = Inr s' \<Longrightarrow> no_new_active s s'"
  by (auto simp: create_pin_def insert_pin_def insert_role_def delete_pin_def rotate_join_code_def set_settings_def
      grant_role_def revoke_role_def Let_def split: if_splits intro!: no_new_active_members)

text \<open>Loadouts and usage live in tables of their own.\<close>

definition same_networks :: "pin_db \<Rightarrow> pin_db \<Rightarrow> bool" where
  "same_networks s s' \<longleftrightarrow> pd_core s' = pd_core s \<and> pin_roles s' = pin_roles s \<and> pin_members s' = pin_members s"

lemma same_networks_refl [simp]: "same_networks s s"
  by (simp add: same_networks_def)

lemma set_model_policy_frame:
  assumes "set_model_policy now pin d models a s = Inr s'" shows "same_networks s s'"
proof -
  have r: "rfold (\<lambda>ms. insert_policy (new_policy now pin d a ms)) models
      (s\<lparr>pin_model_policy := sql_delete (is_policy pin d) (pin_model_policy s)\<rparr>) = Inr s'"
    using assms by (auto simp: set_model_policy_def)
  show ?thesis
    by (rule rfold_inv [where P = "same_networks s", OF r])
      (auto simp: same_networks_def insert_policy_def split: if_splits)
qed

lemma report_status_frame: "same_networks s (report_model_policy_status now pin d sts s)"
  unfolding report_model_policy_status_def
  by (rule fold_invariant [where P = "same_networks s" and Q = "\<lambda>_. True"]) (auto simp: same_networks_def)

lemma record_usage_frame:
  assumes "record_usage_batch now pin d batch entries s = Inr (s', b)" shows "same_networks s s'"
proof -
  have step: "same_networks s t'" if "same_networks s t" "apply_entry pin d e t = Inr t'" for e t t'
    using that by (auto simp: apply_entry_def same_networks_def)
  have start: "same_networks s (s\<lparr>pin_usage_batches := ba\<rparr>)" for ba by (simp add: same_networks_def)
  show ?thesis using assms
    by (auto simp: record_usage_batch_def Let_def start split: if_splits
        elim!: rfold_inv [where P = "same_networks s"] intro: start step)
qed

lemmas side_tables_frame = set_model_policy_frame report_status_frame record_usage_frame

lemma same_networks_no_new_active: "same_networks s s' \<Longrightarrow> no_new_active s s'"
  by (simp add: same_networks_def no_new_active_members)

lemmas side_tables_no_new_active = side_tables_frame [THEN same_networks_no_new_active]

lemma sync_reports_no_new_active:
  assumes "no_new_active s t"
  shows "no_new_active s (case e of None \<Rightarrow> t | Some b \<Rightarrow> set_member_offers_exit pin d b t)"
    "no_new_active s (report_model_policy_status now pin d sts t)"
  using assms by (auto split: option.split
      intro: no_new_active_trans member_op_no_new_active(5) side_tables_no_new_active(2))

lemma handle_sync_no_new_active: "no_new_active s (fst (handle_sync env d pin req s))"
  by (auto simp: handle_sync_def Let_def run_op_def split: sum.split
      intro!: sync_reports_no_new_active intro: member_op_no_new_active)

text \<open>No request but an approval or a patch makes a device active.\<close>

lemma serve_no_new_active:
  assumes "pa_db a = Some s" and "pin_tables_ok s" and "\<And>q e. req \<noteq> Approve q e" and "\<And>q e r. req \<noteq> Patch q e r"
  shows "\<exists>s'. pa_db (fst (serve_pin env p req a)) = Some s' \<and> no_new_active s s'"
proof -
  note kept = member_op_no_new_active deny_no_new_active [OF assms(2)] other_tables_no_new_active side_tables_no_new_active
  show ?thesis using assms(1,3,4)
    by (cases req; auto simp: with_device_def limited_knock_def Let_def split: sum.split prod.split
        intro!: with_pool_rel handle_sync_no_new_active)
      (auto simp: handle_defs guarded_def run_op_def split: result_splits intro: kept)
qed

lemma handle_approve_active:
  assumes "member_status pin d (fst (handle_approve env p q e s)) = Some ''active''" and "member_status pin d s \<noteq> Some ''active''"
  shows "pin = q \<and> d = e \<and> member_status pin d s = Some ''pending'' \<and> (\<exists>admin. require_admin_actor s p pin = Inr admin)"
proof -
  obtain admin s' where g: "require_admin_actor s p q = Inr admin" and s': "approve_member (pe_now env) q e admin s = Inr s'"
    "member_status pin d s' = Some ''active''"
    using assms by (auto simp: handle_approve_def guarded_def run_op_def split: sum.splits)
  from approve_active [OF s'] g assms(2) show ?thesis by auto
qed

lemma update_member_status:
  assumes "update_member q e display serves s = Inr s'"
  shows "member_status pin d s' = member_status pin d s"
proof -
  have keep: "member_status pin d (update_members P f t) = member_status pin d t"
    if "\<And>m. member_key (f m) = member_key m" "\<And>m. pm_status (f m) = pm_status m" for P f t
    using that by (simp add: member_status_update) (simp add: member_status_def if_distrib cong: if_cong)
  show ?thesis using assms
    by (auto simp: update_member_def Let_def split: option.splits if_splits) (simp_all add: keep member_key_def)
qed

lemma handle_patch_active:
  assumes "member_status pin d (fst (handle_patch env p q e change s)) = Some ''active''"
    and "member_status pin d s \<noteq> Some ''active''"
  shows "pin = q \<and> d = e \<and> pq_disabled change = Some False \<and> member_status pin d s = Some ''disabled''
    \<and> (\<exists>admin. require_admin_actor s p pin = Inr admin)"
proof -
  define m where "m = (if pq_display_name change \<noteq> None \<or> pq_serves_models change \<noteq> None
    then update_member q e (pq_display_name change) (pq_serves_models change) s else Inr s)"
  define g where "g = (if pq_disabled change \<noteq> None then require_admin_actor s p q else require_staff_actor s p q)"
  have same: "member_status pin d s1 = member_status pin d s" if "m = Inr s1" for s1
    using that update_member_status by (auto simp: m_def split: if_splits)
  have h: "handle_patch env p q e change s = guarded g s (\<lambda>_. run_op (conflict env) m s (\<lambda>s1. case pq_disabled change of
      None \<Rightarrow> (s1, Inr (RStatus ''ok'')) | Some disabled \<Rightarrow> run_op (conflict env) (set_member_disabled q e disabled s1) s1
        (\<lambda>s2. (s2, Inr (RStatus ''ok'')))))"
    by (simp add: handle_patch_def m_def g_def)
  obtain s1 x where m: "m = Inr s1" "g = Inr x"
    using assms by (cases m; cases g) (auto simp: h guarded_def run_op_def)
  obtain b s2 where b: "pq_disabled change = Some b"
    and s2: "set_member_disabled q e b s1 = Inr s2" "member_status pin d s2 = Some ''active''"
    using assms same [OF m(1)]
    by (cases "pq_disabled change"; cases "set_member_disabled q e (the (pq_disabled change)) s1")
      (auto simp: h m guarded_def run_op_def)
  have "\<not> b" using member_op_no_new_active(6) [of q e s1 s2] s2 assms(2) same [OF m(1)] by (auto simp: no_new_active_def)
  then show ?thesis using enable_active [of q e s1 s2 pin d] s2 same [OF m(1)] assms(2) b m(2) by (auto simp: g_def)
qed

section \<open>Wallets are out of reach\<close>

definition same_core :: "pin_db \<Rightarrow> pin_db \<Rightarrow> bool" where
  "same_core s s' \<longleftrightarrow> (pd_core s')\<lparr>pins := []\<rparr> = (pd_core s)\<lparr>pins := []\<rparr>"

lemma same_core_trans: "same_core s t \<Longrightarrow> same_core t u \<Longrightarrow> same_core s u"
  by (simp add: same_core_def)

lemma same_core_simps [simp]:
  "same_core s s" "same_core s (update_pins P f s)" "same_core s (bump_generation pin s)"
  "same_core s (update_members Q g s)" "same_core s (bump_generation pin (update_members Q g s))"
  by (simp_all add: same_core_def update_pins_def bump_generation_def update_members_def)

lemma same_networks_core: "same_networks s s' \<Longrightarrow> same_core s s'"
  by (simp add: same_core_def same_networks_def)

lemma pin_op_same_core: "pin_op s s' \<Longrightarrow> same_core s s'"
proof (induction rule: pin_op.induct)
  case (op_update pin d display serves s s')
  then show ?case
    by (auto simp: update_member_def Let_def split: option.splits if_splits)
      (simp_all add: same_core_def bump_generation_def update_members_def)
next
  case (op_join now pin d pubkey name s s')
  then show ?case by (auto simp: submit_join_def split: option.splits if_splits) (simp add: same_core_def)
next
  case (op_create draws x now pin name owner s s' n)
  then show ?case
    by (auto simp: create_pin_def insert_pin_def insert_role_def Let_def split: if_splits) (simp add: same_core_def)
qed (auto simp: delete_pin_def rotate_join_code_def set_settings_def approve_member_def deny_member_def remove_member_def
  set_member_disabled_def grant_role_def revoke_role_def update_member_endpoints_def set_member_offers_exit_def
  Let_def split: if_splits intro: side_tables_frame [THEN same_networks_core], simp_all add: same_core_def)

lemma pin_ops_same_core: "pin_op\<^sup>*\<^sup>* s s' \<Longrightarrow> same_core s s'"
  by (induction rule: rtranclp_induct) (auto intro: pin_op_same_core same_core_trans)

section \<open>Properties of every history of requests\<close>

text \<open>A history: each request with what it reads and who sends it.\<close>

type_synonym ('f, 's) pin_call = "('f, 's) pin_env \<times> PrincipalKind \<times> PinRequest"

definition serve_calls :: "('f, 's::{linorder, zero}) pin_call list \<Rightarrow> pin_app \<Rightarrow> pin_app" where
  "serve_calls calls a = fold (\<lambda>(env, p, req) a. fst (serve_pin env p req a)) calls a"

definition calls_ok :: "('f, 's) pin_call list \<Rightarrow> bool" where
  "calls_ok calls \<longleftrightarrow> list_all (\<lambda>(env, p, req). draws_ok (pe_draws env)) calls"

lemma serve_calls_ops:
  assumes "calls_ok calls" and "pa_db a = Some s"
  shows "\<exists>s'. pa_db (serve_calls calls a) = Some s' \<and> pin_op\<^sup>*\<^sup>* s s'"
  using assms
proof (induction calls arbitrary: a s)
  case (Cons c calls)
  obtain env p req where c: "c = (env, p, req)" by (cases c)
  then have "draws_ok (pe_draws env)" "calls_ok calls" using Cons.prems(1) by (simp_all add: calls_ok_def)
  then obtain t where t: "pa_db (fst (serve_pin env p req a)) = Some t" "pin_op\<^sup>*\<^sup>* s t"
    using serve_pin_ops Cons.prems(2) by blast
  with Cons.IH [OF \<open>calls_ok calls\<close> t(1)] show ?case by (auto simp: serve_calls_def c intro: rtranclp_trans)
qed (simp add: serve_calls_def)

text \<open>C11. Whatever requests are served, in whatever order and by whomever, the tables of the networks stay well formed:
  keys are unique, every row names an existing network, every network has an account that owns it and a usable join code,
  every membership is in one of its four states with the approval and removal that state has, and no usage is negative.\<close>

theorem pin_tables_well_formed:
  assumes "calls_ok calls" and "pa_db a = Some s" and "pin_tables_ok s"
  shows "\<exists>s'. pa_db (serve_calls calls a) = Some s' \<and> pin_tables_ok s'"
  using serve_calls_ops [OF assms(1,2)] assms(3) pin_ops_ok by blast

text \<open>C12. Network requests never touch money: whatever requests are served, every table but that of the networks (wallets,
  balances, ledgers, keys and accounts) is what it was.\<close>

theorem pin_requests_move_no_money:
  assumes "calls_ok calls" and "pa_db a = Some s"
  shows "\<exists>s'. pa_db (serve_calls calls a) = Some s' \<and> (pd_core s')\<lparr>pins := pins_of s\<rparr> = pd_core s"
proof -
  obtain s' where s': "pa_db (serve_calls calls a) = Some s'" "same_core s s'"
    using serve_calls_ops [OF assms] pin_ops_same_core by blast
  have "(pd_core s')\<lparr>pins := pins_of s\<rparr> = ((pd_core s')\<lparr>pins := []\<rparr>)\<lparr>pins := pins_of s\<rparr>" by simp
  also have "\<dots> = pd_core s" using s'(2) by (simp add: same_core_def)
  finally show ?thesis using s'(1) by blast
qed

text \<open>C5. A device becomes active in a network only by an administrator of that network, who approves its pending knock or
  enables it again after a disablement; no other request of any caller makes it active.\<close>

theorem active_by_admin_only:
  assumes "pa_db a = Some s" and "pin_tables_ok s" and "serve_pin env p req a = (a', r)" and "pa_db a' = Some s'"
    and "member_status pin d s' = Some ''active''" and "member_status pin d s \<noteq> Some ''active''"
  shows "\<exists>admin. require_admin_actor s p pin = Inr admin \<and>
     (req = Approve pin d \<and> member_status pin d s = Some ''pending'' \<or>
      (\<exists>change. req = Patch pin d change \<and> pq_disabled change = Some False \<and> member_status pin d s = Some ''disabled''))"
proof (cases req)
  case (Approve q e)
  with assms have "s' = fst (handle_approve env p q e s)" by (auto simp: with_pool_def split: prod.splits)
  with handle_approve_active assms(5,6) Approve show ?thesis by metis
next
  case (Patch q e change)
  with assms have "s' = fst (handle_patch env p q e change s)" by (auto simp: with_pool_def split: prod.splits)
  with handle_patch_active assms(5,6) Patch show ?thesis by metis
qed (use serve_no_new_active [OF assms(1,2), of req env p] assms(3-) in \<open>auto simp: no_new_active_def\<close>)

section \<open>Witnesses\<close>

lemma network_db_ok: "pin_tables_ok network_db"
  by code_simp

lemma network_app_db: "pa_db network_app = Some network_db"
  by (simp add: network_app_def)

lemma toy_draws_ok: "draws_ok (pe_draws toy_env)"
  by code_simp

theorem pin_tables_well_formed_witness:
  "\<exists>s'. pa_db (serve_calls [(toy_env, owner_key, Create ''Lab''), (toy_env, KDevice ''phone'', Leave ''net'')] network_app) = Some s'
     \<and> pin_tables_ok s'"
  by (rule pin_tables_well_formed [OF _ network_app_db network_db_ok]) (simp add: calls_ok_def toy_draws_ok)

theorem pin_requests_move_no_money_witness:
  "\<exists>s'. pa_db (serve_calls [(toy_env, owner_key, Create ''Lab''), (toy_env, owner_key, Approve ''net'' ''phone'')] network_app) = Some s'
     \<and> (pd_core s')\<lparr>pins := pins_of network_db\<rparr> = pd_core network_db"
  by (rule pin_requests_move_no_money [OF _ network_app_db]) (simp add: calls_ok_def toy_draws_ok)

definition approved_db :: pin_db where
  "approved_db = bump_generation ''net'' (update_members (\<lambda>m. is_member ''net'' ''phone'' m \<and> pm_status m = ''pending'')
     (\<lambda>m. m\<lparr>pm_status := ''active'', pm_approved_by := Some ''acct'', pm_joined_at := Some 100\<rparr>) network_db)"

lemma approve_phone:
  "serve_pin toy_env owner_key (Approve ''net'' ''phone'') network_app = (network_app\<lparr>pa_db := Some approved_db\<rparr>, Inr (RStatus ''active''))"
proof -
  have "require_admin_actor network_db owner_key ''net'' = Inr ''acct''" by code_simp
  moreover have "require_admin ''net'' ''acct'' network_db = Inr ()" by code_simp
  moreover have "changed (\<lambda>m. is_member ''net'' ''phone'' m \<and> pm_status m = ''pending'') (pin_members network_db) = 1"
    by (simp add: network_db_def changed_def is_member_def new_member_def)
  ultimately show ?thesis
    by (simp add: with_pool_def network_app_def handle_approve_def guarded_def run_op_def approve_member_def approved_db_def
        toy_env_def)
qed

theorem active_by_admin_only_witness:
  "\<exists>admin. require_admin_actor network_db owner_key ''net'' = Inr admin"
proof -
  have "member_status ''net'' ''phone'' approved_db = Some ''active''" "member_status ''net'' ''phone'' network_db \<noteq> Some ''active''"
    by code_simp+
  from active_by_admin_only [OF network_app_db network_db_ok approve_phone _ this] show ?thesis by auto
qed

end
