(* ===== verification/Pin_Netmap.thy ===== *)
theory Pin_Netmap
  imports Pin_Laws
begin

text \<open>
  Netmaps and their generation. A device compares the generation of two netmaps to learn whether the membership changed; the
  locale \<open>versioned\<close> states what it relies on, and the operations of \<open>pins.rs\<close> provide it. A device that knocks with a
  join code and is approved finds itself on the netmap of its next sync.
\<close>

section \<open>Versioned views\<close>

locale versioned =
  fixes step :: "'s \<Rightarrow> 's \<Rightarrow> bool" and version :: "'s \<Rightarrow> int" and view :: "'s \<Rightarrow> 'v"
  assumes version_grows: "step s t \<Longrightarrow> version s \<le> version t"
    and version_tells: "step s t \<Longrightarrow> version t = version s \<Longrightarrow> view t = view s"
begin

lemma version_mono: "step\<^sup>*\<^sup>* s t \<Longrightarrow> version s \<le> version t"
  by (induction rule: rtranclp_induct) (auto dest: version_grows)

lemma version_decides: "step\<^sup>*\<^sup>* s t \<Longrightarrow> version t = version s \<Longrightarrow> view t = view s"
proof (induction rule: rtranclp_induct)
  case (step t u)
  then have "version s \<le> version t" "version t \<le> version u" by (auto dest: version_mono version_grows)
  with step show ?case by (metis order.antisym version_tells)
qed simp

end

section \<open>Generation and membership\<close>

definition generation_of :: "string \<Rightarrow> pin_db \<Rightarrow> int" where
  "generation_of pin s = (case find (\<lambda>p. pin_pin_id p = pin) (pins_of s) of None \<Rightarrow> 0 | Some p \<Rightarrow> pin_netmap_generation p)"

definition listed :: "string \<Rightarrow> member_row \<Rightarrow> bool" where
  "listed pin m \<longleftrightarrow> pm_pin_id m = pin \<and> pm_status m \<in> {''active'', ''disabled''}"

text \<open>What the generation stands for: who is listed, with which key, serving, exit and disabled flags, in which order.\<close>

definition member_view :: "member_row \<Rightarrow> int \<times> string \<times> string \<times> bool \<times> bool \<times> bool" where
  "member_view m = (pm_requested_at m, pm_device_id m, pm_node_pubkey m, pm_serves_models m, pm_offers_exit m,
     pm_status m = ''disabled'')"

definition membership :: "string \<Rightarrow> pin_db \<Rightarrow> (int \<times> string \<times> string \<times> bool \<times> bool \<times> bool) list" where
  "membership pin s = map member_view (filter (listed pin) (pin_members s))"

definition versioned_change :: "string \<Rightarrow> pin_db \<Rightarrow> pin_db \<Rightarrow> bool" where
  "versioned_change pin s t \<longleftrightarrow> generation_of pin s \<le> generation_of pin t
     \<and> (generation_of pin t = generation_of pin s \<longrightarrow> membership pin t = membership pin s)"

lemma versioned_same:
  "generation_of pin t = generation_of pin s \<Longrightarrow> membership pin t = membership pin s \<Longrightarrow> versioned_change pin s t"
  by (simp add: versioned_change_def)

lemma versioned_trans: "versioned_change pin s t \<Longrightarrow> versioned_change pin t u \<Longrightarrow> versioned_change pin s u"
  by (auto simp: versioned_change_def)

lemma generation_update_members [simp]: "generation_of pin (update_members P f s) = generation_of pin s"
  by (simp add: generation_of_def update_members_def)

lemma membership_pins [simp]: "membership pin (update_pins P f s) = membership pin s"
  "membership pin (bump_generation q s) = membership pin s"
  by (simp_all add: membership_def bump_generation_def)

lemma generation_update_pins:
  assumes "\<And>p. pin_pin_id (f p) = pin_pin_id p" and "\<And>p. pin_netmap_generation (f p) = pin_netmap_generation p"
  shows "generation_of pin (update_pins P f s) = generation_of pin s"
  by (simp add: generation_of_def find_sql_update_mapped assms split: option.split)

lemma generation_bump:
  "generation_of pin (bump_generation q s) = generation_of pin s + (if pin = q \<and> pin_exists s pin then 1 else 0)"
  by (auto simp: generation_of_def bump_generation_def find_sql_update_mapped pin_exists_def has_row_key_iff find_key_None
      split: option.split dest: find_key_SomeD)

lemma membership_update_kept:
  assumes "\<And>m. m \<in> set (pin_members s) \<Longrightarrow> P m \<Longrightarrow> listed pin (f m) = listed pin m"
    and "\<And>m. m \<in> set (pin_members s) \<Longrightarrow> P m \<Longrightarrow> listed pin m \<Longrightarrow> member_view (f m) = member_view m"
  shows "membership pin (update_members P f s) = membership pin s"
proof -
  have "map member_view (filter (listed pin) (sql_update P f t)) = map member_view (filter (listed pin) t)"
    if "set t \<subseteq> set (pin_members s)" for t
    using that assms by (induction t) auto
  then show ?thesis by (simp add: membership_def update_members_def)
qed

text \<open>An update of members of one network that advances its generation.\<close>

lemma versioned_bumped:
  assumes "\<And>m. P m \<Longrightarrow> pm_pin_id m = q" and "\<And>m. pm_pin_id (f m) = pm_pin_id m" and "pin_exists s q"
  shows "versioned_change pin s (bump_generation q (update_members P f s))"
proof (cases "pin = q")
  case True
  have "pin_exists (update_members P f s) q" using assms(3) by (simp add: pin_exists_def update_members_def)
  with True show ?thesis by (simp add: versioned_change_def generation_bump)
next
  case False
  then have "membership pin (update_members P f s) = membership pin s"
    using assms(1,2) by (intro membership_update_kept) (auto simp: listed_def)
  with False show ?thesis by (simp add: versioned_change_def generation_bump)
qed

lemma changed_pos_exists:
  assumes "pin_tables_ok s" and "changed P (pin_members s) \<noteq> 0" and "\<And>m. P m \<Longrightarrow> pm_pin_id m = q"
  shows "pin_exists s q"
proof -
  obtain m where "m \<in> set (pin_members s)" "P m" using assms(2) by (auto simp: changed_def filter_empty_conv)
  with assms(1,3) show ?thesis by (auto simp: pin_tables_ok_def table_ok_def list_all_iff)
qed

lemma member_status_unique:
  assumes "pin_tables_ok s" and "m \<in> set (pin_members s)" and "is_member pin d m"
  shows "member_status pin d s = Some (pm_status m)"
proof -
  have "distinct (map member_key (pin_members s))" using assms(1) by (simp add: pin_tables_ok_def table_ok_def)
  then have "find (\<lambda>x. member_key x = member_key m) (pin_members s) = Some m" using assms(2) by (rule find_key_unique)
  moreover have "is_member pin d = (\<lambda>x. member_key x = member_key m)"
    using assms(3) by (auto simp: is_member_def member_key_def fun_eq_iff)
  ultimately show ?thesis by (simp add: member_status_def)
qed

lemma changed_member_le_1:
  assumes "pin_tables_ok s" and "\<And>m. P m \<Longrightarrow> is_member pin d m"
  shows "changed P (pin_members s) \<le> 1"
proof -
  have "distinct (map member_key (filter P (pin_members s)))"
    using assms(1) by (simp add: pin_tables_ok_def table_ok_def distinct_map_filter)
  moreover have "set (map member_key (filter P (pin_members s))) \<subseteq> {(pin, d)}"
    using assms(2) by (auto simp: is_member_def member_key_def)
  ultimately show ?thesis
    unfolding changed_def by (metis card_mono distinct_card finite.emptyI finite.insertI length_map card.empty card_insert_disjoint empty_iff One_nat_def)
qed

section \<open>Operations\<close>

lemma same_networks_versioned: "same_networks s t \<Longrightarrow> versioned_change pin s t"
  by (intro versioned_same) (simp_all add: same_networks_def generation_of_def membership_def)

lemma join_versioned:
  assumes ok: "pin_tables_ok s" and j: "submit_join now q d pubkey name s = Inr t"
  shows "versioned_change pin s t"
proof (cases "member_status q d s")
  case None
  then have "t = s\<lparr>pin_members := pin_members s @ [new_member now q d pubkey name]\<rparr>"
    using j by (simp add: submit_join_def split: if_splits)
  then show ?thesis
    by (intro versioned_same) (simp_all add: generation_of_def membership_def listed_def new_member_def)
next
  case (Some st)
  have "membership pin (update_members (is_member q d) (reknock now pubkey name) s) = membership pin s"
    if "st = ''pending'' \<or> st = ''removed''"
    using that member_status_unique [OF ok] Some
    by (intro membership_update_kept) (force simp: listed_def reknock_def)+
  then show ?thesis using j Some by (auto simp: submit_join_def split: if_splits intro!: versioned_same)
qed

lemma member_op_versioned:
  assumes ok: "pin_tables_ok s"
  shows "approve_member now q d a s = Inr t \<Longrightarrow> versioned_change pin s t"
    and "remove_member now q d a s = Inr t \<Longrightarrow> versioned_change pin s t"
    and "set_member_disabled q d b s = Inr t \<Longrightarrow> versioned_change pin s t"
    and "deny_member q d s = Inr t \<Longrightarrow> versioned_change pin s t"
    and "update_member_endpoints x now q d es ms w s = Inr t \<Longrightarrow> versioned_change pin s t"
    and "versioned_change pin s (set_member_offers_exit q d b s)"
proof -
  have ex: "pin_exists s q" if "changed (\<lambda>m. is_member q d m \<and> R m) (pin_members s) \<noteq> 0" for R
    using that by (rule changed_pos_exists [OF ok]) (simp add: is_member_def)
  have bumped: "versioned_change pin s (bump_generation q (update_members (\<lambda>m. is_member q d m \<and> R m) f s))"
    if "changed (\<lambda>m. is_member q d m \<and> R m) (pin_members s) \<noteq> 0" "\<And>m. pm_pin_id (f m) = pm_pin_id m" for R f
    using that ex [OF that(1)] by (intro versioned_bumped) (auto simp: is_member_def)
  show "approve_member now q d a s = Inr t \<Longrightarrow> versioned_change pin s t"
    "remove_member now q d a s = Inr t \<Longrightarrow> versioned_change pin s t"
    "set_member_disabled q d b s = Inr t \<Longrightarrow> versioned_change pin s t"
    by (auto simp: approve_member_def remove_member_def set_member_disabled_def Let_def split: if_splits intro!: bumped)
  show "deny_member q d s = Inr t \<Longrightarrow> versioned_change pin s t"
    by (auto simp: deny_member_def Let_def generation_of_def membership_def sql_delete_def listed_def is_member_def
        intro!: versioned_same arg_cong [where f = "map member_view"] filter_cong)
  show "update_member_endpoints x now q d es ms w s = Inr t \<Longrightarrow> versioned_change pin s t"
    by (auto simp: update_member_endpoints_def listed_def member_view_def intro!: versioned_same membership_update_kept)
  let ?P = "\<lambda>m. is_member q d m \<and> pm_offers_exit m \<noteq> b"
  show "versioned_change pin s (set_member_offers_exit q d b s)"
  proof (cases "changed ?P (pin_members s) > 0")
    case True
    then show ?thesis by (auto simp: set_member_offers_exit_def Let_def intro!: bumped)
  next
    case False
    then have "sql_update ?P (\<lambda>m. m\<lparr>pm_offers_exit := b\<rparr>) (pin_members s) = pin_members s"
      by (intro sql_update_no_match) (auto simp: changed_def filter_empty_conv)
    with False show ?thesis
      by (intro versioned_same) (simp_all add: set_member_offers_exit_def membership_def update_members_def generation_of_def)
  qed
qed

lemma rename_versioned:
  "versioned_change pin s (update_members P (\<lambda>m. m\<lparr>pm_display_name := nm\<rparr>) s)"
  by (auto simp: listed_def member_view_def intro!: versioned_same membership_update_kept)

lemma serves_versioned:
  fixes q d sv
  assumes ok: "pin_tables_ok s"
  defines "P \<equiv> \<lambda>m. is_member q d m \<and> pm_serves_models m \<noteq> sv"
  defines "t \<equiv> update_members P (\<lambda>m. m\<lparr>pm_serves_models := sv\<rparr>) s"
  shows "versioned_change pin s (if changed P (pin_members s) = 1 then bump_generation q t else t)"
proof (cases "changed P (pin_members s) = 1")
  case True
  then have "pin_exists s q" by (intro changed_pos_exists [OF ok, of P]) (simp_all add: P_def is_member_def)
  with True show ?thesis unfolding t_def by (auto simp: P_def is_member_def intro!: versioned_bumped)
next
  case False
  moreover have "changed P (pin_members s) \<le> 1" by (rule changed_member_le_1 [OF ok, of _ q d]) (simp add: P_def)
  ultimately have "changed P (pin_members s) = 0" by linarith
  then have "sql_update P (\<lambda>m. m\<lparr>pm_serves_models := sv\<rparr>) (pin_members s) = pin_members s"
    by (intro sql_update_no_match) (auto simp: changed_def filter_empty_conv)
  with False show ?thesis
    by (intro versioned_same) (simp_all add: t_def membership_def update_members_def generation_of_def)
qed

lemma update_member_versioned:
  assumes ok: "pin_tables_ok s" and u: "update_member q d display serves s = Inr t"
  shows "versioned_change pin s t"
proof -
  obtain s1 where s1: "pin_tables_ok s1" "versioned_change pin s s1" and t: "t = (case serves of None \<Rightarrow> s1 | Some sv \<Rightarrow>
      (let P = (\<lambda>m. is_member q d m \<and> pm_serves_models m \<noteq> sv); s2 = update_members P (\<lambda>m. m\<lparr>pm_serves_models := sv\<rparr>) s1
       in if changed P (pin_members s1) = 1 then bump_generation q s2 else s2))"
    using u ok update_members_ok [OF ok, of "\<lambda>m. m\<lparr>pm_display_name := display\<rparr>" "is_member q d"]
    by (cases display; cases serves) (auto simp: update_member_def Let_def member_keeps
        intro: that rename_versioned versioned_same)
  show ?thesis
  proof (cases serves)
    case (Some sv)
    show ?thesis unfolding t Some Let_def option.case
      by (rule versioned_trans [OF s1(2) serves_versioned [OF s1(1)]])
  qed (use s1 t in simp)
qed

lemma pin_row_op_versioned:
  "delete_pin now q s = Inr t \<Longrightarrow> versioned_change pin s t"
  "set_settings x q v s = Inr t \<Longrightarrow> versioned_change pin s t"
  "rotate_join_code draws q s = Inr (t, c) \<Longrightarrow> versioned_change pin s t"
  "grant_role now q a role g s = Inr t \<Longrightarrow> versioned_change pin s t"
  "revoke_role q a s = Inr t \<Longrightarrow> versioned_change pin s t"
  by (auto simp: delete_pin_def set_settings_def rotate_join_code_def grant_role_def revoke_role_def Let_def
      generation_update_pins intro!: versioned_same) (simp_all add: generation_of_def membership_def)

lemma create_versioned:
  assumes "create_pin x now q draws name owner s = Inr (t, n)" shows "versioned_change pin s t"
proof -
  obtain p where t: "pins_of t = pins_of s @ [p]" "pin_members t = pin_members s" and p: "pin_netmap_generation p = 1"
    and new: "pin_pin_id p \<notin> pin_pin_id ` set (pins_of s)"
    using assms by (auto simp: create_pin_def insert_pin_def insert_role_def Let_def pin_exists_def has_row_key_iff split: if_splits)
  have "generation_of pin t = (if pin = pin_pin_id p then 1 else generation_of pin s)"
    using new find_key_None [of pin_pin_id "pin_pin_id p" "pins_of s"]
    by (auto simp: generation_of_def t p find_append split: option.split)
  moreover have "pin = pin_pin_id p \<Longrightarrow> generation_of pin s = 0"
    using new find_key_None [of pin_pin_id "pin_pin_id p" "pins_of s"] by (simp add: generation_of_def)
  ultimately show ?thesis by (simp add: versioned_change_def membership_def t)
qed

lemma pin_op_versioned: "pin_op s t \<Longrightarrow> pin_tables_ok s \<Longrightarrow> versioned_change pin s t"
  by (induction rule: pin_op.induct)
    (blast intro: create_versioned pin_row_op_versioned join_versioned member_op_versioned update_member_versioned
      side_tables_frame [THEN same_networks_versioned])+

section \<open>Netmaps\<close>

definition ok_op :: "pin_db \<Rightarrow> pin_db \<Rightarrow> bool" where
  "ok_op s t \<longleftrightarrow> pin_op s t \<and> pin_tables_ok s"

interpretation netmaps: versioned ok_op "generation_of pin" "membership pin" for pin
  by unfold_locales (auto simp: ok_op_def versioned_change_def dest!: pin_op_versioned [of _ _ pin])

lemma ops_ok_ops: "pin_op\<^sup>*\<^sup>* s t \<Longrightarrow> pin_tables_ok s \<Longrightarrow> ok_op\<^sup>*\<^sup>* s t"
proof (induction rule: rtranclp_induct)
  case (step t u)
  then have "ok_op t u" by (auto simp: ok_op_def intro: pin_ops_ok)
  with step show ?case by (auto intro: rtranclp.rtrancl_into_rtrancl)
qed simp

definition netmap_view :: "PinNetmapMember \<Rightarrow> string \<times> string \<times> bool \<times> bool \<times> bool" where
  "netmap_view m = (nm_device_id m, nm_node_pubkey m, nm_serves_models m, nm_offers_exit m, nm_disabled m)"

lemma insort_key_map: "map f (insort_key (\<lambda>a. g (f a)) x xs) = insort_key g (f x) (map f xs)"
  by (induction xs) auto

lemma sort_key_map: "map f (sort_key (g \<circ> f) xs) = sort_key g (map f xs)"
  unfolding sort_key_def by (induction xs) (auto simp: insort_key_map)

lemma truncate_fields [simp]:
  "pm_status (PinMember.truncate m) = pm_status m" "pm_device_id (PinMember.truncate m) = pm_device_id m"
  "pm_node_pubkey (PinMember.truncate m) = pm_node_pubkey m" "pm_serves_models (PinMember.truncate m) = pm_serves_models m"
  "pm_offers_exit (PinMember.truncate m) = pm_offers_exit m"
  by (simp_all add: PinMember.truncate_def)

lemma listed_members:
  "filter (\<lambda>m. pm_status m = ''active'' \<or> pm_status m = ''disabled'') (members pin s)
     = map PinMember.truncate (sort_key pm_requested_at (filter (listed pin) (pin_members s)))"
proof -
  have "filter (\<lambda>m. pm_status m = ''active'' \<or> pm_status m = ''disabled'')
      (sort_key pm_requested_at (filter (\<lambda>m. pm_pin_id m = pin \<and> pm_status m \<noteq> ''removed'') (pin_members s)))
    = sort_key pm_requested_at (filter (listed pin) (pin_members s))"
    unfolding filter_sort by (auto simp: listed_def intro!: arg_cong [where f = "sort_key _"] filter_cong)
  then show ?thesis by (simp add: members_def filter_map comp_def)
qed

lemma generation_of_live:
  assumes "pin_tables_ok s" and "live_pin_row s pin = Some r"
  shows "generation_of pin s = pin_netmap_generation r"
proof -
  have r: "r \<in> set (pins_of s)" "pin_pin_id r = pin" using assms(2) by (auto simp: live_pin_row_def find_Some_iff dest: nth_mem)
  have "distinct (map pin_pin_id (pins_of s))" using assms(1) by (simp add: pin_tables_ok_def)
  from find_key_unique [OF this r(1)] r(2) show ?thesis by (simp add: generation_of_def)
qed

lemma build_netmap_view:
  assumes "pin_tables_ok s" and "build_netmap x now pin live s = Inr n"
  shows "nt_generation n = generation_of pin s"
    and "map netmap_view (nt_members n) = map snd (sort_key fst (membership pin s))"
proof -
  obtain r where r: "live_pin_row s pin = Some r"
    and n: "nt_generation n = pin_netmap_generation r"
      "nt_members n = map (netmap_member x live) (filter (\<lambda>m. pm_status m = ''active'' \<or> pm_status m = ''disabled'') (members pin s))"
    using assms(2) by (auto simp: build_netmap_def get_pin_def row_to_pin_def)
  show "nt_generation n = generation_of pin s" using generation_of_live [OF assms(1) r] n by simp
  have "map netmap_view (nt_members n) = map (snd \<circ> member_view) (sort_key pm_requested_at (filter (listed pin) (pin_members s)))"
    unfolding n listed_members by (simp add: netmap_view_def netmap_member_def member_view_def Let_def)
  moreover have "fst \<circ> member_view = pm_requested_at" by (simp add: fun_eq_iff member_view_def)
  ultimately show "map netmap_view (nt_members n) = map snd (sort_key fst (membership pin s))"
    using sort_key_map [of member_view fst "filter (listed pin) (pin_members s)"] by (simp add: membership_def flip: map_map)
qed



section \<open>From the knock to the netmap\<close>

definition has_member :: "string \<Rightarrow> string \<Rightarrow> string \<Rightarrow> string \<Rightarrow> pin_db \<Rightarrow> bool" where
  "has_member pin d st pubkey s \<longleftrightarrow>
     has_row (\<lambda>m. is_member pin d m \<and> pm_status m = st \<and> pm_node_pubkey m = pubkey) (pin_members s)"

lemma has_member_status: "pin_tables_ok s \<Longrightarrow> has_member pin d st pubkey s \<Longrightarrow> member_status pin d s = Some st"
  by (auto simp: has_member_def has_row_iff dest: member_status_unique)

lemma has_member_bump [simp]: "has_member pin d st pubkey (bump_generation q s) = has_member pin d st pubkey s"
  by (simp add: has_member_def bump_generation_def)

lemma has_member_update:
  assumes "has_member pin d st pubkey s" and "\<And>m. member_key (f m) = member_key m"
    and "\<And>m. is_member pin d m \<Longrightarrow> P m \<Longrightarrow> pm_status m = st \<Longrightarrow> pm_status (f m) = st'"
    and "\<And>m. pm_node_pubkey (f m) = pm_node_pubkey m" and "st = st' \<or> (\<forall>m. is_member pin d m \<and> pm_status m = st \<longrightarrow> P m)"
  shows "has_member pin d st' pubkey (update_members P f s)"
proof -
  obtain m where m: "m \<in> set (pin_members s)" "is_member pin d m" "pm_status m = st" "pm_node_pubkey m = pubkey"
    using assms(1) by (auto simp: has_member_def has_row_iff)
  let ?m = "if P m then f m else m"
  have "is_member pin d ?m" using m(2) assms(2) [of m] by (auto simp: is_member_def member_key_def)
  moreover have "pm_status ?m = st'" "pm_node_pubkey ?m = pubkey" using m assms(3-5) by auto
  moreover have "?m \<in> set (pin_members (update_members P f s))" using m(1) by (auto simp: update_members_def set_sql_update)
  ultimately show ?thesis by (auto simp: has_member_def has_row_iff)
qed

text \<open>The join code, in any spelling, leads to its network.\<close>

definition code_of :: "string \<Rightarrow> string \<Rightarrow> pin_db \<Rightarrow> bool" where
  "code_of jc pin s \<longleftrightarrow>
     list_ex (\<lambda>r. pin_pin_id r = pin \<and> pin_deleted_at r = None \<and> normalize_join_code (pin_join_code r) = normalize_join_code jc) (pins_of s)
   \<and> list_all (\<lambda>r. pin_deleted_at r = None \<and> normalize_join_code (pin_join_code r) = normalize_join_code jc \<longrightarrow> pin_pin_id r = pin) (pins_of s)"

lemma code_found:
  assumes "pin_tables_ok s" and "code_of jc pin s"
  shows "\<exists>n. find_by_join_code x jc s = Some n \<and> p_pin_id n = pin"
proof -
  let ?live = "map (row_to_pin x) (filter (\<lambda>p. pin_deleted_at p = None) (pins_of s))"
  let ?P = "\<lambda>p. normalize_join_code (p_join_code p) = normalize_join_code jc"
  obtain r where r: "r \<in> set (pins_of s)" "pin_deleted_at r = None" "normalize_join_code (pin_join_code r) = normalize_join_code jc"
    using assms(2) by (auto simp: code_of_def list_ex_iff)
  then have "row_to_pin x r \<in> set ?live" "?P (row_to_pin x r)" by (auto simp: row_to_pin_def)
  then obtain n where n: "find ?P ?live = Some n" by (cases "find ?P ?live") (auto simp: find_None_iff)
  then have "n \<in> set ?live" "?P n" by (auto dest: find_SomeD)
  then have "p_pin_id n = pin" using assms(2) by (auto simp: code_of_def list_all_iff row_to_pin_def)
  moreover have "normalize_join_code jc \<noteq> []"
    using assms(1) r by (auto simp: pin_tables_ok_def list_all_iff pin_row_ok_def code_ok_def)
  ultimately show ?thesis using n by (simp add: find_by_join_code_def)
qed

lemma submit_join_pending:
  assumes "pin_tables_ok s" and "pin_exists s pin" and "member_status pin d s \<in> {None, Some ''removed'', Some ''pending''}"
  shows "\<exists>t. submit_join now pin d pubkey name s = Inr t \<and> has_member pin d ''pending'' pubkey t"
proof (cases "member_status pin d s")
  case None
  with assms(2) show ?thesis by (auto simp: submit_join_def has_member_def has_row_def new_member_def is_member_def)
next
  case (Some st)
  then obtain m where "m \<in> set (pin_members s)" "is_member pin d m"
    by (auto simp: member_status_def find_Some_iff dest: nth_mem)
  then have "reknock now pubkey name m \<in> set (pin_members (update_members (is_member pin d) (reknock now pubkey name) s))"
    "is_member pin d (reknock now pubkey name m)"
    by (auto simp: update_members_def set_sql_update reknock_def is_member_def)
  then have "has_member pin d ''pending'' pubkey (update_members (is_member pin d) (reknock now pubkey name) s)"
    unfolding has_member_def has_row_iff
    by (intro bexI [of _ "reknock now pubkey name m"]) (auto simp: reknock_def)
  with Some assms(3) show ?thesis by (auto simp: submit_join_def)
qed

lemma approve_pending:
  assumes ok: "pin_tables_ok s" and "role_of pin admin s = Some ROLE_ADMIN" and m: "has_member pin d ''pending'' pubkey s"
  shows "\<exists>t. approve_member now pin d admin s = Inr t \<and> has_member pin d ''active'' pubkey t"
proof -
  let ?P = "\<lambda>m. is_member pin d m \<and> pm_status m = ''pending''"
  have "changed ?P (pin_members s) \<noteq> 0" using m by (auto simp: has_member_def has_row_iff changed_def filter_empty_conv)
  moreover have "changed ?P (pin_members s) \<le> 1" by (rule changed_member_le_1 [OF ok, of _ pin d]) simp
  ultimately have "changed ?P (pin_members s) = 1" by linarith
  moreover have "has_member pin d ''active'' pubkey (update_members ?P
      (\<lambda>m. m\<lparr>pm_status := ''active'', pm_approved_by := Some admin, pm_joined_at := Some now\<rparr>) s)"
    by (rule has_member_update [OF m]) (auto simp: member_key_def)
  ultimately show ?thesis using assms(2) by (simp add: approve_member_def require_admin_def)
qed

lemma live_row_kept:
  "live_pin_row (update_members P f s) pin = live_pin_row s pin"
  "(live_pin_row (bump_generation q s) pin = None) = (live_pin_row s pin = None)"
  "same_networks s t \<Longrightarrow> live_pin_row t pin = live_pin_row s pin"
  by (simp_all add: live_pin_row_def update_members_def bump_generation_def find_sql_update_mapped same_networks_def)

lemma offers_exit_kept:
  "has_member pin d st pubkey s \<Longrightarrow> has_member pin d st pubkey (set_member_offers_exit q e b s)"
  "(live_pin_row (set_member_offers_exit q e b s) pin = None) = (live_pin_row s pin = None)"
  by (auto simp: set_member_offers_exit_def Let_def live_row_kept member_key_def intro!: has_member_update)

lemma same_networks_member: "same_networks s t \<Longrightarrow> has_member pin d st pubkey t = has_member pin d st pubkey s"
  by (simp add: same_networks_def has_member_def)

lemma sync_answer_lists:
  assumes "live_pin_row s pin \<noteq> None" and m: "has_member pin d ''active'' pubkey s" and "pe_identity env"
  shows "\<exists>resp n e. snd (sync_answer env d pin s) = Inr (RSync resp) \<and> sr_membership resp = ''active''
    \<and> sr_netmap resp = Some n \<and> e \<in> set (nt_members (sn_netmap n)) \<and> nm_device_id e = d \<and> nm_node_pubkey e = pubkey"
proof -
  obtain r where r: "live_pin_row s pin = Some r" using assms(1) by auto
  obtain n where n: "build_netmap (pe_ext env) (pe_now env) pin (live_models (pe_registry env)) s = Inr n"
    and ms: "nt_members n = map (netmap_member (pe_ext env) (live_models (pe_registry env)))
      (filter (\<lambda>m. pm_status m = ''active'' \<or> pm_status m = ''disabled'') (members pin s))"
    using r by (simp add: build_netmap_def get_pin_def)
  obtain m where "m \<in> set (pin_members s)" "is_member pin d m" "pm_status m = ''active''" "pm_node_pubkey m = pubkey"
    using assms(2) by (auto simp: has_member_def has_row_iff)
  then have "netmap_member (pe_ext env) (live_models (pe_registry env)) (PinMember.truncate m) \<in> set (nt_members n)"
    "nm_device_id (netmap_member (pe_ext env) (live_models (pe_registry env)) (PinMember.truncate m)) = d"
    "nm_node_pubkey (netmap_member (pe_ext env) (live_models (pe_registry env)) (PinMember.truncate m)) = pubkey"
    unfolding ms listed_members by (auto simp: listed_def is_member_def netmap_member_def Let_def)
  then show ?thesis using r n assms(3)
    by (auto simp: sync_answer_def get_pin_def guarded_def sign_netmap_def)
qed

lemma sync_lists_member:
  assumes ok: "pin_tables_ok s" and live: "live_pin_row s pin \<noteq> None" and m: "has_member pin d ''active'' pubkey s"
    and "pe_identity env" and json: "\<And>es. is_json (pe_ext env) (endpoints_json (pe_ext env) es)"
      "\<And>ms. is_json (pe_ext env) (models_json (pe_ext env) ms)"
  shows "\<exists>resp n e. snd (handle_sync env d pin req s) = Inr (RSync resp) \<and> sr_membership resp = ''active''
    \<and> sr_netmap resp = Some n \<and> e \<in> set (nt_members (sn_netmap n)) \<and> nm_device_id e = d \<and> nm_node_pubkey e = pubkey"
proof -
  obtain f where up: "update_member_endpoints (pe_ext env) (pe_now env) pin d (endpoints_json (pe_ext env) (sy_endpoints req))
      (models_json (pe_ext env) (sy_loaded_models req)) (sy_wg_pubkey req) s = Inr (update_members (is_member pin d) f s)"
    and f: "\<And>m. member_key (f m) = member_key m" "\<And>m. pm_status (f m) = pm_status m" "\<And>m. pm_node_pubkey (f m) = pm_node_pubkey m"
    by (auto simp: update_member_endpoints_def json member_key_def intro: that)
  define s1 where "s1 = update_members (is_member pin d) f s"
  define s2 where "s2 = (case sy_offers_exit req of None \<Rightarrow> s1 | Some b \<Rightarrow> set_member_offers_exit pin d b s1)"
  define s3 where "s3 = (if sy_model_policy_status req = [] then s2
    else report_model_policy_status (pe_now env) pin d (sy_model_policy_status req) s2)"
  have "has_member pin d ''active'' pubkey s1" "live_pin_row s1 pin \<noteq> None"
    unfolding s1_def using live f by (auto simp: live_row_kept intro!: has_member_update [OF m])
  then have "has_member pin d ''active'' pubkey s2" "live_pin_row s2 pin \<noteq> None"
    by (simp_all add: s2_def offers_exit_kept del: not_None_eq split: option.split)
  moreover have "same_networks s2 s3" by (simp add: s3_def report_status_frame)
  ultimately have "has_member pin d ''active'' pubkey s3" "live_pin_row s3 pin \<noteq> None"
    by (simp_all add: same_networks_member live_row_kept(3))
  moreover have "handle_sync env d pin req s = sync_answer env d pin s3"
    unfolding s3_def s2_def s1_def using has_member_status [OF ok m] up by (simp add: handle_sync_def run_op_def)
  ultimately show ?thesis using sync_answer_lists [OF _ _ assms(4)] by simp
qed

lemma admin_actor_role:
  "require_admin_actor s p pin = Inr admin \<longleftrightarrow> account_of s p = Some admin \<and> role_of pin admin s = Some ROLE_ADMIN"
  by (auto simp: require_admin_actor_def resolve_actor_def member_actor_def split: option.splits if_splits)

lemma join_keeps_roles:
  assumes "submit_join now pin d pubkey name s = Inr t"
  shows "account_of t p = account_of s p" and "role_of q admin t = role_of q admin s" and "live_pin_row t q = live_pin_row s q"
  using assms by (auto simp: submit_join_def account_of_def role_of_def live_pin_row_def update_members_def split: option.splits if_splits)

lemma approve_keeps_live:
  "approve_member now q d a s = Inr t \<Longrightarrow> (live_pin_row t pin = None) = (live_pin_row s pin = None)"
  by (auto simp: approve_member_def Let_def live_row_kept simp del: not_None_eq)

text \<open>C13. A device gets into a network: when a device that is not yet in it knocks with the join code in any spelling and is
  not over its limit of knocks, an administrator can approve it, and the answer to its next sync is a netmap that lists it
  with the key it knocked with.\<close>

theorem knock_approve_sync:
  assumes db: "pa_db a = Some s" and ok: "pin_tables_ok s" and jc: "code_of jc pin s"
    and st: "member_status pin d s \<in> {None, Some ''removed'', Some ''pending''}"
    and limit: "snd (pin_join_allow d (pe_now env) (pa_join_limiter a))"
    and admin: "require_admin_actor s p pin = Inr admin" and identity: "pe_identity env''"
    and json: "\<And>es. is_json (pe_ext env'') (endpoints_json (pe_ext env'') es)" "\<And>ms. is_json (pe_ext env'') (models_json (pe_ext env'') ms)"
  shows "\<exists>a1 a2 a3 resp n e. serve_pin env (KDevice d) (Join jc name pubkey) a = (a1, Inr RAccepted)
    \<and> serve_pin env' p (Approve pin d) a1 = (a2, Inr (RStatus ''active''))
    \<and> serve_pin env'' (KDevice d) (Sync pin req) a2 = (a3, Inr (RSync resp))
    \<and> sr_netmap resp = Some n \<and> e \<in> set (nt_members (sn_netmap n)) \<and> nm_device_id e = d \<and> nm_node_pubkey e = pubkey"
proof -
  obtain n where n: "find_by_join_code (pe_ext env) jc s = Some n" "p_pin_id n = pin" using code_found [OF ok jc] by blast
  have live: "live_pin_row s pin \<noteq> None" using jc by (auto simp: code_of_def list_ex_iff live_pin_row_def find_None_iff)
  then have "pin_exists s pin" by (auto simp: live_pin_row_def pin_exists_def has_row_iff dest: find_SomeD)
  then obtain t where t: "submit_join (pe_now env) pin d pubkey name s = Inr t" "has_member pin d ''pending'' pubkey t"
    using submit_join_pending [OF ok _ st] by blast
  have tok: "pin_tables_ok t" using member_op_ok(1) [OF ok t(1)] .
  define l where "l = fst (pin_join_allow d (pe_now env) (pa_join_limiter a))"
  have "pin_join_allow d (pe_now env) (pa_join_limiter a) = (l, True)" using limit by (simp add: l_def prod_eq_iff)
  then have a1: "serve_pin env (KDevice d) (Join jc name pubkey) a = (a\<lparr>pa_join_limiter := l, pa_db := Some t\<rparr>, Inr RAccepted)"
    by (simp add: with_device_def require_device_def limited_knock_def db with_pool_def handle_knock_def n t run_op_def)
  have r: "require_admin_actor t p pin = Inr admin" "role_of pin admin t = Some ROLE_ADMIN"
    using admin by (auto simp: admin_actor_role join_keeps_roles [OF t(1)])
  then obtain u where u: "approve_member (pe_now env') pin d admin t = Inr u" "has_member pin d ''active'' pubkey u"
    using approve_pending [OF tok _ t(2)] by blast
  have uok: "pin_tables_ok u" "live_pin_row u pin \<noteq> None"
    using member_op_ok(2) [OF tok u(1)] live by (simp_all add: approve_keeps_live [OF u(1)] join_keeps_roles [OF t(1)])
  let ?a2 = "a\<lparr>pa_join_limiter := l, pa_db := Some u\<rparr>"
  have a2: "serve_pin env' p (Approve pin d) (a\<lparr>pa_join_limiter := l, pa_db := Some t\<rparr>) = (?a2, Inr (RStatus ''active''))"
    by (simp add: with_pool_def handle_approve_def guarded_def r run_op_def u)
  obtain resp nn e where sync: "snd (handle_sync env'' d pin req u) = Inr (RSync resp)" "sr_netmap resp = Some nn"
    "e \<in> set (nt_members (sn_netmap nn))" "nm_device_id e = d" "nm_node_pubkey e = pubkey"
    using sync_lists_member [OF uok u(2) identity json] by blast
  obtain v where "handle_sync env'' d pin req u = (v, Inr (RSync resp))" using sync(1) by (metis prod.collapse)
  then have "serve_pin env'' (KDevice d) (Sync pin req) ?a2 = (?a2\<lparr>pa_db := Some v\<rparr>, Inr (RSync resp))"
    by (simp add: with_device_def require_device_def with_pool_def)
  with a1 a2 sync(2-) show ?thesis by blast
qed

definition laptop_sync :: SyncReq where
  "laptop_sync = \<lparr>sy_endpoints = [], sy_wg_pubkey = ''wg'', sy_loaded_models = [], sy_known_generation = None,
     sy_offers_exit = Some True, sy_model_policy_status = []\<rparr>"

theorem knock_approve_sync_witness:
  "\<exists>a1 a2 a3 resp n e. serve_pin toy_env (KDevice ''laptop'') (Join ''abcdefgh jk'' None ''lk'') network_app = (a1, Inr RAccepted)
    \<and> serve_pin toy_env owner_key (Approve ''net'' ''laptop'') a1 = (a2, Inr (RStatus ''active''))
    \<and> serve_pin toy_env (KDevice ''laptop'') (Sync ''net'' laptop_sync) a2 = (a3, Inr (RSync resp))
    \<and> sr_netmap resp = Some n \<and> e \<in> set (nt_members (sn_netmap n)) \<and> nm_device_id e = ''laptop'' \<and> nm_node_pubkey e = ''lk''"
proof -
  have w: "code_of ''abcdefgh jk'' ''net'' network_db" "member_status ''net'' ''laptop'' network_db = None"
    "snd (pin_join_allow ''laptop'' (pe_now toy_env) (pa_join_limiter network_app))"
    "require_admin_actor network_db owner_key ''net'' = Inr ''acct''" "pe_identity toy_env"
    by code_simp+
  have json: "is_json (pe_ext toy_env) t" for t by (simp add: toy_env_def toy_ext_def)
  show ?thesis by (rule knock_approve_sync [OF network_app_db network_db_ok w(1) _ w(3-5) json json]) (simp add: w(2))
qed

section \<open>Deleted networks\<close>

text \<open>Deleting a network only marks it: the role row of an administrator still counts, so that the deleted network still
  approves devices.\<close>

definition deleted_app :: pin_app where
  "deleted_app = network_app\<lparr>pa_db := Some (projr (delete_pin 50 ''net'' network_db))\<rparr>"

lemma deleted_network_still_approves:
  "get_pin toy_ext ''net'' (the (pa_db deleted_app)) = None \<and>
   snd (serve_pin toy_env owner_key (Approve ''net'' ''phone'') deleted_app) = Inr (RStatus ''active'')"
  by code_simp

end
