(* ===== verification/Pin_Usage.thy ===== *)
theory Pin_Usage
  imports Pin_Laws
begin

text \<open>
  Usage accounting of the networks. The specification is a book that remembers which batches it has seen and keeps one
  counter per day, provider, consumer and model; the report endpoint refines it, and so a batch that is delivered several
  times, because its acknowledgement was lost, counts once.
\<close>

section \<open>Delivery that counts once\<close>

text \<open>The contract of an endpoint that ignores a report it has seen, and what its client gets from it.\<close>

locale once_only =
  fixes deliver :: "'r \<Rightarrow> 's \<Rightarrow> 's" and valid :: "'r \<Rightarrow> 's \<Rightarrow> bool" and seen :: "'s \<Rightarrow> 'k set"
    and total :: "'s \<Rightarrow> int" and ident :: "'r \<Rightarrow> 'k" and worth :: "'r \<Rightarrow> int"
  assumes keeps_valid: "valid r s \<Longrightarrow> valid q s \<Longrightarrow> valid q (deliver r s)"
    and known: "valid r s \<Longrightarrow> ident r \<in> seen s \<Longrightarrow> seen (deliver r s) = seen s \<and> total (deliver r s) = total s"
    and fresh: "valid r s \<Longrightarrow> ident r \<notin> seen s \<Longrightarrow>
      seen (deliver r s) = insert (ident r) (seen s) \<and> total (deliver r s) = total s + worth r"
begin

lemma fold_counts:
  assumes "\<forall>r\<in>set rs. valid r s" and "\<forall>r\<in>set rs. w (ident r) = worth r"
  shows "total (fold deliver rs s) = total s + (\<Sum>k\<in>ident ` set rs - seen s. w k)"
  using assms
proof (induction rs arbitrary: s)
  case (Cons r rs)
  have v: "valid r s" and vs: "\<forall>q\<in>set rs. valid q (deliver r s)" using Cons.prems(1) keeps_valid by simp_all
  have w: "\<forall>q\<in>set rs. w (ident q) = worth q" "w (ident r) = worth r" using Cons.prems(2) by simp_all
  have IH: "total (fold deliver (r # rs) s) = total (deliver r s) + (\<Sum>k\<in>ident ` set rs - seen (deliver r s). w k)"
    using Cons.IH [OF vs w(1)] by simp
  show ?case
  proof (cases "ident r \<in> seen s")
    case True
    then have "ident ` set (r # rs) - seen s = ident ` set rs - seen s" by auto
    with IH known [OF v True] show ?thesis by simp
  next
    case False
    then have d: "ident ` set (r # rs) - seen s = insert (ident r) (ident ` set rs - insert (ident r) (seen s))" by auto
    have "(\<Sum>k\<in>ident ` set (r # rs) - seen s. w k) = worth r + (\<Sum>k\<in>ident ` set rs - insert (ident r) (seen s). w k)"
      unfolding d by (subst sum.insert) (simp_all add: w(2))
    with IH fresh [OF v False] show ?thesis by simp
  qed
qed simp

text \<open>Deliveries that carry a content each: new contents with an identifier each count once, however often delivered.\<close>

lemma counted_once:
  assumes v: "\<forall>r\<in>set rs. valid r s" and c: "\<forall>r\<in>set rs. ident r = i (content r) \<and> worth r = u (content r)"
    and inj: "inj_on i (content ` set rs)" and new: "i ` content ` set rs \<inter> seen s = {}"
  shows "total (fold deliver rs s) = total s + (\<Sum>x\<in>content ` set rs. u x)"
proof -
  have inv: "the_inv_into (content ` set rs) i (i x) = x" if "x \<in> content ` set rs" for x
    using inj that by (rule the_inv_into_f_f)
  have ids: "ident ` set rs = i ` content ` set rs" using c by (auto simp: image_iff)
  have "total (fold deliver rs s) = total s + (\<Sum>k\<in>ident ` set rs - seen s. u (the_inv_into (content ` set rs) i k))"
    by (rule fold_counts [OF v]) (simp add: c inv)
  also have "ident ` set rs - seen s = i ` content ` set rs" using new unfolding ids by auto
  finally show ?thesis using inj by (simp add: sum.reindex inv)
qed

end

section \<open>The book\<close>

datatype usage_measure = Requests | TokensIn | TokensOut

fun row_measure :: "usage_measure \<Rightarrow> usage_row \<Rightarrow> int" where
  "row_measure Requests r = us_requests r"
| "row_measure TokensIn r = us_tokens_in r"
| "row_measure TokensOut r = us_tokens_out r"

fun entry_measure :: "usage_measure \<Rightarrow> UsageEntry \<Rightarrow> int" where
  "entry_measure Requests e = ue_requests e"
| "entry_measure TokensIn e = ue_tokens_in e"
| "entry_measure TokensOut e = ue_tokens_out e"

type_synonym usage_counter = "string \<times> string \<times> string \<times> string \<times> string"

record usage_book =
  bk_seen :: "(string \<times> string \<times> string) set"
  bk_count :: "usage_measure \<Rightarrow> usage_counter \<Rightarrow> int"

type_synonym usage_report = "string \<times> string \<times> string \<times> UsageEntry list"

fun report_id :: "usage_report \<Rightarrow> string \<times> string \<times> string" where
  "report_id (pin, d, batch, entries) = (pin, d, batch)"

definition entries_worth :: "string \<Rightarrow> string \<Rightarrow> usage_measure \<Rightarrow> usage_counter \<Rightarrow> UsageEntry list \<Rightarrow> int" where
  "entries_worth pin d ms k entries = (\<Sum>e\<leftarrow>entries. if usage_key (entry_row pin d e) = k then entry_measure ms e else 0)"

fun report_worth :: "usage_measure \<Rightarrow> usage_counter \<Rightarrow> usage_report \<Rightarrow> int" where
  "report_worth ms k (pin, d, batch, entries) = entries_worth pin d ms k entries"

definition book_report :: "usage_report \<Rightarrow> usage_book \<Rightarrow> usage_book" where
  "book_report r b = (if report_id r \<in> bk_seen b then b
     else b\<lparr>bk_seen := insert (report_id r) (bk_seen b), bk_count := (\<lambda>ms k. bk_count b ms k + report_worth ms k r)\<rparr>)"

definition book_of :: "pin_db \<Rightarrow> usage_book" where
  "book_of s = \<lparr>bk_seen = batch_key ` set (pin_usage_batches s),
     bk_count = (\<lambda>ms k. row_amount usage_key (row_measure ms) (pin_usage s) k)\<rparr>"

definition entry_ok :: "UsageEntry \<Rightarrow> bool" where
  "entry_ok e \<longleftrightarrow> ue_requests e \<ge> 0 \<and> ue_tokens_in e \<ge> 0 \<and> ue_tokens_out e \<ge> 0"

fun report_valid :: "usage_report \<Rightarrow> pin_db \<Rightarrow> bool" where
  "report_valid (pin, d, batch, entries) s \<longleftrightarrow>
     member_status pin d s = Some ''active'' \<and> trim batch \<noteq> [] \<and> list_all entry_ok entries"

section \<open>The endpoint refines the book\<close>

lemma apply_entry_ok:
  "entry_ok e \<Longrightarrow> apply_entry pin d e s = Inr (s\<lparr>pin_usage := sql_upsert usage_key (entry_row pin d e) (add_usage e) (pin_usage s)\<rparr>)"
  "\<not> entry_ok e \<Longrightarrow> apply_entry pin d e s = Inl (Bail ''usage counts must be non-negative'')"
  by (auto simp: apply_entry_def entry_ok_def)

lemma usage_upsert_count:
  "row_amount usage_key (row_measure ms) (sql_upsert usage_key (entry_row pin d e) (add_usage e) t) k =
     row_amount usage_key (row_measure ms) t k + (if usage_key (entry_row pin d e) = k then entry_measure ms e else 0)"
proof -
  have key: "usage_key (add_usage e x) = usage_key x" for x by (simp add: usage_key_def add_usage_def)
  have "row_measure ms (add_usage e x) = row_measure ms x + entry_measure ms e" for x by (cases ms) (simp_all add: add_usage_def)
  moreover have "row_measure ms (entry_row pin d e) = entry_measure ms e" by (cases ms) (simp_all add: entry_row_def)
  ultimately show ?thesis by (auto simp: row_amount_def find_sql_upsert key split: option.split)
qed

lemma apply_entries:
  assumes "list_all entry_ok entries"
  shows "\<exists>us. rfold (apply_entry pin d) entries s = Inr (s\<lparr>pin_usage := us\<rparr>) \<and>
    (\<forall>ms k. row_amount usage_key (row_measure ms) us k =
      row_amount usage_key (row_measure ms) (pin_usage s) k + entries_worth pin d ms k entries)"
  using assms
proof (induction entries arbitrary: s)
  case Nil
  show ?case by (auto simp: entries_worth_def intro: exI [of _ "pin_usage s"])
next
  case (Cons e entries)
  let ?s = "s\<lparr>pin_usage := sql_upsert usage_key (entry_row pin d e) (add_usage e) (pin_usage s)\<rparr>"
  obtain us where us: "rfold (apply_entry pin d) entries ?s = Inr (?s\<lparr>pin_usage := us\<rparr>)"
    "\<forall>ms k. row_amount usage_key (row_measure ms) us k =
      row_amount usage_key (row_measure ms) (pin_usage ?s) k + entries_worth pin d ms k entries"
    using Cons.IH [of ?s] Cons.prems by auto
  have "rfold (apply_entry pin d) (e # entries) s = Inr (s\<lparr>pin_usage := us\<rparr>)"
    using us(1) Cons.prems by (simp add: apply_entry_ok)
  with us(2) show ?case by (auto simp: entries_worth_def usage_upsert_count)
qed

lemma apply_entries_bad:
  "\<not> list_all entry_ok entries \<Longrightarrow> rfold (apply_entry pin d) entries s = Inl (Bail ''usage counts must be non-negative'')"
proof (induction entries arbitrary: s)
  case (Cons e entries)
  then show ?case by (cases "entry_ok e") (simp_all add: apply_entry_ok)
qed simp

lemma active_member_exists:
  assumes "pin_tables_ok s" and "member_status pin d s = Some st"
  shows "pin_exists s pin"
proof -
  obtain m where "m \<in> set (pin_members s)" "is_member pin d m"
    using assms(2) by (auto simp: member_status_def dest: find_SomeD)
  with assms(1) show ?thesis by (auto simp: pin_tables_ok_def table_ok_def list_all_iff is_member_def)
qed

lemma record_usage_batch_cases:
  assumes "pin_exists s pin"
  shows "(pin, d, batch) \<in> bk_seen (book_of s) \<Longrightarrow> record_usage_batch now pin d batch entries s = Inr (s, False)"
    and "(pin, d, batch) \<notin> bk_seen (book_of s) \<Longrightarrow> \<not> list_all entry_ok entries \<Longrightarrow>
      record_usage_batch now pin d batch entries s = Inl (Bail ''usage counts must be non-negative'')"
    and "(pin, d, batch) \<notin> bk_seen (book_of s) \<Longrightarrow> list_all entry_ok entries \<Longrightarrow>
      \<exists>t. record_usage_batch now pin d batch entries s = Inr (t, True) \<and> book_of t = book_report (pin, d, batch, entries) (book_of s)"
proof -
  let ?b = "\<lparr>ba_pin_id = pin, ba_provider_device_id = d, ba_batch_id = batch, ba_received_at = now\<rparr>"
  let ?t = "s\<lparr>pin_usage_batches := pin_usage_batches s @ [?b]\<rparr>"
  have seen: "has_row (\<lambda>y. batch_key y = batch_key ?b) (pin_usage_batches s) \<longleftrightarrow> (pin, d, batch) \<in> bk_seen (book_of s)"
    by (simp add: has_row_key_iff book_of_def) (simp add: batch_key_def)
  show "(pin, d, batch) \<in> bk_seen (book_of s) \<Longrightarrow> record_usage_batch now pin d batch entries s = Inr (s, False)"
    by (simp add: record_usage_batch_def seen)
  show "(pin, d, batch) \<notin> bk_seen (book_of s) \<Longrightarrow> \<not> list_all entry_ok entries \<Longrightarrow>
      record_usage_batch now pin d batch entries s = Inl (Bail ''usage counts must be non-negative'')"
    by (simp add: record_usage_batch_def seen assms apply_entries_bad)
  assume new: "(pin, d, batch) \<notin> bk_seen (book_of s)" and "list_all entry_ok entries"
  then obtain us where us: "rfold (apply_entry pin d) entries ?t = Inr (?t\<lparr>pin_usage := us\<rparr>)"
    "\<forall>ms k. row_amount usage_key (row_measure ms) us k =
      row_amount usage_key (row_measure ms) (pin_usage ?t) k + entries_worth pin d ms k entries"
    using apply_entries [of entries pin d ?t] by blast
  then have "record_usage_batch now pin d batch entries s = Inr (?t\<lparr>pin_usage := us\<rparr>, True)"
    using new by (simp add: record_usage_batch_def seen assms)
  moreover have "batch_key ?b = (pin, d, batch)" by (simp add: batch_key_def)
  then have "book_of (?t\<lparr>pin_usage := us\<rparr>) = book_report (pin, d, batch, entries) (book_of s)"
    using new us(2) by (simp add: book_report_def book_of_def fun_eq_iff)
  ultimately show "\<exists>t. record_usage_batch now pin d batch entries s = Inr (t, True)
      \<and> book_of t = book_report (pin, d, batch, entries) (book_of s)" by blast
qed

lemma report_refines:
  assumes ok: "pin_tables_ok s"
  shows "book_of (fst (handle_usage_report env d pin batch entries s)) =
    (if report_valid (pin, d, batch, entries) s then book_report (pin, d, batch, entries) (book_of s) else book_of s)"
proof (cases "member_status pin d s = Some ''active'' \<and> trim batch \<noteq> []")
  case True
  then have "pin_exists s pin" using active_member_exists [OF ok] by blast
  note cases3 = record_usage_batch_cases [OF this, where d = d and batch = batch and now = "pe_now env" and entries = entries]
  show ?thesis
  proof (cases "(pin, d, batch) \<in> bk_seen (book_of s)")
    case seen: True
    with True cases3(1) show ?thesis by (simp add: handle_usage_report_def book_report_def)
  next
    case False
    with True cases3(2,3) show ?thesis by (cases "list_all entry_ok entries") (auto simp: handle_usage_report_def)
  qed
qed (auto simp: handle_usage_report_def)

lemma report_keeps:
  assumes ok: "pin_tables_ok s"
  shows "pin_tables_ok (fst (handle_usage_report env d pin batch entries s))"
    and "member_status q e (fst (handle_usage_report env d pin batch entries s)) = member_status q e s"
proof -
  have "fst (handle_usage_report env d pin batch entries s) = s
    \<or> (\<exists>t b. record_usage_batch (pe_now env) pin d batch entries s = Inr (t, b)
        \<and> fst (handle_usage_report env d pin batch entries s) = t)"
    by (auto simp: handle_usage_report_def split: sum.split prod.split)
  then show "pin_tables_ok (fst (handle_usage_report env d pin batch entries s))"
    "member_status q e (fst (handle_usage_report env d pin batch entries s)) = member_status q e s"
    using ok record_usage_batch_ok [OF ok] record_usage_frame [of "pe_now env" pin d batch entries s]
    by (auto simp: same_networks_def member_status_def)
qed

definition deliver_report :: "('f, 's) pin_env \<times> usage_report \<Rightarrow> pin_db \<Rightarrow> pin_db" where
  "deliver_report c s = (case c of (env, pin, d, batch, entries) \<Rightarrow> fst (handle_usage_report env d pin batch entries s))"

definition deliverable :: "('f, 's) pin_env \<times> usage_report \<Rightarrow> pin_db \<Rightarrow> bool" where
  "deliverable c s \<longleftrightarrow> pin_tables_ok s \<and> report_valid (snd c) s"

lemma deliver_book: "deliverable c s \<Longrightarrow> book_of (deliver_report c s) = book_report (snd c) (book_of s)"
  by (cases c) (auto simp: deliverable_def deliver_report_def report_refines)

lemma deliver_keeps: "deliverable c s \<Longrightarrow> deliverable q s \<Longrightarrow> deliverable q (deliver_report c s)"
  by (cases c; cases q) (auto simp: deliverable_def deliver_report_def report_keeps)

interpretation usage: once_only deliver_report deliverable "\<lambda>s. bk_seen (book_of s)" "\<lambda>s. bk_count (book_of s) ms k"
  "\<lambda>c. report_id (snd c)" "\<lambda>c. report_worth ms k (snd c)" for ms k
  by unfold_locales (auto intro: deliver_keeps simp: deliver_book, auto simp: book_report_def)

section \<open>Properties\<close>

text \<open>C7. The report endpoint refines the book: a report of an active member with a batch name and counts that are not
  negative changes the counters as the book says, that is, adds its entries once and nothing when the batch was seen; any other
  report changes no counter and is not remembered.\<close>

theorem usage_report_refines_book:
  assumes "pin_tables_ok s"
  shows "book_of (fst (handle_usage_report env d pin batch entries s)) =
    (if report_valid (pin, d, batch, entries) s then book_report (pin, d, batch, entries) (book_of s) else book_of s)"
  using assms by (rule report_refines)

text \<open>C19. Usage counts once: when reports of active members are delivered in any order and any number of times, at whatever
  moments, every counter grows by the sum of the entries of the different reports.\<close>

theorem usage_counted_once:
  assumes "pin_tables_ok s" and "\<forall>c\<in>set calls. report_valid (snd c) s" and "inj_on report_id (snd ` set calls)"
    and "report_id ` snd ` set calls \<inter> batch_key ` set (pin_usage_batches s) = {}"
  shows "row_amount usage_key (row_measure ms) (pin_usage (fold deliver_report calls s)) k =
    row_amount usage_key (row_measure ms) (pin_usage s) k + (\<Sum>r\<in>snd ` set calls. report_worth ms k r)"
proof -
  have v: "\<forall>c\<in>set calls. deliverable c s" using assms(1,2) by (simp add: deliverable_def)
  have "bk_count (book_of (fold deliver_report calls s)) ms k = bk_count (book_of s) ms k + (\<Sum>r\<in>snd ` set calls. report_worth ms k r)"
    by (rule usage.counted_once [OF v, where i = report_id]) (use assms(3,4) in \<open>auto simp: book_of_def\<close>)
  then show ?thesis by (simp add: book_of_def)
qed

section \<open>Witnesses\<close>

definition day_entry :: UsageEntry where
  "day_entry = \<lparr>ue_day = ''d1'', ue_consumer_device_id = ''c'', ue_model_id = ''m'', ue_requests = 2, ue_tokens_in = 30, ue_tokens_out = 7\<rparr>"

theorem usage_report_refines_book_witness:
  "pin_tables_ok approved_db \<and> report_valid (''net'', ''phone'', ''b1'', [day_entry]) approved_db \<and>
   book_of (fst (handle_usage_report toy_env ''phone'' ''net'' ''b1'' [day_entry] approved_db))
     = book_report (''net'', ''phone'', ''b1'', [day_entry]) (book_of approved_db)"
proof -
  have "pin_tables_ok approved_db" "report_valid (''net'', ''phone'', ''b1'', [day_entry]) approved_db" by code_simp+
  then show ?thesis using usage_report_refines_book [of approved_db toy_env "''phone''" "''net''" "''b1''" "[day_entry]"] by simp
qed

theorem usage_counted_once_witness:
  "row_amount usage_key (row_measure TokensIn) (pin_usage (fold deliver_report
      [(toy_env, ''net'', ''phone'', ''b1'', [day_entry]), (toy_env\<lparr>pe_now := 160\<rparr>, ''net'', ''phone'', ''b1'', [day_entry])] approved_db))
      (''net'', ''d1'', ''phone'', ''c'', ''m'') = 30"
proof -
  let ?r = "(''net'', ''phone'', ''b1'', [day_entry])" and ?k = "(''net'', ''d1'', ''phone'', ''c'', ''m'')"
  let ?calls = "[(toy_env, ?r), (toy_env\<lparr>pe_now := 160\<rparr>, ?r)]"
  have ok: "pin_tables_ok approved_db" and r: "report_valid ?r approved_db" "pin_usage_batches approved_db = []"
    "row_amount usage_key (row_measure TokensIn) (pin_usage approved_db) ?k = 0" "report_worth TokensIn ?k ?r = 30"
    by code_simp+
  have "row_amount usage_key (row_measure TokensIn) (pin_usage (fold deliver_report ?calls approved_db)) ?k =
      row_amount usage_key (row_measure TokensIn) (pin_usage approved_db) ?k + (\<Sum>r\<in>snd ` set ?calls. report_worth TokensIn ?k r)"
    by (rule usage_counted_once [OF ok]) (use r(1,2) in simp_all)
  with r(3,4) show ?thesis by simp
qed

end
