(* ===== verification/Spec2Isabelle.thy ===== *)
theory Spec2Isabelle
  imports Share_Key_Laws Share_Key_Migration Settlement_Laws Transfers Referrals Onchain_Laws Availability Account_Auth
    Anchoring_Laws Limiters Key_Handlers Registry_Laws Pin_Privacy Pin_Netmap Pin_Usage
begin

text \<open>
  A verification library for the gateway of Teale, a network in which devices serve language models for one another and are
  paid in credits. The gateway authenticates callers, keeps the credit ledger in SQLite, knows which devices are alive and
  what they serve, picks a device per request, and hosts private inference networks (PINs). Paths are relative to
  \<open>src/\<close>; a definition carries the name of the Rust item it models unless the text above it says otherwise. A definition
  that stands for a few statements inside a longer function (one SQL statement, one loop body, one match arm) is named
  after what it does and follows the order of the source.

  \<^bold>\<open>The parts and how they interact.\<close> A request passes \<open>require_bearer\<close> (\<open>Gateway_Auth\<close>), which tries static tokens, device
  tokens, API keys (\<open>Api_Keys\<close>), account sessions (\<open>Account_Auth\<close>) and share keys (\<open>Share_Keys\<close>). The handlers work on the
  database (\<open>Gateway_Db\<close>) through the ledger operations; inference asks the registry and the scheduler for a device and is
  then settled (\<open>Settlement\<close>): the payer's wallet, API-key limit or share-key pool is charged, and the charge is divided
  over the serving device, the idle fleet and the operations wallet. The endpoints of private networks combine the join
  limiter, the storage of networks, the registry and the scheduler.

  \<^bold>\<open>Theories.\<close>

  \<^item> \<open>Teale_Prelude\<close>: results with errors as values, the range of \<open>i64\<close>, text as Rust handles it, SQL statements on tables
    kept as lists of rows, and two locales: \<open>wallet_post\<close>, an update that moves the amount of one row of a
    table of wallets, and \<open>credit_loop\<close>, a loop of such updates. Both are interpreted on the statements of the ledger.

  \<^item> \<open>Gateway_Db\<close> (\<open>gateway/src/db.rs\<close>): one record per table, with the constraints of the schema; what the wallets hold in
    total, and the invariant \<open>db_ok\<close>.

  \<^item> \<open>Device_Wallets\<close>, \<open>Accounts\<close>, \<open>Transfers\<close>, \<open>Referrals\<close>, \<open>Availability\<close>, \<open>Account_Auth\<close>, \<open>Onchain\<close> with \<open>Onchain_Laws\<close>
    (\<open>gateway/src/ledger.rs\<close>): devices with their challenges and tokens; accounts and their linked devices; credit
    transfers; referral codes and join rewards; the drip that pays available devices out of the mint pool; email codes
    and sessions; dollar deposits and withdrawals, whose steps are the relations \<open>onchain_step\<close> and \<open>wd_next\<close>.

  \<^item> \<open>Pro_Rata\<close>, \<open>Share_Keys\<close>, \<open>Share_Key_Pools\<close>, \<open>Share_Key_Laws\<close>, \<open>Share_Key_Migration\<close> (\<open>gateway/src/ledger.rs\<close>): prepaid
    keys whose pool several devices fund: minting, funding, spending in proportion to the contributions, revoking,
    expiring, and the start-up migration of older keys.

  \<^item> \<open>Settlement\<close>, \<open>Settlement_Laws\<close> (\<open>gateway/src/ledger.rs\<close>): the three settlement routes and the provider wallets.

  \<^item> \<open>Merkle\<close>, \<open>Anchoring\<close>, \<open>Anchoring_Laws\<close> (\<open>gateway/src/anchoring.rs\<close>): the row encoding, the hash chain, the Merkle tree,
    anchors and inclusion proofs; histories are the relation \<open>anchor_step\<close>.

  \<^item> \<open>Limiters\<close> (\<open>gateway/src/state.rs\<close>): the sliding windows (locale \<open>sliding_window\<close>, interpreted for both limiters) and
    the issuer allowlist.

  \<^item> \<open>Gateway_Error\<close> (\<open>gateway/src/error.rs\<close>), \<open>Api_Keys\<close> (\<open>gateway/src/api_keys.rs\<close>), \<open>Gateway_Auth\<close>
    (\<open>gateway/src/auth.rs\<close>), \<open>Key_Handlers\<close> (\<open>gateway/src/handlers/keys.rs\<close>): errors with status and code, the life of an API
    key, the authentication of a bearer, and the endpoints that manage keys (relation \<open>key_step\<close>).

  \<^item> \<open>Registry\<close>, \<open>Registry_Laws\<close> (\<open>gateway/src/registry.rs\<close> and the device records of \<open>protocol/src\<close>), \<open>Scheduler\<close>
    (\<open>gateway/src/scheduler.rs\<close>): the devices, the reverse index from models, the in-flight counters with the hold of heavy
    requests, conversation affinity, and the two decisions of the scheduler. Histories of the fleet, together with the
    sessions that are open, are the relation \<open>fleet_step\<close>.

  \<^item> \<open>Pins\<close> (\<open>gateway/src/pins.rs\<close>), \<open>Pin_Handlers\<close> (\<open>gateway/src/handlers/pins.rs\<close>, the routes of \<open>gateway/src/main.rs\<close>),
    \<open>Pin_Laws\<close>, \<open>Pin_Privacy\<close>, \<open>Pin_Netmap\<close>, \<open>Pin_Usage\<close>: the storage of networks, every endpoint, and their guarantees.
    \<open>serve_pin\<close> is one request to any endpoint; \<open>pin_op\<close> is one storage operation. The locale \<open>versioned\<close> says that a counter
    decides whether the observed state changed (interpreted for the netmap generation), \<open>once_only\<close> that a repeated delivery
    counts once (interpreted for usage reports, over a refinement to an abstract book).
\<close>

text \<open>
  \<^bold>\<open>What is shown.\<close>

  \<^item> Money: settlement, minting, funding, revoking, expiring, transfers, drip and join rewards move exactly the credits they
    should and touch no other wallet; a charge never exceeds what the payer has; an API key never passes its limit; a
    spend is divided over a pool exactly, by largest remainders; one funder who cannot pay blocks the migration.

  \<^item> Deposits and withdrawals: the book-keeping invariant holds along every history, a signature is credited once, a
    settled withdrawal never changes.

  \<^item> Identity: a principal is backed by a credential valid now, and authenticating moves no money; a nonce works once; guesses
    of a login code are bounded; a session in use stays alive; key management stays inside the caller's account.

  \<^item> Anchoring: every row under an anchor has a proof that verifies; an accepted proof means membership or shows a
    collision of the hash; confirmed anchors tile the ledger; the loops of the tree end within their logarithmic bound.

  \<^item> Fleet: the model index is exact, the in-flight counters count the open sessions, heavy sessions on one node have one
    owner; the scheduler returns a least loaded device that can take the request whenever there is one; the capacity
    signal and the explanations of a missing supply say what is the case.

  \<^item> Private networks: a device becomes active only by an admin; an outsider cannot tell a network from a missing one; the
    netmap generation decides whether the membership changed; tables stay well-formed; requests move no money; a knock that
    is approved yields a netmap with the device; usage counts each batch once.

  The lemmas also establish some behaviour that the documentation does not suggest, such as \<open>deleted_network_still_approves\<close>,
  \<open>deleted_key_reenabled\<close>, \<open>late_close_frees_newer_hold\<close> and \<open>older_code_revives\<close>.

  \<^bold>\<open>Conventions and bounds.\<close> A table is a list of rows in rowid order. A transaction is a function that returns an error
  and leaves the database as it was, or the new database; an operation that writes and then fails without a
  transaction returns the database beside its result. Credits and timestamps are \<open>int\<close>; the range of \<open>i64\<close> is written out
  where the code multiplies checked, saturates or narrows (\<open>checked_mul_i64\<close>, \<open>saturating_sub_i64\<close>, \<open>pro_rata_no_overflow\<close>), and other sums are
  not bounded. Counters of the registry are \<open>nat\<close>. A text is a list of characters that stand for its bytes. No definition
  uses fuel: every loop is structural or has a termination proof. Operations that the source runs under a lock are single steps;
  the operations of the registry, which lock per map, are run one at a time, so interleavings inside one operation are not covered.

  \<^bold>\<open>Parameters.\<close> SHA-256, hexadecimal coding, signatures, JSON, random draws, UUIDs and clocks are arguments, with what the
  code relies on as hypotheses of the theorems that need it. Floating-point values are kept in an arbitrary ordered
  type, and a device's score and the fast-lane cutoff are functions given to the scheduler. The price of a request, the
  drip rates and the results of the Solana client are arguments of the operations that use them.

  \<^bold>\<open>Not modelled.\<close> The streaming inference handlers, the other HTTP handlers, the relay and Solana clients, upstream providers,
  catalog, metrics and probes (asynchronous I/O, generated serialization, floating point); opening and migrating the columns of
  the database file; the node, command-line, relay, stress, desktop and mobile programs.
\<close>

end
